(* ===== verification/Platform_Prelude.thy ===== *)
theory Platform_Prelude
  imports Main
begin

text \<open>
  Shared vocabulary of the development.

  \<^item> \<open>error\<close>: the exceptions the services raise, as values.
  \<^item> \<open>('s, 'a) eff\<close>: a computation of an \<open>async\<close> method. It takes the stored state and returns
    a result or an exception \<^emph>\<open>together with the state reached\<close>: an exception does not undo the
    writes made before it, unless they ran inside a \<open>$transaction\<close> (\<open>transact\<close>).
  \<^item> \<open>effect_preorder\<close>: the locale that lifts a reflexive and transitive relation on states
    through every combinator; each component interprets it on its invariant or frame relation.
  \<^item> \<open>invariant_system\<close>: the locale of step relations with an invariant.
  \<^item> the JavaScript string and truthiness operations the sources use.
\<close>

named_theorems run_simps "equations that run one combinator"
named_theorems js_simps "evaluation of the JavaScript helpers"

section \<open>Exceptions\<close>

datatype error =
    BadRequestException string
  | UnauthorizedException string
  | ForbiddenException string
  | NotFoundException string
  | ConflictException string
  | ServiceUnavailableException string
  | PrismaError string
  | HttpStatusError nat string
  | PlainError string
  | RangeError string
  | TypeError string
  | InternalServerErrorException string
  | RpcException nat string
  | RpcWrapped error

text \<open>
  \<open>RpcException\<close> carries the payload \<open>{statusCode, message}\<close>; \<open>RpcWrapped\<close> is the \<open>RpcException\<close> around an
  exception that is no HTTP exception.
\<close>

text \<open>\<open>new RpcException(error.response ? error.response : error)\<close>.\<close>

fun rpcResponse :: "error \<Rightarrow> error" where
  "rpcResponse (BadRequestException m) = RpcException 400 m"
| "rpcResponse (UnauthorizedException m) = RpcException 401 m"
| "rpcResponse (ForbiddenException m) = RpcException 403 m"
| "rpcResponse (NotFoundException m) = RpcException 404 m"
| "rpcResponse (ConflictException m) = RpcException 409 m"
| "rpcResponse (InternalServerErrorException m) = RpcException 500 m"
| "rpcResponse (ServiceUnavailableException m) = RpcException 503 m"
| "rpcResponse (HttpStatusError code m) = RpcException code m"
| "rpcResponse e = RpcWrapped e"

definition undefinedRead :: error where
  "undefinedRead = TypeError ''Cannot read properties of undefined''"

section \<open>Computations over a stored state\<close>

type_synonym ('s, 'a) eff = "'s \<Rightarrow> (error + 'a) \<times> 's"

definition ret :: "'a \<Rightarrow> ('s, 'a) eff" where
  "ret x = (\<lambda>s. (Inr x, s))"

definition throw :: "error \<Rightarrow> ('s, 'a) eff" where
  "throw e = (\<lambda>s. (Inl e, s))"

definition bind :: "('s, 'a) eff \<Rightarrow> ('a \<Rightarrow> ('s, 'b) eff) \<Rightarrow> ('s, 'b) eff" where
  "bind m f = (\<lambda>s. case m s of (Inl e, s') \<Rightarrow> (Inl e, s') | (Inr x, s') \<Rightarrow> f x s')"

definition andThen :: "('s, 'a) eff \<Rightarrow> ('s, 'b) eff \<Rightarrow> ('s, 'b) eff" where
  "andThen m n = bind m (\<lambda>_. n)"

text \<open>A \<open>try/catch\<close>: the handler starts from the state at the \<open>throw\<close>.\<close>

definition tryCatch :: "('s, 'a) eff \<Rightarrow> (error \<Rightarrow> ('s, 'a) eff) \<Rightarrow> ('s, 'a) eff" where
  "tryCatch m h = (\<lambda>s. case m s of (Inl e, s') \<Rightarrow> h e s' | (Inr x, s') \<Rightarrow> (Inr x, s'))"

text \<open>A \<open>try/finally\<close>: the final block runs either way; an exception it raises wins.\<close>

definition tryFinally :: "('s, 'a) eff \<Rightarrow> ('s, unit) eff \<Rightarrow> ('s, 'a) eff" where
  "tryFinally m fin = (\<lambda>s. case m s of (r, s') \<Rightarrow>
     (case fin s' of (Inl e, s'') \<Rightarrow> (Inl e, s'') | (Inr _, s'') \<Rightarrow> (r, s'')))"

definition reads :: "('s \<Rightarrow> 'a) \<Rightarrow> ('s, 'a) eff" where
  "reads f = (\<lambda>s. (Inr (f s), s))"

definition writes :: "('s \<Rightarrow> 's) \<Rightarrow> ('s, unit) eff" where
  "writes f = (\<lambda>s. (Inr (), f s))"

definition lift :: "error + 'a \<Rightarrow> ('s, 'a) eff" where
  "lift r = (\<lambda>s. (r, s))"

text \<open>An interactive \<open>$transaction\<close>: an exception rolls every write back.\<close>

definition transact :: "('s, 'a) eff \<Rightarrow> ('s, 'a) eff" where
  "transact m = (\<lambda>s. case m s of (Inl e, _) \<Rightarrow> (Inl e, s) | (Inr x, s') \<Rightarrow> (Inr x, s'))"

primrec forEach :: "'a list \<Rightarrow> ('a \<Rightarrow> ('s, unit) eff) \<Rightarrow> ('s, unit) eff" where
  "forEach [] f = ret ()"
| "forEach (x # xs) f = bind (f x) (\<lambda>_. forEach xs f)"

lemmas eff_defs = ret_def throw_def bind_def andThen_def tryCatch_def tryFinally_def reads_def
  writes_def lift_def transact_def

lemma ret_run [simp, run_simps]: "ret x s = (Inr x, s)"
  by (simp add: ret_def)

lemma throw_run [simp, run_simps]: "throw e s = (Inl e, s)"
  by (simp add: throw_def)

lemma reads_run [simp, run_simps]: "reads f s = (Inr (f s), s)"
  by (simp add: reads_def)

lemma writes_run [simp, run_simps]: "writes f s = (Inr (), f s)"
  by (simp add: writes_def)

lemma lift_run [simp, run_simps]: "lift r s = (r, s)"
  by (simp add: lift_def)

lemma bind_Inr [run_simps]: "m s = (Inr x, s') \<Longrightarrow> bind m f s = f x s'"
  by (simp add: bind_def)

lemma bind_Inl [run_simps]: "m s = (Inl e, s') \<Longrightarrow> bind m f s = (Inl e, s')"
  by (simp add: bind_def)

lemma bind_ret [simp]: "bind (ret x) f = f x"
  by (simp add: bind_def ret_def)

lemma bind_throw [simp]: "bind (throw e) f = throw e"
  by (simp add: bind_def throw_def)

lemma bind_assoc: "bind (bind m f) g = bind m (\<lambda>x. bind (f x) g)"
  by (auto simp: bind_def fun_eq_iff split: prod.splits sum.splits)

lemma bind_cases:
  assumes "bind m f s = (r, s')"
  obtains (raised) e where "m s = (Inl e, s')" "r = Inl e"
    | (went_on) x s1 where "m s = (Inr x, s1)" "f x s1 = (r, s')"
  using assms by (auto simp: bind_def split: prod.splits sum.splits)

lemma andThen_cases:
  assumes "andThen m n s = (r, s')"
  obtains (raised) e where "m s = (Inl e, s')" "r = Inl e"
    | (went_on) x s1 where "m s = (Inr x, s1)" "n s1 = (r, s')"
  using assms by (auto simp: andThen_def bind_def split: prod.splits sum.splits)

text \<open>A transaction that raises leaves the state it started from.\<close>

lemma transact_raises: "transact m s = (Inl e, s') \<Longrightarrow> s' = s"
  by (auto simp: transact_def split: prod.splits sum.splits)

lemma transact_commits: "transact m s = (Inr x, s') \<longleftrightarrow> m s = (Inr x, s')"
  by (auto simp: transact_def split: prod.splits sum.splits)

subsection \<open>What every run of a computation keeps\<close>

definition moves :: "('s \<Rightarrow> 's \<Rightarrow> bool) \<Rightarrow> ('s, 'a) eff \<Rightarrow> bool" where
  "moves R m \<longleftrightarrow> (\<forall>s. R s (snd (m s)))"

lemma movesI: "(\<And>s r s'. m s = (r, s') \<Longrightarrow> R s s') \<Longrightarrow> moves R m"
  by (metis moves_def prod.collapse)

lemma movesD: "moves R m \<Longrightarrow> m s = (r, s') \<Longrightarrow> R s s'"
  by (metis moves_def snd_conv)

locale effect_preorder =
  fixes R :: "'s \<Rightarrow> 's \<Rightarrow> bool"
  assumes R_refl: "R s s"
    and R_trans: "R s t \<Longrightarrow> R t u \<Longrightarrow> R s u"
begin

lemma moves_ret: "moves R (ret x)"
  by (simp add: moves_def R_refl)

lemma moves_throw: "moves R (throw e)"
  by (simp add: moves_def R_refl)

lemma moves_reads: "moves R (reads f)"
  by (simp add: moves_def R_refl)

lemma moves_lift: "moves R (lift r)"
  by (simp add: moves_def R_refl)

lemma moves_writes: "(\<And>s. R s (f s)) \<Longrightarrow> moves R (writes f)"
  by (simp add: moves_def)

lemma moves_bind:
  assumes "moves R m" and "\<And>x. moves R (f x)"
  shows "moves R (bind m f)"
proof (rule movesI)
  fix s r s'
  assume "bind m f s = (r, s')"
  then show "R s s'"
    by (cases rule: bind_cases) (auto dest: movesD [OF assms(1)] movesD [OF assms(2)] intro: R_trans)
qed

lemma moves_andThen: "moves R m \<Longrightarrow> moves R n \<Longrightarrow> moves R (andThen m n)"
  by (simp add: andThen_def moves_bind)

lemma moves_tryCatch:
  assumes "moves R m" and "\<And>e. moves R (h e)"
  shows "moves R (tryCatch m h)"
proof (rule movesI)
  fix s r s'
  assume "tryCatch m h s = (r, s')"
  then show "R s s'"
    by (auto simp: tryCatch_def split: prod.splits sum.splits
        dest!: movesD [OF assms(1)] movesD [OF assms(2)] intro: R_trans)
qed

lemma moves_tryFinally:
  assumes "moves R m" and "moves R fin"
  shows "moves R (tryFinally m fin)"
proof (rule movesI)
  fix s r s'
  assume "tryFinally m fin s = (r, s')"
  then show "R s s'"
    by (auto simp: tryFinally_def split: prod.splits sum.splits
        dest!: movesD [OF assms(1)] movesD [OF assms(2)] intro: R_trans)
qed

lemma moves_transact:
  assumes "moves R m"
  shows "moves R (transact m)"
proof (rule movesI)
  fix s r s'
  assume "transact m s = (r, s')"
  then show "R s s'"
    by (auto simp: transact_def R_refl split: prod.splits sum.splits dest!: movesD [OF assms])
qed

lemma moves_forEach:
  assumes "\<And>x. x \<in> set xs \<Longrightarrow> moves R (f x)"
  shows "moves R (forEach xs f)"
  using assms by (induction xs) (auto intro: moves_bind moves_ret)

lemma moves_if: "(b \<Longrightarrow> moves R m) \<Longrightarrow> (\<not> b \<Longrightarrow> moves R n) \<Longrightarrow> moves R (if b then m else n)"
  by simp

lemma moves_option:
  "(x = None \<Longrightarrow> moves R m) \<Longrightarrow> (\<And>y. x = Some y \<Longrightarrow> moves R (f y)) \<Longrightarrow>
   moves R (case x of None \<Rightarrow> m | Some y \<Rightarrow> f y)"
  by (cases x) simp_all

lemma moves_let: "(\<And>x. x = t \<Longrightarrow> moves R (f x)) \<Longrightarrow> moves R (let x = t in f x)"
  by simp

lemmas moves_rules = moves_ret moves_throw moves_reads moves_lift moves_bind moves_andThen
  moves_tryCatch moves_tryFinally moves_transact moves_forEach moves_if moves_option moves_let

end

section \<open>Step relations with an invariant\<close>

inductive reachable_from :: "('s \<Rightarrow> bool) \<Rightarrow> ('s \<Rightarrow> 's \<Rightarrow> bool) \<Rightarrow> 's \<Rightarrow> bool"
  for start :: "'s \<Rightarrow> bool" and step :: "'s \<Rightarrow> 's \<Rightarrow> bool" where
  init: "start s \<Longrightarrow> reachable_from start step s"
| move: "reachable_from start step s \<Longrightarrow> step s t \<Longrightarrow> reachable_from start step t"

locale invariant_system =
  fixes start :: "'s \<Rightarrow> bool"
    and step :: "'s \<Rightarrow> 's \<Rightarrow> bool"
    and inv :: "'s \<Rightarrow> bool"
  assumes inv_start: "start s \<Longrightarrow> inv s"
    and inv_step: "inv s \<Longrightarrow> step s t \<Longrightarrow> inv t"
begin

lemma reachable_inv: "reachable_from start step s \<Longrightarrow> inv s"
proof (induction rule: reachable_from.induct)
  case (init s)
  then show ?case by (rule inv_start)
next
  case (move s t)
  then show ?case by (blast intro: inv_step)
qed

lemma steps_inv: "step\<^sup>*\<^sup>* s t \<Longrightarrow> inv s \<Longrightarrow> inv t"
  by (induction rule: rtranclp_induct) (auto intro: inv_step)

end

section \<open>JavaScript strings and truthiness\<close>

text \<open>
  Strings are sequences of ASCII characters. \<open>toLowerCase\<close> and \<open>trim\<close> act on them as ECMAScript
  does: upper-case letters are shifted, and tab, line feed, vertical tab, form feed, carriage return
  and space are white space.
\<close>

definition lowerChar :: "char \<Rightarrow> char" where
  "lowerChar c = (let n = (of_char c :: nat) in if 65 \<le> n \<and> n \<le> 90 then char_of (n + 32) else c)"

definition toLowerCase :: "string \<Rightarrow> string" where
  "toLowerCase s = map lowerChar s"

definition isSpace :: "char \<Rightarrow> bool" where
  "isSpace c = (let n = (of_char c :: nat) in n = 32 \<or> (9 \<le> n \<and> n \<le> 13))"

definition trim :: "string \<Rightarrow> string" where
  "trim s = rev (dropWhile isSpace (rev (dropWhile isSpace s)))"

fun splitOn :: "char \<Rightarrow> string \<Rightarrow> string list" where
  "splitOn d [] = [[]]"
| "splitOn d (c # cs) =
     (if c = d then [] # splitOn d cs
      else (case splitOn d cs of [] \<Rightarrow> [[c]] | w # ws \<Rightarrow> (c # w) # ws))"

definition startsWith :: "string \<Rightarrow> string \<Rightarrow> bool" where
  "startsWith s p \<longleftrightarrow> take (length p) s = p"

text \<open>\<open>String.prototype.includes\<close>.\<close>

fun includesText :: "string \<Rightarrow> string \<Rightarrow> bool" where
  "includesText [] p = (p = [])"
| "includesText (c # cs) p = (startsWith (c # cs) p \<or> includesText cs p)"

text \<open>\<open>x || y\<close> and \<open>Boolean(x)\<close> on an optional string: absent and empty are falsy.\<close>

definition truthy :: "string option \<Rightarrow> bool" where
  "truthy x = (case x of None \<Rightarrow> False | Some s \<Rightarrow> s \<noteq> [])"

definition orElse :: "string option \<Rightarrow> string option \<Rightarrow> string option" where
  "orElse x y = (if truthy x then x else y)"

definition orEmpty :: "string option \<Rightarrow> string" where
  "orEmpty x = (case x of None \<Rightarrow> [] | Some s \<Rightarrow> s)"

text \<open>\<open>'true' === `${process.env.FLAG}`.toLowerCase()\<close>; an unset variable prints as \<open>undefined\<close>.\<close>

definition isFlagEnabled :: "string option \<Rightarrow> bool" where
  "isFlagEnabled v =
     (toLowerCase (case v of None \<Rightarrow> ''undefined'' | Some s \<Rightarrow> s) = ''true'')"

lemma truthy_simps [simp, js_simps]:
  "\<not> truthy None" "truthy (Some s) \<longleftrightarrow> s \<noteq> []"
  by (simp_all add: truthy_def)

lemma truthyE: "truthy x \<Longrightarrow> (\<And>s. x = Some s \<Longrightarrow> s \<noteq> [] \<Longrightarrow> P) \<Longrightarrow> P"
  by (cases x) auto

lemma orEmpty_simps [simp, js_simps]: "orEmpty None = []" "orEmpty (Some s) = s"
  by (simp_all add: orEmpty_def)

lemma toLowerCase_eq_Nil [simp]: "toLowerCase s = [] \<longleftrightarrow> s = []"
  by (simp add: toLowerCase_def)

lemma length_toLowerCase [simp]: "length (toLowerCase s) = length s"
  by (simp add: toLowerCase_def)

lemma lowerChar_idem: "lowerChar (lowerChar c) = lowerChar c"
proof -
  have "(of_char c :: nat) < 256"
    using of_char_mod_256 [of c] by (metis mod_less_divisor zero_less_numeral)
  then show ?thesis by (auto simp: lowerChar_def Let_def)
qed

lemma toLowerCase_idem [simp]: "toLowerCase (toLowerCase s) = toLowerCase s"
  by (simp add: toLowerCase_def lowerChar_idem)

lemma isFlagEnabled_None [simp]: "\<not> isFlagEnabled None"
  by code_simp

lemma splitOn_nonempty [simp]: "splitOn d s \<noteq> []"
  by (induction s) (auto split: list.splits)

text \<open>Splitting at a separator takes the separators out, and the pieces in between stay in order.\<close>

lemma splitOn_no_sep: "w \<in> set (splitOn d s) \<Longrightarrow> d \<notin> set w"
  by (induction s arbitrary: w) (auto split: if_splits list.splits)

lemma splitOn_fresh: "d \<notin> set w \<Longrightarrow> splitOn d w = [w]"
  by (induction w) auto

lemma splitOn_append_sep: "d \<notin> set w \<Longrightarrow> splitOn d (w @ d # s) = w # splitOn d s"
  by (induction w) auto

section \<open>Lists used as tables\<close>

text \<open>
  A table is the list of its rows, oldest first. \<open>updateWhere\<close> is the update of all rows a
  predicate selects.
\<close>

definition updateWhere :: "('r \<Rightarrow> bool) \<Rightarrow> ('r \<Rightarrow> 'r) \<Rightarrow> 'r list \<Rightarrow> 'r list" where
  "updateWhere p f rows = map (\<lambda>r. if p r then f r else r) rows"

lemma updateWhere_simps [simp]:
  "updateWhere p f [] = []"
  "updateWhere p f (r # rs) = (if p r then f r else r) # updateWhere p f rs"
  by (simp_all add: updateWhere_def)

lemma length_updateWhere [simp]: "length (updateWhere p f rows) = length rows"
  by (simp add: updateWhere_def)

lemma set_updateWhere: "set (updateWhere p f rows) = f ` {r \<in> set rows. p r} \<union> {r \<in> set rows. \<not> p r}"
  by (auto simp: updateWhere_def)

lemma in_updateWhereE:
  assumes "r \<in> set (updateWhere p f rows)"
  obtains r0 where "r0 \<in> set rows" "p r0" "r = f r0" | "r \<in> set rows" "\<not> p r"
  using assms by (auto simp: set_updateWhere)

text \<open>An update that leaves a key alone leaves the list of keys alone.\<close>

lemma map_updateWhere_same: "(\<And>r. k (f r) = k r) \<Longrightarrow> map k (updateWhere p f rows) = map k rows"
  by (simp add: updateWhere_def)

lemma image_updateWhere_same:
  "(\<And>r. k (f r) = k r) \<Longrightarrow> k ` set (updateWhere p f rows) = k ` set rows"
  by (metis list.set_map map_updateWhere_same)

lemma find_SomeD: "List.find p xs = Some x \<Longrightarrow> p x \<and> x \<in> set xs"
  by (induction xs) (auto split: if_splits)

lemma find_distinct:
  assumes "distinct (map k xs)" and "x \<in> set xs"
  shows "List.find (\<lambda>y. k y = k x) xs = Some x"
  using assms by (induction xs) auto

lemma find_None_iff_all: "List.find p xs = None \<longleftrightarrow> (\<forall>x \<in> set xs. \<not> p x)"
  by (induction xs) auto

lemma distinct_map_eqD:
  "distinct (map k xs) \<Longrightarrow> x \<in> set xs \<Longrightarrow> y \<in> set xs \<Longrightarrow> k x = k y \<Longrightarrow> x = y"
  by (simp add: distinct_map inj_on_def)

lemma set_updateWhere_key:
  assumes "distinct (map k xs)" and "r \<in> set xs"
  shows "set (updateWhere (\<lambda>x. k x = k r) f xs) = insert (f r) (set xs - {r})"
  using assms by (auto simp: set_updateWhere dest: distinct_map_eqD)

end
