(* ===== verification/Status_List.thy ===== *)
theory Status_List
  imports Platform_Prelude "HOL-Library.Word"
begin

text \<open>
  The status-list allocator (\<open>apps/oid4vc-issuance/src/status-list-allocator.service.ts\<close>).

  \<^item> \<open>RandomBitmapIndexAllocator\<close>: the record \<open>allocator\<close> (a \<open>Uint8Array\<close> as a list of 8-bit
    words, the capacity and the running count) with \<open>newAllocator\<close>, \<open>allocate\<close>,
    \<open>isIndexAllocated\<close>, \<open>release\<close> and \<open>export\<close>. The 33 calls of \<open>randomInt\<close> are read from a
    stream \<open>draw\<close>; \<open>draw i mod n\<close> ranges over everything \<open>randomInt(n)\<close> can return.
  \<^item> the locale \<open>index_allocator\<close>: what a client may rely on.
  \<^item> \<open>StatusListAllocatorService\<close>: the tables \<open>status_list_allocation\<close> and
    \<open>issued_oid4vc_credentials\<close>, and the service's operations on them.

  Sizes and indexes are natural numbers below \<open>2 ^ 31\<close>, where the \<open>>> 3\<close> and \<open>& 7\<close> of the source
  are division and remainder by 8.
\<close>

unbundle bit_operations_syntax

type_synonym byte = "8 word"

section \<open>Definitions\<close>

subsection \<open>RandomBitmapIndexAllocator\<close>

definition digit2 :: "nat \<Rightarrow> char" where
  "digit2 n = (if n = 0 then CHR ''0'' else CHR ''1'')"

text \<open>\<open>byte.toString(2)\<close>.\<close>

fun toString2 :: "nat \<Rightarrow> string" where
  "toString2 n = (if n < 2 then [digit2 n] else toString2 (n div 2) @ [digit2 (n mod 2)])"

declare toString2.simps [simp del]

definition countOnes :: "byte \<Rightarrow> nat" where
  "countOnes b = length (splitOn (CHR ''1'') (toString2 (unat b))) - 1"

record allocator =
  bitmap :: "byte list"
  capacity :: nat
  allocatedCount :: int

definition byteLength :: "nat \<Rightarrow> nat" where
  "byteLength n = (n + 7) div 8"

definition newAllocator :: "nat \<Rightarrow> byte list option \<Rightarrow> allocator" where
  "newAllocator cap existing =
     (let bm = (case existing of None \<Rightarrow> replicate (byteLength cap) 0 | Some bs \<Rightarrow> bs)
      in \<lparr>bitmap = bm, capacity = cap,
          allocatedCount = int (sum_list (map (\<lambda>b. if b \<noteq> 0 then countOnes b else 0) bm))\<rparr>)"

text \<open>Reading past the end of a \<open>Uint8Array\<close> gives \<open>undefined\<close>, and \<open>undefined & x\<close> is 0;
  writing past the end is ignored.\<close>

definition isSet :: "allocator \<Rightarrow> nat \<Rightarrow> bool" where
  "isSet a index =
     (let byteIndex = index div 8; b = index mod 8
      in byteIndex < length (bitmap a) \<and> (bitmap a ! byteIndex) AND push_bit b 1 \<noteq> 0)"

definition setIndex :: "nat \<Rightarrow> allocator \<Rightarrow> allocator" where
  "setIndex index a =
     (let byteIndex = index div 8; b = index mod 8
      in a\<lparr>bitmap := (bitmap a)[byteIndex := (bitmap a ! byteIndex) OR push_bit b 1]\<rparr>)"

definition clearIndex :: "nat \<Rightarrow> allocator \<Rightarrow> allocator" where
  "clearIndex index a =
     (let byteIndex = index div 8; b = index mod 8
      in a\<lparr>bitmap := (bitmap a)[byteIndex := (bitmap a ! byteIndex) AND NOT (push_bit b 1)]\<rparr>)"

definition take_index :: "nat \<Rightarrow> allocator \<Rightarrow> nat \<times> allocator" where
  "take_index idx a =
     (let a' = setIndex idx a in (idx, a'\<lparr>allocatedCount := allocatedCount a' + 1\<rparr>))"

text \<open>The loop of random probes; \<open>i\<close> numbers the draw, \<open>n\<close> the attempts left.\<close>

fun tryRandom :: "(nat \<Rightarrow> nat) \<Rightarrow> nat \<Rightarrow> nat \<Rightarrow> allocator \<Rightarrow> (nat \<times> allocator) option" where
  "tryRandom draw i 0 a = None"
| "tryRandom draw i (Suc n) a =
     (let idx = draw i mod capacity a
      in if \<not> isSet a idx then Some (take_index idx a) else tryRandom draw (Suc i) n a)"

text \<open>The fallback: every byte from a random start, every bit of a byte that is not full.\<close>

fun scanBits :: "allocator \<Rightarrow> nat \<Rightarrow> nat list \<Rightarrow> (nat \<times> allocator) option" where
  "scanBits a byteIdx [] = None"
| "scanBits a byteIdx (b # bs) =
     (let idx = byteIdx * 8 + b
      in if idx < capacity a \<and> \<not> isSet a idx then Some (take_index idx a)
         else scanBits a byteIdx bs)"

fun scanBytes :: "allocator \<Rightarrow> nat \<Rightarrow> nat list \<Rightarrow> (nat \<times> allocator) option" where
  "scanBytes a startByte [] = None"
| "scanBytes a startByte (i # is) =
     (let byteIdx = (startByte + i) mod length (bitmap a)
      in case (if bitmap a ! byteIdx \<noteq> 255 then scanBits a byteIdx [0..<8] else None) of
           Some r \<Rightarrow> Some r
         | None \<Rightarrow> scanBytes a startByte is)"

abbreviation noIndexesLeft :: error where
  "noIndexesLeft \<equiv> PlainError ''No indexes left''"

definition allocate :: "(nat \<Rightarrow> nat) \<Rightarrow> allocator \<Rightarrow> error + nat \<times> allocator" where
  "allocate draw a =
     (if allocatedCount a = int (capacity a) then Inl noIndexesLeft
      else if capacity a = 0 then Inl (RangeError ''randomInt'')
      else (case tryRandom draw 0 32 a of
              Some r \<Rightarrow> Inr r
            | None \<Rightarrow>
                (if bitmap a = [] then Inl (RangeError ''randomInt'')
                 else (case scanBytes a (draw 32 mod length (bitmap a)) [0..<length (bitmap a)] of
                         Some r \<Rightarrow> Inr r
                       | None \<Rightarrow> Inl noIndexesLeft))))"

definition isIndexAllocated :: "allocator \<Rightarrow> int \<Rightarrow> error + bool" where
  "isIndexAllocated a index =
     (if index < 0 \<or> int (capacity a) \<le> index then Inl (PlainError ''Invalid index'')
      else Inr (isSet a (nat index)))"

definition release :: "allocator \<Rightarrow> int \<Rightarrow> error + allocator" where
  "release a index =
     (if index < 0 \<or> int (capacity a) \<le> index then Inl (PlainError ''Invalid index'')
      else if isSet a (nat index)
      then (let a' = clearIndex (nat index) a
            in Inr (a'\<lparr>allocatedCount := allocatedCount a' - 1\<rparr>))
      else Inr a)"

definition export :: "allocator \<Rightarrow> byte list" where
  "export a = bitmap a"

subsection \<open>StatusListAllocatorService\<close>

record sl_row =
  slId :: string
  slOrgId :: string
  slIssuerDid :: string
  slListId :: string
  slListSize :: nat
  slAllocatedCount :: int
  slBitmap :: "byte list"
  slIsActive :: bool

record issued_credential =
  icOrgId :: string
  icCredentialId :: string
  icListId :: string
  icIndex :: nat
  icIssuanceSessionId :: string
  icStatusListUri :: string

record sl_db =
  slTable :: "sl_row list"
  icTable :: "issued_credential list"

definition defaultListSize :: nat where
  "defaultListSize = 131072"

definition sl_update :: "(sl_row \<Rightarrow> bool) \<Rightarrow> (sl_row \<Rightarrow> sl_row) \<Rightarrow> (sl_db, unit) eff" where
  "sl_update p f = (\<lambda>db.
     if \<exists>r \<in> set (slTable db). p r
     then (Inr (), db\<lparr>slTable := updateWhere p f (slTable db)\<rparr>)
     else (Inl (PrismaError ''P2025''), db))"

definition sl_create :: "sl_row \<Rightarrow> (sl_db, sl_row) eff" where
  "sl_create row = (\<lambda>db.
     if \<exists>r \<in> set (slTable db). slId r = slId row \<or> slListId r = slListId row
     then (Inl (PrismaError ''P2002''), db)
     else (Inr row, db\<lparr>slTable := slTable db @ [row]\<rparr>))"

definition findActiveList :: "string \<Rightarrow> string \<Rightarrow> sl_db \<Rightarrow> sl_row option" where
  "findActiveList orgId issuerDid db =
     List.find (\<lambda>r. slOrgId r = orgId \<and> slIssuerDid r = issuerDid \<and> slIsActive r) (slTable db)"

text \<open>The first half of the transaction: the row the new index will come from. \<open>newId\<close> and
  \<open>newListId\<close> are the UUIDs the database and \<open>randomUUID\<close> would give a new row.\<close>

definition createList ::
  "string \<Rightarrow> string \<Rightarrow> string \<Rightarrow> string \<Rightarrow> nat option \<Rightarrow> (sl_db, sl_row) eff" where
  "createList newId newListId orgId issuerDid listSize =
     (let size = (case listSize of None \<Rightarrow> defaultListSize
                  | Some n \<Rightarrow> if n = 0 then defaultListSize else n)
      in sl_create \<lparr>slId = newId, slOrgId = orgId, slIssuerDid = issuerDid,
           slListId = newListId, slListSize = size, slAllocatedCount = 0,
           slBitmap = replicate (byteLength size) 0, slIsActive = True\<rparr>)"

definition rotateList ::
  "string \<Rightarrow> string \<Rightarrow> string \<Rightarrow> string \<Rightarrow> nat option \<Rightarrow> sl_row option \<Rightarrow> (sl_db, sl_row) eff" where
  "rotateList newId newListId orgId issuerDid listSize activeList =
     (case activeList of
        None \<Rightarrow> createList newId newListId orgId issuerDid listSize
      | Some r \<Rightarrow>
          (if slAllocatedCount r \<ge> int (slListSize r)
           then andThen (sl_update (\<lambda>x. slId x = slId r) (\<lambda>x. x\<lparr>slIsActive := False\<rparr>))
                  (createList newId newListId orgId issuerDid listSize)
           else ret r))"

text \<open>The second half: rebuild the allocator from the row, take an index and store the bitmap.\<close>

definition allocateFromRow :: "(nat \<Rightarrow> nat) \<Rightarrow> sl_row \<Rightarrow> (sl_db, string \<times> nat) eff" where
  "allocateFromRow draw activeList =
     (let allocator = newAllocator (slListSize activeList) (Some (slBitmap activeList))
      in tryCatch
           (bind (lift (allocate draw allocator)) (\<lambda>(index, allocator').
              andThen
                (sl_update (\<lambda>x. slId x = slId activeList)
                   (\<lambda>x. x\<lparr>slBitmap := export allocator',
                          slAllocatedCount := allocatedCount allocator'\<rparr>))
                (ret (slListId activeList, index))))
           (\<lambda>e. if e = noIndexesLeft
                then andThen
                       (sl_update (\<lambda>x. slId x = slId activeList) (\<lambda>x. x\<lparr>slIsActive := False\<rparr>))
                       (throw (PlainError ''Retry allocation, list full''))
                else throw e))"

definition allocateStatus ::
  "(nat \<Rightarrow> nat) \<Rightarrow> string \<Rightarrow> string \<Rightarrow> string \<Rightarrow> string \<Rightarrow> nat option \<Rightarrow> (sl_db, string \<times> nat) eff" where
  "allocateStatus draw newId newListId orgId issuerDid listSize =
     (if orgId = [] \<or> issuerDid = []
      then throw (PlainError ''orgId and issuerDid are required for status list allocation'')
      else transact
        (bind (reads (findActiveList orgId issuerDid)) (\<lambda>active.
         bind (rotateList newId newListId orgId issuerDid listSize active) (\<lambda>activeList.
         allocateFromRow draw activeList))))"

definition saveCredentialAllocation ::
  "string \<Rightarrow> string \<Rightarrow> string \<Rightarrow> nat \<Rightarrow> string \<Rightarrow> string \<Rightarrow> (sl_db, unit) eff" where
  "saveCredentialAllocation orgId credentialId listId index issuanceSessionId statusListUri = (\<lambda>db.
     if \<exists>c \<in> set (icTable db). icCredentialId c = credentialId
     then (Inl (PrismaError ''P2002''), db)
     else (Inr (), db\<lparr>icTable := icTable db @
            [\<lparr>icOrgId = orgId, icCredentialId = credentialId, icListId = listId, icIndex = index,
              icIssuanceSessionId = issuanceSessionId, icStatusListUri = statusListUri\<rparr>]\<rparr>))"

definition getCredentialAllocations :: "string \<Rightarrow> string \<Rightarrow> sl_db \<Rightarrow> issued_credential list" where
  "getCredentialAllocations orgId issuanceSessionId db =
     filter (\<lambda>c. icOrgId c = orgId \<and> icIssuanceSessionId c = issuanceSessionId) (icTable db)"

definition releaseStatus :: "string \<Rightarrow> int \<Rightarrow> (sl_db, unit) eff" where
  "releaseStatus listId index =
     transact
       (bind (reads (\<lambda>db. List.find (\<lambda>r. slListId r = listId) (slTable db))) (\<lambda>found.
        case found of
          None \<Rightarrow> ret ()
        | Some row \<Rightarrow>
            bind (lift (release (newAllocator (slListSize row) (Some (slBitmap row))) index))
              (\<lambda>allocator'.
                 sl_update (\<lambda>x. slListId x = listId)
                   (\<lambda>x. x\<lparr>slBitmap := export allocator',
                          slAllocatedCount := allocatedCount allocator'\<rparr>))))"

section \<open>The allocator\<close>

subsection \<open>Bits of a bitmap\<close>

lemma isSet_bit:
  "isSet a i \<longleftrightarrow> i div 8 < length (bitmap a) \<and> bit (bitmap a ! (i div 8)) (i mod 8)"
proof -
  have "x AND push_bit n 1 \<noteq> 0 \<longleftrightarrow> bit x n" if "n < 8" for x :: byte and n
    using that by (auto simp: bit_iff_and_push_bit_not_eq_0)
  then show ?thesis by (simp add: isSet_def Let_def)
qed

definition ones :: "byte list \<Rightarrow> nat set" where
  "ones bm = {i. i div 8 < length bm \<and> bit (bm ! (i div 8)) (i mod 8)}"

abbreviation used :: "allocator \<Rightarrow> nat set" where
  "used a \<equiv> ones (bitmap a)"

lemma isSet_used: "isSet a i \<longleftrightarrow> i \<in> used a"
  by (simp add: isSet_bit ones_def)

lemma ones_Nil [simp]: "ones [] = {}"
  by (simp add: ones_def)

lemma ones_replicate_0 [simp]: "ones (replicate n 0) = {}"
  by (auto simp: ones_def)

lemma ones_Cons: "ones (b # bs) = {j. j < 8 \<and> bit b j} \<union> (\<lambda>i. i + 8) ` ones bs"
proof (intro equalityI subsetI)
  fix i
  assume i: "i \<in> ones (b # bs)"
  show "i \<in> {j. j < 8 \<and> bit b j} \<union> (\<lambda>i. i + 8) ` ones bs"
  proof (cases "i < 8")
    case True
    with i show ?thesis by (simp add: ones_def)
  next
    case False
    then obtain k where k: "i = k + 8" by (metis add.commute le_Suc_ex not_less)
    have "(k + 8) div 8 = Suc (k div 8)" by simp
    with i k have "k \<in> ones bs" by (simp add: ones_def)
    with k show ?thesis by blast
  qed
next
  fix i
  assume i: "i \<in> {j. j < 8 \<and> bit b j} \<union> (\<lambda>i. i + 8) ` ones bs"
  have "(k + 8) div 8 = Suc (k div 8)" for k :: nat by simp
  with i show "i \<in> ones (b # bs)" by (auto simp: ones_def)
qed

lemma finite_ones [simp]: "finite (ones bm)"
  by (induction bm) (auto simp: ones_Cons)

lemma card_ones_Cons: "card (ones (b # bs)) = card {j. j < 8 \<and> bit b j} + card (ones bs)"
proof -
  have "card (ones (b # bs)) = card {j. j < 8 \<and> bit b j} + card ((\<lambda>i. i + 8) ` ones bs)"
    unfolding ones_Cons by (rule card_Un_disjoint) auto
  also have "card ((\<lambda>i. i + 8) ` ones bs) = card (ones bs)"
    by (rule card_image) (auto simp: inj_on_def)
  finally show ?thesis .
qed

text \<open>\<open>toString(2).split('1').length - 1\<close> counts the set bits.\<close>

lemma length_splitOn: "length (splitOn d s) = Suc (count_list s d)"
  by (induction s) (auto split: list.splits)

lemma count_toString2: "count_list (toString2 n) (CHR ''1'') = card {j. bit n j}"
proof (induction n rule: toString2.induct)
  case (1 n)
  have small: "j \<le> m" if "bit m j" for m j :: nat
  proof -
    from that have "2 ^ j \<le> m" by (metis bit_iff_odd div_less even_zero linorder_not_less)
    then show ?thesis using less_exp [of j] by linarith
  qed
  have fin: "finite {j. bit m j}" for m :: nat
    by (rule finite_subset [of _ "{..m}"]) (auto dest: small)
  have split: "{j. bit n j} = (if odd n then {0} else {}) \<union> Suc ` {j. bit (n div 2) j}"
    by (auto simp: bit_Suc image_iff bit_0 gr0_conv_Suc split: if_splits)
      (metis bit_0 bit_Suc not0_implies_Suc)+
  have "card {j. bit n j} = (if odd n then 1 else 0) + card {j. bit (n div 2) j}"
    unfolding split by (subst card_Un_disjoint) (auto simp: fin card_image)
  moreover have "count_list (toString2 n) (CHR ''1'') =
      (if odd n then 1 else 0) + (if n < 2 then 0 else count_list (toString2 (n div 2)) (CHR ''1''))"
    by (subst toString2.simps) (auto simp: digit2_def elim: oddE)
  moreover have "card {j. bit (n div 2) j} = 0" if "n < 2"
    using that by (simp add: bot_fun_def)
  ultimately show ?case
    using 1 by (simp add: bot_fun_def split: if_splits)
qed

lemma countOnes_card: "countOnes b = card {j. j < 8 \<and> bit b j}"
proof -
  have "{j. bit (unat b) j} = {j. j < 8 \<and> bit b j}"
    using bit_imp_le_length [of b] by (auto simp: bit_unsigned_iff possible_bit_def)
  then show ?thesis by (simp add: countOnes_def length_splitOn count_toString2)
qed

lemma sum_countOnes: "sum_list (map (\<lambda>b. if b \<noteq> 0 then countOnes b else 0) bm) = card (ones bm)"
proof (induction bm)
  case (Cons b bs)
  then show ?case by (auto simp: card_ones_Cons countOnes_card)
qed simp


subsection \<open>The invariant and what each operation does to the set of used indexes\<close>

definition alloc_ok :: "allocator \<Rightarrow> bool" where
  "alloc_ok a \<longleftrightarrow>
     length (bitmap a) = byteLength (capacity a) \<and> used a \<subseteq> {..<capacity a} \<and>
     allocatedCount a = int (card (used a))"

lemma byteLength_covers: "i < n \<Longrightarrow> i div 8 < byteLength n"
  by (simp add: byteLength_def)

lemma newAllocator_simps [simp]:
  "bitmap (newAllocator n (Some bm)) = bm"
  "bitmap (newAllocator n None) = replicate (byteLength n) 0"
  "capacity (newAllocator n e) = n"
  "allocatedCount (newAllocator n (Some bm)) = int (card (ones bm))"
  by (simp_all add: newAllocator_def Let_def sum_countOnes)

lemma bit_byte_power: "bit (2 ^ j :: byte) k \<longleftrightarrow> k = j \<and> j < 8"
  by (auto simp: bit_exp_iff possible_bit_def)

lemma in_ones_update:
  assumes "i div 8 < length bm"
  shows "k \<in> ones (bm[i div 8 := w]) \<longleftrightarrow>
    (if k div 8 = i div 8 then bit w (k mod 8) else k \<in> ones bm)"
  using assms by (simp add: ones_def)

lemma same_index: "(k::nat) div 8 = i div 8 \<Longrightarrow> k mod 8 = i mod 8 \<longleftrightarrow> k = i"
  by (metis div_mult_mod_eq)

lemma in_ones_same_byte:
  "k div 8 = i div 8 \<Longrightarrow> i div 8 < length bm \<Longrightarrow> k \<in> ones bm \<longleftrightarrow> bit (bm ! (i div 8)) (k mod 8)"
  by (simp add: ones_def)

lemma used_setIndex:
  assumes "i div 8 < length (bitmap a)"
  shows "used (setIndex i a) = insert i (used a)"
proof (rule set_eqI)
  fix k
  show "k \<in> used (setIndex i a) \<longleftrightarrow> k \<in> insert i (used a)"
    using assms in_ones_same_byte [of k i "bitmap a"] same_index [of k i]
    by (auto simp: setIndex_def Let_def in_ones_update bit_or_iff bit_byte_power)
qed

lemma used_clearIndex:
  assumes "i div 8 < length (bitmap a)"
  shows "used (clearIndex i a) = used a - {i}"
proof (rule set_eqI)
  fix k
  show "k \<in> used (clearIndex i a) \<longleftrightarrow> k \<in> used a - {i}"
    using assms in_ones_same_byte [of k i "bitmap a"] same_index [of k i]
    by (auto simp: clearIndex_def Let_def in_ones_update bit_and_iff bit_not_iff bit_byte_power
        possible_bit_def)
qed

lemma index_simps [simp]:
  "capacity (setIndex i a) = capacity a" "length (bitmap (setIndex i a)) = length (bitmap a)"
  "capacity (clearIndex i a) = capacity a" "length (bitmap (clearIndex i a)) = length (bitmap a)"
  "allocatedCount (setIndex i a) = allocatedCount a"
  "allocatedCount (clearIndex i a) = allocatedCount a"
  by (simp_all add: setIndex_def clearIndex_def Let_def)

lemma take_index_ok:
  assumes ok: "alloc_ok a" and i: "i < capacity a" "i \<notin> used a"
    and r: "take_index i a = (j, a')"
  shows "j = i" "used a' = insert i (used a)" "capacity a' = capacity a" "alloc_ok a'"
proof -
  have len: "i div 8 < length (bitmap a)"
    using ok i(1) by (simp add: alloc_ok_def byteLength_covers)
  have a': "j = i" "bitmap a' = bitmap (setIndex i a)" "capacity a' = capacity a"
    "allocatedCount a' = allocatedCount a + 1"
    using r by (auto simp: take_index_def Let_def)
  then show "j = i" and "capacity a' = capacity a" by simp_all
  show u: "used a' = insert i (used a)"
    using used_setIndex [OF len] a'(2) by simp
  show "alloc_ok a'"
    unfolding alloc_ok_def u using ok i a' by (simp add: alloc_ok_def)
qed

text \<open>Whatever the probes and the scan return is an index that was free and below the capacity.\<close>

lemma tryRandom_Some:
  "tryRandom draw i n a = Some r \<Longrightarrow> 0 < capacity a \<Longrightarrow>
   \<exists>idx. idx < capacity a \<and> idx \<notin> used a \<and> r = take_index idx a"
proof (induction n arbitrary: i)
  case (Suc n)
  show ?case
  proof (cases "isSet a (draw i mod capacity a)")
    case True
    with Suc show ?thesis by (simp add: Let_def)
  next
    case False
    with Suc.prems show ?thesis
      by (intro exI [of _ "draw i mod capacity a"]) (simp add: Let_def isSet_used)
  qed
qed simp

lemma scanBits_Some:
  "scanBits a byteIdx bs = Some r \<Longrightarrow> \<exists>idx. idx < capacity a \<and> idx \<notin> used a \<and> r = take_index idx a"
  by (induction bs) (auto simp: Let_def isSet_used split: if_splits)

lemma scanBytes_Some:
  "scanBytes a st is = Some r \<Longrightarrow> \<exists>idx. idx < capacity a \<and> idx \<notin> used a \<and> r = take_index idx a"
  by (induction "is") (auto simp: Let_def split: option.splits if_splits dest: scanBits_Some)

text \<open>And a scan that finds nothing has seen every index: all of them are used.\<close>

lemma scanBits_None:
  "scanBits a byteIdx bs = None \<Longrightarrow> b \<in> set bs \<Longrightarrow> byteIdx * 8 + b < capacity a \<Longrightarrow>
   byteIdx * 8 + b \<in> used a"
  by (induction bs) (auto simp: Let_def isSet_used split: if_splits)

lemma full_byte_used:
  assumes "k < length (bitmap a)" and "bitmap a ! k = 255" and "b < 8"
  shows "k * 8 + b \<in> used a"
proof -
  have "bit (255 :: byte) b"
    using assms(3) by (auto simp: less_Suc_eq numeral_eq_Suc)
  then show ?thesis using assms by (simp add: ones_def)
qed

lemma scanBytes_None:
  assumes "scanBytes a st is = None" and "i \<in> set is" and "bitmap a \<noteq> []"
    and "b < 8" and "((st + i) mod length (bitmap a)) * 8 + b < capacity a"
  shows "((st + i) mod length (bitmap a)) * 8 + b \<in> used a"
  using assms
proof (induction "is")
  case (Cons j "is")
  show ?case
  proof (cases "i = j")
    case True
    with Cons.prems show ?thesis
      by (auto simp: Let_def split: if_splits option.splits intro: full_byte_used scanBits_None)
  next
    case False
    with Cons show ?thesis by (auto simp: Let_def split: if_splits option.splits)
  qed
qed simp

lemma rotated_index:
  fixes st k L :: nat
  assumes "st < L" and "k < L"
  obtains i where "i < L" and "(st + i) mod L = k"
proof (cases "st \<le> k")
  case True
  with assms have "k - st < L" "(st + (k - st)) mod L = k" by simp_all
  then show ?thesis by (rule that)
next
  case False
  with assms have "k + L - st < L" "(st + (k + L - st)) mod L = k" by simp_all
  then show ?thesis by (rule that)
qed

lemma scan_complete:
  assumes ok: "alloc_ok a" and none: "scanBytes a st [0..<length (bitmap a)] = None"
    and st: "st < length (bitmap a)"
  shows "{..<capacity a} \<subseteq> used a"
proof
  fix idx
  assume "idx \<in> {..<capacity a}"
  then have idx: "idx < capacity a" by simp
  with ok have "idx div 8 < length (bitmap a)"
    by (simp add: alloc_ok_def byteLength_covers)
  with st obtain i where i: "i < length (bitmap a)" "(st + i) mod length (bitmap a) = idx div 8"
    by (rule rotated_index)
  have "((st + i) mod length (bitmap a)) * 8 + idx mod 8 \<in> used a"
    by (rule scanBytes_None [OF none]) (use i idx st in auto)
  then show "idx \<in> used a" by (simp add: i(2))
qed

lemma alloc_ok_card: "alloc_ok a \<Longrightarrow> card (used a) \<le> capacity a"
  using card_mono [of "{..<capacity a}" "used a"] by (simp add: alloc_ok_def)

lemma alloc_ok_full:
  assumes "alloc_ok a"
  shows "allocatedCount a = int (capacity a) \<longleftrightarrow> used a = {..<capacity a}"
  using assms card_subset_eq [of "{..<capacity a}" "used a"] by (auto simp: alloc_ok_def)

lemma allocate_Inr:
  assumes ok: "alloc_ok a" and r: "allocate draw a = Inr (i, a')"
  shows "i < capacity a \<and> i \<notin> used a \<and> used a' = insert i (used a) \<and> capacity a' = capacity a
    \<and> alloc_ok a'"
proof -
  have "\<exists>idx. idx < capacity a \<and> idx \<notin> used a \<and> (i, a') = take_index idx a"
    using r by (auto simp: allocate_def split: if_splits option.splits
        dest: tryRandom_Some scanBytes_Some)
  with ok show ?thesis by (metis take_index_ok)
qed

lemma allocate_Inl:
  assumes ok: "alloc_ok a"
  shows "allocate draw a = Inl e \<longleftrightarrow> used a = {..<capacity a} \<and> e = noIndexesLeft"
proof
  assume e: "allocate draw a = Inl e"
  show "used a = {..<capacity a} \<and> e = noIndexesLeft"
  proof (cases "allocatedCount a = int (capacity a)")
    case True
    with e ok show ?thesis by (auto simp: allocate_def alloc_ok_full)
  next
    case False
    have cap: "0 < capacity a"
      using ok False by (cases "capacity a") (auto simp: alloc_ok_def)
    with ok have bm: "bitmap a \<noteq> []" by (auto simp: alloc_ok_def byteLength_def)
    with e False cap
    have none: "scanBytes a (draw 32 mod length (bitmap a)) [0..<length (bitmap a)] = None"
      and "e = noIndexesLeft"
      by (auto simp: allocate_def split: option.splits)
    moreover have "{..<capacity a} \<subseteq> used a"
      by (rule scan_complete [OF ok none]) (use bm in simp)
    ultimately show ?thesis using ok by (auto simp: alloc_ok_def)
  qed
next
  assume "used a = {..<capacity a} \<and> e = noIndexesLeft"
  then show "allocate draw a = Inl e"
    using alloc_ok_full [OF ok] by (simp add: allocate_def)
qed

lemma release_Inr:
  assumes ok: "alloc_ok a" and r: "release a idx = Inr a'"
  shows "0 \<le> idx \<and> idx < int (capacity a) \<and> used a' = used a - {nat idx} \<and> capacity a' = capacity a
    \<and> alloc_ok a'"
proof -
  from r have idx: "0 \<le> idx" "idx < int (capacity a)"
    by (auto simp: release_def split: if_splits)
  with ok have len: "nat idx div 8 < length (bitmap a)"
    by (simp add: alloc_ok_def byteLength_covers nat_less_iff)
  show ?thesis
  proof (cases "isSet a (nat idx)")
    case True
    then have mem: "nat idx \<in> used a" by (simp add: isSet_used)
    then have pos: "0 < card (used a)" by (auto simp: card_gt_0_iff)
    from True r idx have a': "bitmap a' = bitmap (clearIndex (nat idx) a)"
      "capacity a' = capacity a" "allocatedCount a' = allocatedCount a - 1"
      by (auto simp: release_def Let_def split: if_splits)
    then have u: "used a' = used a - {nat idx}"
      using used_clearIndex [OF len] by simp
    have "alloc_ok a'"
      unfolding alloc_ok_def u using ok a' mem pos
      by (auto simp: alloc_ok_def card_Diff_singleton of_nat_diff Suc_leI)
    with idx u a'(2) show ?thesis by simp
  next
    case False
    with ok idx r show ?thesis by (auto simp: release_def isSet_used)
  qed
qed

lemma bitmap_extensional:
  assumes "length bm = length bm'" and "ones bm = ones bm'"
  shows "bm = bm'"
proof (rule nth_equalityI)
  fix k
  assume k: "k < length bm"
  show "bm ! k = bm' ! k"
  proof (rule bit_eqI)
    fix n
    assume "possible_bit TYPE(byte) n"
    then have "n < 8" by (simp add: possible_bit_def)
    then have "8 * k + n \<in> ones bm \<longleftrightarrow> bit (bm ! k) n" "8 * k + n \<in> ones bm' \<longleftrightarrow> bit (bm' ! k) n"
      using k assms(1) by (auto simp: ones_def)
    with assms(2) show "bit (bm ! k) n = bit (bm' ! k) n" by simp
  qed
qed (use assms(1) in simp)

section \<open>The interface the service relies on\<close>

fun allocMany ::
  "((nat \<Rightarrow> nat) \<Rightarrow> 'a \<Rightarrow> error + nat \<times> 'a) \<Rightarrow> (nat \<Rightarrow> nat) list \<Rightarrow> 'a \<Rightarrow> error + nat list \<times> 'a" where
  "allocMany alloc [] a = Inr ([], a)"
| "allocMany alloc (d # ds) a =
     (case alloc d a of
        Inl e \<Rightarrow> Inl e
      | Inr (i, a') \<Rightarrow>
          (case allocMany alloc ds a' of Inl e \<Rightarrow> Inl e | Inr (is, a'') \<Rightarrow> Inr (i # is, a'')))"

datatype alloc_op = Allocate "nat \<Rightarrow> nat" | Release int

text \<open>A session of calls; a call that raises leaves the allocator as it was.\<close>

fun runOps ::
  "((nat \<Rightarrow> nat) \<Rightarrow> 'a \<Rightarrow> error + nat \<times> 'a) \<Rightarrow> ('a \<Rightarrow> int \<Rightarrow> error + 'a) \<Rightarrow> alloc_op list \<Rightarrow> 'a \<Rightarrow> 'a" where
  "runOps alloc rel [] a = a"
| "runOps alloc rel (Allocate d # ops) a =
     runOps alloc rel ops (case alloc d a of Inl _ \<Rightarrow> a | Inr (_, a') \<Rightarrow> a')"
| "runOps alloc rel (Release j # ops) a =
     runOps alloc rel ops (case rel a j of Inl _ \<Rightarrow> a | Inr a' \<Rightarrow> a')"

locale index_allocator =
  fixes inv :: "'a \<Rightarrow> bool"
    and taken :: "'a \<Rightarrow> nat set"
    and cap :: "'a \<Rightarrow> nat"
    and alloc :: "(nat \<Rightarrow> nat) \<Rightarrow> 'a \<Rightarrow> error + nat \<times> 'a"
    and rel :: "'a \<Rightarrow> int \<Rightarrow> error + 'a"
  assumes taken_bound: "inv a \<Longrightarrow> taken a \<subseteq> {..<cap a}"
    and alloc_takes: "inv a \<Longrightarrow> alloc d a = Inr (i, a') \<Longrightarrow>
      i < cap a \<and> i \<notin> taken a \<and> taken a' = insert i (taken a) \<and> cap a' = cap a \<and> inv a'"
    and alloc_fails: "inv a \<Longrightarrow> alloc d a = Inl e \<Longrightarrow> taken a = {..<cap a}"
    and rel_frees: "inv a \<Longrightarrow> rel a j = Inr a' \<Longrightarrow>
      taken a' = taken a - {nat j} \<and> cap a' = cap a \<and> inv a'"
begin

lemma finite_taken: "inv a \<Longrightarrow> finite (taken a)"
  using taken_bound by (blast intro: finite_subset)

lemma alloc_succeeds:
  assumes "inv a" and "card (taken a) < cap a"
  shows "\<exists>i a'. alloc d a = Inr (i, a')"
proof (cases "alloc d a")
  case (Inl e)
  with assms show ?thesis using alloc_fails by fastforce
qed auto

text \<open>Whatever is called, the invariant and the capacity stay.\<close>

lemma runOps_inv: "inv a \<Longrightarrow> inv (runOps alloc rel ops a) \<and> cap (runOps alloc rel ops a) = cap a"
proof (induction ops arbitrary: a)
  case (Cons x ops)
  show ?case
  proof (cases x)
    case (Allocate d)
    have "inv (case alloc d a of Inl _ \<Rightarrow> a | Inr (_, a') \<Rightarrow> a') \<and>
        cap (case alloc d a of Inl _ \<Rightarrow> a | Inr (_, a') \<Rightarrow> a') = cap a"
      using Cons.prems alloc_takes by (auto split: sum.splits)
    with Allocate Cons.IH show ?thesis by simp
  next
    case (Release j)
    have "inv (case rel a j of Inl _ \<Rightarrow> a | Inr a' \<Rightarrow> a') \<and> cap (case rel a j of Inl _ \<Rightarrow> a | Inr a' \<Rightarrow> a') = cap a"
      using Cons.prems rel_frees by (auto split: sum.splits)
    with Release Cons.IH show ?thesis by simp
  qed
qed simp

text \<open>A series of allocations hands out pairwise different indexes, none of them taken before.\<close>

lemma allocMany_distinct:
  "inv a \<Longrightarrow> allocMany alloc ds a = Inr (is, a') \<Longrightarrow>
   distinct is \<and> set is \<inter> taken a = {} \<and> taken a' = taken a \<union> set is \<and> cap a' = cap a \<and> inv a'"
proof (induction ds arbitrary: a "is")
  case (Cons d ds)
  from Cons.prems obtain i a1 is' where
    1: "alloc d a = Inr (i, a1)" "allocMany alloc ds a1 = Inr (is', a')" "is = i # is'"
    by (auto split: sum.splits)
  from alloc_takes [OF Cons.prems(1) 1(1)] Cons.IH [OF _ 1(2)] 1(3) show ?case by auto
qed simp

text \<open>And it goes on until the capacity is used up.\<close>

lemma allocMany_total:
  "inv a \<Longrightarrow> card (taken a) + length ds \<le> cap a \<Longrightarrow> \<exists>is a'. allocMany alloc ds a = Inr (is, a')"
proof (induction ds arbitrary: a)
  case (Cons d ds)
  then obtain i a1 where 1: "alloc d a = Inr (i, a1)"
    using alloc_succeeds [of a d] by auto
  from alloc_takes [OF Cons.prems(1) 1] have a1: "inv a1" "cap a1 = cap a"
    "card (taken a1) = Suc (card (taken a))"
    using finite_taken [OF Cons.prems(1)] by auto
  with Cons.IH [of a1] Cons.prems obtain "is" a' where "allocMany alloc ds a1 = Inr (is, a')"
    by auto
  with 1 show ?case by simp
qed simp

end

interpretation bitmap_alloc: index_allocator alloc_ok used capacity allocate release
proof unfold_locales
  show "alloc_ok a \<Longrightarrow> used a \<subseteq> {..<capacity a}" for a
    by (simp add: alloc_ok_def)
  show "alloc_ok a \<Longrightarrow> allocate d a = Inr (i, a') \<Longrightarrow>
      i < capacity a \<and> i \<notin> used a \<and> used a' = insert i (used a) \<and> capacity a' = capacity a \<and> alloc_ok a'"
    for a d i a'
    by (rule allocate_Inr)
  show "alloc_ok a \<Longrightarrow> allocate d a = Inl e \<Longrightarrow> used a = {..<capacity a}" for a d e
    by (simp add: allocate_Inl)
  show "alloc_ok a \<Longrightarrow> release a j = Inr a' \<Longrightarrow>
      used a' = used a - {nat j} \<and> capacity a' = capacity a \<and> alloc_ok a'" for a j a'
    by (blast dest: release_Inr)
qed

section \<open>The service\<close>

subsection \<open>Table invariant and outstanding indexes\<close>

abbreviation rowAllocator :: "sl_row \<Rightarrow> allocator" where
  "rowAllocator r \<equiv> newAllocator (slListSize r) (Some (slBitmap r))"

definition row_ok :: "sl_row \<Rightarrow> bool" where
  "row_ok r \<longleftrightarrow> alloc_ok (rowAllocator r) \<and> 0 < slListSize r \<and>
     slAllocatedCount r = allocatedCount (rowAllocator r)"

definition one_active :: "sl_row list \<Rightarrow> bool" where
  "one_active rows \<longleftrightarrow>
     (\<forall>r \<in> set rows. \<forall>r' \<in> set rows. slIsActive r \<and> slIsActive r' \<and> slOrgId r = slOrgId r' \<and>
        slIssuerDid r = slIssuerDid r' \<longrightarrow> r = r')"

definition sl_inv :: "sl_db \<Rightarrow> bool" where
  "sl_inv db \<longleftrightarrow>
     distinct (map slId (slTable db)) \<and> distinct (map slListId (slTable db)) \<and>
     (\<forall>r \<in> set (slTable db). row_ok r) \<and> one_active (slTable db)"

definition outstanding :: "sl_db \<Rightarrow> (string \<times> nat) set" where
  "outstanding db = {(slListId r, i) | r i. r \<in> set (slTable db) \<and> i \<in> ones (slBitmap r)}"

definition empty_sl_db :: sl_db where
  "empty_sl_db = \<lparr>slTable = [], icTable = []\<rparr>"

lemma sl_inv_empty: "sl_inv empty_sl_db"
  by (simp add: sl_inv_def empty_sl_db_def one_active_def)

text \<open>Replacing one row by one with the same keys.\<close>

lemma sl_update_row:
  assumes inv: "sl_inv db" and r: "r \<in> set (slTable db)"
    and keys: "\<And>x. slId (f x) = slId x" "\<And>x. slListId (f x) = slListId x"
    and ok: "row_ok (f r)"
    and act: "slIsActive (f r) \<Longrightarrow> slIsActive r \<and> slOrgId (f r) = slOrgId r \<and>
      slIssuerDid (f r) = slIssuerDid r"
  obtains db' where "sl_update (\<lambda>x. slId x = slId r) f db = (Inr (), db')"
    and "sl_inv db'" and "set (slTable db') = insert (f r) (set (slTable db) - {r})"
    and "icTable db' = icTable db"
proof -
  define T' where "T' = updateWhere (\<lambda>x. slId x = slId r) f (slTable db)"
  have dist: "distinct (map slId (slTable db))" "distinct (map slListId (slTable db))"
    and rows: "\<forall>x \<in> set (slTable db). row_ok x" and one: "one_active (slTable db)"
    using inv by (auto simp: sl_inv_def)
  have set: "set T' = insert (f r) (set (slTable db) - {r})"
    unfolding T'_def by (rule set_updateWhere_key [OF dist(1) r])
  have "sl_update (\<lambda>x. slId x = slId r) f db = (Inr (), db\<lparr>slTable := T'\<rparr>)"
    using r by (auto simp: sl_update_def T'_def)
  moreover have "one_active T'"
    using one r act unfolding one_active_def set by fastforce
  moreover have "distinct (map slId T')" "distinct (map slListId T')"
    using dist by (simp_all add: T'_def map_updateWhere_same keys)
  ultimately show ?thesis
    using rows ok set by (intro that [of "db\<lparr>slTable := T'\<rparr>"]) (auto simp: sl_inv_def)
qed

lemma outstanding_row_update:
  assumes "r \<in> set (slTable db)" and "distinct (map slListId (slTable db))"
    and "set (slTable db') = insert r' (set (slTable db) - {r})" and "slListId r' = slListId r"
  shows "outstanding db' =
    {(l, i) \<in> outstanding db. l \<noteq> slListId r} \<union> {(slListId r, i) | i. i \<in> ones (slBitmap r')}"
  unfolding outstanding_def assms(3) using assms(1,2) assms(4) [symmetric]
  by (auto dest: distinct_map_eqD)

lemma in_outstanding:
  assumes "r \<in> set (slTable db)" and "distinct (map slListId (slTable db))"
  shows "(slListId r, i) \<in> outstanding db \<longleftrightarrow> i \<in> ones (slBitmap r)"
  using assms by (auto simp: outstanding_def dest: distinct_map_eqD)

text \<open>Taking an index from a row that is not full.\<close>

lemma allocateFromRow_ok:
  assumes inv: "sl_inv db" and r: "r \<in> set (slTable db)"
    and room: "slAllocatedCount r < int (slListSize r)"
  obtains i db' where "allocateFromRow draw r db = (Inr (slListId r, i), db')" and "sl_inv db'"
    and "i < slListSize r" and "(slListId r, i) \<notin> outstanding db"
    and "outstanding db' = insert (slListId r, i) (outstanding db)" and "icTable db' = icTable db"
proof -
  have ok: "row_ok r" and dist: "distinct (map slListId (slTable db))"
    using inv r by (auto simp: sl_inv_def)
  then have aok: "alloc_ok (rowAllocator r)" and "card (ones (slBitmap r)) < slListSize r"
    using room by (auto simp: row_ok_def)
  then obtain i a' where ia: "allocate draw (rowAllocator r) = Inr (i, a')"
    using bitmap_alloc.alloc_succeeds [OF aok, of draw] by auto
  from allocate_Inr [OF aok ia]
  have i: "i < slListSize r" "i \<notin> ones (slBitmap r)" and
    a': "used a' = insert i (ones (slBitmap r))" "capacity a' = slListSize r" "alloc_ok a'"
    by auto
  let ?f = "\<lambda>x. x\<lparr>slBitmap := export a', slAllocatedCount := allocatedCount a'\<rparr>"
  have "row_ok (?f r)"
    using ok a' by (auto simp: row_ok_def export_def alloc_ok_def)
  then obtain db' where db': "sl_update (\<lambda>x. slId x = slId r) ?f db = (Inr (), db')" "sl_inv db'"
    "set (slTable db') = insert (?f r) (set (slTable db) - {r})" "icTable db' = icTable db"
    by (rule sl_update_row [OF inv r, of ?f, rotated 2]) simp_all
  have "outstanding db' = insert (slListId r, i) (outstanding db)"
    using outstanding_row_update [OF r dist db'(3)] in_outstanding [OF r dist] a'(1)
    by (auto simp: export_def)
  moreover have "allocateFromRow draw r db = (Inr (slListId r, i), db')"
    using ia db'(1) by (simp add: allocateFromRow_def tryCatch_def bind_def andThen_def)
  ultimately show ?thesis
    using that i db' in_outstanding [OF r dist] by blast
qed

lemma createList_ok:
  assumes inv: "sl_inv db"
    and none: "\<forall>r \<in> set (slTable db). \<not> (slIsActive r \<and> slOrgId r = orgId \<and> slIssuerDid r = issuerDid)"
    and run: "createList newId newListId orgId issuerDid listSize db = (Inr r, db')"
  shows "sl_inv db' \<and> r \<in> set (slTable db') \<and> slAllocatedCount r < int (slListSize r) \<and>
    outstanding db' = outstanding db \<and> icTable db' = icTable db"
proof -
  have n: "0 < (if n = 0 then defaultListSize else n)" for n
    by (simp add: defaultListSize_def)
  from run have r: "slAllocatedCount r = 0" "0 < slListSize r" "slOrgId r = orgId"
    "slIssuerDid r = issuerDid" "slBitmap r = replicate (byteLength (slListSize r)) 0"
    and fresh: "\<forall>x \<in> set (slTable db). slId x \<noteq> slId r \<and> slListId x \<noteq> slListId r"
    and db': "db' = db\<lparr>slTable := slTable db @ [r]\<rparr>"
    using n by (auto simp: createList_def sl_create_def Let_def defaultListSize_def
        split: if_splits option.splits)
  then have ok: "row_ok r" by (simp add: row_ok_def alloc_ok_def)
  have "one_active (slTable db @ [r])"
    using inv none r by (auto simp: sl_inv_def one_active_def)
  then have "sl_inv db'"
    using inv fresh ok db' by (auto simp: sl_inv_def)
  moreover have "outstanding db' = outstanding db"
    using r db' by (auto simp: outstanding_def)
  ultimately show ?thesis using r db' by simp
qed


lemma findActiveList_Some:
  assumes "findActiveList orgId issuerDid db = Some r"
  shows "r \<in> set (slTable db)" "slOrgId r = orgId" "slIssuerDid r = issuerDid" "slIsActive r"
  using find_SomeD [OF assms [unfolded findActiveList_def]] by simp_all

lemma findActiveList_None:
  "findActiveList orgId issuerDid db = None \<longleftrightarrow>
   (\<forall>r \<in> set (slTable db). \<not> (slIsActive r \<and> slOrgId r = orgId \<and> slIssuerDid r = issuerDid))"
  by (auto simp: findActiveList_def find_None_iff_all)

lemma rotateList_ok:
  assumes inv: "sl_inv db"
    and run: "rotateList newId newListId orgId issuerDid listSize
      (findActiveList orgId issuerDid db) db = (Inr r, db')"
  shows "sl_inv db' \<and> r \<in> set (slTable db') \<and> slAllocatedCount r < int (slListSize r) \<and>
    outstanding db' = outstanding db \<and> icTable db' = icTable db"
proof (cases "findActiveList orgId issuerDid db")
  case None
  with run inv show ?thesis
    by (intro createList_ok) (auto simp: rotateList_def findActiveList_None)
next
  case (Some r0)
  note act = findActiveList_Some [OF Some]
  show ?thesis
  proof (cases "int (slListSize r0) \<le> slAllocatedCount r0")
    case False
    with Some run inv act show ?thesis by (auto simp: rotateList_def)
  next
    case True
    let ?f = "\<lambda>x. x\<lparr>slIsActive := False\<rparr>"
    have dist: "distinct (map slListId (slTable db))"
      using inv by (auto simp: sl_inv_def)
    have "row_ok (?f r0)"
      using inv act(1) by (auto simp: sl_inv_def row_ok_def)
    then obtain db1 where db1: "sl_update (\<lambda>x. slId x = slId r0) ?f db = (Inr (), db1)" "sl_inv db1"
      "set (slTable db1) = insert (?f r0) (set (slTable db) - {r0})" "icTable db1 = icTable db"
      by (rule sl_update_row [OF inv act(1), of ?f, rotated 2]) simp_all
    have "outstanding db1 = outstanding db"
      using outstanding_row_update [OF act(1) dist db1(3)] in_outstanding [OF act(1) dist] by auto
    moreover have "\<forall>r \<in> set (slTable db1). \<not> (slIsActive r \<and> slOrgId r = orgId \<and> slIssuerDid r = issuerDid)"
      using inv act db1(3) by (auto simp: sl_inv_def one_active_def)
    moreover have "createList newId newListId orgId issuerDid listSize db1 = (Inr r, db')"
      using Some run True db1(1) by (simp add: rotateList_def andThen_def bind_def)
    ultimately show ?thesis using createList_ok [OF db1(2)] db1(4) by simp
  qed
qed


lemma allocateStatus_cases:
  assumes inv: "sl_inv db" and run: "allocateStatus draw newId newListId orgId issuerDid listSize db = (res, db')"
  obtains (raised) e where "res = Inl e" "db' = db"
    | (allocated) l i where "res = Inr (l, i)" "sl_inv db'" "(l, i) \<notin> outstanding db"
      "outstanding db' = insert (l, i) (outstanding db)" "icTable db' = icTable db"
proof (cases res)
  case (Inl e)
  with run have "db' = db" by (auto simp: allocateStatus_def split: if_splits dest: transact_raises)
  with Inl show ?thesis by (rule raised)
next
  case (Inr p)
  with run have "bind (rotateList newId newListId orgId issuerDid listSize
      (findActiveList orgId issuerDid db)) (allocateFromRow draw) db = (Inr p, db')"
    by (auto simp: allocateStatus_def transact_commits bind_def split: if_splits)
  then obtain r db1 where
    1: "rotateList newId newListId orgId issuerDid listSize (findActiveList orgId issuerDid db) db = (Inr r, db1)"
    "allocateFromRow draw r db1 = (Inr p, db')"
    by (cases rule: bind_cases) auto
  from rotateList_ok [OF inv 1(1)] have db1: "sl_inv db1" "r \<in> set (slTable db1)"
    "slAllocatedCount r < int (slListSize r)" and same: "outstanding db1 = outstanding db"
    "icTable db1 = icTable db"
    by auto
  from db1 obtain i db2 where 2: "allocateFromRow draw r db1 = (Inr (slListId r, i), db2)" "sl_inv db2"
    "(slListId r, i) \<notin> outstanding db1" "outstanding db2 = insert (slListId r, i) (outstanding db1)"
    "icTable db2 = icTable db1"
    by (rule allocateFromRow_ok)
  with 1(2) Inr same show ?thesis by (auto intro: allocated)
qed


lemma sl_update_by_listId:
  assumes "r \<in> set (slTable db)" "distinct (map slId (slTable db))" "distinct (map slListId (slTable db))"
  shows "sl_update (\<lambda>x. slListId x = slListId r) f db = sl_update (\<lambda>x. slId x = slId r) f db"
proof -
  have "slListId x = slListId r \<longleftrightarrow> slId x = slId r" if "x \<in> set (slTable db)" for x
    using that assms by (metis distinct_map_eqD)
  then show ?thesis by (auto simp: sl_update_def updateWhere_def)
qed

lemma releaseStatus_cases:
  assumes inv: "sl_inv db" and run: "releaseStatus listId index db = (res, db')"
  obtains (raised) e where "res = Inl e" "db' = db"
    | (released) "res = Inr ()" "sl_inv db'" "outstanding db' = outstanding db - {(listId, nat index)}"
      "icTable db' = icTable db"
proof (cases res)
  case (Inl e)
  with run have "db' = db" by (auto simp: releaseStatus_def dest: transact_raises)
  with Inl show ?thesis by (rule raised)
next
  case (Inr u)
  show ?thesis
  proof (cases "List.find (\<lambda>r. slListId r = listId) (slTable db)")
    case None
    then have "\<forall>r \<in> set (slTable db). slListId r \<noteq> listId" by (simp add: find_None_iff_all)
    with None Inr run inv show ?thesis
      by (intro released) (auto simp: releaseStatus_def transact_def bind_def outstanding_def)
  next
    case (Some r)
    then have r: "r \<in> set (slTable db)" "slListId r = listId" by (auto dest: find_SomeD)
    have dist: "distinct (map slId (slTable db))" "distinct (map slListId (slTable db))"
      and ok: "alloc_ok (rowAllocator r)" "0 < slListSize r"
      using inv r by (auto simp: sl_inv_def row_ok_def)
    from Some Inr run obtain a' where a': "release (rowAllocator r) index = Inr a'"
      and upd: "sl_update (\<lambda>x. slListId x = listId)
        (\<lambda>x. x\<lparr>slBitmap := export a', slAllocatedCount := allocatedCount a'\<rparr>) db = (Inr u, db')"
      by (auto simp: releaseStatus_def transact_commits bind_def split: sum.splits)
    let ?f = "\<lambda>x. x\<lparr>slBitmap := export a', slAllocatedCount := allocatedCount a'\<rparr>"
    have same: "sl_update (\<lambda>x. slListId x = listId) ?f db = sl_update (\<lambda>x. slId x = slId r) ?f db"
      using sl_update_by_listId [OF r(1) dist] r(2) by simp
    from release_Inr [OF ok(1) a'] have a'': "used a' = ones (slBitmap r) - {nat index}"
      "capacity a' = slListSize r" "alloc_ok a'" by auto
    have "row_ok (?f r)"
      using ok a'' by (auto simp: row_ok_def export_def alloc_ok_def)
    then obtain db2 where db2: "sl_update (\<lambda>x. slId x = slId r) ?f db = (Inr (), db2)" "sl_inv db2"
      "set (slTable db2) = insert (?f r) (set (slTable db) - {r})" "icTable db2 = icTable db"
      by (rule sl_update_row [OF inv r(1), of ?f, rotated 2]) simp_all
    have "db2 = db'"
      using upd db2(1) same by simp
    moreover have "outstanding db2 = outstanding db - {(listId, nat index)}"
      using outstanding_row_update [OF r(1) dist(2) db2(3)] in_outstanding [OF r(1) dist(2)] a''(1) r(2)
      by (auto simp: export_def)
    ultimately show ?thesis using db2 Inr by (intro released) auto
  qed
qed

subsection \<open>Runs of the service\<close>

inductive sl_step :: "sl_db \<Rightarrow> sl_db \<Rightarrow> bool" where
  allocates: "allocateStatus draw newId newListId orgId issuerDid listSize db = (res, db') \<Longrightarrow> sl_step db db'"
| releases: "releaseStatus listId index db = (res', db') \<Longrightarrow> sl_step db db'"
| saves: "saveCredentialAllocation orgId credId listId i sessionId uri db = (res'', db') \<Longrightarrow> sl_step db db'"

lemma saveCredentialAllocation_slTable:
  "saveCredentialAllocation orgId credId listId i sessionId uri db = (res, db') \<Longrightarrow> slTable db' = slTable db"
  by (auto simp: saveCredentialAllocation_def split: if_splits)

interpretation sl_runs: invariant_system "\<lambda>db. db = empty_sl_db" sl_step sl_inv
proof unfold_locales
  show "db = empty_sl_db \<Longrightarrow> sl_inv db" for db
    by (simp add: sl_inv_empty)
next
  fix db db'
  assume inv: "sl_inv db" and step: "sl_step db db'"
  from step show "sl_inv db'"
  proof cases
    case (allocates draw newId newListId orgId issuerDid listSize res)
    show ?thesis by (rule allocateStatus_cases [OF inv allocates]) (use inv in auto)
  next
    case (releases listId index res')
    show ?thesis by (rule releaseStatus_cases [OF inv releases]) (use inv in auto)
  next
    case (saves orgId credId listId i sessionId uri res'')
    with inv show ?thesis by (auto simp: sl_inv_def dest: saveCredentialAllocation_slTable)
  qed
qed

section \<open>Properties\<close>

text \<open>
  C27. \<open>RandomBitmapIndexAllocator.allocate\<close> is correct for every outcome of the random draws: on a
  consistent allocator it raises \<open>No indexes left\<close> exactly when every index below the capacity is
  taken, and otherwise returns a free index below the capacity, marks that index and no other, and
  keeps the allocator consistent (the bitmap length, the bits past the capacity, the count).
\<close>

theorem allocate_correct:
  assumes "alloc_ok a"
  shows "if \<forall>j < capacity a. isSet a j
    then allocate draw a = Inl noIndexesLeft
    else \<exists>i a'. allocate draw a = Inr (i, a') \<and> i < capacity a \<and> \<not> isSet a i \<and>
      (\<forall>j. isSet a' j \<longleftrightarrow> j = i \<or> isSet a j) \<and> allocatedCount a' = allocatedCount a + 1 \<and>
      capacity a' = capacity a \<and> alloc_ok a'"
proof (cases "allocate draw a")
  case (Inl e)
  then have "used a = {..<capacity a}" "e = noIndexesLeft" using allocate_Inl [OF assms] by auto
  with Inl show ?thesis by (simp add: isSet_used)
next
  case (Inr p)
  then obtain i a' where p: "allocate draw a = Inr (i, a')" by (cases p) auto
  from allocate_Inr [OF assms p] show ?thesis
    using p assms by (auto simp: isSet_used alloc_ok_def)
qed

theorem allocate_correct_witness:
  "alloc_ok \<lparr>bitmap = [251], capacity = 8, allocatedCount = 7\<rparr> \<and>
   allocate (\<lambda>_. 0) \<lparr>bitmap = [251], capacity = 8, allocatedCount = 7\<rparr> =
     Inr (2, \<lparr>bitmap = [255], capacity = 8, allocatedCount = 8\<rparr>)"
proof -
  let ?a = "\<lparr>bitmap = [251], capacity = 8, allocatedCount = 7\<rparr>"
  have "?a = newAllocator 8 (Some [251])" by code_simp
  moreover have "used ?a \<subseteq> {..<8}" by (auto simp: ones_def)
  ultimately have ok: "alloc_ok ?a" by (simp add: alloc_ok_def byteLength_def)
  have "allocate (\<lambda>_. 0) ?a = Inr (2, \<lparr>bitmap = [255], capacity = 8, allocatedCount = 8\<rparr>)"
    by code_simp
  with ok allocate_correct [OF ok, of "\<lambda>_. 0"] show ?thesis by simp
qed

lemma newAllocator_ok: "alloc_ok (newAllocator n None)" "used (newAllocator n None) = {}"
proof -
  have "newAllocator n None = newAllocator n (Some (replicate (byteLength n) 0))"
    by (simp add: newAllocator_def)
  then show "alloc_ok (newAllocator n None)" "used (newAllocator n None) = {}" by (simp_all add: alloc_ok_def)
qed

text \<open>
  C39. The class invariant of \<open>RandomBitmapIndexAllocator\<close>: after any calls of \<open>allocate\<close> and \<open>release\<close> on a new allocator, with
  any random draws and any indexes, valid or not, the bitmap has exactly the bytes its capacity needs, no bit
  beyond the capacity is set, and the running count equals the number of bits that are set.
\<close>

theorem allocator_well_formed:
  "let a = runOps allocate release ops (newAllocator n None)
   in capacity a = n \<and> length (bitmap a) = byteLength n \<and> {i. isSet a i} \<subseteq> {..<n} \<and>
      allocatedCount a = int (card {i. isSet a i})"
  using bitmap_alloc.runOps_inv [OF newAllocator_ok(1) [of n], of ops]
  by (auto simp: Let_def alloc_ok_def isSet_used)

text \<open>
  C33. Starting from a new allocator of capacity \<open>n\<close>, \<open>n\<close> calls of \<open>allocate\<close> succeed, whatever the
  random draws, and hand out every index from 0 to \<open>n - 1\<close> exactly once.
\<close>

theorem allocate_exhausts:
  "\<exists>is a. allocMany allocate (map draws [0..<n]) (newAllocator n None) = Inr (is, a) \<and>
     distinct is \<and> set is = {..<n} \<and> (\<forall>d. allocate d a = Inl noIndexesLeft)"
proof -
  let ?a = "newAllocator n None" and ?ds = "map draws [0..<n]"
  note ok = newAllocator_ok(1) [of n] and emp = newAllocator_ok(2) [of n]
  obtain "is" a where run: "allocMany allocate ?ds ?a = Inr (is, a)"
    using bitmap_alloc.allocMany_total [OF ok, of ?ds] emp by auto
  have len: "allocMany f ds x = Inr (js, y) \<Longrightarrow> length js = length ds"
    for f :: "(nat \<Rightarrow> nat) \<Rightarrow> allocator \<Rightarrow> error + nat \<times> allocator" and ds x js y
    by (induction ds arbitrary: x js) (auto split: sum.splits)
  from bitmap_alloc.allocMany_distinct [OF ok run] emp
  have res: "distinct is" "used a = set is" "capacity a = n" "alloc_ok a" by auto
  with bitmap_alloc.taken_bound [OF res(4)] have "set is \<subseteq> {..<n}" by simp
  moreover have "card (set is) = n" using len [OF run] res(1) by (simp add: distinct_card)
  ultimately have "set is = {..<n}" by (simp add: card_subset_eq)
  with run res allocate_Inl [OF res(4)] show ?thesis by auto
qed

text \<open>
  C35. Releasing an index that was just allocated restores the allocator exactly, byte for byte, and
  rebuilding an allocator from an exported bitmap gives the same allocator back.
\<close>

theorem allocate_release_roundtrip:
  assumes ok: "alloc_ok a" and alloc: "allocate draw a = Inr (i, a')"
  shows "release a' (int i) = Inr a \<and> newAllocator (capacity a') (Some (export a')) = a'"
proof -
  from allocate_Inr [OF ok alloc] have a': "i < capacity a" "i \<notin> used a" "used a' = insert i (used a)"
    "capacity a' = capacity a" "alloc_ok a'" by auto
  then obtain b where b: "release a' (int i) = Inr b"
    by (cases "isSet a' i") (auto simp: release_def Let_def)
  from release_Inr [OF a'(5) b] a' have "used b = used a" "capacity b = capacity a" "alloc_ok b"
    by auto
  moreover from this ok have "bitmap b = bitmap a"
    by (intro bitmap_extensional) (auto simp: alloc_ok_def)
  ultimately have "b = a" using ok by (auto simp: alloc_ok_def intro: allocator.equality)
  moreover have "newAllocator (capacity a') (Some (export a')) = a'"
    using a'(5) by (auto simp: export_def alloc_ok_def intro: allocator.equality)
  ultimately show ?thesis using b by simp
qed

theorem allocate_release_roundtrip_witness:
  "\<exists>a'. allocate (\<lambda>_. 3) (newAllocator 8 (Some [0])) = Inr (3, a') \<and>
     release a' 3 = Inr (newAllocator 8 (Some [0]))"
proof -
  let ?a = "newAllocator 8 (Some [0])"
  have ok: "alloc_ok ?a"
    using ones_replicate_0 [of 1] by (simp add: alloc_ok_def byteLength_def)
  have "allocate (\<lambda>_. 3) ?a = Inr (3, \<lparr>bitmap = [8], capacity = 8, allocatedCount = 1\<rparr>)"
    by code_simp
  with allocate_release_roundtrip [OF ok this] show ?thesis by auto
qed

text \<open>
  C1. In every state the service can reach from an empty table by any series of \<open>allocate\<close>,
  \<open>release\<close> and \<open>saveCredentialAllocation\<close> calls, a successful \<open>allocate\<close> returns a
  \<open>(listId, index)\<close> pair that no earlier unreleased allocation holds, and adds exactly that pair
  to the outstanding ones; a call that raises leaves both tables as they were.
\<close>

theorem status_allocation_unique:
  assumes "reachable_from (\<lambda>db. db = empty_sl_db) sl_step db"
    and run: "allocateStatus draw newId newListId orgId issuerDid listSize db = (res, db')"
  shows "case res of
      Inl e \<Rightarrow> db' = db
    | Inr (l, i) \<Rightarrow> (l, i) \<notin> outstanding db \<and> outstanding db' = insert (l, i) (outstanding db)"
proof -
  from assms(1) have "sl_inv db" by (rule sl_runs.reachable_inv)
  then show ?thesis using run by (cases rule: allocateStatus_cases) auto
qed

theorem status_allocation_unique_witness:
  "\<exists>db'. allocateStatus (\<lambda>_. 5) ''a'' ''l'' ''org'' ''did'' (Some 8) empty_sl_db = (Inr (''l'', 5), db') \<and>
     (''l'', 5) \<notin> outstanding empty_sl_db \<and> outstanding db' = {(''l'', 5)}"
proof -
  have start: "reachable_from (\<lambda>db. db = empty_sl_db) sl_step empty_sl_db"
    by (rule reachable_from.init) simp
  have "fst (allocateStatus (\<lambda>_. 5) ''a'' ''l'' ''org'' ''did'' (Some 8) empty_sl_db) = Inr (''l'', 5)"
    by code_simp
  then obtain db' where "allocateStatus (\<lambda>_. 5) ''a'' ''l'' ''org'' ''did'' (Some 8) empty_sl_db =
      (Inr (''l'', 5), db')"
    by (metis prod.collapse)
  moreover have "outstanding empty_sl_db = {}" by (simp add: outstanding_def empty_sl_db_def)
  ultimately show ?thesis
    using status_allocation_unique [OF start, of "\<lambda>_. 5" "''a''" "''l''" "''org''" "''did''" "Some 8"]
    by fastforce
qed



text \<open>
  \<open>release\<close> of the service frees exactly the pair it is given: afterwards that pair is not
  outstanding, every other pair is as before, and a second \<open>release\<close> of the same pair changes
  nothing more. An index outside the list raises and leaves the tables alone.
\<close>

theorem status_release_exact:
  assumes "reachable_from (\<lambda>db. db = empty_sl_db) sl_step db"
    and run: "releaseStatus listId index db = (res, db')"
  shows "case res of
      Inl e \<Rightarrow> db' = db
    | Inr _ \<Rightarrow> outstanding db' = outstanding db - {(listId, nat index)} \<and> sl_inv db'"
proof -
  from assms(1) have "sl_inv db" by (rule sl_runs.reachable_inv)
  then show ?thesis using run by (cases rule: releaseStatus_cases) auto
qed

theorem status_release_exact_witness:
  "\<exists>db db'. sl_step empty_sl_db db \<and> releaseStatus ''l'' 5 db = (Inr (), db') \<and>
     outstanding db' = outstanding db - {(''l'', 5)}"
proof -
  define db where "db = snd (allocateStatus (\<lambda>_. 5) ''a'' ''l'' ''org'' ''did'' (Some 8) empty_sl_db)"
  have step: "sl_step empty_sl_db db"
    unfolding db_def by (rule sl_step.allocates) (rule prod.collapse [symmetric])
  have start: "reachable_from (\<lambda>db. db = empty_sl_db) sl_step empty_sl_db"
    by (rule reachable_from.init) simp
  have reach: "reachable_from (\<lambda>db. db = empty_sl_db) sl_step db"
    by (rule reachable_from.move [OF start step])
  have "fst (releaseStatus ''l'' 5 db) = Inr ()"
    unfolding db_def by code_simp
  then obtain db' where "releaseStatus ''l'' 5 db = (Inr (), db')" by (metis prod.collapse)
  with status_release_exact [OF reach this] step show ?thesis by auto
qed

text \<open>
  The transaction of \<open>allocate\<close> reads the row and writes a bitmap computed from what it read,
  with nothing that orders two such transactions. When two of them read the same row before either
  writes, as the database's default isolation level allows, both can return the same
  \<open>(listId, index)\<close> pair, so two credentials share one status bit.
\<close>

theorem concurrent_allocations_collide:
  "\<exists>db row db1 db2. sl_inv db \<and> findActiveList ''org'' ''did'' db = Some row \<and>
     rotateList ''n'' ''m'' ''org'' ''did'' None (Some row) db = (Inr row, db) \<and>
     allocateFromRow (\<lambda>_. 5) row db = (Inr (''l'', 5), db1) \<and>
     allocateFromRow (\<lambda>_. 5) row db1 = (Inr (''l'', 5), db2)"
proof -
  define row where "row = \<lparr>slId = ''a'', slOrgId = ''org'', slIssuerDid = ''did'', slListId = ''l'',
    slListSize = 8, slAllocatedCount = 0, slBitmap = [0], slIsActive = True\<rparr>"
  define db where "db = \<lparr>slTable = [row], icTable = []\<rparr>"
  define db1 where "db1 = snd (allocateFromRow (\<lambda>_. 5) row db)"
  have "row_ok row"
    using ones_replicate_0 [of 1] by (simp add: row_ok_def row_def alloc_ok_def byteLength_def)
  then have "sl_inv db" by (simp add: sl_inv_def db_def one_active_def)
  moreover have "findActiveList ''org'' ''did'' db = Some row"
    by (simp add: findActiveList_def db_def row_def)
  moreover have "rotateList ''n'' ''m'' ''org'' ''did'' None (Some row) db = (Inr row, db)"
    by (simp add: rotateList_def row_def)
  moreover have "fst (allocateFromRow (\<lambda>_. 5) row db) = Inr (''l'', 5)"
    unfolding db_def row_def by code_simp
  moreover have "fst (allocateFromRow (\<lambda>_. 5) row db1) = Inr (''l'', 5)"
    unfolding db1_def db_def row_def by code_simp
  ultimately show ?thesis by (metis db1_def prod.collapse)
qed

end
