(* ===== verification/Issuance_Deadline.thy ===== *)
theory Issuance_Deadline
  imports Platform_Prelude
begin

text \<open>
  The admission deadline of an interactive issuance request
  (\<open>libs/context/src/issuanceDeadline.ts\<close>), the header it travels in
  (\<open>libs/common/src/NATSClient.ts\<close>) and the numeric settings of the issuance workers
  (\<open>positiveIntegerSetting\<close> of \<open>apps/issuance/src/issuance-work.coordinator.ts\<close>).

  Times are whole milliseconds. A value of unknown type is a \<open>js_value\<close>: \<open>undefined\<close>, a string, a
  number that is an integer, or anything else (a fraction, \<open>NaN\<close>, \<open>null\<close>, an object). The text of the error
  \<open>positiveIntegerSetting\<close> throws is shortened.
\<close>

section \<open>Definitions\<close>

subsection \<open>Decimal numerals\<close>

definition digitChar :: "nat \<Rightarrow> char" where
  "digitChar d = char_of (48 + d)"

definition isDigit :: "char \<Rightarrow> bool" where
  "isDigit c = (let n = (of_char c :: nat) in 48 \<le> n \<and> n \<le> 57)"

text \<open>\<open>String(n)\<close> of a non-negative integer.\<close>

fun showNat :: "nat \<Rightarrow> string" where
  "showNat n = (if n < 10 then [digitChar n] else showNat (n div 10) @ [digitChar (n mod 10)])"

declare showNat.simps [simp del]

text \<open>The test \<open>/^[1-9]\d*$/\<close> and \<open>Number(raw)\<close> on a string that passes it.\<close>

definition isPositiveDecimal :: "string \<Rightarrow> bool" where
  "isPositiveDecimal s =
     (case s of [] \<Rightarrow> False | c # cs \<Rightarrow> isDigit c \<and> c \<noteq> CHR ''0'' \<and> list_all isDigit cs)"

definition decimalValue :: "string \<Rightarrow> nat" where
  "decimalValue s = foldl (\<lambda>n c. n * 10 + (of_char c - 48)) 0 s"

definition maxSafeInteger :: int where
  "maxSafeInteger = 9007199254740991"

definition isSafeInteger :: "int \<Rightarrow> bool" where
  "isSafeInteger n = (- maxSafeInteger \<le> n \<and> n \<le> maxSafeInteger)"

subsection \<open>Settings and deadlines\<close>

definition positiveIntegerSetting :: "string option \<Rightarrow> nat \<Rightarrow> nat \<Rightarrow> error + nat" where
  "positiveIntegerSetting raw fallback maximum =
     (case raw of
        None \<Rightarrow> Inr fallback
      | Some s \<Rightarrow>
          (if \<not> isPositiveDecimal s \<or> \<not> isSafeInteger (int (decimalValue s)) \<or> maximum < decimalValue s
           then Inl (PlainError ''must be a positive integer no greater than the maximum'')
           else Inr (decimalValue s)))"

datatype js_value = Undefined | JString string | JNumber int | JOther

definition admissionMs :: int where
  "admissionMs = 10000"

definition interactiveQueueMs :: int where
  "interactiveQueueMs = 1000"

definition issuanceCommands :: "string set" where
  "issuanceCommands =
     {''send-credential-create-offer'', ''send-credential-create-offer-oob'',
      ''out-of-band-credential-offer''}"

definition admissionExpired :: error where
  "admissionExpired =
     ServiceUnavailableException ''Issuance admission expired or invalid; no offer was dispatched''"

definition issuanceDeadline :: "js_value \<Rightarrow> int \<Rightarrow> error + int" where
  "issuanceDeadline value now =
     (if value = Undefined then Inr (now + admissionMs)
      else
        (let deadline = (case value of
               JString s \<Rightarrow> (if isPositiveDecimal s then JNumber (int (decimalValue s)) else value)
             | _ \<Rightarrow> value)
         in case deadline of
              JNumber d \<Rightarrow>
                (if \<not> isSafeInteger d \<or> d \<le> now then Inl admissionExpired
                 else Inr (min d (now + admissionMs)))
            | _ \<Rightarrow> Inl admissionExpired))"

text \<open>The headers of a message: a lookup that tells an absent name from a blank value.\<close>

definition deadlineHeader :: string where
  "deadlineHeader = ''issuance-admission-deadline''"

definition readIssuanceDeadline :: "(string \<rightharpoonup> string) option \<Rightarrow> js_value" where
  "readIssuanceDeadline headers =
     (case headers of
        None \<Rightarrow> Undefined
      | Some h \<Rightarrow> (case h deadlineHeader of None \<Rightarrow> Undefined | Some v \<Rightarrow> JString v))"

text \<open>\<open>NATSClient.addIssuanceDeadline\<close>: \<open>stored\<close> is the deadline in the request context.
  \<open>String(deadline)\<close> of a deadline is the decimal numeral: deadlines lie after \<open>now\<close>.\<close>

definition addIssuanceDeadline ::
  "js_value \<Rightarrow> int \<Rightarrow> string \<Rightarrow> (string \<rightharpoonup> string) \<Rightarrow> error + (string \<rightharpoonup> string)" where
  "addIssuanceDeadline stored now cmd headers =
     (if cmd \<in> issuanceCommands
      then (case issuanceDeadline stored now of
              Inl e \<Rightarrow> Inl e
            | Inr deadline \<Rightarrow> Inr (headers(deadlineHeader \<mapsto> showNat (nat deadline))))
      else Inr headers)"

section \<open>Decimal numerals are read back\<close>

lemma of_char_digitChar [simp]: "d < 10 \<Longrightarrow> of_char (digitChar d) = (48 + d :: nat)"
  by (simp add: digitChar_def)

lemma isDigit_digitChar [simp]: "d < 10 \<Longrightarrow> isDigit (digitChar d)"
  by (simp add: isDigit_def)

lemma digitChar_0: "digitChar 0 = CHR ''0''"
  by code_simp

lemma digitChar_eq_0: "d < 10 \<Longrightarrow> digitChar d = CHR ''0'' \<longleftrightarrow> d = 0"
  by (metis digitChar_0 of_char_digitChar add_left_cancel zero_less_numeral)

lemma of_char_48: "of_char c = (48 :: nat) \<longleftrightarrow> c = CHR ''0''"
  by (metis add.right_neutral char_of_char digitChar_0 digitChar_def of_char_digitChar zero_less_numeral)

lemma decimalValue_snoc: "decimalValue (s @ [c]) = decimalValue s * 10 + (of_char c - 48)"
  by (simp add: decimalValue_def)

lemma decimalValue_showNat [simp]: "decimalValue (showNat n) = n"
proof (induction n rule: showNat.induct)
  case (1 n)
  show ?case
  proof (cases "n < 10")
    case True
    then show ?thesis by (simp add: showNat.simps [of n] decimalValue_def)
  next
    case False
    with 1 have "decimalValue (showNat (n div 10)) = n div 10" by simp
    with False show ?thesis by (simp add: showNat.simps [of n] decimalValue_snoc)
  qed
qed

lemma isPositiveDecimal_snoc: "isPositiveDecimal s \<Longrightarrow> isDigit c \<Longrightarrow> isPositiveDecimal (s @ [c])"
  by (auto simp: isPositiveDecimal_def split: list.splits)

lemma isPositiveDecimal_showNat: "0 < n \<Longrightarrow> isPositiveDecimal (showNat n)"
proof (induction n rule: showNat.induct)
  case (1 n)
  show ?case
  proof (cases "n < 10")
    case True
    with 1 show ?thesis
      by (simp add: showNat.simps [of n] isPositiveDecimal_def digitChar_eq_0)
  next
    case False
    with 1 have "isPositiveDecimal (showNat (n div 10))" by simp
    with False show ?thesis by (simp add: showNat.simps [of n] isPositiveDecimal_snoc)
  qed
qed

lemma foldl_decimal_mono: "m \<le> foldl (\<lambda>n c. n * 10 + (of_char c - 48)) m (cs :: string)"
  for m :: nat
proof (induction cs arbitrary: m)
  case (Cons c cs)
  have "m \<le> m * 10 + (of_char c - 48)" by simp
  also have "\<dots> \<le> foldl (\<lambda>n c. n * 10 + (of_char c - 48)) (m * 10 + (of_char c - 48)) cs"
    by (rule Cons.IH)
  finally show ?case by simp
qed simp

lemma decimalValue_pos:
  assumes "isPositiveDecimal s"
  shows "0 < decimalValue s"
proof -
  from assms obtain c cs where s: "s = c # cs" "isDigit c" "c \<noteq> CHR ''0''"
    by (auto simp: isPositiveDecimal_def split: list.splits)
  then have "0 < (of_char c - 48 :: nat)"
    using of_char_48 [of c] by (simp add: isDigit_def Let_def)
  with foldl_decimal_mono [of "of_char c - 48" cs] show ?thesis by (simp add: decimalValue_def s(1))
qed

lemma issuanceDeadline_bounds:
  "issuanceDeadline v now = Inr d \<Longrightarrow> now < d \<and> d \<le> now + admissionMs"
  by (auto simp: issuanceDeadline_def admissionMs_def Let_def
      split: if_splits js_value.splits)

lemma issuanceDeadline_number:
  "issuanceDeadline (JNumber d) now =
     (if isSafeInteger d \<and> now < d then Inr (min d (now + admissionMs)) else Inl admissionExpired)"
  by (auto simp: issuanceDeadline_def)

lemma issuanceDeadline_header:
  assumes "0 < d"
  shows "issuanceDeadline (JString (showNat (nat d))) now = issuanceDeadline (JNumber d) now"
  using assms by (simp add: issuanceDeadline_def isPositiveDecimal_showNat)

section \<open>Properties\<close>

text \<open>
  C36. A deadline that a sender put into the message header is read back unchanged by the receiver as
  long as it has not passed: for an issuance command the receiver computes exactly the sender's
  deadline, capped by its own clock, and at or after the deadline it raises. So no hop extends the
  admission window: it ends at most ten seconds after the first sender's clock.
\<close>

theorem deadline_hop_exact:
  assumes cmd: "cmd \<in> issuanceCommands"
    and send: "issuanceDeadline stored sent = Inr d" "addIssuanceDeadline stored sent cmd headers = Inr headers'"
    and safe: "0 < d" "isSafeInteger d"
  shows "issuanceDeadline (readIssuanceDeadline (Some headers')) received =
    (if received < d then Inr (min d (received + admissionMs)) else Inl admissionExpired)
    \<and> d \<le> sent + admissionMs"
proof -
  have "headers' = headers(deadlineHeader \<mapsto> showNat (nat d))"
    using cmd send by (auto simp: addIssuanceDeadline_def)
  then have "readIssuanceDeadline (Some headers') = JString (showNat (nat d))"
    by (simp add: readIssuanceDeadline_def)
  then show ?thesis
    using safe issuanceDeadline_bounds [OF send(1)]
    by (simp add: issuanceDeadline_header issuanceDeadline_number)
qed

theorem deadline_hop_exact_witness:
  "issuanceDeadline Undefined 5000 = Inr 15000 \<and>
   (\<exists>h. addIssuanceDeadline Undefined 5000 ''out-of-band-credential-offer'' Map.empty = Inr h \<and>
        issuanceDeadline (readIssuanceDeadline (Some h)) 7000 = Inr 15000)"
proof -
  have cmd: "''out-of-band-credential-offer'' \<in> issuanceCommands" by (simp add: issuanceCommands_def)
  have d: "issuanceDeadline Undefined 5000 = Inr 15000"
    by (simp add: issuanceDeadline_def admissionMs_def)
  obtain h where h: "addIssuanceDeadline Undefined 5000 ''out-of-band-credential-offer'' Map.empty = Inr h"
    using cmd d by (simp add: addIssuanceDeadline_def)
  have safe: "isSafeInteger 15000" by (simp add: isSafeInteger_def maxSafeInteger_def)
  from deadline_hop_exact [OF cmd d h _ safe, of 7000] d h show ?thesis
    by (auto simp: admissionMs_def)
qed

text \<open>
  A numeric setting is always a number between 1 and its maximum (the fallback is used only when
  the variable is unset), and every number in that range can be configured by its decimal numeral.
\<close>

theorem positiveIntegerSetting_range:
  assumes "0 < fallback" and "fallback \<le> maximum" and "int maximum \<le> maxSafeInteger"
  shows "(positiveIntegerSetting raw fallback maximum = Inr n \<longrightarrow> 0 < n \<and> n \<le> maximum) \<and>
    (0 < n \<and> n \<le> maximum \<longrightarrow> positiveIntegerSetting (Some (showNat n)) fallback maximum = Inr n)"
proof
  show "positiveIntegerSetting raw fallback maximum = Inr n \<longrightarrow> 0 < n \<and> n \<le> maximum"
    using assms by (auto simp: positiveIntegerSetting_def dest: decimalValue_pos split: option.splits if_splits)
  show "0 < n \<and> n \<le> maximum \<longrightarrow> positiveIntegerSetting (Some (showNat n)) fallback maximum = Inr n"
    using assms by (auto simp: positiveIntegerSetting_def isSafeInteger_def isPositiveDecimal_showNat maxSafeInteger_def)
qed

theorem positiveIntegerSetting_range_witness:
  "positiveIntegerSetting (Some (showNat 64)) 8 128 = Inr 64"
  using positiveIntegerSetting_range [of 8 128 None 64] by (simp add: maxSafeInteger_def)

end
