(* ===== verification/Admission_Queue.thy ===== *)
theory Admission_Queue
  imports Issuance_Deadline
begin

text \<open>
  The in-process admission queue of the issuance service
  (\<open>apps/issuance/src/issuance-admission.queue.ts\<close>).

  Between two \<open>await\<close>s the JavaScript code runs without interruption, so each synchronous section is
  one definition: \<open>acquire\<close>, \<open>releaseSlot\<close> (with its loop \<open>releaseLoop\<close>) and \<open>timerFires\<close>. The
  life of a call of \<open>run\<close> is a \<open>phase\<close>, and \<open>aq_step\<close> interleaves the sections of any number of
  calls in any order. The insertion-ordered \<open>Set\<close> of waiters is a list. \<open>clk\<close> gives the successive
  readings of \<open>performance.now()\<close> inside one section.
\<close>

section \<open>Definitions\<close>

record waiter =
  wTask :: nat
  wDeadline :: int

record admission_queue =
  aqActive :: int
  aqPending :: "waiter list"
  aqCapacity :: nat
  aqMaxPending :: nat

definition newAdmissionQueue :: "nat \<Rightarrow> nat \<Rightarrow> admission_queue" where
  "newAdmissionQueue capacity maxPending =
     \<lparr>aqActive = 0, aqPending = [], aqCapacity = capacity, aqMaxPending = maxPending\<rparr>"

definition timeoutError :: error where
  "timeoutError = ServiceUnavailableException ''Issuance capacity wait exceeded; no offer was dispatched''"

definition queueFullError :: error where
  "queueFullError = ServiceUnavailableException ''Issuance admission queue is full; no offer was dispatched''"

datatype acquire_result = Granted | Queued | Refused error

definition acquire :: "int \<Rightarrow> int \<Rightarrow> nat \<Rightarrow> admission_queue \<Rightarrow> acquire_result \<times> admission_queue" where
  "acquire now deadline task q =
     (if deadline \<le> now then (Refused timeoutError, q)
      else if aqActive q < int (aqCapacity q) then (Granted, q\<lparr>aqActive := aqActive q + 1\<rparr>)
      else if aqMaxPending q \<le> length (aqPending q) then (Refused queueFullError, q)
      else (Queued, q\<lparr>aqPending := aqPending q @ [\<lparr>wTask = task, wDeadline = deadline\<rparr>]\<rparr>))"

text \<open>The body of the waiter's \<open>setTimeout\<close>: the waiter is rejected if it is still pending.\<close>

definition timerFires :: "nat \<Rightarrow> admission_queue \<Rightarrow> bool \<times> admission_queue" where
  "timerFires task q =
     (if \<exists>w \<in> set (aqPending q). wTask w = task
      then (True, q\<lparr>aqPending := filter (\<lambda>w. wTask w \<noteq> task) (aqPending q)\<rparr>)
      else (False, q))"

text \<open>\<open>release\<close>: waiters whose deadline has passed are rejected until one can be resolved. The result
  lists the rejected waiters, the resolved one if any, and the waiters left.\<close>

fun releaseLoop :: "(nat \<Rightarrow> int) \<Rightarrow> nat \<Rightarrow> waiter list \<Rightarrow> waiter list \<times> waiter option \<times> waiter list" where
  "releaseLoop clk i [] = ([], None, [])"
| "releaseLoop clk i (w # ws) =
     (if wDeadline w \<le> clk i
      then (case releaseLoop clk (Suc i) ws of (rejected, resolved, rest) \<Rightarrow> (w # rejected, resolved, rest))
      else ([], Some w, ws))"

definition releaseSlot :: "(nat \<Rightarrow> int) \<Rightarrow> admission_queue \<Rightarrow> waiter list \<times> waiter option \<times> admission_queue" where
  "releaseSlot clk q =
     (case releaseLoop clk 0 (aqPending q) of
        (rejected, Some w, rest) \<Rightarrow> (rejected, Some w, q\<lparr>aqPending := rest\<rparr>)
      | (rejected, None, rest) \<Rightarrow>
          (rejected, None, q\<lparr>aqPending := rest, aqActive := aqActive q - 1\<rparr>))"

subsection \<open>Calls of run and their interleavings\<close>

datatype phase =
    NotStarted
  | Waiting
  | Holding int  \<comment> \<open>permit granted, deadline not yet checked\<close>
  | Operating int  \<comment> \<open>inside \<open>operation()\<close>\<close>
  | Failed error
  | Completed

record aq_sys =
  sysQueue :: admission_queue
  phaseOf :: "nat \<Rightarrow> phase"

definition afterAcquire :: "int \<Rightarrow> acquire_result \<Rightarrow> phase" where
  "afterAcquire deadline r =
     (case r of Granted \<Rightarrow> Holding deadline | Queued \<Rightarrow> Waiting | Refused e \<Rightarrow> Failed e)"

text \<open>What a \<open>release\<close> does to the calls it wakes.\<close>

definition wake :: "waiter list \<Rightarrow> waiter option \<Rightarrow> (nat \<Rightarrow> phase) \<Rightarrow> nat \<Rightarrow> phase" where
  "wake rejected resolved ph =
     (\<lambda>i. if i \<in> wTask ` set rejected then Failed timeoutError
          else case resolved of
                 None \<Rightarrow> ph i
               | Some w \<Rightarrow> (if i = wTask w then Holding (wDeadline w) else ph i))"

definition endRun :: "(nat \<Rightarrow> int) \<Rightarrow> nat \<Rightarrow> phase \<Rightarrow> aq_sys \<Rightarrow> aq_sys" where
  "endRun clk i outcome s =
     (case releaseSlot clk (sysQueue s) of (rejected, resolved, q') \<Rightarrow>
        s\<lparr>sysQueue := q', phaseOf := wake rejected resolved ((phaseOf s)(i := outcome))\<rparr>)"

inductive aq_step :: "aq_sys \<Rightarrow> aq_sys \<Rightarrow> bool" where
  arrive: "phaseOf s i = NotStarted \<Longrightarrow> acquire now deadline i (sysQueue s) = (r, q') \<Longrightarrow>
    aq_step s (s\<lparr>sysQueue := q', phaseOf := (phaseOf s)(i := afterAcquire deadline r)\<rparr>)"
| timer: "timerFires i (sysQueue s) = (True, q') \<Longrightarrow>
    aq_step s (s\<lparr>sysQueue := q', phaseOf := (phaseOf s)(i := Failed timeoutError)\<rparr>)"
| operate: "phaseOf s i = Holding deadline \<Longrightarrow> now < deadline \<Longrightarrow>
    aq_step s (s\<lparr>phaseOf := (phaseOf s)(i := Operating deadline)\<rparr>)"
| too_late: "phaseOf s i = Holding deadline \<Longrightarrow> deadline \<le> now \<Longrightarrow>
    aq_step s (endRun clk i (Failed timeoutError) s)"
| returns: "phaseOf s i = Operating deadline \<Longrightarrow> aq_step s (endRun clk i Completed s)"
| throws: "phaseOf s i = Operating deadline \<Longrightarrow> aq_step s (endRun clk i (Failed e) s)"

definition aq_start :: "nat \<Rightarrow> nat \<Rightarrow> aq_sys \<Rightarrow> bool" where
  "aq_start capacity maxPending s \<longleftrightarrow>
     s = \<lparr>sysQueue = newAdmissionQueue capacity maxPending, phaseOf = (\<lambda>_. NotStarted)\<rparr>"

section \<open>The invariant\<close>

definition holders :: "aq_sys \<Rightarrow> nat set" where
  "holders s = {i. \<exists>d. phaseOf s i = Holding d \<or> phaseOf s i = Operating d}"

definition aq_inv :: "nat \<Rightarrow> nat \<Rightarrow> aq_sys \<Rightarrow> bool" where
  "aq_inv capacity maxPending s \<longleftrightarrow>
     aqCapacity (sysQueue s) = capacity \<and> aqMaxPending (sysQueue s) = maxPending \<and>
     finite (holders s) \<and> aqActive (sysQueue s) = int (card (holders s)) \<and>
     card (holders s) \<le> capacity \<and> length (aqPending (sysQueue s)) \<le> maxPending \<and>
     distinct (map wTask (aqPending (sysQueue s))) \<and>
     {i. phaseOf s i = Waiting} = wTask ` set (aqPending (sysQueue s)) \<and>
     (aqPending (sysQueue s) \<noteq> [] \<longrightarrow> card (holders s) = capacity)"

lemma releaseLoop_split:
  "releaseLoop clk i ws = (rejected, resolved, rest) \<Longrightarrow>
   ws = rejected @ (case resolved of None \<Rightarrow> [] | Some w \<Rightarrow> [w]) @ rest \<and> (resolved = None \<longrightarrow> rest = [])"
  by (induction ws arbitrary: i rejected) (auto split: if_splits prod.splits)

lemma holders_upd:
  "holders (s\<lparr>phaseOf := (phaseOf s)(i := p)\<rparr>) =
     (if \<exists>d. p = Holding d \<or> p = Operating d then insert i (holders s) else holders s - {i})"
  by (auto simp: holders_def)

lemma holders_sysQueue [simp]: "holders (s\<lparr>sysQueue := q\<rparr>) = holders s"
  by (simp add: holders_def)

lemma waiting_not_holder: "aq_inv c m s \<Longrightarrow> w \<in> set (aqPending (sysQueue s)) \<Longrightarrow> wTask w \<notin> holders s"
  by (force simp: aq_inv_def holders_def)

lemma holders_endRun:
  assumes inv: "aq_inv c m s" and i: "i \<in> holders s"
    and out: "outcome = Completed \<or> (\<exists>e. outcome = Failed e)"
    and rel: "releaseLoop clk 0 (aqPending (sysQueue s)) = (rejected, resolved, rest)"
  shows "holders (endRun clk i outcome s) =
    holders s - {i} \<union> (case resolved of None \<Rightarrow> {} | Some w \<Rightarrow> {wTask w})"
proof -
  have ws: "aqPending (sysQueue s) = rejected @ (case resolved of None \<Rightarrow> [] | Some w \<Rightarrow> [w]) @ rest"
    using releaseLoop_split [OF rel] by simp
  have "wTask w \<notin> holders s" if "w \<in> set (aqPending (sysQueue s))" for w
    using waiting_not_holder [OF inv that] .
  then have rej: "\<forall>w \<in> set rejected. wTask w \<notin> holders s"
    and res: "\<And>w. resolved = Some w \<Longrightarrow> wTask w \<notin> holders s"
    using ws by auto
  have dist: "\<And>w. resolved = Some w \<Longrightarrow> wTask w \<notin> wTask ` set rejected"
    using inv ws by (auto simp: aq_inv_def)
  show ?thesis
  proof (cases resolved)
    case None
    with rel have "phaseOf (endRun clk i outcome s) =
        wake rejected None ((phaseOf s)(i := outcome))"
      by (simp add: endRun_def releaseSlot_def)
    with None rej out show ?thesis by (auto simp: holders_def wake_def)
  next
    case (Some w)
    with rel have "phaseOf (endRun clk i outcome s) =
        wake rejected (Some w) ((phaseOf s)(i := outcome))"
      by (simp add: endRun_def releaseSlot_def)
    with Some rej res dist i out show ?thesis by (auto simp: holders_def wake_def)
  qed
qed

lemma waiting_endRun:
  assumes inv: "aq_inv c m s" and i: "i \<in> holders s"
    and out: "outcome = Completed \<or> (\<exists>e. outcome = Failed e)"
    and rel: "releaseLoop clk 0 (aqPending (sysQueue s)) = (rejected, resolved, rest)"
  shows "{j. phaseOf (endRun clk i outcome s) j = Waiting} = wTask ` set rest"
proof -
  have ws: "aqPending (sysQueue s) = rejected @ (case resolved of None \<Rightarrow> [] | Some w \<Rightarrow> [w]) @ rest"
    using releaseLoop_split [OF rel] by simp
  have dist: "distinct (map wTask (aqPending (sysQueue s)))"
    and wait: "{j. phaseOf s j = Waiting} = wTask ` set (aqPending (sysQueue s))"
    using inv by (simp_all add: aq_inv_def)
  have iw: "phaseOf s i \<noteq> Waiting" using i by (auto simp: holders_def)
  have ph: "phaseOf (endRun clk i outcome s) = wake rejected resolved ((phaseOf s)(i := outcome))"
    using rel by (simp add: endRun_def releaseSlot_def split: option.splits)
  have eq: "phaseOf (endRun clk i outcome s) j = Waiting \<longleftrightarrow>
      phaseOf s j = Waiting \<and> j \<notin> wTask ` set rejected \<and> (\<forall>w. resolved = Some w \<longrightarrow> j \<noteq> wTask w)" for j
    unfolding ph using out iw by (auto simp: wake_def split: option.splits)
  have "{j. phaseOf (endRun clk i outcome s) j = Waiting} =
      wTask ` set (aqPending (sysQueue s)) - wTask ` set rejected - {wTask w | w. resolved = Some w}"
    unfolding wait [symmetric] using eq by auto
  also have "\<dots> = wTask ` set rest"
    using dist unfolding ws by (auto split: option.splits) (metis imageI)
  finally show ?thesis .
qed

lemma aq_inv_endRun:
  assumes inv: "aq_inv c m s" and i: "i \<in> holders s"
    and out: "outcome = Completed \<or> (\<exists>e. outcome = Failed e)"
  shows "aq_inv c m (endRun clk i outcome s)"
proof -
  obtain rejected resolved rest where
    rel: "releaseLoop clk 0 (aqPending (sysQueue s)) = (rejected, resolved, rest)"
    by (metis prod_cases3)
  note ws = releaseLoop_split [OF rel]
  note H = holders_endRun [OF inv i out rel] and W = waiting_endRun [OF inv i out rel]
  have old: "finite (holders s)" "aqActive (sysQueue s) = int (card (holders s))"
    "card (holders s) \<le> c" "length (aqPending (sysQueue s)) \<le> m"
    "distinct (map wTask (aqPending (sysQueue s)))"
    "aqPending (sysQueue s) \<noteq> [] \<longrightarrow> card (holders s) = c"
    "aqCapacity (sysQueue s) = c" "aqMaxPending (sysQueue s) = m"
    using inv by (simp_all add: aq_inv_def)
  have pos: "0 < card (holders s)" using i old(1) by (auto simp: card_gt_0_iff)
  have less: "card (holders s - {i}) = card (holders s) - 1" using i by (simp add: card_Diff_singleton)
  show ?thesis
  proof (cases resolved)
    case None
    have "sysQueue (endRun clk i outcome s) =
        (sysQueue s)\<lparr>aqPending := rest, aqActive := aqActive (sysQueue s) - 1\<rparr>"
      using rel None by (simp add: endRun_def releaseSlot_def)
    then show ?thesis
      unfolding aq_inv_def W H using old pos less ws None by (auto simp: of_nat_diff)
  next
    case (Some w)
    have q: "sysQueue (endRun clk i outcome s) = (sysQueue s)\<lparr>aqPending := rest\<rparr>"
      using rel Some by (simp add: endRun_def releaseSlot_def)
    have "wTask w \<notin> holders s"
      by (rule waiting_not_holder [OF inv]) (use ws Some in simp)
    then have "card (holders s - {i} \<union> {wTask w}) = card (holders s)"
      using less pos old(1) by simp
    then show ?thesis
      unfolding aq_inv_def W H q using old ws Some by auto
  qed
qed

lemma aq_inv_arrive:
  assumes inv: "aq_inv c m s" and i: "phaseOf s i = NotStarted"
    and acq: "acquire now deadline i (sysQueue s) = (r, q')"
  shows "aq_inv c m (s\<lparr>sysQueue := q', phaseOf := (phaseOf s)(i := afterAcquire deadline r)\<rparr>)"
proof -
  have "i \<notin> holders s" and "phaseOf s i \<noteq> Waiting" using i by (auto simp: holders_def)
  then have notin: "i \<notin> wTask ` set (aqPending (sysQueue s))"
    using inv by (auto simp: aq_inv_def)
  have W: "{j. ((phaseOf s)(i := p)) j = Waiting} =
      (if p = Waiting then insert i {j. phaseOf s j = Waiting} else {j. phaseOf s j = Waiting})" for p
    using i by auto
  show ?thesis
    using acq inv \<open>i \<notin> holders s\<close> notin W [of "afterAcquire deadline r"]
      holders_upd [of "s\<lparr>sysQueue := q'\<rparr>" i "afterAcquire deadline r"]
    by (auto simp: acquire_def afterAcquire_def aq_inv_def split: if_splits)
qed

lemma aq_inv_timer:
  assumes inv: "aq_inv c m s" and t: "timerFires i (sysQueue s) = (True, q')"
  shows "aq_inv c m (s\<lparr>sysQueue := q', phaseOf := (phaseOf s)(i := Failed timeoutError)\<rparr>)"
proof -
  obtain w where w: "w \<in> set (aqPending (sysQueue s))" "wTask w = i"
    and q': "q' = (sysQueue s)\<lparr>aqPending := filter (\<lambda>w. wTask w \<noteq> i) (aqPending (sysQueue s))\<rparr>"
    using t by (auto simp: timerFires_def split: if_splits)
  have "i \<notin> holders s" using waiting_not_holder [OF inv w(1)] w(2) by simp
  moreover have "aqPending (sysQueue s) \<noteq> []" using w(1) by auto
  moreover have "distinct (map wTask (filter (\<lambda>w. wTask w \<noteq> i) (aqPending (sysQueue s))))"
    using inv by (simp add: aq_inv_def distinct_map_filter)
  moreover have "length (filter (\<lambda>w. wTask w \<noteq> i) (aqPending (sysQueue s))) \<le> m"
    using inv by (auto simp: aq_inv_def intro: le_trans [OF length_filter_le])
  moreover have "{j. ((phaseOf s)(i := Failed timeoutError)) j = Waiting} = {j. phaseOf s j = Waiting} - {i}"
    by auto
  ultimately show ?thesis
    using inv holders_upd [of "s\<lparr>sysQueue := q'\<rparr>" i "Failed timeoutError"]
    by (auto simp: aq_inv_def q')
qed

interpretation aq_runs: invariant_system "aq_start c m" aq_step "aq_inv c m" for c m
proof unfold_locales
  show "aq_start c m s \<Longrightarrow> aq_inv c m s" for s
    by (simp add: aq_start_def aq_inv_def newAdmissionQueue_def holders_def)
next
  fix s t
  assume inv: "aq_inv c m s" and step: "aq_step s t"
  from step show "aq_inv c m t"
  proof cases
    case (arrive i now deadline r q')
    with inv show ?thesis by (simp add: aq_inv_arrive)
  next
    case (timer i q')
    with inv show ?thesis by (simp add: aq_inv_timer)
  next
    case (operate i deadline now)
    then have i: "i \<in> holders s" by (auto simp: holders_def)
    have "{j. ((phaseOf s)(i := Operating deadline)) j = Waiting} = {j. phaseOf s j = Waiting}"
      using operate by auto
    then show ?thesis
      using inv i holders_upd [of s i "Operating deadline"] operate(1)
      by (auto simp: aq_inv_def insert_absorb)
  next
    case (too_late i deadline now clk)
    then have "i \<in> holders s" by (auto simp: holders_def)
    with inv show ?thesis unfolding too_late(1) by (intro aq_inv_endRun) auto
  next
    case (returns i deadline clk)
    then have "i \<in> holders s" by (auto simp: holders_def)
    with inv show ?thesis unfolding returns(1) by (intro aq_inv_endRun) auto
  next
    case (throws i deadline clk e)
    then have "i \<in> holders s" by (auto simp: holders_def)
    with inv show ?thesis unfolding throws(1) by (intro aq_inv_endRun) auto
  qed
qed

section \<open>Properties\<close>

text \<open>
  C26. However the calls of \<open>run\<close> interleave, at most \<open>capacity\<close> of them hold a permit at any moment,
  the counter \<open>active\<close> equals the number of permit holders (no permit is lost or counted twice), and
  at most \<open>maxPending\<close> calls wait. A call waits only while all permits are in use, so the queue
  cannot stall with a free permit.
\<close>

theorem admission_capacity:
  assumes "reachable_from (aq_start c m) aq_step s"
  shows "card {i. \<exists>d. phaseOf s i = Operating d} \<le> c \<and>
    aqActive (sysQueue s) = int (card (holders s)) \<and> card (holders s) \<le> c \<and>
    length (aqPending (sysQueue s)) \<le> m \<and>
    ((\<exists>i. phaseOf s i = Waiting) \<longrightarrow> card (holders s) = c)"
proof -
  from assms have inv: "aq_inv c m s" by (rule aq_runs.reachable_inv)
  then have "card {i. \<exists>d. phaseOf s i = Operating d} \<le> card (holders s)"
    by (intro card_mono) (auto simp: aq_inv_def holders_def)
  with inv show ?thesis by (auto simp: aq_inv_def)
qed

lemma aq_example:
  "\<exists>s. reachable_from (aq_start 1 5) aq_step s \<and> phaseOf s 0 = Operating 100 \<and> phaseOf s 1 = Waiting"
proof -
  let ?s0 = "\<lparr>sysQueue = newAdmissionQueue 1 5, phaseOf = (\<lambda>_. NotStarted)\<rparr>"
  have 0: "reachable_from (aq_start 1 5) aq_step ?s0"
    by (rule reachable_from.init) (simp add: aq_start_def)
  note 1 = reachable_from.move [OF 0 aq_step.arrive [of _ 0 7 100]]
  obtain s1 where s1: "reachable_from (aq_start 1 5) aq_step s1" "phaseOf s1 0 = Holding 100"
    "phaseOf s1 1 = NotStarted" "aqActive (sysQueue s1) = 1" "aqCapacity (sysQueue s1) = 1"
    "aqPending (sysQueue s1) = []" "aqMaxPending (sysQueue s1) = 5"
    using 1 by (force simp: acquire_def newAdmissionQueue_def afterAcquire_def)
  note 2 = reachable_from.move [OF s1(1) aq_step.operate [OF s1(2), of 8]]
  obtain s2 where s2: "reachable_from (aq_start 1 5) aq_step s2" "phaseOf s2 0 = Operating 100"
    "phaseOf s2 1 = NotStarted" "sysQueue s2 = sysQueue s1"
    using 2 s1 by force
  note 3 = reachable_from.move [OF s2(1) aq_step.arrive [OF s2(3), of 9 200]]
  show ?thesis using 3 s1 s2 by (force simp: acquire_def afterAcquire_def)
qed

theorem admission_capacity_witness:
  "\<exists>s. reachable_from (aq_start 1 5) aq_step s \<and> phaseOf s 1 = Waiting \<and> card (holders s) = 1"
proof -
  obtain s where s: "reachable_from (aq_start 1 5) aq_step s" "phaseOf s 1 = Waiting"
    using aq_example by blast
  with admission_capacity [OF s(1)] show ?thesis by blast
qed

text \<open>
  \<open>release\<close> serves the waiters in arrival order: the permit goes to the first waiter whose deadline
  has not passed, every waiter before it has passed its deadline and is rejected, and the ones behind
  it stay in order. Only when every waiter has expired does the number of permits in use go down.
\<close>

theorem release_fifo:
  assumes "releaseSlot clk q = (rejected, resolved, q')"
  shows "(\<forall>k < length rejected. wDeadline (rejected ! k) \<le> clk k) \<and>
    (case resolved of
       Some w \<Rightarrow> aqPending q = rejected @ w # aqPending q' \<and> clk (length rejected) < wDeadline w \<and>
         aqActive q' = aqActive q
     | None \<Rightarrow> aqPending q = rejected \<and> aqPending q' = [] \<and> aqActive q' = aqActive q - 1)"
proof -
  have loop: "releaseLoop clk i ws = (rej, res, rest) \<Longrightarrow>
      (\<forall>k < length rej. wDeadline (rej ! k) \<le> clk (i + k)) \<and>
      (\<forall>w. res = Some w \<longrightarrow> clk (i + length rej) < wDeadline w)" for i ws rej res rest
  proof (induction ws arbitrary: i rej)
    case (Cons w ws)
    show ?case
    proof (cases "wDeadline w \<le> clk i")
      case True
      with Cons.prems obtain rej' where
        r: "releaseLoop clk (Suc i) ws = (rej', res, rest)" "rej = w # rej'"
        by (auto split: prod.splits)
      from Cons.IH [OF r(1)] True r(2) show ?thesis by (auto simp: nth_Cons split: nat.splits)
    next
      case False
      with Cons.prems show ?thesis by auto
    qed
  qed auto
  obtain rej res rest where rel: "releaseLoop clk 0 (aqPending q) = (rej, res, rest)"
    by (metis prod_cases3)
  from loop [OF rel] releaseLoop_split [OF rel] assms rel show ?thesis
    by (auto simp: releaseSlot_def split: option.splits)
qed

theorem release_fifo_witness:
  "releaseSlot (\<lambda>_. 50) \<lparr>aqActive = 1, aqPending = [\<lparr>wTask = 1, wDeadline = 40\<rparr>, \<lparr>wTask = 2, wDeadline = 90\<rparr>],
     aqCapacity = 1, aqMaxPending = 5\<rparr> =
   ([\<lparr>wTask = 1, wDeadline = 40\<rparr>], Some \<lparr>wTask = 2, wDeadline = 90\<rparr>,
    \<lparr>aqActive = 1, aqPending = [], aqCapacity = 1, aqMaxPending = 5\<rparr>) \<and> (50 :: int) < 90"
proof -
  have r: "releaseSlot (\<lambda>_. 50) \<lparr>aqActive = 1, aqPending = [\<lparr>wTask = 1, wDeadline = 40\<rparr>, \<lparr>wTask = 2, wDeadline = 90\<rparr>],
     aqCapacity = 1, aqMaxPending = 5\<rparr> =
   ([\<lparr>wTask = 1, wDeadline = 40\<rparr>], Some \<lparr>wTask = 2, wDeadline = 90\<rparr>,
    \<lparr>aqActive = 1, aqPending = [], aqCapacity = 1, aqMaxPending = 5\<rparr>)"
    by (simp add: releaseSlot_def)
  from release_fifo [OF r] r show ?thesis by simp
qed

end
