(* ===== verification/Work_Coordinator.thy ===== *)
theory Work_Coordinator
  imports Admission_Queue "HOL-Library.AList"
begin

text \<open>
  The issuance work coordinator (\<open>apps/issuance/src/issuance-work.coordinator.ts\<close>): the Lua scripts it
  runs in Redis, the permit protocol of \<open>acquireAndRun\<close>, the row guard of bulk issuance and the
  completion counter of a batch.

  A Redis hash is the list of its fields and values (an absent key is the empty list); \<open>HGET\<close>,
  \<open>HSET\<close>, \<open>HDEL\<close> and \<open>HLEN\<close> are \<open>map_of\<close>, \<open>AList.update\<close>, \<open>AList.delete\<close> and \<open>length\<close>. The value
  strings \<open>8\<close>, \<open>r:<ms>\<close> and \<open>active:<ms>\<close> are the constructors of \<open>slot\<close>. Redis runs a script without
  interruption, so a script is one definition; \<open>now\<close> is the server's \<open>TIME\<close> in milliseconds.
\<close>

section \<open>Definitions\<close>

subsection \<open>The Lua scripts\<close>

datatype slot = CapSlot nat | Reserved int | ActiveSince int

type_synonym redis_hash = "(string \<times> slot) list"

definition capacityField :: string where
  "capacityField = ''capacity''"

definition reservationMs :: int where
  "reservationMs = 30000"

definition isExpired :: "int \<Rightarrow> slot \<Rightarrow> bool" where
  "isExpired now v = (case v of Reserved t \<Rightarrow> t \<le> now | _ \<Rightarrow> False)"

definition ACQUIRE :: "int \<Rightarrow> nat \<Rightarrow> string \<Rightarrow> int \<Rightarrow> redis_hash \<Rightarrow> int \<times> redis_hash" where
  "ACQUIRE now cap owner ttl h =
     (let h1 = filter (\<lambda>(k, v). \<not> isExpired now v) h;
          h2 = (if length h1 = 1 then [] else h1);
          capacity = map_of h2 capacityField
      in if capacity \<noteq> None \<and> capacity \<noteq> Some (CapSlot cap) then (-1, h2)
         else if map_of h2 owner \<noteq> None then (1, h2)
         else if cap + 1 \<le> length h2 then (0, h2)
         else (1, AList.update owner (Reserved (now + ttl)) (AList.update capacityField (CapSlot cap) h2)))"

definition ACTIVATE :: "int \<Rightarrow> string \<Rightarrow> redis_hash \<Rightarrow> int \<times> redis_hash" where
  "ACTIVATE now owner h =
     (case map_of h owner of
        Some (Reserved t) \<Rightarrow>
          (if t \<le> now then (0, h) else (1, AList.update owner (ActiveSince now) h))
      | _ \<Rightarrow> (0, h))"

definition RELEASE :: "string \<Rightarrow> redis_hash \<Rightarrow> redis_hash" where
  "RELEASE owner h =
     (let h1 = AList.delete owner h in if length h1 = 1 then [] else h1)"

definition RELEASE_ROW :: "string \<Rightarrow> string \<Rightarrow> (string \<rightharpoonup> string) \<Rightarrow> (string \<rightharpoonup> string)" where
  "RELEASE_ROW key owner m = (if m key = Some owner then m(key := None) else m)"

text \<open>\<open>SADD\<close>, \<open>SCARD\<close> and \<open>EXPIRE\<close> on the set of completed rows of a batch, with the time it expires.\<close>

record completed_set =
  csRows :: "string list"
  csExpires :: "int option"

definition completionTtlMs :: int where
  "completionTtlMs = 604800000"

definition COMPLETE :: "int \<Rightarrow> string \<Rightarrow> int \<Rightarrow> completed_set \<Rightarrow> bool \<times> completed_set" where
  "COMPLETE now rowId rowTotal cs =
     (let live = (case csExpires cs of
                    Some t \<Rightarrow> (if t \<le> now then \<lparr>csRows = [], csExpires = None\<rparr> else cs)
                  | None \<Rightarrow> cs);
          added = (rowId \<notin> set (csRows live));
          rows = (if added then csRows live @ [rowId] else csRows live);
          count = int (length rows)
      in (added \<and> count = rowTotal,
          \<lparr>csRows = rows,
           csExpires = (if rowTotal \<le> count then Some (now + completionTtlMs) else csExpires live)\<rparr>))"

subsection \<open>The permit protocol\<close>

text \<open>\<open>withPermit\<close>: the deadline for admission. \<open>None\<close> stands for \<open>Infinity\<close>.\<close>

record request_ctx =
  rqDeadline :: int
  rqDispatched :: bool

definition interactiveCtx :: "js_value \<Rightarrow> int \<Rightarrow> int \<Rightarrow> int \<Rightarrow> error + request_ctx" where
  "interactiveCtx deadline dateNow dateNow' perfNow =
     (case issuanceDeadline deadline dateNow of
        Inl e \<Rightarrow> Inl e
      | Inr d \<Rightarrow> Inr \<lparr>rqDeadline = perfNow + (d - dateNow'), rqDispatched = False\<rparr>)"

definition permitDeadline :: "bool \<Rightarrow> int \<Rightarrow> request_ctx option \<Rightarrow> int \<Rightarrow> int" where
  "permitDeadline isBulk waitMs request perfNow =
     (let wait = (if isBulk then waitMs else min waitMs interactiveQueueMs)
      in case request of
           Some rq \<Rightarrow> (if \<not> rqDispatched rq then min (perfNow + wait) (rqDeadline rq) else perfNow + wait)
         | None \<Rightarrow> perfNow + wait)"

text \<open>\<open>acquireAndRun\<close> of one owner, between the awaits. \<open>PTry\<close> carries the retry delay.\<close>

datatype permit_phase =
    PIdle
  | PTry int int  \<comment> \<open>deadline, retryDelay: in the \<open>while (!acquired)\<close> loop\<close>
  | PReserved int  \<comment> \<open>left the loop\<close>
  | PActivated int  \<comment> \<open>\<open>ACTIVATE\<close> returned 1\<close>
  | PDispatched  \<comment> \<open>inside \<open>operation()\<close>\<close>
  | PReleasing nat  \<comment> \<open>in the \<open>finally\<close>, this many attempts failed\<close>
  | PEnded
  | PCrashed  \<comment> \<open>the worker process died\<close>

record permit_sys =
  psHash :: redis_hash
  psPhase :: "string \<Rightarrow> permit_phase"

definition nextRetryDelay :: "int \<Rightarrow> int" where
  "nextRetryDelay d = min 50 (d * 2)"

definition sleepTime :: "int \<Rightarrow> int \<Rightarrow> int \<Rightarrow> int" where
  "sleepTime retryDelay deadline perfNow = min retryDelay (max 1 (deadline - perfNow))"

definition afterAcquireScript :: "int \<Rightarrow> int \<Rightarrow> int \<Rightarrow> permit_phase" where
  "afterAcquireScript deadline retryDelay result =
     (if result = -1 then PReleasing 0
      else if result = 1 then PReserved deadline
      else PTry deadline (nextRetryDelay retryDelay))"

text \<open>
  \<open>capOf\<close> is the capacity each owner's worker process was configured with: a worker whose
  \<open>ISSUANCE_GLOBAL_CONCURRENCY\<close> is not accepted by \<open>positiveIntegerSetting\<close> does not start. A failing call
  of a script may or may not have run the script (\<open>lost\<close>), and a worker may die at any point.
\<close>

inductive permit_step :: "(string \<Rightarrow> nat) \<Rightarrow> permit_sys \<Rightarrow> permit_sys \<Rightarrow> bool" for capOf :: "string \<Rightarrow> nat" where
  enter: "psPhase s o' = PIdle \<Longrightarrow> o' \<noteq> capacityField \<Longrightarrow>
    positiveIntegerSetting raw 8 128 = Inr (capOf o') \<Longrightarrow>
    permit_step capOf s (s\<lparr>psPhase := (psPhase s)(o' := PTry deadline 1)\<rparr>)"
| try_acquire: "psPhase s o' = PTry deadline d \<Longrightarrow> perf < deadline \<Longrightarrow>
    ACQUIRE now (capOf o') o' reservationMs (psHash s) = (result, h') \<Longrightarrow>
    permit_step capOf s (s\<lparr>psHash := h', psPhase := (psPhase s)(o' := afterAcquireScript deadline d result)\<rparr>)"
| acquire_lost: "psPhase s o' = PTry deadline d \<Longrightarrow> perf < deadline \<Longrightarrow>
    h' = psHash s \<or> h' = snd (ACQUIRE now (capOf o') o' reservationMs (psHash s)) \<Longrightarrow>
    permit_step capOf s (s\<lparr>psHash := h', psPhase := (psPhase s)(o' := PReleasing 0)\<rparr>)"
| give_up: "psPhase s o' = PTry deadline d \<Longrightarrow> deadline \<le> perf \<Longrightarrow>
    permit_step capOf s (s\<lparr>psPhase := (psPhase s)(o' := PReleasing 0)\<rparr>)"
| activate: "psPhase s o' = PReserved deadline \<Longrightarrow> perf < deadline \<Longrightarrow>
    ACTIVATE now o' (psHash s) = (result, h') \<Longrightarrow>
    permit_step capOf s (s\<lparr>psHash := h',
      psPhase := (psPhase s)(o' := (if result = 1 then PActivated deadline else PReleasing 0))\<rparr>)"
| activate_lost: "psPhase s o' = PReserved deadline \<Longrightarrow> perf < deadline \<Longrightarrow>
    h' = psHash s \<or> h' = snd (ACTIVATE now o' (psHash s)) \<Longrightarrow>
    permit_step capOf s (s\<lparr>psHash := h', psPhase := (psPhase s)(o' := PReleasing 0)\<rparr>)"
| reserved_late: "psPhase s o' = PReserved deadline \<Longrightarrow> deadline \<le> perf \<Longrightarrow>
    permit_step capOf s (s\<lparr>psPhase := (psPhase s)(o' := PReleasing 0)\<rparr>)"
| dispatch: "psPhase s o' = PActivated deadline \<Longrightarrow> perf < deadline \<Longrightarrow>
    permit_step capOf s (s\<lparr>psPhase := (psPhase s)(o' := PDispatched)\<rparr>)"
| activated_late: "psPhase s o' = PActivated deadline \<Longrightarrow> deadline \<le> perf \<Longrightarrow>
    permit_step capOf s (s\<lparr>psPhase := (psPhase s)(o' := PReleasing 0)\<rparr>)"
| finish: "psPhase s o' = PDispatched \<Longrightarrow>
    permit_step capOf s (s\<lparr>psPhase := (psPhase s)(o' := PReleasing 0)\<rparr>)"
| release_done: "psPhase s o' = PReleasing n \<Longrightarrow>
    permit_step capOf s (s\<lparr>psHash := RELEASE o' (psHash s), psPhase := (psPhase s)(o' := PEnded)\<rparr>)"
| release_fails: "psPhase s o' = PReleasing n \<Longrightarrow> h' = psHash s \<or> h' = RELEASE o' (psHash s) \<Longrightarrow>
    permit_step capOf s (s\<lparr>psHash := h',
      psPhase := (psPhase s)(o' := (if n = 2 then PEnded else PReleasing (Suc n)))\<rparr>)"
| crash: "psPhase s o' \<noteq> PIdle \<Longrightarrow>
    permit_step capOf s (s\<lparr>psPhase := (psPhase s)(o' := PCrashed)\<rparr>)"

definition permit_start :: "permit_sys \<Rightarrow> bool" where
  "permit_start s \<longleftrightarrow> s = \<lparr>psHash = [], psPhase = (\<lambda>_. PIdle)\<rparr>"

text \<open>\<open>releasePermit\<close> as a loop: \<open>fails k\<close> says whether the script call of attempt \<open>k\<close> raised, and
  \<open>took k\<close> whether the script took effect nevertheless (the reply was lost).\<close>

function releasePermit :: "(nat \<Rightarrow> bool) \<Rightarrow> (nat \<Rightarrow> bool) \<Rightarrow> nat \<Rightarrow> string \<Rightarrow> redis_hash \<Rightarrow> bool \<times> redis_hash" where
  "releasePermit fails took attempt owner h =
     (if \<not> fails attempt then (True, RELEASE owner h)
      else (let h' = (if took attempt then RELEASE owner h else h)
            in if 2 \<le> attempt then (False, h') else releasePermit fails took (Suc attempt) owner h'))"
  by pat_completeness auto
termination
  by (relation "measure (\<lambda>(fails, took, attempt, owner, h). 3 - attempt)") auto

declare releasePermit.simps [simp del]

subsection \<open>Row guard and completion of bulk issuance\<close>

text \<open>\<open>rowKey\<close>: \<open>digest\<close> stands for the SHA-256 hex digest of the JSON array and \<open>toKey\<close> for the key
  prefixing of the Bull queue.\<close>

definition rowKey :: "(string \<Rightarrow> string) \<Rightarrow> (string list \<Rightarrow> string) \<Rightarrow> string \<Rightarrow> string \<Rightarrow> string \<Rightarrow> string" where
  "rowKey toKey digest orgId fileId rowId =
     toKey (''issuance-row-v1-'' @ digest (map (\<lambda>v. toLowerCase (trim v)) [orgId, fileId, rowId]))"

definition rowBusy :: error where
  "rowBusy = PlainError ''Issuance row is active or has an uncertain outcome; reconcile before retrying''"

text \<open>\<open>guardedRow\<close> in its two synchronous parts: the \<open>SET NX\<close>, and the \<open>finally\<close> after the operation
  reported \<open>result\<close> and whether an offer was dispatched.\<close>

definition rowEnter :: "string \<Rightarrow> string \<Rightarrow> (string \<rightharpoonup> string) \<Rightarrow> (error + unit) \<times> (string \<rightharpoonup> string)" where
  "rowEnter key owner locks =
     (case locks key of
        None \<Rightarrow> (Inr (), locks(key \<mapsto> owner))
      | Some _ \<Rightarrow> (Inl rowBusy, locks))"

definition rowLeave ::
  "string \<Rightarrow> string \<Rightarrow> bool \<Rightarrow> error + bool \<Rightarrow> (string \<rightharpoonup> string) \<Rightarrow> (string \<rightharpoonup> string)" where
  "rowLeave key owner dispatched result locks =
     (let success = (result = Inr True)
      in if success \<or> \<not> dispatched then RELEASE_ROW key owner locks else locks)"

definition guardedRow ::
  "string \<Rightarrow> string \<Rightarrow> bool \<times> (error + bool) \<Rightarrow> (string \<rightharpoonup> string) \<Rightarrow> (error + bool) \<times> (string \<rightharpoonup> string)" where
  "guardedRow key owner operation locks =
     (case rowEnter key owner locks of
        (Inl e, locks') \<Rightarrow> (Inl e, locks')
      | (Inr _, locks') \<Rightarrow>
          (case operation of (dispatched, result) \<Rightarrow> (result, rowLeave key owner dispatched result locks')))"

text \<open>
  The attempts on rows of all workers, interleaved. \<open>rsUncertain\<close> lists the keys of the attempts that
  dispatched an offer and did not report success, because the operation failed or the worker died.
\<close>

datatype row_phase =
    RIdle
  | RRunning string bool  \<comment> \<open>row key, \<open>context.dispatched\<close>\<close>
  | REnded

record row_sys =
  rsLocks :: "string \<rightharpoonup> string"
  rsPhase :: "string \<Rightarrow> row_phase"
  rsUncertain :: "string list"

inductive row_step :: "row_sys \<Rightarrow> row_sys \<Rightarrow> bool" where
  row_starts: "rsPhase s o' = RIdle \<Longrightarrow> rowEnter key o' (rsLocks s) = (Inr (), locks') \<Longrightarrow>
    row_step s (s\<lparr>rsLocks := locks', rsPhase := (rsPhase s)(o' := RRunning key False)\<rparr>)"
| row_refused: "rsPhase s o' = RIdle \<Longrightarrow> rowEnter key o' (rsLocks s) = (Inl e, locks') \<Longrightarrow>
    row_step s (s\<lparr>rsLocks := locks', rsPhase := (rsPhase s)(o' := REnded)\<rparr>)"
| row_dispatches: "rsPhase s o' = RRunning key d \<Longrightarrow>
    row_step s (s\<lparr>rsPhase := (rsPhase s)(o' := RRunning key True)\<rparr>)"
| row_ends: "rsPhase s o' = RRunning key d \<Longrightarrow>
    row_step s (s\<lparr>rsLocks := rowLeave key o' d result (rsLocks s), rsPhase := (rsPhase s)(o' := REnded),
      rsUncertain := (if d \<and> result \<noteq> Inr True then rsUncertain s @ [key] else rsUncertain s)\<rparr>)"
| row_crashes: "rsPhase s o' = RRunning key d \<Longrightarrow>
    row_step s (s\<lparr>rsPhase := (rsPhase s)(o' := REnded),
      rsUncertain := (if d then rsUncertain s @ [key] else rsUncertain s)\<rparr>)"

definition row_start :: "row_sys \<Rightarrow> bool" where
  "row_start s \<longleftrightarrow> s = \<lparr>rsLocks = Map.empty, rsPhase = (\<lambda>_. RIdle), rsUncertain = []\<rparr>"

definition rowsUncertain :: error where
  "rowsUncertain = ConflictException ''Some issuance rows are active or uncertain; reconcile before retrying''"

function assertRetryable :: "(string \<Rightarrow> string) \<Rightarrow> string list \<Rightarrow> nat \<Rightarrow> (string \<rightharpoonup> string) \<Rightarrow> error + unit" where
  "assertRetryable key rowIds offset locks =
     (if offset < length rowIds
      then (let keys = map key (take 2000 (drop offset rowIds))
            in if \<exists>k \<in> set keys. locks k \<noteq> None then Inl rowsUncertain
               else assertRetryable key rowIds (offset + 2000) locks)
      else Inr ())"
  by pat_completeness auto
termination
  by (relation "measure (\<lambda>(key, rowIds, offset, locks). length rowIds - offset)") auto

declare assertRetryable.simps [simp del]

definition emptyCompleted :: completed_set where
  "emptyCompleted = \<lparr>csRows = [], csExpires = None\<rparr>"

definition completedRow ::
  "(string \<Rightarrow> string) \<Rightarrow> int \<Rightarrow> string \<Rightarrow> string \<Rightarrow> int \<Rightarrow> (string \<rightharpoonup> completed_set) \<Rightarrow>
   (error + bool) \<times> (string \<rightharpoonup> completed_set)" where
  "completedRow toKey now batchId rowId rowTotal store =
     (if batchId = [] \<or> rowId = [] \<or> \<not> isSafeInteger rowTotal \<or> rowTotal < 1
      then (Inl (PlainError ''Invalid issuance batch completion metadata''), store)
      else
        (let key = toKey (''issuance-completed-v1-'' @ toLowerCase (trim batchId));
             cs = (case store key of None \<Rightarrow> emptyCompleted | Some c \<Rightarrow> c);
             (finished, cs') = COMPLETE now (toLowerCase (trim rowId)) rowTotal cs
         in (Inr finished, store(key \<mapsto> cs'))))"

text \<open>The results of a series of calls for one batch, each with the time it runs at.\<close>

fun completedRows ::
  "(string \<Rightarrow> string) \<Rightarrow> string \<Rightarrow> int \<Rightarrow> (int \<times> string) list \<Rightarrow> (string \<rightharpoonup> completed_set) \<Rightarrow> (error + bool) list" where
  "completedRows toKey batchId rowTotal [] store = []"
| "completedRows toKey batchId rowTotal ((now, rowId) # calls) store =
     (case completedRow toKey now batchId rowId rowTotal store of
        (r, store') \<Rightarrow> r # completedRows toKey batchId rowTotal calls store')"

section \<open>The capacity hash\<close>

text \<open>
  The shape the scripts keep: the hash is absent, or it records one capacity \<open>c\<close>, at most \<open>c\<close> owners
  beside it, and all of these were configured with \<open>c\<close>.
\<close>

definition hash_ok :: "(string \<Rightarrow> nat) \<Rightarrow> redis_hash \<Rightarrow> bool" where
  "hash_ok capOf h \<longleftrightarrow> distinct (map fst h) \<and>
     (h = [] \<or> (\<exists>c. map_of h capacityField = Some (CapSlot c) \<and> length h \<le> c + 1 \<and>
        (\<forall>k v. map_of h k = Some v \<longrightarrow> k \<noteq> capacityField \<longrightarrow> capOf k = c)))"

lemma hash_okI:
  "distinct (map fst h) \<Longrightarrow> map_of h capacityField = Some (CapSlot c) \<Longrightarrow> length h \<le> c + 1 \<Longrightarrow>
   (\<And>k. map_of h k \<noteq> None \<Longrightarrow> k \<noteq> capacityField \<Longrightarrow> capOf k = c) \<Longrightarrow> hash_ok capOf h"
  unfolding hash_ok_def by blast

lemma hash_okE:
  assumes "hash_ok capOf h" and "h \<noteq> []"
  obtains c where "map_of h capacityField = Some (CapSlot c)" "length h \<le> c + 1" "distinct (map fst h)"
    "\<forall>k. map_of h k \<noteq> None \<longrightarrow> k \<noteq> capacityField \<longrightarrow> capOf k = c"
  using assms unfolding hash_ok_def by blast

lemma hash_ok_distinct: "hash_ok capOf h \<Longrightarrow> distinct (map fst h)"
  by (simp add: hash_ok_def)

lemma length_update_new: "map_of h k = None \<Longrightarrow> length (AList.update k v h) = Suc (length h)"
  by (induction h) (auto split: if_splits)

lemma length_update_old: "map_of h k \<noteq> None \<Longrightarrow> length (AList.update k v h) = length h"
  by (induction h) auto

lemma update_conv_upd: "map_of (AList.update k v h) = (map_of h)(k \<mapsto> v)"
  by (rule AList.update_conv')

lemma distinct_filter_fst: "distinct (map fst h) \<Longrightarrow> distinct (map fst (filter p h))"
  by (simp add: distinct_map_filter)

lemma map_of_filter_Some:
  "distinct (map fst h) \<Longrightarrow>
   map_of (filter (\<lambda>(k, v). p v) h) k = (case map_of h k of None \<Rightarrow> None | Some v \<Rightarrow> if p v then Some v else None)"
proof (induction h)
  case (Cons a h)
  obtain k' v where a: "a = (k', v)" by (cases a)
  from Cons.prems have "k = k' \<Longrightarrow> map_of h k = None" by (auto simp: a map_of_eq_None_iff)
  then show ?case using Cons by (auto simp: a)
qed simp

lemma singleton_hash: "length h = 1 \<Longrightarrow> map_of h k = Some v \<Longrightarrow> h = [(k, v)]"
  by (cases h) (auto split: if_splits)

text \<open>Purging expired reservations, with the \<open>DEL\<close> of a hash that only records the capacity.\<close>

definition purged :: "int \<Rightarrow> redis_hash \<Rightarrow> redis_hash" where
  "purged now h =
     (let h1 = filter (\<lambda>(k, v). \<not> isExpired now v) h in if length h1 = 1 then [] else h1)"

lemma purged_lookup:
  assumes "hash_ok capOf h" and "k \<noteq> capacityField"
  shows "map_of (purged now h) k =
    (case map_of h k of None \<Rightarrow> None | Some v \<Rightarrow> if isExpired now v then None else Some v)"
proof -
  let ?h1 = "filter (\<lambda>(k, v). \<not> isExpired now v) h"
  have d: "distinct (map fst h)" using assms(1) by (rule hash_ok_distinct)
  have lk: "map_of ?h1 j = (case map_of h j of None \<Rightarrow> None | Some v \<Rightarrow> if isExpired now v then None else Some v)" for j
    using map_of_filter_Some [OF d, of "\<lambda>v. \<not> isExpired now v" j] by (auto split: option.splits)
  show ?thesis
  proof (cases "length ?h1 = 1")
    case True
    then have "h \<noteq> []" by auto
    with assms(1) obtain c where "map_of h capacityField = Some (CapSlot c)" by (rule hash_okE)
    then have "map_of ?h1 capacityField = Some (CapSlot c)" by (simp add: lk) (simp add: isExpired_def)
    with True have "?h1 = [(capacityField, CapSlot c)]" by (rule singleton_hash)
    then have "map_of ?h1 k = None" using assms(2) by simp
    then show ?thesis using True lk [of k] by (simp add: purged_def)
  next
    case False
    then show ?thesis by (simp add: purged_def lk)
  qed
qed

lemma purged_ok:
  assumes "hash_ok capOf h"
  shows "hash_ok capOf (purged now h)"
proof (cases "purged now h = []")
  case True
  then show ?thesis by (simp add: hash_ok_def)
next
  case False
  let ?h1 = "filter (\<lambda>(k, v). \<not> isExpired now v) h"
  have p: "purged now h = ?h1" using False by (auto simp: purged_def Let_def split: if_splits)
  from False have "h \<noteq> []" by (auto simp: purged_def)
  with assms obtain c where c: "map_of h capacityField = Some (CapSlot c)" "length h \<le> c + 1"
    and d: "distinct (map fst h)" and own: "\<forall>k. map_of h k \<noteq> None \<longrightarrow> k \<noteq> capacityField \<longrightarrow> capOf k = c"
    by (rule hash_okE)
  note lk = map_of_filter_Some [OF d, of "\<lambda>v. \<not> isExpired now v"]
  show ?thesis unfolding p
  proof (rule hash_okI)
    show "distinct (map fst ?h1)" using d by (rule distinct_filter_fst)
    show "map_of ?h1 capacityField = Some (CapSlot c)" by (simp add: lk c) (simp add: isExpired_def)
    show "length ?h1 \<le> c + 1" using c(2) length_filter_le le_trans by blast
    show "capOf k = c" if "map_of ?h1 k \<noteq> None" "k \<noteq> capacityField" for k
      using that own by (auto simp: lk split: option.splits if_splits)
  qed
qed

text \<open>The owners left after purging, and their number.\<close>

lemma purged_owners:
  fixes now :: int
  assumes ok: "hash_ok capOf h"
  defines "live \<equiv> {k. k \<noteq> capacityField \<and> (\<exists>v. map_of h k = Some v \<and> \<not> isExpired now v)}"
  shows "(if live = {} then purged now h = []
    else purged now h \<noteq> [] \<and> length (purged now h) = card live + 1 \<and>
      map_of (purged now h) capacityField = map_of h capacityField \<and> map_of h capacityField \<noteq> None)"
proof (cases "purged now h = []")
  case True
  then have "live = {}" using purged_lookup [OF ok, where now = now] by (fastforce simp: live_def)
  with True show ?thesis by simp
next
  case False
  let ?p = "purged now h"
  have p: "?p = filter (\<lambda>(k, v). \<not> isExpired now v) h" and one: "length ?p \<noteq> 1"
    using False by (auto simp: purged_def Let_def split: if_splits)
  from False have "h \<noteq> []" by (auto simp: purged_def)
  with ok obtain c where c: "map_of h capacityField = Some (CapSlot c)" by (rule hash_okE)
  from purged_ok [OF ok] False obtain c' where c': "map_of ?p capacityField = Some (CapSlot c')"
    by (rule hash_okE)
  have d: "distinct (map fst ?p)" using purged_ok [OF ok] by (rule hash_ok_distinct)
  have cap: "map_of ?p capacityField = map_of h capacityField"
    using map_of_filter_Some [OF hash_ok_distinct [OF ok], of "\<lambda>v. \<not> isExpired now v" capacityField] c c'
    by (simp add: p split: if_splits)
  have keys: "k \<in> fst ` set ?p \<longleftrightarrow> map_of ?p k \<noteq> None" for k
    by (simp add: map_of_eq_None_iff)
  have "k \<in> fst ` set ?p - {capacityField} \<longleftrightarrow> k \<in> live" for k
    unfolding live_def Diff_iff keys
    by (cases "k = capacityField") (auto simp: purged_lookup [OF ok] split: option.splits)
  then have live: "live = fst ` set ?p - {capacityField}" by blast
  have "capacityField \<in> fst ` set ?p" using c' by (simp add: keys)
  then have "card live = card (fst ` set ?p) - 1" unfolding live by (simp add: card_Diff_singleton)
  also have "card (fst ` set ?p) = length ?p" using distinct_card [OF d] by simp
  finally have len: "length ?p = card live + 1" using False by (cases ?p) simp_all
  from len one have "live \<noteq> {}" by auto
  then show ?thesis using False len cap c by simp
qed

lemma ACQUIRE_purged:
  "ACQUIRE now cap owner ttl h =
     (let h2 = purged now h; capacity = map_of h2 capacityField
      in if capacity \<noteq> None \<and> capacity \<noteq> Some (CapSlot cap) then (-1, h2)
         else if map_of h2 owner \<noteq> None then (1, h2)
         else if cap + 1 \<le> length h2 then (0, h2)
         else (1, AList.update owner (Reserved (now + ttl)) (AList.update capacityField (CapSlot cap) h2)))"
  by (simp add: ACQUIRE_def purged_def Let_def)

lemma ACQUIRE_ok:
  assumes ok: "hash_ok capOf h" and owner: "owner \<noteq> capacityField" and pos: "0 < capOf owner"
    and run: "ACQUIRE now (capOf owner) owner ttl h = (r, h')"
  shows "hash_ok capOf h'"
proof -
  let ?h2 = "purged now h"
  let ?c = "AList.update capacityField (CapSlot (capOf owner)) ?h2"
  have ok2: "hash_ok capOf ?h2" using ok by (rule purged_ok)
  consider (same) "h' = ?h2"
    | (add) "h' = AList.update owner (Reserved (now + ttl)) ?c"
        "map_of ?h2 capacityField = None \<or> map_of ?h2 capacityField = Some (CapSlot (capOf owner))"
        "map_of ?h2 owner = None" "length ?h2 \<le> capOf owner"
    using run by (auto simp: ACQUIRE_purged Let_def split: if_splits)
  then show ?thesis
  proof cases
    case same
    with ok2 show ?thesis by simp
  next
    case add
    have m: "map_of h' = (map_of ?h2)(capacityField \<mapsto> CapSlot (capOf owner), owner \<mapsto> Reserved (now + ttl))"
      by (simp add: add(1) update_conv_upd)
    have len: "length h' = Suc (length ?c)"
      unfolding add(1) by (rule length_update_new) (use add(3) owner in \<open>simp add: update_conv_upd\<close>)
    have old: "length ?c \<le> capOf owner \<and> (\<forall>k. map_of ?h2 k \<noteq> None \<longrightarrow> k \<noteq> capacityField \<longrightarrow> capOf k = capOf owner)"
    proof (cases "?h2 = []")
      case True
      then show ?thesis using pos by simp
    next
      case False
      with ok2 obtain c where c: "map_of ?h2 capacityField = Some (CapSlot c)"
        and own: "\<forall>k. map_of ?h2 k \<noteq> None \<longrightarrow> k \<noteq> capacityField \<longrightarrow> capOf k = c"
        by (rule hash_okE)
      from c add(2) have "c = capOf owner" by simp
      then show ?thesis using c own add(4) by (auto simp: length_update_old)
    qed
    show ?thesis
    proof (rule hash_okI)
      show "distinct (map fst h')"
        unfolding add(1) by (intro AList.distinct_update hash_ok_distinct [OF ok2])
      show "map_of h' capacityField = Some (CapSlot (capOf owner))" using owner by (simp add: m)
      show "length h' \<le> capOf owner + 1" using len old by simp
      show "capOf k = capOf owner" if "map_of h' k \<noteq> None" "k \<noteq> capacityField" for k
        using that old by (cases "k = owner") (auto simp: m)
    qed
  qed
qed

lemma ACTIVATE_ok:
  assumes ok: "hash_ok capOf h" and run: "ACTIVATE now owner h = (r, h')"
  shows "hash_ok capOf h'"
proof (cases "h' = h")
  case False
  then obtain t where t: "map_of h owner = Some (Reserved t)" and h': "h' = AList.update owner (ActiveSince now) h"
    using run by (auto simp: ACTIVATE_def split: option.splits slot.splits if_splits)
  then have "h \<noteq> []" by auto
  with ok obtain c where c: "map_of h capacityField = Some (CapSlot c)" "length h \<le> c + 1"
    and d: "distinct (map fst h)" and own: "\<forall>k. map_of h k \<noteq> None \<longrightarrow> k \<noteq> capacityField \<longrightarrow> capOf k = c"
    by (rule hash_okE)
  have ne: "owner \<noteq> capacityField" using t c(1) by auto
  show ?thesis unfolding h'
  proof (rule hash_okI)
    show "distinct (map fst (AList.update owner (ActiveSince now) h))" using d by (rule AList.distinct_update)
    show "map_of (AList.update owner (ActiveSince now) h) capacityField = Some (CapSlot c)"
      using c(1) ne by (simp add: update_conv_upd)
    show "length (AList.update owner (ActiveSince now) h) \<le> c + 1"
      using c(2) t by (simp add: length_update_old)
    show "capOf k = c" if "map_of (AList.update owner (ActiveSince now) h) k \<noteq> None" "k \<noteq> capacityField" for k
      using that own t ne by (cases "k = owner") (auto simp: update_conv_upd)
  qed
qed (use ok in simp)

lemma RELEASE_lookup:
  assumes "hash_ok capOf h" and "k \<noteq> capacityField" and "owner \<noteq> capacityField"
  shows "map_of (RELEASE owner h) k = (if k = owner then None else map_of h k)"
proof (cases "length (AList.delete owner h) = 1")
  case True
  then have "h \<noteq> []" by auto
  with assms(1) obtain c where "map_of h capacityField = Some (CapSlot c)" by (rule hash_okE)
  then have "map_of (AList.delete owner h) capacityField = Some (CapSlot c)"
    using assms(3) by (simp add: AList.delete_conv')
  with True have "AList.delete owner h = [(capacityField, CapSlot c)]" by (rule singleton_hash)
  then have "map_of (AList.delete owner h) k = None" using assms(2) by simp
  with True show ?thesis by (auto simp: RELEASE_def AList.delete_conv' split: if_splits)
qed (simp add: RELEASE_def AList.delete_conv')

lemma RELEASE_ok:
  assumes ok: "hash_ok capOf h" and owner: "owner \<noteq> capacityField"
  shows "hash_ok capOf (RELEASE owner h)"
proof (cases "RELEASE owner h = []")
  case False
  then have r: "RELEASE owner h = AList.delete owner h" by (auto simp: RELEASE_def Let_def split: if_splits)
  from False have "h \<noteq> []" by (auto simp: RELEASE_def)
  with ok obtain c where c: "map_of h capacityField = Some (CapSlot c)" "length h \<le> c + 1"
    and d: "distinct (map fst h)" and own: "\<forall>k. map_of h k \<noteq> None \<longrightarrow> k \<noteq> capacityField \<longrightarrow> capOf k = c"
    by (rule hash_okE)
  show ?thesis unfolding r
  proof (rule hash_okI)
    show "distinct (map fst (AList.delete owner h))" using d by (rule AList.distinct_delete)
    show "map_of (AList.delete owner h) capacityField = Some (CapSlot c)"
      using c(1) owner by (simp add: AList.delete_conv')
    show "length (AList.delete owner h) \<le> c + 1" using c(2) AList.length_delete_le [of owner h] by (rule le_trans [rotated])
    show "capOf k = c" if "map_of (AList.delete owner h) k \<noteq> None" "k \<noteq> capacityField" for k
      using that own by (auto simp: AList.delete_conv' split: if_splits)
  qed
qed (simp add: hash_ok_def)

section \<open>The permit invariant\<close>

text \<open>An owner that activated its reservation holds an active slot until it releases it.\<close>

definition pinned :: "permit_phase \<Rightarrow> bool" where
  "pinned p \<longleftrightarrow> p = PDispatched \<or> (\<exists>d. p = PActivated d)"

definition permit_inv :: "(string \<Rightarrow> nat) \<Rightarrow> permit_sys \<Rightarrow> bool" where
  "permit_inv capOf s \<longleftrightarrow> hash_ok capOf (psHash s) \<and>
     (\<forall>k. psPhase s k \<noteq> PIdle \<longrightarrow> k \<noteq> capacityField \<and> 0 < capOf k) \<and>
     (\<forall>k. pinned (psPhase s k) \<longrightarrow> (\<exists>t. map_of (psHash s) k = Some (ActiveSince t)))"

lemma pinned_simps [simp]:
  "\<not> pinned PIdle" "\<not> pinned (PTry d r)" "\<not> pinned (PReserved d)" "pinned (PActivated d)"
  "pinned PDispatched" "\<not> pinned (PReleasing n)" "\<not> pinned PEnded" "\<not> pinned PCrashed"
  "\<not> pinned (afterAcquireScript d r x)"
  by (auto simp: pinned_def afterAcquireScript_def)

lemma permit_invD:
  assumes "permit_inv capOf s" and "psPhase s k \<noteq> PIdle"
  shows "hash_ok capOf (psHash s)" and "k \<noteq> capacityField" and "0 < capOf k"
  using assms by (simp_all add: permit_inv_def)

lemma permit_inv_pinned:
  "permit_inv capOf s \<Longrightarrow> pinned (psPhase s k) \<Longrightarrow> \<exists>t. map_of (psHash s) k = Some (ActiveSince t)"
  by (simp add: permit_inv_def)

text \<open>The rule behind every case: a step of owner \<open>o'\<close> that keeps the shape of the hash and the active
  slots of the other owners keeps the invariant.\<close>

lemma permit_inv_owner:
  assumes inv: "permit_inv capOf s" and o': "psPhase s o' \<noteq> PIdle"
    and ok: "hash_ok capOf h'"
    and others: "\<And>k t. k \<noteq> o' \<Longrightarrow> k \<noteq> capacityField \<Longrightarrow> map_of (psHash s) k = Some (ActiveSince t) \<Longrightarrow>
      map_of h' k = Some (ActiveSince t)"
    and own: "pinned p \<Longrightarrow> \<exists>t. map_of h' o' = Some (ActiveSince t)"
  shows "permit_inv capOf (s\<lparr>psHash := h', psPhase := (psPhase s)(o' := p)\<rparr>)"
proof -
  have "\<exists>t. map_of h' k = Some (ActiveSince t)" if "pinned (psPhase s k)" "k \<noteq> o'" for k
  proof -
    from that(1) have "psPhase s k \<noteq> PIdle" by auto
    then show ?thesis using inv that others [of k] by (auto simp: permit_inv_def)
  qed
  moreover note permit_invD [OF inv o']
  ultimately show ?thesis
    using inv ok own by (auto simp: permit_inv_def)
qed

lemma permit_inv_phase:
  assumes "permit_inv capOf s" and "psPhase s o' \<noteq> PIdle" and "pinned p \<Longrightarrow> pinned (psPhase s o')"
  shows "permit_inv capOf (s\<lparr>psPhase := (psPhase s)(o' := p)\<rparr>)"
  using permit_inv_owner [OF assms(1,2) permit_invD(1) [OF assms(1,2)], of p] assms
  by (auto simp: permit_inv_def)

lemma ACQUIRE_keeps_active:
  assumes "hash_ok capOf h" and "k \<noteq> capacityField" and "k \<noteq> owner"
    and "map_of h k = Some (ActiveSince t)" and "ACQUIRE now cap owner ttl h = (r, h')"
  shows "map_of h' k = Some (ActiveSince t)"
proof -
  have "map_of (purged now h) k = Some (ActiveSince t)"
    using assms(4) by (simp add: purged_lookup [OF assms(1,2)] isExpired_def)
  then show ?thesis
    using assms by (auto simp: ACQUIRE_purged Let_def update_conv_upd split: if_splits)
qed

lemma ACTIVATE_effect:
  "ACTIVATE now owner h = (r, h') \<Longrightarrow>
   (k \<noteq> owner \<longrightarrow> map_of h' k = map_of h k) \<and> (r = 1 \<longrightarrow> map_of h' owner = Some (ActiveSince now))"
  by (auto simp: ACTIVATE_def update_conv_upd split: option.splits slot.splits if_splits)

lemma permit_inv_acquire:
  assumes inv: "permit_inv capOf s" and o': "psPhase s o' \<noteq> PIdle" and p: "\<not> pinned p"
    and run: "ACQUIRE now (capOf o') o' ttl (psHash s) = (r, h')"
  shows "permit_inv capOf (s\<lparr>psHash := h', psPhase := (psPhase s)(o' := p)\<rparr>)"
proof (rule permit_inv_owner [OF inv o'])
  show "hash_ok capOf h'" by (rule ACQUIRE_ok [OF permit_invD [OF inv o'] run])
qed (use p ACQUIRE_keeps_active [OF permit_invD(1) [OF inv o'] _ _ _ run] in auto)

lemma permit_inv_activate:
  assumes inv: "permit_inv capOf s" and o': "psPhase s o' \<noteq> PIdle" and p: "pinned p \<Longrightarrow> r = 1"
    and run: "ACTIVATE now o' (psHash s) = (r, h')"
  shows "permit_inv capOf (s\<lparr>psHash := h', psPhase := (psPhase s)(o' := p)\<rparr>)"
proof (rule permit_inv_owner [OF inv o'])
  show "hash_ok capOf h'" by (rule ACTIVATE_ok [OF permit_invD(1) [OF inv o'] run])
qed (use p ACTIVATE_effect [OF run] in auto)

lemma permit_inv_release:
  assumes inv: "permit_inv capOf s" and o': "psPhase s o' \<noteq> PIdle" and p: "\<not> pinned p"
  shows "permit_inv capOf (s\<lparr>psHash := RELEASE o' (psHash s), psPhase := (psPhase s)(o' := p)\<rparr>)"
  using p RELEASE_ok [OF permit_invD(1,2) [OF inv o']]
    RELEASE_lookup [OF permit_invD(1) [OF inv o'] _ permit_invD(2) [OF inv o']]
  by (intro permit_inv_owner [OF inv o']) auto

lemma permit_inv_keep:
  assumes "permit_inv capOf s" and "psPhase s o' \<noteq> PIdle" and "\<not> pinned p"
  shows "permit_inv capOf (s\<lparr>psHash := psHash s, psPhase := (psPhase s)(o' := p)\<rparr>)"
  using permit_inv_phase [OF assms(1,2), of p] assms(3) by simp

lemma configured_capacity_pos: "positiveIntegerSetting raw 8 128 = Inr n \<Longrightarrow> 0 < n"
  by (auto simp: positiveIntegerSetting_def dest: decimalValue_pos split: option.splits if_splits)

interpretation permits: invariant_system permit_start "permit_step capOf" "permit_inv capOf" for capOf
proof unfold_locales
  show "permit_start s \<Longrightarrow> permit_inv capOf s" for s
    by (simp add: permit_start_def permit_inv_def hash_ok_def)
next
  fix s t
  assume inv: "permit_inv capOf s" and step: "permit_step capOf s t"
  from step show "permit_inv capOf t"
  proof cases
    case (enter o' raw deadline)
    then show ?thesis using inv by (auto simp: permit_inv_def dest: configured_capacity_pos)
  next
    case (try_acquire o' deadline d perf now result h')
    then show ?thesis by (auto intro: permit_inv_acquire [OF inv])
  next
    case (acquire_lost o' deadline d perf h' now)
    obtain r h'' where run: "ACQUIRE now (capOf o') o' reservationMs (psHash s) = (r, h'')" by fastforce
    with acquire_lost show ?thesis
      by (auto intro: permit_inv_acquire [OF inv _ _ run] permit_inv_keep [OF inv] simp del: fun_upd_apply)
  next
    case (activate o' deadline perf now result h')
    then show ?thesis by (auto intro!: permit_inv_activate [OF inv _ _ activate(4)] split: if_splits)
  next
    case (activate_lost o' deadline perf h' now)
    obtain r h'' where run: "ACTIVATE now o' (psHash s) = (r, h'')" by fastforce
    with activate_lost show ?thesis
      by (auto intro: permit_inv_activate [OF inv _ _ run] permit_inv_keep [OF inv] simp del: fun_upd_apply)
  next
    case (release_done o' n)
    then show ?thesis by (auto intro: permit_inv_release [OF inv])
  next
    case (release_fails o' n h')
    then show ?thesis
      by (auto intro: permit_inv_release [OF inv] permit_inv_keep [OF inv] simp del: fun_upd_apply)
  qed (use inv in \<open>auto intro!: permit_inv_phase\<close>)
qed

section \<open>Rows and batches\<close>

definition row_inv :: "row_sys \<Rightarrow> bool" where
  "row_inv s \<longleftrightarrow>
     (\<forall>k key d. rsPhase s k = RRunning key d \<longrightarrow> rsLocks s key = Some k) \<and>
     (\<forall>key \<in> set (rsUncertain s). \<exists>k. rsLocks s key = Some k \<and> rsPhase s k = REnded) \<and>
     distinct (rsUncertain s)"

lemma row_inv_running: "row_inv s \<Longrightarrow> rsPhase s k = RRunning key d \<Longrightarrow> rsLocks s key = Some k"
  by (simp add: row_inv_def)

lemma row_inv_uncertain_fresh:
  "row_inv s \<Longrightarrow> rsPhase s k = RRunning key d \<Longrightarrow> key \<notin> set (rsUncertain s)"
  by (force simp: row_inv_def)

lemma row_inv_end:
  assumes inv: "row_inv s" and run: "rsPhase s k = RRunning key d"
  shows "row_inv (s\<lparr>rsLocks := rowLeave key k d result (rsLocks s), rsPhase := (rsPhase s)(k := REnded),
      rsUncertain := (if d \<and> result \<noteq> Inr True then rsUncertain s @ [key] else rsUncertain s)\<rparr>)"
proof -
  note lock = row_inv_running [OF inv run] and fresh = row_inv_uncertain_fresh [OF inv run]
  show ?thesis
  proof (cases "d \<and> result \<noteq> Inr True")
    case True
    then have "rowLeave key k d result (rsLocks s) = rsLocks s" by (simp add: rowLeave_def)
    then show ?thesis using inv True lock fresh by (auto simp: row_inv_def)
  next
    case False
    then have r: "rowLeave key k d result (rsLocks s) = (rsLocks s)(key := None)"
      using lock by (auto simp: rowLeave_def RELEASE_ROW_def)
    have "key' \<noteq> key" if "rsPhase s j = RRunning key' d'" "j \<noteq> k" for j key' d'
      using row_inv_running [OF inv that(1)] lock that(2) by auto
    moreover have "rsUncertain s = (if d \<and> result \<noteq> Inr True then rsUncertain s @ [key] else rsUncertain s)"
      using False by auto
    ultimately show ?thesis using inv fresh unfolding r by (fastforce simp: row_inv_def)
  qed
qed

lemma row_inv_begin:
  assumes inv: "row_inv s" and idle: "rsPhase s k = RIdle" and free: "rsLocks s key = None"
  shows "row_inv (s\<lparr>rsLocks := (rsLocks s)(key \<mapsto> k), rsPhase := (rsPhase s)(k := RRunning key False)\<rparr>)"
proof -
  have "key' \<noteq> key" if "rsPhase s j = RRunning key' d" for j key' d
    using row_inv_running [OF inv that] free by auto
  moreover have "\<exists>j. j \<noteq> k \<and> key' \<noteq> key \<and> rsLocks s key' = Some j \<and> rsPhase s j = REnded"
    if "key' \<in> set (rsUncertain s)" for key'
    using inv that idle free by (force simp: row_inv_def)
  ultimately show ?thesis using inv by (auto simp: row_inv_def) metis
qed

interpretation row_runs: invariant_system row_start row_step row_inv
proof unfold_locales
  show "row_start s \<Longrightarrow> row_inv s" for s by (simp add: row_start_def row_inv_def)
next
  fix s t
  assume inv: "row_inv s" and step: "row_step s t"
  from step show "row_inv t"
  proof cases
    case (row_starts o' key locks')
    then show ?thesis using row_inv_begin [OF inv] by (auto simp: rowEnter_def split: option.splits)
  next
    case (row_refused o' key e locks')
    then show ?thesis using inv by (auto simp: row_inv_def rowEnter_def split: option.splits)
  next
    case (row_dispatches o' key d)
    then show ?thesis using inv by (auto simp: row_inv_def) (metis row_phase.distinct(5))
  next
    case (row_ends o' key d result)
    then show ?thesis using row_inv_end [OF inv] by simp
  next
    case (row_crashes o' key d)
    then show ?thesis
      using inv row_inv_running [OF inv row_crashes(2)] row_inv_uncertain_fresh [OF inv row_crashes(2)]
      by (auto simp: row_inv_def)
  qed
qed

lemma assertRetryable_from:
  "assertRetryable key rowIds offset locks = Inr () \<longleftrightarrow> (\<forall>r \<in> set (drop offset rowIds). locks (key r) = None)"
proof (induction key rowIds offset locks rule: assertRetryable.induct)
  case (1 key rowIds offset locks)
  have split: "set (drop offset rowIds) = set (take 2000 (drop offset rowIds)) \<union> set (drop (offset + 2000) rowIds)"
    by (metis append_take_drop_id drop_drop add.commute set_append)
  show ?case
  proof (cases "offset < length rowIds \<and> (\<forall>k \<in> set (map key (take 2000 (drop offset rowIds))). locks k = None)")
    case True
    then show ?thesis
      using "1" unfolding split by (subst assertRetryable.simps) auto
  next
    case False
    then show ?thesis
      unfolding split by (subst assertRetryable.simps) auto
  qed
qed

lemma assertRetryable_result:
  "assertRetryable key rowIds offset locks = Inr () \<or> assertRetryable key rowIds offset locks = Inl rowsUncertain"
proof (induction key rowIds offset locks rule: assertRetryable.induct)
  case (1 key rowIds offset locks)
  then show ?case by (subst (1 2) assertRetryable.simps) (auto simp: Let_def)
qed

lemma le_2_cases: "(\<exists>j \<le> (2 :: nat). P j) \<longleftrightarrow> P 0 \<or> P 1 \<or> P 2"
  by (auto simp: le_Suc_eq numeral_2_eq_2)

lemma RELEASE_lookup2:
  assumes "hash_ok capOf h" and "k \<noteq> capacityField" and "owner \<noteq> capacityField"
  shows "map_of (RELEASE owner (RELEASE owner h)) k = map_of (RELEASE owner h) k"
  using RELEASE_lookup [OF RELEASE_ok [OF assms(1,3)] assms(2,3)] RELEASE_lookup [OF assms] by simp

lemma releasePermit_0:
  "releasePermit fails took 0 owner h =
     (let h1 = (if took 0 then RELEASE owner h else h);
          h2 = (if took 1 then RELEASE owner h1 else h1);
          h3 = (if took 2 then RELEASE owner h2 else h2)
      in if \<not> fails 0 then (True, RELEASE owner h)
         else if \<not> fails 1 then (True, RELEASE owner h1)
         else if \<not> fails 2 then (True, RELEASE owner h2)
         else (False, h3))"
  by (simp add: releasePermit.simps [of _ _ 0] releasePermit.simps [of _ _ "Suc 0"]
      releasePermit.simps [of _ _ "Suc (Suc 0)"] Let_def numeral_2_eq_2)

text \<open>A batch between two calls: the set of completed rows, without an expiry before \<open>limit\<close>.\<close>

definition batch_ok :: "int \<Rightarrow> int \<Rightarrow> completed_set \<Rightarrow> bool" where
  "batch_ok limit rowTotal cs \<longleftrightarrow> distinct (csRows cs) \<and> (\<forall>e. csExpires cs = Some e \<longrightarrow> limit \<le> e)"

lemma COMPLETE_live:
  assumes ok: "batch_ok limit rowTotal cs" and now: "now < limit" "limit \<le> now + completionTtlMs"
    and run: "COMPLETE now row rowTotal cs = (finished, cs')"
  shows "batch_ok limit rowTotal cs'" and "set (csRows cs') = insert row (set (csRows cs))"
    and "finished \<longleftrightarrow> row \<notin> set (csRows cs) \<and> int (card (insert row (set (csRows cs)))) = rowTotal"
proof -
  have live: "(case csExpires cs of Some t \<Rightarrow> (if t \<le> now then \<lparr>csRows = [], csExpires = None\<rparr> else cs) | None \<Rightarrow> cs) = cs"
    using ok now(1) by (auto simp: batch_ok_def split: option.splits)
  have eq: "cs' = \<lparr>csRows = (if row \<in> set (csRows cs) then csRows cs else csRows cs @ [row]),
      csExpires = csExpires cs'\<rparr>" "csExpires cs' = csExpires cs \<or> csExpires cs' = Some (now + completionTtlMs)"
    "finished \<longleftrightarrow> row \<notin> set (csRows cs) \<and> int (Suc (length (csRows cs))) = rowTotal"
    using run by (auto simp: COMPLETE_def live Let_def split: if_splits)
  have dist: "distinct (csRows cs)" using ok by (simp add: batch_ok_def)
  show "batch_ok limit rowTotal cs'"
    using ok eq(2) now(2) dist unfolding batch_ok_def by (subst eq(1)) auto
  show "set (csRows cs') = insert row (set (csRows cs))" by (subst eq(1)) auto
  show "finished \<longleftrightarrow> row \<notin> set (csRows cs) \<and> int (card (insert row (set (csRows cs)))) = rowTotal"
    using eq(3) distinct_card [OF dist] by auto
qed

definition normalId :: "string \<Rightarrow> string" where
  "normalId v = toLowerCase (trim v)"

definition batchKey :: "(string \<Rightarrow> string) \<Rightarrow> string \<Rightarrow> string" where
  "batchKey toKey batchId = toKey (''issuance-completed-v1-'' @ normalId batchId)"

lemma completedRow_valid:
  assumes "batchId \<noteq> []" "rowId \<noteq> []" "isSafeInteger rowTotal" "1 \<le> rowTotal"
    and "COMPLETE now (normalId rowId) rowTotal
      (case store (batchKey toKey batchId) of None \<Rightarrow> emptyCompleted | Some c \<Rightarrow> c) = (finished, cs')"
  shows "completedRow toKey now batchId rowId rowTotal store =
    (Inr finished, store(batchKey toKey batchId \<mapsto> cs'))"
  using assms by (simp add: completedRow_def normalId_def batchKey_def)

lemma completedRows_count:
  assumes "batchId \<noteq> []" "isSafeInteger rowTotal" "1 \<le> rowTotal"
    and "\<And>t r. (t, r) \<in> set calls \<Longrightarrow> r \<noteq> [] \<and> t < limit \<and> limit \<le> t + completionTtlMs"
    and "cs = (case store (batchKey toKey batchId) of None \<Rightarrow> emptyCompleted | Some c \<Rightarrow> c)"
    and "batch_ok limit rowTotal cs"
  shows "count_list (completedRows toKey batchId rowTotal calls store) (Inr True) =
      (if int (card (set (csRows cs))) < rowTotal \<and>
          rowTotal \<le> int (card (set (csRows cs) \<union> normalId ` snd ` set calls)) then 1 else 0) \<and>
    (\<forall>r \<in> set (completedRows toKey batchId rowTotal calls store). \<exists>b. r = Inr b)"
  using assms(4-)
proof (induction calls arbitrary: store cs)
  case Nil
  then show ?case by simp
next
  case (Cons call calls)
  obtain now rowId where call: "call = (now, rowId)" by (cases call)
  obtain finished cs' where run: "COMPLETE now (normalId rowId) rowTotal cs = (finished, cs')" by fastforce
  have t: "rowId \<noteq> []" "now < limit" "limit \<le> now + completionTtlMs"
    using Cons.prems(1) [of now rowId] by (simp_all add: call)
  note live = COMPLETE_live [OF Cons.prems(3) t(2,3) run]
  let ?store' = "store(batchKey toKey batchId \<mapsto> cs')"
  have step: "completedRow toKey now batchId rowId rowTotal store = (Inr finished, ?store')"
    by (rule completedRow_valid [OF assms(1) t(1) assms(2,3)]) (use run Cons.prems(2) in simp)
  have IH: "count_list (completedRows toKey batchId rowTotal calls ?store') (Inr True) =
      (if int (card (set (csRows cs'))) < rowTotal \<and>
          rowTotal \<le> int (card (set (csRows cs') \<union> normalId ` snd ` set calls)) then 1 else 0) \<and>
    (\<forall>r \<in> set (completedRows toKey batchId rowTotal calls ?store'). \<exists>b. r = Inr b)"
    by (rule Cons.IH) (use Cons.prems(1) live(1) in auto)
  have un: "set (csRows cs') \<union> normalId ` snd ` set calls =
      set (csRows cs) \<union> normalId ` snd ` set (call # calls)"
    by (auto simp: live(2) call)
  have le: "card (set (csRows cs')) \<le> card (set (csRows cs') \<union> normalId ` snd ` set calls)"
    by (intro card_mono) auto
  have card': "card (set (csRows cs')) = (if normalId rowId \<in> set (csRows cs) then card (set (csRows cs))
      else Suc (card (set (csRows cs))))"
    by (simp add: live(2) card_insert_if)
  have fin: "finished \<longleftrightarrow> normalId rowId \<notin> set (csRows cs) \<and> int (Suc (card (set (csRows cs)))) = rowTotal"
    using live(3) by (auto simp: card_insert_if)
  have unfold: "completedRows toKey batchId rowTotal (call # calls) store =
      Inr finished # completedRows toKey batchId rowTotal calls ?store'"
    by (simp only: call completedRows.simps step prod.case)
  have "count_list (completedRows toKey batchId rowTotal (call # calls) store) (Inr True) =
      (if finished then 1 else 0) + count_list (completedRows toKey batchId rowTotal calls ?store') (Inr True)"
    unfolding unfold by simp
  also have "\<dots> = (if int (card (set (csRows cs))) < rowTotal \<and>
      rowTotal \<le> int (card (set (csRows cs) \<union> normalId ` snd ` set (call # calls))) then 1 else 0)"
    unfolding IH [THEN conjunct1] un fin using le [unfolded un] card' by (auto split: if_splits)
  finally show ?case using IH unfolding unfold by auto
qed

section \<open>Properties\<close>

text \<open>
  C2. Across all workers sharing the Redis hash, and whatever calls fail or workers die, the number of
  operations that run at the same time is at most the capacity recorded in the hash, and every
  running operation belongs to a worker configured with exactly that capacity: two workers with
  different settings never dispatch at the same time.
\<close>

theorem permit_capacity:
  assumes "reachable_from permit_start (permit_step capOf) s"
    and "psPhase s k = PDispatched"
  shows "map_of (psHash s) capacityField = Some (CapSlot (capOf k)) \<and>
    finite {j. psPhase s j = PDispatched} \<and> card {j. psPhase s j = PDispatched} \<le> capOf k \<and>
    (\<forall>j. psPhase s j = PDispatched \<longrightarrow> capOf j = capOf k)"
proof -
  from assms(1) have inv: "permit_inv capOf s" by (rule permits.reachable_inv)
  have slot: "map_of (psHash s) j \<noteq> None \<and> j \<noteq> capacityField" if "psPhase s j = PDispatched" for j
    using that permit_inv_pinned [OF inv, of j] permit_invD(2) [OF inv, of j] by auto
  from slot [OF assms(2)] have "psHash s \<noteq> []" by auto
  with permit_invD(1) [OF inv, of k] assms(2) obtain c where
    c: "map_of (psHash s) capacityField = Some (CapSlot c)" "length (psHash s) \<le> c + 1"
    and own: "\<forall>j. map_of (psHash s) j \<noteq> None \<longrightarrow> j \<noteq> capacityField \<longrightarrow> capOf j = c"
    by (auto elim: hash_okE)
  have cap: "capOf j = c" if "psPhase s j = PDispatched" for j using slot [OF that] own by blast
  have sub: "{j. psPhase s j = PDispatched} \<subseteq> fst ` set (psHash s) - {capacityField}"
    using slot by (auto simp: map_of_eq_None_iff)
  have "capacityField \<in> fst ` set (psHash s)" using c(1) by (metis map_of_eq_None_iff option.distinct(1))
  then have "card (fst ` set (psHash s) - {capacityField}) = card (fst ` set (psHash s)) - 1"
    by (simp add: card_Diff_singleton)
  also have "\<dots> \<le> length (psHash s) - 1" using card_length [of "map fst (psHash s)"] by simp
  also have "\<dots> \<le> c" using c(2) by simp
  finally have le: "card (fst ` set (psHash s) - {capacityField}) \<le> c" .
  have "card {j. psPhase s j = PDispatched} \<le> c"
    by (rule order_trans [OF card_mono [OF _ sub] le]) simp
  moreover have "finite {j. psPhase s j = PDispatched}" by (rule finite_subset [OF sub]) simp
  ultimately show ?thesis using c(1) cap [OF assms(2)] cap by auto
qed

lemma permit_example:
  "\<exists>s. reachable_from permit_start (permit_step (\<lambda>_. 8)) s \<and> psPhase s ''a'' = PDispatched"
proof -
  let ?R = "reachable_from permit_start (permit_step (\<lambda>_. 8))"
  define ph where "ph p = (\<lambda>_ :: string. PIdle)(''a'' := p)" for p
  have ph [simp]: "ph p ''a'' = p" "(ph p)(''a'' := q) = ph q" for p q by (simp_all add: ph_def)
  have cfg: "positiveIntegerSetting None 8 128 = Inr 8" by (simp add: positiveIntegerSetting_def)
  have ne: "''a'' \<noteq> capacityField" by (simp add: capacityField_def)
  have r0: "?R \<lparr>psHash = [], psPhase = ph PIdle\<rparr>"
    by (rule reachable_from.init) (simp add: permit_start_def ph_def fun_eq_iff)
  have r1: "?R \<lparr>psHash = [], psPhase = ph (PTry 100 1)\<rparr>"
    using reachable_from.move [OF r0 permit_step.enter [where o' = "''a''" and raw = None and deadline = 100]]
      cfg ne by simp
  let ?h2 = "[(capacityField, CapSlot 8), (''a'', Reserved 30005)]"
  have a: "ACQUIRE 5 8 ''a'' reservationMs [] = (1, ?h2)"
    using ne by (simp add: ACQUIRE_def reservationMs_def)
  have s2: "permit_step (\<lambda>_. 8) \<lparr>psHash = [], psPhase = ph (PTry 100 1)\<rparr> \<lparr>psHash = ?h2, psPhase = ph (PReserved 100)\<rparr>"
    using permit_step.try_acquire [where s = "\<lparr>psHash = [], psPhase = ph (PTry 100 1)\<rparr>" and o' = "''a''"
        and deadline = 100 and d = 1 and perf = 7 and now = 5 and capOf = "\<lambda>_. 8" and result = 1 and h' = ?h2] a
    by (simp add: afterAcquireScript_def)
  let ?h3 = "[(capacityField, CapSlot 8), (''a'', ActiveSince 6)]"
  have b: "ACTIVATE 6 ''a'' ?h2 = (1, ?h3)"
    using ne by (simp add: ACTIVATE_def)
  have s3: "permit_step (\<lambda>_. 8) \<lparr>psHash = ?h2, psPhase = ph (PReserved 100)\<rparr> \<lparr>psHash = ?h3, psPhase = ph (PActivated 100)\<rparr>"
    using permit_step.activate [where s = "\<lparr>psHash = ?h2, psPhase = ph (PReserved 100)\<rparr>" and o' = "''a''"
        and deadline = 100 and perf = 8 and now = 6 and capOf = "\<lambda>_. 8" and result = 1 and h' = ?h3] b
    by simp
  have s4: "permit_step (\<lambda>_. 8) \<lparr>psHash = ?h3, psPhase = ph (PActivated 100)\<rparr> \<lparr>psHash = ?h3, psPhase = ph PDispatched\<rparr>"
    using permit_step.dispatch [where s = "\<lparr>psHash = ?h3, psPhase = ph (PActivated 100)\<rparr>" and o' = "''a''"
        and deadline = 100 and perf = 9 and capOf = "\<lambda>_. 8"]
    by simp
  have "?R \<lparr>psHash = ?h3, psPhase = ph PDispatched\<rparr>"
    by (rule reachable_from.move [OF reachable_from.move [OF reachable_from.move [OF r1, OF s2], OF s3], OF s4])
  then show ?thesis by (intro exI conjI, assumption) simp
qed

theorem permit_capacity_witness:
  "\<exists>s. reachable_from permit_start (permit_step (\<lambda>_. 8)) s \<and> psPhase s ''a'' = PDispatched \<and>
    card {j. psPhase s j = PDispatched} \<le> 8"
proof -
  obtain s where s: "reachable_from permit_start (permit_step (\<lambda>_. 8)) s" "psPhase s ''a'' = PDispatched"
    using permit_example by blast
  with permit_capacity [OF s] show ?thesis by blast
qed

text \<open>
  What the acquire script grants. With expired reservations left out of the count, the script
  answers -1 exactly when owners remain that were configured differently, keeps an owner that already
  holds a slot, and otherwise gives a new owner a reservation of thirty seconds exactly when fewer
  than \<open>cap\<close> owners remain. An expired reservation is gone afterwards, and active slots stay.
\<close>

theorem acquire_script:
  assumes ok: "hash_ok capOf h" and ne: "owner \<noteq> capacityField" and pos: "0 < cap"
    and run: "ACQUIRE now cap owner reservationMs h = (r, h')"
  shows "let live = {k. k \<noteq> capacityField \<and> (\<exists>v. map_of h k = Some v \<and> \<not> isExpired now v)} in
    (r = -1 \<longleftrightarrow> live \<noteq> {} \<and> map_of h capacityField \<noteq> Some (CapSlot cap)) \<and>
    (r = 1 \<longleftrightarrow> r \<noteq> -1 \<and> (owner \<in> live \<or> card live < cap)) \<and>
    (r = 0 \<longleftrightarrow> r \<noteq> -1 \<and> owner \<notin> live \<and> cap \<le> card live) \<and>
    (\<forall>k. k \<noteq> capacityField \<longrightarrow> map_of h' k =
      (if k \<in> live then map_of h k
       else if k = owner \<and> r = 1 then Some (Reserved (now + 30000)) else None))"
proof -
  define live where "live = {k. k \<noteq> capacityField \<and> (\<exists>v. map_of h k = Some v \<and> \<not> isExpired now v)}"
  have lk: "map_of (purged now h) k = (if k \<in> live then map_of h k else None)" if "k \<noteq> capacityField" for k
    using purged_lookup [OF ok that] that by (auto simp: live_def split: option.splits)
  have h': "\<forall>k. k \<noteq> capacityField \<longrightarrow> map_of h' k =
      (if k \<in> live then map_of h k else if k = owner \<and> r = 1 then Some (Reserved (now + 30000)) else None)"
    using run lk lk [OF ne]
    by (auto simp: ACQUIRE_purged Let_def update_conv_upd reservationMs_def live_def split: if_splits)
  have mem: "map_of (purged now h) owner \<noteq> None \<longleftrightarrow> owner \<in> live"
    unfolding lk [OF ne] by (auto simp: live_def)
  note own = purged_owners [OF ok, of now, folded live_def]
  have r: "(r = -1 \<longleftrightarrow> live \<noteq> {} \<and> map_of h capacityField \<noteq> Some (CapSlot cap)) \<and>
    (r = 1 \<longleftrightarrow> r \<noteq> -1 \<and> (owner \<in> live \<or> card live < cap)) \<and>
    (r = 0 \<longleftrightarrow> r \<noteq> -1 \<and> owner \<notin> live \<and> cap \<le> card live)"
  proof (cases "live = {}")
    case True
    with own have "purged now h = []" by simp
    with run pos True show ?thesis by (auto simp: ACQUIRE_purged)
  next
    case False
    with own have "length (purged now h) = card live + 1"
      "map_of (purged now h) capacityField = map_of h capacityField" "map_of h capacityField \<noteq> None"
      by simp_all
    with run False mem show ?thesis by (auto simp: ACQUIRE_purged Let_def split: if_splits)
  qed
  from h' r show ?thesis by (simp add: live_def Let_def)
qed



text \<open>
  \<open>releasePermit\<close> gives the slot back unless Redis stays unreachable through all three attempts: it
  returns normally exactly when one of the attempts succeeds, the owner's slot is gone when an attempt
  succeeded or its script ran with the reply lost, and no other owner's slot changes.
\<close>

theorem releasePermit_frees:
  assumes "hash_ok capOf h" and "owner \<noteq> capacityField" and "k \<noteq> capacityField"
  shows "fst (releasePermit fails took 0 owner h) = (\<exists>j \<le> 2. \<not> fails j) \<and>
    map_of (snd (releasePermit fails took 0 owner h)) k =
      (if k = owner \<and> (\<exists>j \<le> 2. \<not> fails j \<or> took j) then None else map_of h k)"
proof -
  note ok = RELEASE_ok [OF assms(1,2)]
  note lk = RELEASE_lookup [OF assms(1) _ assms(2)] and lk2 = RELEASE_lookup2 [OF assms(1) _ assms(2)]
    and lk3 = RELEASE_lookup2 [OF ok _ assms(2)]
  show ?thesis
    unfolding le_2_cases releasePermit_0 Let_def by (simp add: lk lk2 lk3 assms(2,3))
qed

theorem releasePermit_frees_witness:
  "map_of (snd (releasePermit (\<lambda>j. j < 2) (\<lambda>_. False) 0 ''a''
     [(capacityField, CapSlot 1), (''a'', ActiveSince 4)])) ''a'' = None"
proof -
  have ne: "''a'' \<noteq> capacityField" by (simp add: capacityField_def)
  then have "hash_ok (\<lambda>_. 1) [(capacityField, CapSlot 1), (''a'', ActiveSince 4)]"
    by (intro hash_okI [where c = 1]) auto
  from releasePermit_frees [OF this ne ne, of "\<lambda>j. j < 2" "\<lambda>_. False"] show ?thesis by auto
qed

text \<open>
  C5. An offer for a row is dispatched at most once without a reported success. However the attempts of
  all workers interleave and crash, two attempts never run on the same row together, and once an
  attempt dispatched an offer and did not report success, the row stays locked: no attempt runs on it,
  the next one is refused, it is never recorded a second time, and \<open>assertRetryable\<close> refuses the retry
  of any batch that contains it.
\<close>

theorem row_at_most_once:
  assumes "reachable_from row_start row_step s"
  shows "(\<forall>j k key d d'. rsPhase s j = RRunning key d \<and> rsPhase s k = RRunning key d' \<longrightarrow> j = k) \<and>
    distinct (rsUncertain s) \<and>
    (\<forall>key \<in> set (rsUncertain s).
       (\<forall>k d. rsPhase s k \<noteq> RRunning key d) \<and>
       (\<forall>owner. rowEnter key owner (rsLocks s) = (Inl rowBusy, rsLocks s)) \<and>
       (\<forall>rowId rowIds keyOf. rowId \<in> set rowIds \<longrightarrow> keyOf rowId = key \<longrightarrow>
          assertRetryable keyOf rowIds 0 (rsLocks s) = Inl rowsUncertain))"
proof -
  from assms have inv: "row_inv s" by (rule row_runs.reachable_inv)
  have excl: "j = k" if "rsPhase s j = RRunning key d" "rsPhase s k = RRunning key d'" for j k key d d'
    using row_inv_running [OF inv that(1)] row_inv_running [OF inv that(2)] by simp
  have locked: "\<exists>k. rsLocks s key = Some k" if "key \<in> set (rsUncertain s)" for key
    using inv that by (auto simp: row_inv_def)
  have retry: "assertRetryable keyOf rowIds 0 (rsLocks s) = Inl rowsUncertain"
    if "key \<in> set (rsUncertain s)" "rowId \<in> set rowIds" "keyOf rowId = key" for key rowId rowIds keyOf
    using assertRetryable_result [of keyOf rowIds 0 "rsLocks s"] assertRetryable_from [of keyOf rowIds 0 "rsLocks s"]
      locked [OF that(1)] that by auto
  show ?thesis
  proof (intro conjI ballI)
    show "distinct (rsUncertain s)" using inv by (simp add: row_inv_def)
    fix key
    assume key: "key \<in> set (rsUncertain s)"
    show "\<forall>k d. rsPhase s k \<noteq> RRunning key d" using row_inv_uncertain_fresh [OF inv] key by blast
    show "\<forall>owner. rowEnter key owner (rsLocks s) = (Inl rowBusy, rsLocks s)"
      using locked [OF key] by (auto simp: rowEnter_def)
  qed (use excl retry in blast)+
qed

lemma row_example:
  "\<exists>s. reachable_from row_start row_step s \<and> rsUncertain s = [''row'']"
proof -
  define st where "st locks p unc = \<lparr>rsLocks = locks, rsPhase = (\<lambda>_ :: string. RIdle)(''w'' := p), rsUncertain = unc\<rparr>"
    for locks p unc
  let ?l = "[''row'' \<mapsto> ''w'']"
  have s0: "reachable_from row_start row_step (st Map.empty RIdle [])"
    by (rule reachable_from.init) (simp add: row_start_def st_def fun_eq_iff)
  have s1: "row_step (st Map.empty RIdle []) (st ?l (RRunning ''row'' False) [])"
    using row_step.row_starts [where s = "st Map.empty RIdle []" and o' = "''w''" and key = "''row''" and locks' = ?l]
    by (simp add: rowEnter_def st_def)
  have s2: "row_step (st ?l (RRunning ''row'' False) []) (st ?l (RRunning ''row'' True) [])"
    using row_step.row_dispatches [where s = "st ?l (RRunning ''row'' False) []" and o' = "''w''" and d = False]
    by (simp add: st_def)
  have s3: "row_step (st ?l (RRunning ''row'' True) []) (st ?l REnded [''row''])"
    using row_step.row_crashes [where s = "st ?l (RRunning ''row'' True) []" and o' = "''w''" and d = True]
    by (simp add: st_def)
  have "reachable_from row_start row_step (st ?l REnded [''row''])"
    by (rule reachable_from.move [OF reachable_from.move [OF reachable_from.move [OF s0, OF s1], OF s2], OF s3])
  then show ?thesis by (intro exI conjI, assumption) (simp add: st_def)
qed

theorem row_at_most_once_witness:
  "\<exists>s. reachable_from row_start row_step s \<and>
     rowEnter ''row'' ''v'' (rsLocks s) = (Inl rowBusy, rsLocks s) \<and>
     assertRetryable (\<lambda>r. r) [''other'', ''row''] 0 (rsLocks s) = Inl rowsUncertain"
proof -
  obtain s where s: "reachable_from row_start row_step s" "rsUncertain s = [''row'']"
    using row_example by blast
  have mem: "''row'' \<in> set (rsUncertain s)" "''row'' \<in> set [''other'', ''row'']" by (simp_all add: s(2))
  note r = row_at_most_once [OF s(1), THEN conjunct2, THEN conjunct2, THEN bspec, OF mem(1), THEN conjunct2]
  have "rowEnter ''row'' ''v'' (rsLocks s) = (Inl rowBusy, rsLocks s)" by (rule r [THEN conjunct1, THEN spec])
  moreover have "assertRetryable (\<lambda>r. r) [''other'', ''row''] 0 (rsLocks s) = Inl rowsUncertain"
    by (rule r [THEN conjunct2, rule_format, where keyOf = "\<lambda>r. r", OF mem(2) refl])
  ultimately show ?thesis using s(1) by blast
qed


text \<open>
  Of all the calls \<open>completedRow\<close> that report rows of a batch, in any order and with any repetition,
  within the seven days of the expiry, exactly one returns \<open>true\<close> if the reported rows, compared without
  case and surrounding space, number at least \<open>total\<close>, and none otherwise. So a batch is finished once
  and only when all of its rows are done.
\<close>

theorem batch_completes_once:
  assumes "batchId \<noteq> []" and "isSafeInteger rowTotal" and "1 \<le> rowTotal"
    and "store (batchKey toKey batchId) = None"
    and "\<And>t r. (t, r) \<in> set calls \<Longrightarrow> r \<noteq> [] \<and> t0 \<le> t \<and> t < t0 + completionTtlMs"
  shows "count_list (completedRows toKey batchId rowTotal calls store) (Inr True) =
      (if rowTotal \<le> int (card (normalId ` snd ` set calls)) then 1 else 0) \<and>
    (\<forall>r \<in> set (completedRows toKey batchId rowTotal calls store). r = Inr True \<or> r = Inr False)"
proof -
  have ok: "batch_ok (t0 + completionTtlMs) rowTotal emptyCompleted" by (simp add: batch_ok_def emptyCompleted_def)
  have "count_list (completedRows toKey batchId rowTotal calls store) (Inr True) =
      (if int (card (set (csRows emptyCompleted))) < rowTotal \<and>
          rowTotal \<le> int (card (set (csRows emptyCompleted) \<union> normalId ` snd ` set calls)) then 1 else 0) \<and>
    (\<forall>r \<in> set (completedRows toKey batchId rowTotal calls store). \<exists>b. r = Inr b)"
    by (rule completedRows_count [OF assms(1-3) _ _ ok]) (use assms(4,5) in auto)
  then show ?thesis using assms(3) by (auto simp: emptyCompleted_def)
qed

theorem batch_completes_once_witness:
  "count_list (completedRows (\<lambda>k. k) ''b'' 2 [(10, ''r1''), (20, ''R1 ''), (30, ''r2''), (40, ''r2'')] Map.empty)
     (Inr True) = 1"
proof -
  let ?calls = "[(10 :: int, ''r1''), (20, ''R1 ''), (30, ''r2''), (40, ''r2'')]"
  have safe: "isSafeInteger 2" by (simp add: isSafeInteger_def maxSafeInteger_def)
  have times: "r \<noteq> [] \<and> 10 \<le> t \<and> t < 10 + completionTtlMs" if "(t, r) \<in> set ?calls" for t r
    using that by (auto simp: completionTtlMs_def)
  have "normalId ` snd ` set ?calls = {''r1'', ''r2''}" by code_simp
  then have card: "card (normalId ` snd ` set ?calls) = 2" by simp
  have "count_list (completedRows (\<lambda>k. k) ''b'' 2 ?calls Map.empty) (Inr True) =
      (if 2 \<le> int (card (normalId ` snd ` set ?calls)) then 1 else 0)"
    by (rule batch_completes_once [OF _ safe _ _ times, THEN conjunct1]) simp_all
  then show ?thesis unfolding card by (simp only: of_nat_numeral order_refl if_True)
qed

theorem acquire_script_witness:
  "fst (ACQUIRE 50 1 ''b'' reservationMs [(capacityField, CapSlot 1), (''a'', Reserved 40)]) = 1"
proof -
  let ?h = "[(capacityField, CapSlot 1), (''a'', Reserved 40)]"
  have ne: "''b'' \<noteq> capacityField" "''a'' \<noteq> capacityField" by (simp_all add: capacityField_def)
  have ok: "hash_ok (\<lambda>_. 1) ?h" using ne by (intro hash_okI [where c = 1]) auto
  have live: "{k. k \<noteq> capacityField \<and> (\<exists>v. map_of ?h k = Some v \<and> \<not> isExpired 50 v)} = {}"
    using ne by (auto simp: isExpired_def)
  obtain r h' where run: "ACQUIRE 50 1 ''b'' reservationMs ?h = (r, h')" by fastforce
  from acquire_script [OF ok ne(1) _ run] have "r = 1" unfolding live by simp
  with run show ?thesis by simp
qed

end
