(* ===== verification/Response_Code.thy ===== *)
theory Response_Code
  imports Platform_Prelude "HOL-Library.Sublist"
begin

text \<open>
  Same-device redirects of the verification service: the redirect allow list
  (\<open>apps/verification/src/response-code/redirect-uri.util.ts\<close>), the single-use \<open>response_code\<close> sessions
  (\<open>proof-response-code.service.ts\<close>) and the handlers of \<open>apps/verification/src/verification.service.ts\<close>
  that create, complete and read them.

  Redis is a map from keys to a value and the time it expires, in milliseconds. \<open>JSON.stringify\<close> and
  \<open>JSON.parse\<close> of a session are inverse to each other, so the map holds the session itself. The URL
  parser and printer of the runtime are the parameters \<open>parseURL\<close> and \<open>showURL\<close>; the agent and the
  other services behind NATS are the functions of \<open>verif_ext\<close>.
\<close>

section \<open>Definitions\<close>

subsection \<open>Redirect allow list\<close>

record url =
  urlProtocol :: string
  urlOrigin :: string
  urlPathname :: string
  urlSearch :: "(string \<times> string) list"
  urlHash :: string

definition parseRedirectUriAllowlist :: "string option \<Rightarrow> string list" where
  "parseRedirectUriAllowlist stored =
     filter (\<lambda>entry. 0 < length entry) (map trim (splitOn CHR '','' (orEmpty stored)))"

definition stripSlashes :: "string \<Rightarrow> string" where
  "stripSlashes p = rev (dropWhile (\<lambda>c. c = CHR ''/'') (rev p))"

definition matchesAllowlistEntry :: "(string \<Rightarrow> url option) \<Rightarrow> url \<Rightarrow> string \<Rightarrow> bool" where
  "matchesAllowlistEntry parseURL target allowed =
     (case parseURL allowed of
        None \<Rightarrow> False
      | Some allowedUrl \<Rightarrow>
          (if urlOrigin target \<noteq> urlOrigin allowedUrl then False
           else let allowedPath = stripSlashes (urlPathname allowedUrl);
                    targetPath = stripSlashes (urlPathname target)
                in if allowedPath = [] then True
                   else targetPath = allowedPath \<or> startsWith targetPath (allowedPath @ ''/'')))"

definition isHttpRedirectUriAllowed :: "string option \<Rightarrow> bool" where
  "isHttpRedirectUriAllowed REDIRECT_URI_ALLOW_HTTP = (REDIRECT_URI_ALLOW_HTTP = Some ''true'')"

definition hasAllowedRedirectProtocol :: "(string \<Rightarrow> url option) \<Rightarrow> string \<Rightarrow> bool \<Rightarrow> bool" where
  "hasAllowedRedirectProtocol parseURL uri allowHttp =
     (case parseURL uri of
        None \<Rightarrow> False
      | Some u \<Rightarrow> urlProtocol u = ''https:'' \<or> (allowHttp \<and> urlProtocol u = ''http:''))"

definition isRedirectUriAllowed :: "(string \<Rightarrow> url option) \<Rightarrow> string \<Rightarrow> string list \<Rightarrow> bool \<Rightarrow> bool" where
  "isRedirectUriAllowed parseURL redirectUri allowlist allowHttp =
     (if \<not> hasAllowedRedirectProtocol parseURL redirectUri allowHttp then False
      else case parseURL redirectUri of
             None \<Rightarrow> False
           | Some target \<Rightarrow> list_ex (matchesAllowlistEntry parseURL target) allowlist)"

text \<open>\<open>URLSearchParams.set\<close>: the first parameter of that name is replaced, later ones are dropped.\<close>

fun searchParamsSet :: "string \<Rightarrow> string \<Rightarrow> (string \<times> string) list \<Rightarrow> (string \<times> string) list" where
  "searchParamsSet name v [] = [(name, v)]"
| "searchParamsSet name v ((n, w) # ps) =
     (if n = name then (name, v) # filter (\<lambda>(m, _). m \<noteq> name) ps
      else (n, w) # searchParamsSet name v ps)"

definition buildReturnUrl :: "(string \<Rightarrow> url option) \<Rightarrow> (url \<Rightarrow> string) \<Rightarrow> string \<Rightarrow> string \<Rightarrow> error + string" where
  "buildReturnUrl parseURL showURL redirectUri responseCode =
     (case parseURL redirectUri of
        None \<Rightarrow> Inl (TypeError ''Invalid URL'')
      | Some u \<Rightarrow> Inr (showURL (u\<lparr>urlSearch := searchParamsSet ''response_code'' responseCode (urlSearch u)\<rparr>)))"

text \<open>\<open>encodeURIComponent\<close> on ASCII characters.\<close>

definition unescapedChar :: "char \<Rightarrow> bool" where
  "unescapedChar c =
     (let n = (of_char c :: nat)
      in (48 \<le> n \<and> n \<le> 57) \<or> (65 \<le> n \<and> n \<le> 90) \<or> (97 \<le> n \<and> n \<le> 122) \<or> c \<in> set ''-_.!~*''
         \<or> n = 39 \<or> n = 40 \<or> n = 41)"

definition hexDigit :: "nat \<Rightarrow> char" where
  "hexDigit n = ''0123456789ABCDEF'' ! n"

definition encodeChar :: "char \<Rightarrow> string" where
  "encodeChar c =
     (if unescapedChar c then [c]
      else let n = (of_char c :: nat) in [CHR ''%'', hexDigit (n div 16), hexDigit (n mod 16)])"

definition encodeURIComponent :: "string \<Rightarrow> string" where
  "encodeURIComponent s = concat (map encodeChar s)"

definition appendReturnUrl :: "string \<Rightarrow> string \<Rightarrow> string" where
  "appendReturnUrl deepLinkUrl returnUrl = deepLinkUrl @ ''&returnUrl='' @ encodeURIComponent returnUrl"

subsection \<open>Sessions\<close>

datatype ResponseCodeStatus = PENDING | COMPLETED | FAILED | EXPIRED

record IResponseCodeResult =
  rcState :: string
  rcPresentationId :: "string option"

record IResponseCodeSession =
  rcOrgId :: string
  rcThreadId :: string
  rcRedirectUri :: string
  rcStatus :: ResponseCodeStatus
  rcResult :: "IResponseCodeResult option"
  rcCreatedAt :: string

record IProofCallbackResult =
  cbStatus :: ResponseCodeStatus
  cbThreadId :: "string option"
  cbResult :: "IResponseCodeResult option"

definition toTerminalResponseCodeStatus :: "string \<Rightarrow> bool \<Rightarrow> ResponseCodeStatus option" where
  "toTerminalResponseCodeStatus state isVerified =
     (if state = ''done'' then Some (if isVerified then COMPLETED else FAILED)
      else if state = ''declined'' \<or> state = ''abandoned'' then Some FAILED
      else None)"

definition maxTtlSeconds :: int where
  "maxTtlSeconds = 3600"

text \<open>\<open>toInteger\<close> is \<open>Number(value)\<close> when that is an integer.\<close>

definition resolveTtlSeconds :: "(string option \<Rightarrow> int option) \<Rightarrow> string option \<Rightarrow> int \<Rightarrow> int" where
  "resolveTtlSeconds toInteger v fallback =
     (case toInteger v of
        None \<Rightarrow> fallback
      | Some parsed \<Rightarrow> (if 0 < parsed \<and> parsed \<le> maxTtlSeconds then parsed else fallback))"

record rc_ttls =
  pendingTtlSeconds :: int
  resultTtlSeconds :: int

definition ttlsFromEnv :: "(string option \<Rightarrow> int option) \<Rightarrow> string option \<Rightarrow> string option \<Rightarrow> rc_ttls" where
  "ttlsFromEnv toInteger pendingEnv resultEnv =
     \<lparr>pendingTtlSeconds = resolveTtlSeconds toInteger pendingEnv 600,
      resultTtlSeconds = resolveTtlSeconds toInteger resultEnv 60\<rparr>"

datatype rc_value = SessionValue IResponseCodeSession | TokenValue string

type_synonym rc_store = "string \<Rightarrow> (rc_value \<times> int) option"

definition tokenKey :: "string \<Rightarrow> string" where
  "tokenKey token = ''verification:response-code:'' @ token"

definition threadIndexKey :: "string \<Rightarrow> string" where
  "threadIndexKey threadId = ''verification:idx:thread:'' @ threadId"

subsubsection \<open>Redis commands\<close>

definition redisGet :: "int \<Rightarrow> string \<Rightarrow> rc_store \<Rightarrow> rc_value option" where
  "redisGet now key st = (case st key of None \<Rightarrow> None | Some (v, e) \<Rightarrow> if now < e then Some v else None)"

definition redisSetEx :: "int \<Rightarrow> string \<Rightarrow> rc_value \<Rightarrow> int \<Rightarrow> rc_store \<Rightarrow> rc_store" where
  "redisSetEx now key v ttl st = st(key \<mapsto> (v, now + 1000 * ttl))"

definition redisExpire :: "int \<Rightarrow> string \<Rightarrow> int \<Rightarrow> rc_store \<Rightarrow> rc_store" where
  "redisExpire now key ttl st =
     (case redisGet now key st of None \<Rightarrow> st | Some v \<Rightarrow> st(key \<mapsto> (v, now + 1000 * ttl)))"

definition redisDel :: "int \<Rightarrow> string \<Rightarrow> rc_store \<Rightarrow> bool \<times> rc_store" where
  "redisDel now key st = (redisGet now key st \<noteq> None, st(key := None))"

definition MARK_TERMINAL_SCRIPT ::
  "int \<Rightarrow> string \<Rightarrow> string \<Rightarrow> rc_value \<Rightarrow> rc_value \<Rightarrow> int \<Rightarrow> rc_store \<Rightarrow> bool \<times> rc_store" where
  "MARK_TERMINAL_SCRIPT now sessionKey indexKey raw updated ttl st =
     (if redisGet now sessionKey st \<noteq> Some raw then (False, st)
      else (True, redisExpire now indexKey ttl (redisSetEx now sessionKey updated ttl st)))"

text \<open>The atomic \<open>MULTI\<close> blocks of \<open>createSession\<close> and \<open>consume\<close>.\<close>

definition createCmd :: "rc_ttls \<Rightarrow> string \<Rightarrow> IResponseCodeSession \<Rightarrow> int \<Rightarrow> rc_store \<Rightarrow> rc_store" where
  "createCmd ttls token session now st =
     redisSetEx now (threadIndexKey (rcThreadId session)) (TokenValue token) (pendingTtlSeconds ttls)
       (redisSetEx now (tokenKey token) (SessionValue session) (pendingTtlSeconds ttls) st)"

definition consumeCmd :: "string \<Rightarrow> string \<Rightarrow> int \<Rightarrow> rc_store \<Rightarrow> bool \<times> rc_store" where
  "consumeCmd token threadId now st =
     (case redisDel now (tokenKey token) st of
        (deleted, st') \<Rightarrow> (deleted, snd (redisDel now (threadIndexKey threadId) st')))"

definition newSession :: "string \<Rightarrow> string \<Rightarrow> string \<Rightarrow> string \<Rightarrow> IResponseCodeSession" where
  "newSession orgId threadId redirectUri createdAt =
     \<lparr>rcOrgId = orgId, rcThreadId = threadId, rcRedirectUri = redirectUri, rcStatus = PENDING,
      rcResult = None, rcCreatedAt = createdAt\<rparr>"

definition markedSession ::
  "IResponseCodeSession \<Rightarrow> ResponseCodeStatus \<Rightarrow> IResponseCodeResult \<Rightarrow> IResponseCodeSession" where
  "markedSession session status result = session\<lparr>rcStatus := status, rcResult := Some result\<rparr>"

definition callbackOf :: "IResponseCodeSession \<Rightarrow> IProofCallbackResult" where
  "callbackOf session =
     \<lparr>cbStatus = rcStatus session, cbThreadId = Some (rcThreadId session), cbResult = rcResult session\<rparr>"

subsubsection \<open>The service's methods\<close>

text \<open>The conditions a method meets: the time of its \<open>k\<close>-th command and whether Redis refuses it.\<close>

record rc_env =
  envNow :: "nat \<Rightarrow> int"
  envDown :: "nat \<Rightarrow> error option"

definition redisCall :: "rc_env \<Rightarrow> nat \<Rightarrow> (int \<Rightarrow> rc_store \<Rightarrow> 'a \<times> rc_store) \<Rightarrow> (rc_store, 'a) eff" where
  "redisCall env k f = (\<lambda>st. case envDown env k of
     Some e \<Rightarrow> (Inl e, st)
   | None \<Rightarrow> (case f (envNow env k) st of (x, st') \<Rightarrow> (Inr x, st')))"

text \<open>\<open>token\<close> and \<open>createdAt\<close> are the random bytes and the clock reading of the call.\<close>

definition createSession ::
  "rc_env \<Rightarrow> rc_ttls \<Rightarrow> string \<Rightarrow> string \<Rightarrow> string \<Rightarrow> string \<Rightarrow> string \<Rightarrow> (rc_store, string) eff" where
  "createSession env ttls token createdAt orgId threadId redirectUri =
     redisCall env 0 (\<lambda>now st.
       (token, createCmd ttls token (newSession orgId threadId redirectUri createdAt) now st))"

definition getSession :: "rc_env \<Rightarrow> nat \<Rightarrow> string \<Rightarrow> (rc_store, IResponseCodeSession option) eff" where
  "getSession env k token =
     redisCall env k (\<lambda>now st.
       (case redisGet now (tokenKey token) st of Some (SessionValue s) \<Rightarrow> Some s | _ \<Rightarrow> None, st))"

definition markTerminalByThreadId ::
  "rc_env \<Rightarrow> rc_ttls \<Rightarrow> string \<Rightarrow> ResponseCodeStatus \<Rightarrow> IResponseCodeResult \<Rightarrow> (rc_store, unit) eff" where
  "markTerminalByThreadId env ttls threadId status result =
     bind (redisCall env 0 (\<lambda>now st. (redisGet now (threadIndexKey threadId) st, st))) (\<lambda>index.
       case index of
         Some (TokenValue token) \<Rightarrow>
           (if token = [] then ret ()
            else bind (getSession env 1 token) (\<lambda>found.
              case found of
                None \<Rightarrow> ret ()
              | Some session \<Rightarrow>
                  (if rcStatus session \<noteq> PENDING then ret ()
                   else bind (redisCall env 2 (\<lambda>now.
                          MARK_TERMINAL_SCRIPT now (tokenKey token) (threadIndexKey threadId)
                            (SessionValue session) (SessionValue (markedSession session status result))
                            (resultTtlSeconds ttls)))
                     (\<lambda>_. ret ()))))
       | _ \<Rightarrow> ret ())"

definition consume :: "rc_env \<Rightarrow> nat \<Rightarrow> string \<Rightarrow> string \<Rightarrow> (rc_store, bool) eff" where
  "consume env k token threadId = redisCall env k (consumeCmd token threadId)"

definition expiredResult :: IProofCallbackResult where
  "expiredResult = \<lparr>cbStatus = EXPIRED, cbThreadId = None, cbResult = None\<rparr>"

definition responseCodeUnavailable :: error where
  "responseCodeUnavailable = ServiceUnavailableException ''Proof result is temporarily unavailable, please retry''"

definition getProofCallbackResult :: "rc_env \<Rightarrow> string \<Rightarrow> (rc_store, IProofCallbackResult) eff" where
  "getProofCallbackResult env responseCode =
     (if responseCode = [] then ret expiredResult
      else tryCatch
        (bind (getSession env 0 responseCode) (\<lambda>found.
           case found of
             None \<Rightarrow> ret expiredResult
           | Some session \<Rightarrow>
               (if rcStatus session = PENDING
                then ret \<lparr>cbStatus = PENDING, cbThreadId = None, cbResult = None\<rparr>
                else bind (consume env 1 responseCode (rcThreadId session)) (\<lambda>consumed.
                  if \<not> consumed then ret expiredResult else ret (callbackOf session)))))
        (\<lambda>_. throw responseCodeUnavailable))"

subsection \<open>Handlers of the verification service\<close>

record org_agent =
  agOrgId :: string
  agEndPoint :: "string option"
  agRedirectUriAllowlist :: "string option"
  agLastChangedBy :: string

record webhook_proof =
  whThreadId :: "string option"
  whState :: string
  whIsVerified :: bool
  whPresentationId :: "string option"

record presentation_definition =
  pdId :: string
  pdName :: string
  pdPurpose :: "string option"
  pdInputDescriptors :: "string list"

record oob_request =
  oobProtocolVersion :: "string option"
  oobComment :: "string option"
  oobProofFormats :: "string option"
  oobAutoAcceptProof :: "string option"
  oobLabel :: "string option"
  oobGoalCode :: "string option"
  oobWillConfirm :: "bool option"
  oobImageUrl :: "string option"
  oobPresentationDefinition :: "presentation_definition option"
  oobInvitationDid :: "string option"
  oobEmailId :: "string list option"
  oobIsShortenUrl :: bool
  oobType :: string
  oobReuseConnection :: bool
  oobRedirectUri :: "string option"

text \<open>The \<open>proofRequestPayload\<close> sent to the agent: the request without the five destructured fields, or
  the one built for presentation exchange.\<close>

datatype proof_payload =
    IndyPayload string string oob_request  \<comment> \<open>orgId, url, the remaining fields\<close>
  | ExchangePayload string string oob_request  \<comment> \<open>orgId, url, the selected fields\<close>

record invitation =
  invProofRecordThId :: "string option"
  invInvitationUrl :: "string option"
  invDeepLinkURL :: "string option"
  invReturnUrl :: "string option"

datatype oob_result = EmailsSent "string list" | InvitationResult invitation

text \<open>
  What the handlers call outside this component: the presentation table, the organisation row with its
  name and logo, the invitation DID of an organisation, the agent and the URL shortener behind NATS, and
  the mail of one address.
\<close>

record verif_ext =
  extStoreProof :: "webhook_proof \<Rightarrow> error + unit"
  extOrganization :: "string \<Rightarrow> (string option \<times> string option) option"
  extInvitationDid :: "string \<Rightarrow> string option"
  extAgent :: "proof_payload option \<Rightarrow> error + invitation option"
  extShorten :: "string option \<Rightarrow> error + string"
  extMail :: "proof_payload option \<Rightarrow> string \<Rightarrow> error + unit"
  extAgentUrl :: "string option \<Rightarrow> error + string"
  extDeepLinkDomain :: "string option"
  extAllowHttp :: "string option"
  extParseURL :: "string \<Rightarrow> url option"
  extShowURL :: "url \<Rightarrow> string"

text \<open>The state the handlers change. \<open>vsCalls\<close> records the requests sent to the agent.\<close>

record verif_state =
  vsStore :: rc_store
  vsAgents :: "org_agent list"
  vsCalls :: "proof_payload option list"

definition onStore :: "(rc_store, 'a) eff \<Rightarrow> (verif_state, 'a) eff" where
  "onStore m = (\<lambda>s. case m (vsStore s) of (r, st) \<Rightarrow> (r, s\<lparr>vsStore := st\<rparr>))"

definition getAgentEndPoint :: "string \<Rightarrow> (verif_state, org_agent) eff" where
  "getAgentEndPoint orgId = (\<lambda>s.
     case List.find (\<lambda>a. agOrgId a = orgId) (vsAgents s) of
       None \<Rightarrow> (Inl (NotFoundException ''Agent details not found''), s)
     | Some a \<Rightarrow> (Inr a, s))"

definition updateRedirectUriAllowlist :: "string \<Rightarrow> string \<Rightarrow> string \<Rightarrow> (verif_state, org_agent) eff" where
  "updateRedirectUriAllowlist orgId allowlist userId = (\<lambda>s.
     case List.find (\<lambda>a. agOrgId a = orgId) (vsAgents s) of
       None \<Rightarrow> (Inl (PrismaError ''P2025''), s)
     | Some a \<Rightarrow>
         (let a' = a\<lparr>agRedirectUriAllowlist := Some allowlist, agLastChangedBy := userId\<rparr>
          in (Inr a', s\<lparr>vsAgents := updateWhere (\<lambda>r. agOrgId r = orgId) (\<lambda>_. a') (vsAgents s)\<rparr>)))"

definition updateResponseCodeSession :: "rc_env \<Rightarrow> rc_ttls \<Rightarrow> webhook_proof \<Rightarrow> (verif_state, unit) eff" where
  "updateResponseCodeSession env ttls p =
     (case (whThreadId p, toTerminalResponseCodeStatus (whState p) (whIsVerified p)) of
        (Some threadId, Some status) \<Rightarrow>
          (if threadId = [] then ret ()
           else tryCatch
             (onStore (markTerminalByThreadId env ttls threadId status
                \<lparr>rcState = whState p, rcPresentationId = whPresentationId p\<rparr>))
             (\<lambda>_. ret ()))
      | _ \<Rightarrow> ret ())"

definition webhookProofPresentation ::
  "verif_ext \<Rightarrow> rc_env \<Rightarrow> rc_ttls \<Rightarrow> webhook_proof \<Rightarrow> (verif_state, unit) eff" where
  "webhookProofPresentation ext env ttls p =
     andThen (lift (extStoreProof ext p)) (updateResponseCodeSession env ttls p)"

definition convertUrlToDeepLinkUrl :: "verif_ext \<Rightarrow> string option \<Rightarrow> (verif_state, string) eff" where
  "convertUrlToDeepLinkUrl ext u =
     (case extDeepLinkDomain ext of
        None \<Rightarrow> throw (NotFoundException ''Deep link domain not found'')
      | Some d \<Rightarrow>
          (if d = [] then throw (NotFoundException ''Deep link domain not found'')
           else ret (d @ (case u of None \<Rightarrow> ''undefined'' | Some x \<Rightarrow> x))))"

text \<open>Errors other than a bad request reach the caller as an \<open>RpcException\<close>; only the code and the
  message of an agent error survive in it.\<close>

definition verificationErrorHandling :: "error \<Rightarrow> error" where
  "verificationErrorHandling e =
     (case e of HttpStatusError code m \<Rightarrow> HttpStatusError code m | _ \<Rightarrow> PlainError ''undefined'')"

definition attachRedirect ::
  "verif_ext \<Rightarrow> rc_env \<Rightarrow> rc_ttls \<Rightarrow> string \<Rightarrow> string \<Rightarrow> invitation \<Rightarrow> string \<Rightarrow> string \<Rightarrow> (verif_state, invitation) eff" where
  "attachRedirect ext env ttls token createdAt proof orgId redirectUri =
     (if \<not> truthy (invProofRecordThId proof) then ret proof
      else bind
        (tryCatch
          (bind (onStore (createSession env ttls token createdAt orgId (orEmpty (invProofRecordThId proof)) redirectUri))
             (\<lambda>code. ret (Some code)))
          (\<lambda>_. ret None))
        (\<lambda>created.
          case created of
            None \<Rightarrow> ret proof
          | Some responseCode \<Rightarrow>
              bind (lift (buildReturnUrl (extParseURL ext) (extShowURL ext) redirectUri responseCode)) (\<lambda>returnUrl.
                ret (proof\<lparr>invReturnUrl := Some returnUrl,
                  invDeepLinkURL := (if truthy (invDeepLinkURL proof)
                    then Some (appendReturnUrl (orEmpty (invDeepLinkURL proof)) returnUrl)
                    else invDeepLinkURL proof)\<rparr>))))"

text \<open>\<open>generateOOBProofReq\<close>: the call of the agent.\<close>

definition generateOOBProofReq :: "verif_ext \<Rightarrow> proof_payload option \<Rightarrow> (verif_state, invitation) eff" where
  "generateOOBProofReq ext payload =
     andThen (writes (\<lambda>s. s\<lparr>vsCalls := vsCalls s @ [payload]\<rparr>))
       (bind (lift (extAgent ext payload)) (\<lambda>r.
          case r of
            None \<Rightarrow> throw (PlainError ''Proof presentation not found'')
          | Some proof \<Rightarrow> ret proof))"

fun mailAll :: "verif_ext \<Rightarrow> proof_payload option \<Rightarrow> string list \<Rightarrow> bool \<Rightarrow> (verif_state, bool) eff" where
  "mailAll ext payload [] failed = ret failed"
| "mailAll ext payload (email # emails) failed =
     andThen (writes (\<lambda>s. s\<lparr>vsCalls := vsCalls s @ [payload]\<rparr>))
       (bind (tryCatch (bind (lift (extMail ext payload email)) (\<lambda>_. ret failed)) (\<lambda>_. ret True))
          (\<lambda>failed'. mailAll ext payload emails failed'))"

definition sendEmailInBatches :: "verif_ext \<Rightarrow> proof_payload option \<Rightarrow> string list \<Rightarrow> (verif_state, string list) eff" where
  "sendEmailInBatches ext payload emailIds =
     bind (mailAll ext payload emailIds False) (\<lambda>failed.
       if failed then throw (PlainError ''Unable to send email in batches'') else ret emailIds)"

definition checkRedirect :: "verif_ext \<Rightarrow> org_agent \<Rightarrow> oob_request \<Rightarrow> (verif_state, unit) eff" where
  "checkRedirect ext agent rq =
     (if truthy (oobRedirectUri rq)
      then (if oobEmailId rq \<noteq> None
            then throw (BadRequestException ''redirectUri cannot be combined with emailId'')
            else if \<not> isRedirectUriAllowed (extParseURL ext) (orEmpty (oobRedirectUri rq))
                      (parseRedirectUriAllowlist (agRedirectUriAllowlist agent))
                      (isHttpRedirectUriAllowed (extAllowHttp ext))
            then throw (BadRequestException ''redirectUri is not registered for this organization'')
            else ret ())
      else ret ())"

text \<open>The payload for the agent. The default for \<open>autoAcceptProof\<close> is written to the request after the
  copy \<open>updateOutOfBandRequestProof\<close> was taken from it, so the Indy payload does not have it.\<close>

definition buildPayload ::
  "oob_request \<Rightarrow> string \<Rightarrow> string \<Rightarrow> string option \<Rightarrow> string option \<Rightarrow> (string option \<times> string option) option \<Rightarrow>
   error + proof_payload option" where
  "buildPayload rq orgId agentUrl invitationDid label organization =
     (let copy = rq\<lparr>oobIsShortenUrl := False, oobEmailId := None, oobType := [], oobReuseConnection := False,
                    oobRedirectUri := None\<rparr>;
          autoAccept = orElse (oobAutoAcceptProof rq) (Some ''always'')
      in if oobType rq = ''indy''
         then Inr (Some (IndyPayload orgId agentUrl
                (copy\<lparr>oobProtocolVersion := orElse (oobProtocolVersion copy) (Some ''v1''),
                      oobInvitationDid := (if truthy invitationDid then invitationDid else None),
                      oobImageUrl := (case organization of
                          Some (_, Some logo) \<Rightarrow> (if logo \<noteq> [] then Some logo else None)
                        | _ \<Rightarrow> None)\<rparr>)))
         else if oobType rq = ''presentationExchange''
         then (case oobPresentationDefinition rq of
                 None \<Rightarrow> Inl (TypeError ''Cannot read properties of undefined'')
               | Some pd \<Rightarrow> Inr (Some (ExchangePayload orgId agentUrl
                   (copy\<lparr>oobProofFormats := None, oobWillConfirm := None,
                         oobProtocolVersion := orElse (oobProtocolVersion rq) (Some ''v2''),
                         oobLabel := label, oobPresentationDefinition := Some pd,
                         oobAutoAcceptProof := autoAccept,
                         oobInvitationDid := (if truthy invitationDid then invitationDid else None)\<rparr>))))
         else Inr None)"

text \<open>The handler after the redirect check, for the organisation's agent.\<close>

definition oobContinue ::
  "verif_ext \<Rightarrow> rc_env \<Rightarrow> rc_ttls \<Rightarrow> string \<Rightarrow> string \<Rightarrow> oob_request \<Rightarrow> string \<Rightarrow> org_agent \<Rightarrow> (verif_state, oob_result) eff" where
  "oobContinue ext env ttls token createdAt rq orgId agent =
     (let organization = extOrganization ext orgId;
          label = (case organization of Some (name, _) \<Rightarrow> name | None \<Rightarrow> None);
          rq1 = (case organization of
                   Some (_, Some logo) \<Rightarrow> (if logo \<noteq> [] then rq\<lparr>oobImageUrl := Some logo\<rparr> else rq)
                 | _ \<Rightarrow> rq);
          rq2 = rq1\<lparr>oobLabel := label\<rparr>
      in bind (lift (extAgentUrl ext (agEndPoint agent))) (\<lambda>agentUrl.
         bind (lift (buildPayload rq2 orgId agentUrl
                 (if oobReuseConnection rq then extInvitationDid ext orgId else None) label organization)) (\<lambda>payload.
         case oobEmailId rq of
           Some emails \<Rightarrow> bind (sendEmailInBatches ext payload emails) (\<lambda>sent. ret (EmailsSent sent))
         | None \<Rightarrow>
             bind (generateOOBProofReq ext payload) (\<lambda>proof.
             bind (if oobIsShortenUrl rq
                   then bind (lift (extShorten ext (invInvitationUrl proof))) (\<lambda>short.
                     if short \<noteq> []
                     then bind (convertUrlToDeepLinkUrl ext (Some short)) (\<lambda>deep.
                       ret (proof\<lparr>invInvitationUrl := Some short, invDeepLinkURL := Some deep\<rparr>))
                     else ret proof)
                   else ret proof) (\<lambda>proof1.
             bind (if \<not> truthy (invDeepLinkURL proof1) \<and> truthy (extDeepLinkDomain ext)
                   then bind (convertUrlToDeepLinkUrl ext (invInvitationUrl proof1)) (\<lambda>deep.
                     ret (proof1\<lparr>invDeepLinkURL := Some deep\<rparr>))
                   else ret proof1) (\<lambda>proof2.
             bind (if truthy (oobRedirectUri rq)
                   then attachRedirect ext env ttls token createdAt proof2 orgId (orEmpty (oobRedirectUri rq))
                   else ret proof2) (\<lambda>proof3. ret (InvitationResult proof3))))))))"

definition sendOutOfBandPresentationRequest ::
  "verif_ext \<Rightarrow> rc_env \<Rightarrow> rc_ttls \<Rightarrow> string \<Rightarrow> string \<Rightarrow> oob_request \<Rightarrow> string \<Rightarrow> (verif_state, oob_result) eff" where
  "sendOutOfBandPresentationRequest ext env ttls token createdAt rq orgId =
     tryCatch
      (bind (getAgentEndPoint orgId) (\<lambda>agent.
       andThen (checkRedirect ext agent rq) (oobContinue ext env ttls token createdAt rq orgId agent)))
      (\<lambda>e. throw (case e of BadRequestException m \<Rightarrow> BadRequestException m | _ \<Rightarrow> verificationErrorHandling e))"

definition joinWith :: "char \<Rightarrow> string list \<Rightarrow> string" where
  "joinWith d ws = (case ws of [] \<Rightarrow> [] | w # rest \<Rightarrow> w @ concat (map (\<lambda>v. d # v) rest))"

definition setRedirectUris :: "verif_ext \<Rightarrow> string \<Rightarrow> string list \<Rightarrow> string \<Rightarrow> (verif_state, string list) eff" where
  "setRedirectUris ext orgId redirectUris userId =
     (let normalized = rev (remdups (rev (map trim redirectUris)));
          allowHttp = isHttpRedirectUriAllowed (extAllowHttp ext)
      in if \<not> list_all (\<lambda>uri. hasAllowedRedirectProtocol (extParseURL ext) uri allowHttp) normalized
         then throw (BadRequestException ''Redirect URIs must use https'')
         else bind (getAgentEndPoint orgId) (\<lambda>_.
              bind (updateRedirectUriAllowlist orgId (joinWith CHR '','' normalized) userId) (\<lambda>updated.
              ret (parseRedirectUriAllowlist (agRedirectUriAllowlist updated)))))"

definition getRedirectUris :: "string \<Rightarrow> (verif_state, string list) eff" where
  "getRedirectUris orgId =
     bind (getAgentEndPoint orgId) (\<lambda>a. ret (parseRedirectUriAllowlist (agRedirectUriAllowlist a)))"

subsection \<open>Interleavings\<close>

text \<open>
  The life of a call of \<open>getProofCallbackResult\<close> or \<open>markTerminalByThreadId\<close> between its commands, over
  all replicas. The step relation also lets a command fail after it took effect and a call stop at any
  point. \<open>scCreated\<close> records every session ever created, \<open>scMarked\<close> the successful compare-and-set
  writes with the thread and outcome they were called with, and \<open>scDelivered\<close> the terminal results
  returned to a caller.
\<close>

datatype rc_task =
    TIdle
  | TRead string IResponseCodeSession  \<comment> \<open>a reader that saw a terminal session\<close>
  | TMarkToken string ResponseCodeStatus IResponseCodeResult string  \<comment> \<open>a marker that read the thread index\<close>
  | TMarkSession string ResponseCodeStatus IResponseCodeResult string IResponseCodeSession
      \<comment> \<open>a marker that read a pending session\<close>
  | TDone

record rc_sys =
  scStore :: rc_store
  scTask :: "nat \<Rightarrow> rc_task"
  scCreated :: "string \<Rightarrow> IResponseCodeSession option"
  scMarked :: "(string \<times> string \<times> ResponseCodeStatus \<times> IResponseCodeResult) list"
  scDelivered :: "(string \<times> IProofCallbackResult) list"

inductive rc_step :: "rc_ttls \<Rightarrow> rc_sys \<Rightarrow> rc_sys \<Rightarrow> bool" for ttls :: rc_ttls where
  create: "scCreated s token = None \<Longrightarrow> session = newSession orgId threadId uri createdAt \<Longrightarrow>
    rc_step ttls s (s\<lparr>scStore := createCmd ttls token session now (scStore s),
      scCreated := (scCreated s)(token \<mapsto> session)\<rparr>)"
| mark_index: "scTask s i = TIdle \<Longrightarrow> toTerminalResponseCodeStatus state verified = Some status \<Longrightarrow>
    redisGet now (threadIndexKey threadId) (scStore s) = Some (TokenValue token) \<Longrightarrow>
    rc_step ttls s (s\<lparr>scTask := (scTask s)(i := TMarkToken threadId status result token)\<rparr>)"
| mark_load: "scTask s i = TMarkToken threadId status result token \<Longrightarrow>
    redisGet now (tokenKey token) (scStore s) = Some (SessionValue session) \<Longrightarrow> rcStatus session = PENDING \<Longrightarrow>
    rc_step ttls s (s\<lparr>scTask := (scTask s)(i := TMarkSession threadId status result token session)\<rparr>)"
| mark_apply: "scTask s i = TMarkSession threadId status result token session \<Longrightarrow>
    MARK_TERMINAL_SCRIPT now (tokenKey token) (threadIndexKey threadId) (SessionValue session)
      (SessionValue (markedSession session status result)) (resultTtlSeconds ttls) (scStore s) = (applied, st') \<Longrightarrow>
    rc_step ttls s (s\<lparr>scStore := st', scTask := (scTask s)(i := TDone),
      scMarked := (if applied then scMarked s @ [(token, threadId, status, result)] else scMarked s)\<rparr>)"
| read: "scTask s i = TIdle \<Longrightarrow>
    redisGet now (tokenKey token) (scStore s) = Some (SessionValue session) \<Longrightarrow> rcStatus session \<noteq> PENDING \<Longrightarrow>
    rc_step ttls s (s\<lparr>scTask := (scTask s)(i := TRead token session)\<rparr>)"
| consume: "scTask s i = TRead token session \<Longrightarrow>
    consumeCmd token (rcThreadId session) now (scStore s) = (consumed, st') \<Longrightarrow>
    rc_step ttls s (s\<lparr>scStore := st', scTask := (scTask s)(i := TDone),
      scDelivered := (if consumed then scDelivered s @ [(token, callbackOf session)] else scDelivered s)\<rparr>)"
| consume_lost: "scTask s i = TRead token session \<Longrightarrow>
    rc_step ttls s (s\<lparr>scStore := snd (consumeCmd token (rcThreadId session) now (scStore s)),
      scTask := (scTask s)(i := TDone)\<rparr>)"
| stop: "rc_step ttls s (s\<lparr>scTask := (scTask s)(i := TDone)\<rparr>)"

definition rc_start :: "rc_sys \<Rightarrow> bool" where
  "rc_start s \<longleftrightarrow>
     s = \<lparr>scStore = Map.empty, scTask = (\<lambda>_. TIdle), scCreated = Map.empty, scMarked = [], scDelivered = []\<rparr>"

section \<open>Keys and commands\<close>

lemma tokenKey_eq [simp]: "tokenKey a = tokenKey b \<longleftrightarrow> a = b"
  by (simp add: tokenKey_def)

lemma threadIndexKey_eq [simp]: "threadIndexKey a = threadIndexKey b \<longleftrightarrow> a = b"
  by (simp add: threadIndexKey_def)

lemma keys_apart [simp]: "tokenKey a \<noteq> threadIndexKey b" "threadIndexKey b \<noteq> tokenKey a"
  by (simp_all add: tokenKey_def threadIndexKey_def)

lemma redisGet_SomeD: "redisGet now key st = Some v \<Longrightarrow> \<exists>e. st key = Some (v, e)"
  by (auto simp: redisGet_def split: option.splits if_splits)

lemma redisGet_None [simp]: "st key = None \<Longrightarrow> redisGet now key st = None"
  by (simp add: redisGet_def)

lemma createCmd_token:
  "createCmd ttls token session now st (tokenKey t) =
     (if t = token then Some (SessionValue session, now + 1000 * pendingTtlSeconds ttls) else st (tokenKey t))"
  by (simp add: createCmd_def redisSetEx_def)

lemma createCmd_thread:
  "createCmd ttls token session now st (threadIndexKey h) =
     (if h = rcThreadId session then Some (TokenValue token, now + 1000 * pendingTtlSeconds ttls)
      else st (threadIndexKey h))"
  by (simp add: createCmd_def redisSetEx_def)

lemma consumeCmd_effect:
  assumes "consumeCmd token threadId now st = (consumed, st')"
  shows "st' (tokenKey t) = (if t = token then None else st (tokenKey t))"
    and "st' (threadIndexKey h) = (if h = threadId then None else st (threadIndexKey h))"
    and "consumed \<longleftrightarrow> redisGet now (tokenKey token) st \<noteq> None"
  using assms by (auto simp: consumeCmd_def redisDel_def)

lemma mark_script_effect:
  assumes "MARK_TERMINAL_SCRIPT now (tokenKey token) (threadIndexKey h) raw updated ttl st = (applied, st')"
  shows "applied \<longleftrightarrow> redisGet now (tokenKey token) st = Some raw"
    and "st' (tokenKey t) = (if applied \<and> t = token then Some (updated, now + 1000 * ttl) else st (tokenKey t))"
    and "st' (threadIndexKey k) = Some (v, e') \<Longrightarrow> \<exists>e. st (threadIndexKey k) = Some (v, e)"
proof -
  show "applied \<longleftrightarrow> redisGet now (tokenKey token) st = Some raw"
    and "st' (tokenKey t) = (if applied \<and> t = token then Some (updated, now + 1000 * ttl) else st (tokenKey t))"
    using assms by (auto simp: MARK_TERMINAL_SCRIPT_def redisExpire_def redisSetEx_def split: if_splits option.splits)
  show "st' (threadIndexKey k) = Some (v, e') \<Longrightarrow> \<exists>e. st (threadIndexKey k) = Some (v, e)"
    using assms by (auto simp: MARK_TERMINAL_SCRIPT_def redisExpire_def redisSetEx_def redisGet_def
        split: if_splits option.splits)
qed

section \<open>The session invariant\<close>

type_synonym rc_marks = "(string \<times> string \<times> ResponseCodeStatus \<times> IResponseCodeResult) list"

definition markedAs :: "rc_marks \<Rightarrow> string \<Rightarrow> IResponseCodeSession \<Rightarrow> IResponseCodeSession \<Rightarrow> bool" where
  "markedAs mk t s0 s \<longleftrightarrow> (\<exists>status result. (t, rcThreadId s0, status, result) \<in> set mk \<and> s = markedSession s0 status result)"

definition created_ok :: "(string \<Rightarrow> IResponseCodeSession option) \<Rightarrow> bool" where
  "created_ok cr \<longleftrightarrow> (\<forall>t s0. cr t = Some s0 \<longrightarrow> rcStatus s0 = PENDING)"

definition store_ok :: "(string \<Rightarrow> IResponseCodeSession option) \<Rightarrow> rc_marks \<Rightarrow> rc_store \<Rightarrow> bool" where
  "store_ok cr mk st \<longleftrightarrow>
     (\<forall>t v e. st (tokenKey t) = Some (v, e) \<longrightarrow>
        (\<exists>s0 s. cr t = Some s0 \<and> v = SessionValue s \<and> (s = s0 \<or> markedAs mk t s0 s))) \<and>
     (\<forall>h v e. st (threadIndexKey h) = Some (v, e) \<longrightarrow>
        (\<exists>t s0. v = TokenValue t \<and> cr t = Some s0 \<and> rcThreadId s0 = h))"

definition marks_ok :: "(string \<Rightarrow> IResponseCodeSession option) \<Rightarrow> rc_marks \<Rightarrow> rc_store \<Rightarrow> bool" where
  "marks_ok cr mk st \<longleftrightarrow> distinct (map fst mk) \<and>
     (\<forall>(t, h, status, result) \<in> set mk. status \<noteq> PENDING \<and>
        (\<exists>s0. cr t = Some s0 \<and> rcThreadId s0 = h \<and> (\<forall>e. st (tokenKey t) \<noteq> Some (SessionValue s0, e))))"

definition delivered_ok :: "rc_marks \<Rightarrow> (string \<times> IProofCallbackResult) list \<Rightarrow> rc_store \<Rightarrow> bool" where
  "delivered_ok mk dl st \<longleftrightarrow> distinct (map fst dl) \<and>
     (\<forall>(t, cb) \<in> set dl. st (tokenKey t) = None \<and>
        (\<exists>h status result. (t, h, status, result) \<in> set mk \<and>
           cb = \<lparr>cbStatus = status, cbThreadId = Some h, cbResult = Some result\<rparr>))"

definition task_ok :: "(string \<Rightarrow> IResponseCodeSession option) \<Rightarrow> rc_marks \<Rightarrow> rc_task \<Rightarrow> bool" where
  "task_ok cr mk task \<longleftrightarrow> (case task of
     TRead t s \<Rightarrow> (\<exists>s0. cr t = Some s0 \<and> markedAs mk t s0 s)
   | TMarkToken h status result t \<Rightarrow> status \<noteq> PENDING \<and> (\<exists>s0. cr t = Some s0 \<and> rcThreadId s0 = h)
   | TMarkSession h status result t s \<Rightarrow> status \<noteq> PENDING \<and> cr t = Some s \<and> rcThreadId s = h
   | _ \<Rightarrow> True)"

definition rc_inv :: "rc_sys \<Rightarrow> bool" where
  "rc_inv s \<longleftrightarrow> created_ok (scCreated s) \<and> store_ok (scCreated s) (scMarked s) (scStore s) \<and>
     marks_ok (scCreated s) (scMarked s) (scStore s) \<and> delivered_ok (scMarked s) (scDelivered s) (scStore s) \<and>
     (\<forall>i. task_ok (scCreated s) (scMarked s) (scTask s i))"

lemmas rc_inv_defs = rc_inv_def created_ok_def store_ok_def marks_ok_def delivered_ok_def task_ok_def

lemma store_ok_token:
  "store_ok cr mk st \<Longrightarrow> st (tokenKey t) = Some (v, e) \<Longrightarrow>
   \<exists>s0 s. cr t = Some s0 \<and> v = SessionValue s \<and> (s = s0 \<or> markedAs mk t s0 s)"
  by (simp add: store_ok_def)

lemma store_ok_thread:
  "store_ok cr mk st \<Longrightarrow> st (threadIndexKey h) = Some (v, e) \<Longrightarrow>
   \<exists>t s0. v = TokenValue t \<and> cr t = Some s0 \<and> rcThreadId s0 = h"
  by (simp add: store_ok_def)

lemma store_okI:
  assumes "\<And>t v e. st (tokenKey t) = Some (v, e) \<Longrightarrow>
      \<exists>s0 s. cr t = Some s0 \<and> v = SessionValue s \<and> (s = s0 \<or> markedAs mk t s0 s)"
    and "\<And>h v e. st (threadIndexKey h) = Some (v, e) \<Longrightarrow>
      \<exists>t s0. v = TokenValue t \<and> cr t = Some s0 \<and> rcThreadId s0 = h"
  shows "store_ok cr mk st"
  unfolding store_ok_def using assms by blast

lemma marks_okI:
  assumes "distinct (map fst mk)"
    and "\<And>t h status result. (t, h, status, result) \<in> set mk \<Longrightarrow> status \<noteq> PENDING \<and>
      (\<exists>s0. cr t = Some s0 \<and> rcThreadId s0 = h \<and> (\<forall>e. st (tokenKey t) \<noteq> Some (SessionValue s0, e)))"
  shows "marks_ok cr mk st"
  unfolding marks_ok_def using assms by blast

lemma marks_okD:
  assumes "marks_ok cr mk st" and "(t, h, status, result) \<in> set mk"
  shows "status \<noteq> PENDING" and "\<exists>s0. cr t = Some s0 \<and> rcThreadId s0 = h \<and> (\<forall>e. st (tokenKey t) \<noteq> Some (SessionValue s0, e))"
  using assms by (auto simp: marks_ok_def dest!: bspec)

lemma delivered_okD:
  assumes "delivered_ok mk dl st" and "(t, cb) \<in> set dl"
  shows "st (tokenKey t) = None" and "\<exists>h status result. (t, h, status, result) \<in> set mk \<and>
           cb = \<lparr>cbStatus = status, cbThreadId = Some h, cbResult = Some result\<rparr>"
  using assms by (auto simp: delivered_ok_def dest!: bspec)

lemma delivered_okI:
  assumes "distinct (map fst dl)"
    and "\<And>t cb. (t, cb) \<in> set dl \<Longrightarrow> st (tokenKey t) = None \<and> (\<exists>h status result. (t, h, status, result) \<in> set mk \<and>
           cb = \<lparr>cbStatus = status, cbThreadId = Some h, cbResult = Some result\<rparr>)"
  shows "delivered_ok mk dl st"
  unfolding delivered_ok_def using assms by blast

lemma markedAs_mono: "markedAs mk t s0 s \<Longrightarrow> set mk \<subseteq> set mk' \<Longrightarrow> markedAs mk' t s0 s"
  by (auto simp: markedAs_def)

lemma markedSession_status [simp]: "rcStatus (markedSession s status result) = status"
  by (simp add: markedSession_def)

lemma markedAs_terminal:
  "markedAs mk t s0 s \<Longrightarrow> marks_ok cr mk st \<Longrightarrow> rcStatus s \<noteq> PENDING"
  by (fastforce simp: markedAs_def marks_ok_def)

text \<open>The session found under a token is the one created, or the one marked; its status tells which.\<close>

lemma rc_inv_lookup:
  assumes inv: "rc_inv s" and get: "redisGet now (tokenKey t) (scStore s) = Some (SessionValue v)"
  shows "\<exists>s0. scCreated s t = Some s0 \<and>
    (if rcStatus v = PENDING then v = s0 else markedAs (scMarked s) t s0 v)"
proof -
  obtain e where "scStore s (tokenKey t) = Some (SessionValue v, e)" using redisGet_SomeD [OF get] by blast
  with inv obtain s0 where s0: "scCreated s t = Some s0" "v = s0 \<or> markedAs (scMarked s) t s0 v"
    by (auto simp: rc_inv_def dest!: store_ok_token)
  then have "rcStatus s0 = PENDING" using inv by (auto simp: rc_inv_def created_ok_def)
  then show ?thesis
    using s0 markedAs_terminal [of "scMarked s" t s0 v "scCreated s" "scStore s"] inv
    by (auto simp: rc_inv_def)
qed

lemma task_ok_grow:
  assumes "task_ok cr mk task" and "\<And>t s0. cr t = Some s0 \<Longrightarrow> cr' t = Some s0" and "set mk \<subseteq> set mk'"
  shows "task_ok cr' mk' task"
proof (cases task)
  case (TRead t s)
  then obtain s0 where "cr t = Some s0" "markedAs mk t s0 s" using assms(1) by (auto simp: task_ok_def)
  then show ?thesis using assms(2) markedAs_mono [OF _ assms(3)] TRead by (auto simp: task_ok_def)
qed (use assms in \<open>auto simp: task_ok_def\<close>)

lemma rc_inv_task:
  assumes "rc_inv s" and "task_ok (scCreated s) (scMarked s) task"
  shows "rc_inv (s\<lparr>scTask := (scTask s)(i := task)\<rparr>)"
  using assms by (simp add: rc_inv_def)

lemma rc_inv_create:
  assumes inv: "rc_inv s" and fresh: "scCreated s token = None" and pend: "rcStatus session = PENDING"
  shows "rc_inv (s\<lparr>scStore := createCmd ttls token session now (scStore s),
      scCreated := (scCreated s)(token \<mapsto> session)\<rparr>)"
proof -
  let ?cr = "(scCreated s)(token \<mapsto> session)" and ?st = "createCmd ttls token session now (scStore s)"
  have nomark: "(token, h, status, result) \<notin> set (scMarked s)" for h status result
    using inv fresh marks_okD(2) [of "scCreated s" "scMarked s" "scStore s" token] by (auto simp: rc_inv_def)
  have so: "store_ok (scCreated s) (scMarked s) (scStore s)" and mo: "marks_ok (scCreated s) (scMarked s) (scStore s)"
    using inv by (simp_all add: rc_inv_def)
  have keep: "scCreated s t = Some s0 \<Longrightarrow> ?cr t = Some s0" for t s0 using fresh by auto
  have "store_ok ?cr (scMarked s) ?st"
  proof (rule store_okI)
    fix t v e
    assume "?st (tokenKey t) = Some (v, e)"
    then show "\<exists>s0 s'. ?cr t = Some s0 \<and> v = SessionValue s' \<and> (s' = s0 \<or> markedAs (scMarked s) t s0 s')"
      by (cases "t = token") (auto simp: createCmd_token dest!: store_ok_token [OF so])
  next
    fix h v e
    assume h: "?st (threadIndexKey h) = Some (v, e)"
    show "\<exists>t s0. v = TokenValue t \<and> ?cr t = Some s0 \<and> rcThreadId s0 = h"
    proof (cases "h = rcThreadId session")
      case True
      with h show ?thesis by (auto simp: createCmd_thread)
    next
      case False
      with h obtain t s0 where "v = TokenValue t" "scCreated s t = Some s0" "rcThreadId s0 = h"
        using store_ok_thread [OF so, of h v e] by (auto simp: createCmd_thread)
      then show ?thesis using keep by blast
    qed
  qed
  moreover have "marks_ok ?cr (scMarked s) ?st"
  proof (rule marks_okI)
    show "distinct (map fst (scMarked s))" using mo by (simp add: marks_ok_def)
    fix t h status result
    assume m: "(t, h, status, result) \<in> set (scMarked s)"
    then have "t \<noteq> token" using nomark by auto
    then show "status \<noteq> PENDING \<and>
        (\<exists>s0. ?cr t = Some s0 \<and> rcThreadId s0 = h \<and> (\<forall>e. ?st (tokenKey t) \<noteq> Some (SessionValue s0, e)))"
      using marks_okD [OF mo m] by (simp add: createCmd_token)
  qed
  moreover have "delivered_ok (scMarked s) (scDelivered s) ?st"
  proof (rule delivered_okI)
    have dl: "delivered_ok (scMarked s) (scDelivered s) (scStore s)" using inv by (simp add: rc_inv_def)
    then show "distinct (map fst (scDelivered s))" by (simp add: delivered_ok_def)
    fix t cb
    assume "(t, cb) \<in> set (scDelivered s)"
    note d = delivered_okD [OF dl this]
    from d(2) nomark have "t \<noteq> token" by blast
    then show "?st (tokenKey t) = None \<and> (\<exists>h status result. (t, h, status, result) \<in> set (scMarked s) \<and>
           cb = \<lparr>cbStatus = status, cbThreadId = Some h, cbResult = Some result\<rparr>)"
      using d by (simp add: createCmd_token)
  qed
  moreover have "created_ok ?cr" using inv pend by (auto simp: rc_inv_def created_ok_def)
  moreover have "task_ok ?cr (scMarked s) (scTask s i)" for i
    by (rule task_ok_grow [of "scCreated s" "scMarked s"]) (use inv fresh in \<open>auto simp: rc_inv_def\<close>)
  ultimately show ?thesis by (simp add: rc_inv_def)
qed

text \<open>Removing entries from the store keeps everything.\<close>

lemma rc_inv_shrink:
  assumes inv: "rc_inv s"
    and tok: "\<And>t. st' (tokenKey t) = None \<or> st' (tokenKey t) = scStore s (tokenKey t)"
    and idx: "\<And>h. st' (threadIndexKey h) = None \<or> st' (threadIndexKey h) = scStore s (threadIndexKey h)"
  shows "rc_inv (s\<lparr>scStore := st'\<rparr>)"
proof -
  have so: "store_ok (scCreated s) (scMarked s) (scStore s)" and mo: "marks_ok (scCreated s) (scMarked s) (scStore s)"
    and dl: "delivered_ok (scMarked s) (scDelivered s) (scStore s)"
    using inv by (simp_all add: rc_inv_def)
  have "store_ok (scCreated s) (scMarked s) st'"
    by (rule store_okI) (metis tok store_ok_token [OF so] option.distinct(1),
      metis idx store_ok_thread [OF so] option.distinct(1))
  moreover have "marks_ok (scCreated s) (scMarked s) st'"
    by (rule marks_okI) (use mo in \<open>simp add: marks_ok_def\<close>, metis tok marks_okD [OF mo] option.distinct(1))
  moreover have "delivered_ok (scMarked s) (scDelivered s) st'"
    using dl tok unfolding delivered_ok_def by (auto dest!: bspec) metis
  ultimately show ?thesis using inv by (simp add: rc_inv_def)
qed

lemma rc_inv_consume:
  assumes inv: "rc_inv s" and task: "scTask s i = TRead token session"
    and run: "consumeCmd token (rcThreadId session) now (scStore s) = (consumed, st')"
  shows "rc_inv (s\<lparr>scStore := st', scTask := (scTask s)(i := TDone),
      scDelivered := (if consumed then scDelivered s @ [(token, callbackOf session)] else scDelivered s)\<rparr>)"
proof -
  have shrink: "rc_inv (s\<lparr>scStore := st'\<rparr>)"
    by (rule rc_inv_shrink [OF inv]) (simp_all add: consumeCmd_effect [OF run])
  have "task_ok (scCreated s) (scMarked s) (TRead token session)"
    using inv task unfolding rc_inv_def by metis
  then obtain s0 status result where m: "(token, rcThreadId s0, status, result) \<in> set (scMarked s)"
      "session = markedSession s0 status result"
    by (auto simp: task_ok_def markedAs_def)
  have gone: "st' (tokenKey token) = None" by (simp add: consumeCmd_effect [OF run])
  have dl: "delivered_ok (scMarked s) (scDelivered s) st'" using shrink by (simp add: rc_inv_def)
  have fresh: "token \<notin> fst ` set (scDelivered s)" if consumed
  proof
    assume "token \<in> fst ` set (scDelivered s)"
    then have "scStore s (tokenKey token) = None"
      using inv delivered_okD(1) by (fastforce simp: rc_inv_def)
    with that show False using consumeCmd_effect(3) [OF run] by simp
  qed
  have "delivered_ok (scMarked s) (if consumed then scDelivered s @ [(token, callbackOf session)] else scDelivered s) st'"
  proof (cases consumed)
    case True
    have "callbackOf session = \<lparr>cbStatus = status, cbThreadId = Some (rcThreadId s0), cbResult = Some result\<rparr>"
      by (simp add: m(2) callbackOf_def markedSession_def)
    then show ?thesis
      using True dl gone fresh [OF True] m(1) unfolding delivered_ok_def by auto
  qed (use dl in simp)
  then show ?thesis using shrink by (simp add: rc_inv_def task_ok_def)
qed

lemma rc_inv_mark:
  assumes inv: "rc_inv s" and task: "scTask s i = TMarkSession h status result token session"
    and run: "MARK_TERMINAL_SCRIPT now (tokenKey token) (threadIndexKey h) (SessionValue session)
      (SessionValue (markedSession session status result)) ttl (scStore s) = (applied, st')"
  shows "rc_inv (s\<lparr>scStore := st', scTask := (scTask s)(i := TDone),
      scMarked := (if applied then scMarked s @ [(token, h, status, result)] else scMarked s)\<rparr>)"
proof (cases applied)
  case False
  then have "st' = scStore s" using run by (auto simp: MARK_TERMINAL_SCRIPT_def split: if_splits)
  with False inv show ?thesis by (simp add: rc_inv_def task_ok_def)
next
  case True
  let ?mk = "scMarked s @ [(token, h, status, result)]"
  note eff = mark_script_effect [OF run]
  have so: "store_ok (scCreated s) (scMarked s) (scStore s)" and mo: "marks_ok (scCreated s) (scMarked s) (scStore s)"
    and dl: "delivered_ok (scMarked s) (scDelivered s) (scStore s)" and co: "created_ok (scCreated s)"
    using inv by (simp_all add: rc_inv_def)
  have "task_ok (scCreated s) (scMarked s) (TMarkSession h status result token session)"
    using inv task unfolding rc_inv_def by metis
  then have t: "status \<noteq> PENDING" "scCreated s token = Some session" "rcThreadId session = h"
    by (simp_all add: task_ok_def)
  obtain e where live: "scStore s (tokenKey token) = Some (SessionValue session, e)"
    using True eff(1) redisGet_SomeD by metis
  have new: "token \<notin> fst ` set (scMarked s)"
    using marks_okD(2) [OF mo] live t(2) by fastforce
  have ne: "markedSession session status result \<noteq> session"
    using t(1,2) co by (metis created_ok_def markedSession_status)
  have "store_ok (scCreated s) ?mk st'"
  proof (rule store_okI)
    fix k v e
    assume k: "st' (tokenKey k) = Some (v, e)"
    show "\<exists>s0 s'. scCreated s k = Some s0 \<and> v = SessionValue s' \<and> (s' = s0 \<or> markedAs ?mk k s0 s')"
    proof (cases "k = token")
      case True
      with k \<open>applied\<close> t show ?thesis by (auto simp: eff(2) markedAs_def)
    next
      case False
      with k obtain s0 s' where "scCreated s k = Some s0" "v = SessionValue s'" "s' = s0 \<or> markedAs (scMarked s) k s0 s'"
        using store_ok_token [OF so, of k v e] by (auto simp: eff(2))
      then show ?thesis using markedAs_mono [of "scMarked s" k s0 s' ?mk] by auto
    qed
  next
    fix k v e
    assume "st' (threadIndexKey k) = Some (v, e)"
    then show "\<exists>t s0. v = TokenValue t \<and> scCreated s t = Some s0 \<and> rcThreadId s0 = k"
      using eff(3) store_ok_thread [OF so] by blast
  qed
  moreover have "marks_ok (scCreated s) ?mk st'"
  proof (rule marks_okI)
    show "distinct (map fst ?mk)" using mo new by (simp add: marks_ok_def)
    fix k h' status' result'
    assume "(k, h', status', result') \<in> set ?mk"
    then consider (this) "(k, h', status', result') = (token, h, status, result)"
      | (other) "(k, h', status', result') \<in> set (scMarked s)" "k \<noteq> token"
      using new by force
    then show "status' \<noteq> PENDING \<and>
        (\<exists>s0. scCreated s k = Some s0 \<and> rcThreadId s0 = h' \<and> (\<forall>e. st' (tokenKey k) \<noteq> Some (SessionValue s0, e)))"
    proof cases
      case this
      then show ?thesis using t ne True by (simp add: eff(2))
    next
      case other
      then show ?thesis using marks_okD [OF mo other(1)] by (simp add: eff(2))
    qed
  qed
  moreover have "delivered_ok ?mk (scDelivered s) st'"
    using dl live unfolding delivered_ok_def by (fastforce simp: eff(2))
  moreover have "task_ok (scCreated s) ?mk (scTask s j)" for j
    by (rule task_ok_grow [of "scCreated s" "scMarked s"]) (use inv in \<open>auto simp: rc_inv_def\<close>)
  ultimately show ?thesis using True co by (simp add: rc_inv_def task_ok_def)
qed

interpretation rc_runs: invariant_system rc_start "rc_step ttls" rc_inv for ttls
proof unfold_locales
  show "rc_start s \<Longrightarrow> rc_inv s" for s by (simp add: rc_start_def rc_inv_defs)
next
  fix s t
  assume inv: "rc_inv s" and step: "rc_step ttls s t"
  from step show "rc_inv t"
  proof cases
    case (create token session orgId threadId uri createdAt now)
    then show ?thesis using rc_inv_create [OF inv] by (simp add: newSession_def)
  next
    case (mark_index i state verified status now threadId token result)
    then have "\<exists>s0. scCreated s token = Some s0 \<and> rcThreadId s0 = threadId"
      using inv by (auto simp: rc_inv_def dest!: redisGet_SomeD store_ok_thread)
    moreover have "status \<noteq> PENDING"
      using mark_index by (auto simp: toTerminalResponseCodeStatus_def split: if_splits)
    ultimately show ?thesis unfolding mark_index(1) by (intro rc_inv_task [OF inv]) (simp add: task_ok_def)
  next
    case (mark_load i threadId status result token now session)
    have "task_ok (scCreated s) (scMarked s) (TMarkToken threadId status result token)"
      using inv mark_load(2) unfolding rc_inv_def by metis
    then show ?thesis
      unfolding mark_load(1) using rc_inv_lookup [OF inv mark_load(3)] mark_load(4)
      by (intro rc_inv_task [OF inv]) (auto simp: task_ok_def)
  next
    case (mark_apply i threadId status result token session now applied st')
    then show ?thesis using rc_inv_mark [OF inv] by simp
  next
    case (read i now token session)
    then show ?thesis
      unfolding read(1) using rc_inv_lookup [OF inv read(3)]
      by (intro rc_inv_task [OF inv]) (auto simp: task_ok_def)
  next
    case (consume i token session now consumed st')
    then show ?thesis using rc_inv_consume [OF inv] by simp
  next
    case (consume_lost i token session now)
    obtain b st' where run: "consumeCmd token (rcThreadId session) now (scStore s) = (b, st')" by fastforce
    have "rc_inv (s\<lparr>scStore := st'\<rparr>)"
      by (rule rc_inv_shrink [OF inv]) (simp_all add: consumeCmd_effect [OF run])
    then show ?thesis using rc_inv_task [of "s\<lparr>scStore := st'\<rparr>" TDone i] run
      by (simp add: consume_lost(1) task_ok_def)
  next
    case (stop i)
    then show ?thesis using rc_inv_task [OF inv] by (simp add: task_ok_def)
  qed
qed

section \<open>Paths, lists and encodings\<close>

lemma startsWith_prefix: "startsWith s p \<longleftrightarrow> prefix p s"
  unfolding startsWith_def by (metis append_eq_conv_conj prefix_def)

lemma prefix_append_sep: "prefix (w @ [d]) s \<longleftrightarrow> (\<exists>z. s = w @ d # z)"
  by (auto simp: prefix_def)

lemma splitOn_append: "splitOn d (s @ d # t) = splitOn d s @ splitOn d t"
proof (induction s)
  case (Cons c s)
  obtain w ws where "splitOn d s = w # ws" by (metis splitOn_nonempty neq_Nil_conv)
  with Cons show ?case by auto
qed simp

lemma splitOn_joinWith:
  assumes "ws \<noteq> []" and "\<And>w. w \<in> set ws \<Longrightarrow> d \<notin> set w"
  shows "splitOn d (joinWith d ws) = ws"
  using assms
proof (induction ws)
  case (Cons w ws)
  show ?case
  proof (cases ws)
    case Nil
    then show ?thesis using Cons.prems by (simp add: joinWith_def splitOn_fresh)
  next
    case (Cons v rest)
    then have "joinWith d (w # ws) = w @ d # joinWith d ws" by (simp add: joinWith_def)
    then show ?thesis using Cons.IH Cons.prems Cons by (simp add: splitOn_append_sep)
  qed
qed simp

lemma joinWith_splitOn: "joinWith d (splitOn d s) = s"
proof (induction s)
  case (Cons c s)
  obtain w ws where "splitOn d s = w # ws" by (metis splitOn_nonempty neq_Nil_conv)
  with Cons show ?case by (auto simp: joinWith_def)
qed (simp add: joinWith_def)

lemma splitOn_inj: "splitOn d s = splitOn d t \<Longrightarrow> s = t"
  by (metis joinWith_splitOn)

text \<open>A path lies below another exactly when its segments extend the other's.\<close>

lemma path_below_segments:
  "(t = a \<or> startsWith t (a @ [d])) \<longleftrightarrow> prefix (splitOn d a) (splitOn d t)"
proof
  assume "t = a \<or> startsWith t (a @ [d])"
  then show "prefix (splitOn d a) (splitOn d t)"
    by (auto simp: startsWith_prefix prefix_append_sep splitOn_append)
next
  assume "prefix (splitOn d a) (splitOn d t)"
  then obtain zs where zs: "splitOn d t = splitOn d a @ zs" by (auto simp: prefix_def)
  show "t = a \<or> startsWith t (a @ [d])"
  proof (cases "zs = []")
    case True
    then show ?thesis using zs splitOn_inj by auto
  next
    case False
    have "w \<in> set zs \<Longrightarrow> d \<notin> set w" for w
      using zs splitOn_no_sep [of w d t] by auto
    then have "splitOn d (joinWith d zs) = zs" using False by (intro splitOn_joinWith)
    then have "splitOn d (a @ d # joinWith d zs) = splitOn d t" by (simp add: splitOn_append zs)
    then have "t = a @ d # joinWith d zs" using splitOn_inj by metis
    then show ?thesis by (auto simp: startsWith_prefix prefix_append_sep)
  qed
qed

lemma of_char_less: "(of_char c :: nat) < 256"
  using of_char_mod_256 [of c] by (metis mod_less_divisor zero_less_numeral)

lemma of_char_div: "(of_char c :: nat) div 16 < 16"
  by (rule less_mult_imp_div_less) (use of_char_less [of c] in simp)

lemma hexDigit_inj: "m < 16 \<Longrightarrow> n < 16 \<Longrightarrow> hexDigit m = hexDigit n \<Longrightarrow> m = n"
proof -
  have "distinct ''0123456789ABCDEF''" by code_simp
  then show "m < 16 \<Longrightarrow> n < 16 \<Longrightarrow> hexDigit m = hexDigit n \<Longrightarrow> m = n"
    unfolding hexDigit_def by (subst (asm) nth_eq_iff_index_eq) simp_all
qed

lemma hexDigit_plain:
  assumes "n < 16"
  shows "hexDigit n \<noteq> CHR ''&''"
proof -
  have all: "\<forall>c \<in> set ''0123456789ABCDEF''. c \<noteq> CHR ''&''" by code_simp
  have "hexDigit n \<in> set ''0123456789ABCDEF''" unfolding hexDigit_def by (rule nth_mem) (use assms in simp)
  with all show ?thesis by blast
qed

lemma encodeChar_no_amp: "CHR ''&'' \<notin> set (encodeChar c)"
proof -
  have "\<not> unescapedChar CHR ''&''" by code_simp
  moreover have "hexDigit (of_char c div 16) \<noteq> CHR ''&''" "hexDigit (of_char c mod 16) \<noteq> CHR ''&''"
    using of_char_div [of c] by (simp_all add: hexDigit_plain)
  ultimately show ?thesis by (auto simp: encodeChar_def Let_def)
qed

lemma encodeChar_prefix_free:
  assumes "encodeChar a @ x = encodeChar b @ y"
  shows "a = b \<and> x = y"
proof -
  have pct: "\<not> unescapedChar CHR ''%''" by code_simp
  show ?thesis
  proof (cases "unescapedChar a \<or> unescapedChar b")
    case True
    with assms pct show ?thesis by (auto simp: encodeChar_def Let_def split: if_splits)
  next
    case False
    have lt: "(of_char c :: nat) div 16 < 16" "(of_char c :: nat) mod 16 < 16" for c
      using of_char_div [of c] by simp_all
    from assms False have "hexDigit (of_char a div 16) = hexDigit (of_char b div 16)"
      "hexDigit (of_char a mod 16) = hexDigit (of_char b mod 16)" "x = y"
      by (simp_all add: encodeChar_def Let_def)
    then have "(of_char a :: nat) div 16 = of_char b div 16" "(of_char a :: nat) mod 16 = of_char b mod 16"
      using hexDigit_inj [OF lt(1) lt(1)] hexDigit_inj [OF lt(2) lt(2)] by blast+
    then have "(of_char a :: nat) = of_char b" by (metis div_mult_mod_eq)
    then show ?thesis using \<open>x = y\<close> by (metis char_of_char)
  qed
qed

lemma encodeURIComponent_inj: "encodeURIComponent s = encodeURIComponent t \<Longrightarrow> s = t"
proof (induction s arbitrary: t)
  case Nil
  have "encodeChar c \<noteq> []" for c by (simp add: encodeChar_def Let_def)
  with Nil show ?case by (cases t) (auto simp: encodeURIComponent_def)
next
  case (Cons c s)
  have ne: "encodeChar c \<noteq> []" by (simp add: encodeChar_def Let_def)
  show ?case
  proof (cases t)
    case Nil
    with Cons.prems ne show ?thesis by (simp add: encodeURIComponent_def)
  next
    case (Cons d t')
    then have "encodeChar c @ encodeURIComponent s = encodeChar d @ encodeURIComponent t'"
      using Cons.prems by (simp add: encodeURIComponent_def)
    from encodeChar_prefix_free [OF this] Cons.IH Cons show ?thesis by blast
  qed
qed

lemma encodeURIComponent_no_amp: "CHR ''&'' \<notin> set (encodeURIComponent s)"
  by (simp add: encodeURIComponent_def encodeChar_no_amp)

lemma last_sep_unique:
  assumes "xs @ d # ys = xs' @ d # ys'" and "d \<notin> set ys" and "d \<notin> set ys'"
  shows "xs = xs' \<and> ys = ys'"
proof -
  have "rev ys @ d # rev xs = rev ys' @ d # rev xs'" using assms(1) by (metis append_assoc append_Cons append_Nil rev.simps(2) rev_append rev_rev_ident)
  moreover have "takeWhile (\<lambda>c. c \<noteq> d) (rev zs @ d # w) = rev zs" if "d \<notin> set zs" for zs w
    using that by (subst takeWhile_append2) auto
  ultimately have "rev ys = rev ys'" using assms(2,3) by metis
  then show ?thesis using assms(1) by auto
qed

section \<open>What the handlers change\<close>

text \<open>Between two states of the service: the agents stay, and every session that was not in the store
  before satisfies \<open>A\<close>.\<close>

definition adds_only :: "(IResponseCodeSession \<Rightarrow> bool) \<Rightarrow> verif_state \<Rightarrow> verif_state \<Rightarrow> bool" where
  "adds_only A s s' \<longleftrightarrow> vsAgents s' = vsAgents s \<and>
     (\<forall>t v e. vsStore s' (tokenKey t) = Some (v, e) \<longrightarrow>
        vsStore s (tokenKey t) = Some (v, e) \<or> (\<exists>session. v = SessionValue session \<and> A session))"

interpretation oob: effect_preorder "adds_only A" for A
  by unfold_locales (simp add: adds_only_def, unfold adds_only_def, metis)

lemma adds_only_calls: "adds_only A s (s\<lparr>vsCalls := c\<rparr>)"
  by (simp add: adds_only_def)

lemma moves_getAgentEndPoint: "moves (adds_only A) (getAgentEndPoint orgId)"
  by (rule movesI) (auto simp: getAgentEndPoint_def oob.R_refl split: option.splits)

lemma moves_convert: "moves (adds_only A) (convertUrlToDeepLinkUrl ext u)"
  unfolding convertUrlToDeepLinkUrl_def by (intro oob.moves_rules)

lemma moves_mailAll: "moves (adds_only A) (mailAll ext payload emails failed)"
  by (induction emails arbitrary: failed)
    (auto intro!: oob.moves_rules oob.moves_writes adds_only_calls)

lemma moves_sendEmail: "moves (adds_only A) (sendEmailInBatches ext payload emails)"
  unfolding sendEmailInBatches_def by (intro oob.moves_rules moves_mailAll)

lemma moves_generate: "moves (adds_only A) (generateOOBProofReq ext payload)"
  unfolding generateOOBProofReq_def by (intro oob.moves_rules oob.moves_writes adds_only_calls)

lemma moves_onStore_create:
  assumes "A (newSession orgId threadId redirectUri createdAt)"
  shows "moves (adds_only A) (onStore (createSession env ttls token createdAt orgId threadId redirectUri))"
proof (rule movesI)
  fix s r s'
  assume "onStore (createSession env ttls token createdAt orgId threadId redirectUri) s = (r, s')"
  then show "adds_only A s s'"
    using assms by (auto simp: onStore_def createSession_def redisCall_def adds_only_def createCmd_token split: option.splits if_splits)
qed

lemma moves_attachRedirect:
  assumes "\<And>threadId. A (newSession orgId threadId redirectUri createdAt)"
  shows "moves (adds_only A) (attachRedirect ext env ttls token createdAt proof orgId redirectUri)"
  unfolding attachRedirect_def by (intro oob.moves_rules moves_onStore_create assms)

lemma moves_oobContinue:
  assumes "\<And>threadId. truthy (oobRedirectUri rq) \<Longrightarrow> A (newSession orgId threadId (orEmpty (oobRedirectUri rq)) createdAt)"
  shows "moves (adds_only A) (oobContinue ext env ttls token createdAt rq orgId agent)"
  unfolding oobContinue_def
  by (intro oob.moves_rules moves_sendEmail moves_generate moves_convert moves_attachRedirect assms)

lemma checkRedirect_run: "checkRedirect ext agent rq s = (fst (checkRedirect ext agent rq s), s)"
  by (simp add: checkRedirect_def)

lemma getAgentEndPoint_Inr:
  "getAgentEndPoint orgId s = (Inr a, s') \<longleftrightarrow> s' = s \<and> List.find (\<lambda>a. agOrgId a = orgId) (vsAgents s) = Some a"
  by (auto simp: getAgentEndPoint_def split: option.splits)

lemma trim_idem [simp]: "trim (trim s) = trim s"
proof -
  have drop: "dropWhile P (rev (dropWhile P (rev (dropWhile P w)))) = rev (dropWhile P (rev (dropWhile P w)))"
    for P and w :: string
  proof (cases "dropWhile P w")
    case (Cons c cs)
    then have "\<not> P c" by (metis dropWhile_eq_Cons_conv)
    then have "rev (dropWhile P (rev (c # cs))) = c # rev (dropWhile P (rev cs))"
      by (auto simp: dropWhile_append)
    then show ?thesis using Cons \<open>\<not> P c\<close> by simp
  next
    case Nil
    show ?thesis unfolding Nil by simp
  qed
  show ?thesis unfolding trim_def by (simp add: drop [of isSpace s] dropWhile_idem)
qed

lemma trim_subset: "set (trim s) \<subseteq> set s"
  unfolding trim_def by (auto dest!: set_dropWhileD)

lemma parse_joined:
  assumes "\<And>w. w \<in> set ws \<Longrightarrow> CHR '','' \<notin> set w \<and> w \<noteq> [] \<and> trim w = w"
  shows "parseRedirectUriAllowlist (Some (joinWith CHR '','' ws)) = ws"
proof (cases "ws = []")
  case True
  then show ?thesis by (simp add: parseRedirectUriAllowlist_def joinWith_def trim_def)
next
  case False
  then have "splitOn CHR '','' (joinWith CHR '','' ws) = ws" using assms by (intro splitOn_joinWith) auto
  moreover have "map trim ws = ws" "filter (\<lambda>w. 0 < length w) ws = ws"
    using assms by (auto intro!: map_idI simp: filter_id_conv)
  ultimately show ?thesis by (simp add: parseRedirectUriAllowlist_def)
qed

section \<open>Properties\<close>

text \<open>
  C4. However the commands of callers, webhooks and replicas interleave, with replies lost and calls
  cut off, a \<open>response_code\<close> yields a terminal result at most once; the result delivered is the outcome
  recorded by the first webhook call that completed for the thread the session was created for (later
  ones change nothing); and afterwards the code is unknown.
\<close>

theorem response_code_single_use:
  assumes "reachable_from rc_start (rc_step ttls) s"
  shows "distinct (map fst (scDelivered s)) \<and> distinct (map fst (scMarked s)) \<and>
    (\<forall>(token, cb) \<in> set (scDelivered s).
       (\<forall>now. redisGet now (tokenKey token) (scStore s) = None) \<and>
       (\<exists>session status result. scCreated s token = Some session \<and>
          (token, rcThreadId session, status, result) \<in> set (scMarked s) \<and> status \<noteq> PENDING \<and>
          cb = \<lparr>cbStatus = status, cbThreadId = Some (rcThreadId session), cbResult = Some result\<rparr>))"
proof -
  from assms have "rc_inv s" by (rule rc_runs.reachable_inv)
  then have mo: "marks_ok (scCreated s) (scMarked s) (scStore s)" and dl: "delivered_ok (scMarked s) (scDelivered s) (scStore s)"
    by (simp_all add: rc_inv_def)
  show ?thesis
  proof (intro conjI ballI, goal_cases)
    case (3 d)
    obtain token cb where d: "d = (token, cb)" by (cases d)
    with 3 have mem: "(token, cb) \<in> set (scDelivered s)" by simp
    obtain h status result where m: "(token, h, status, result) \<in> set (scMarked s)"
      "cb = \<lparr>cbStatus = status, cbThreadId = Some h, cbResult = Some result\<rparr>"
      using delivered_okD(2) [OF dl mem] by blast
    then show ?case
      using delivered_okD(1) [OF dl mem] marks_okD [OF mo m(1)] d by auto
  qed (use mo dl in \<open>simp_all add: marks_ok_def delivered_ok_def\<close>)
qed

text \<open>
  C29. The allow-list check decides membership of the redirect target under a registered entry: the
  scheme is https (or http where that is enabled), and for some entry that parses, the origins are equal
  and the entry's path, without trailing slashes, is empty or its segments are an initial part of the
  segments of the target's path. A look-alike host or a path that only shares characters never passes.
\<close>

theorem redirect_allowed_iff:
  "isRedirectUriAllowed parseURL uri allowlist allowHttp \<longleftrightarrow>
    (\<exists>u. parseURL uri = Some u \<and> (urlProtocol u = ''https:'' \<or> allowHttp \<and> urlProtocol u = ''http:'') \<and>
      (\<exists>entry a. entry \<in> set allowlist \<and> parseURL entry = Some a \<and> urlOrigin a = urlOrigin u \<and>
        (stripSlashes (urlPathname a) = [] \<or>
         prefix (splitOn CHR ''/'' (stripSlashes (urlPathname a))) (splitOn CHR ''/'' (stripSlashes (urlPathname u))))))"
proof -
  have entry: "matchesAllowlistEntry parseURL u entry \<longleftrightarrow>
      (\<exists>a. parseURL entry = Some a \<and> urlOrigin a = urlOrigin u \<and>
        (stripSlashes (urlPathname a) = [] \<or>
         prefix (splitOn CHR ''/'' (stripSlashes (urlPathname a))) (splitOn CHR ''/'' (stripSlashes (urlPathname u)))))"
    for u entry
    by (auto simp: matchesAllowlistEntry_def Let_def path_below_segments [symmetric] split: option.splits)
  show ?thesis
    by (auto simp: isRedirectUriAllowed_def hasAllowedRedirectProtocol_def entry list_ex_iff split: option.splits)
qed

text \<open>
  The deep link with the appended return target can be taken apart again: the wallet's reading of
  everything before the last \<open>&returnUrl=\<close> as the invitation gives back both parts, so no return target
  can change the invitation the wallet sees.
\<close>

theorem appendReturnUrl_unambiguous:
  "appendReturnUrl deep ret1 = appendReturnUrl deep' ret2 \<longleftrightarrow> deep = deep' \<and> ret1 = ret2"
proof
  assume "appendReturnUrl deep ret1 = appendReturnUrl deep' ret2"
  then have "deep @ CHR ''&'' # (''returnUrl='' @ encodeURIComponent ret1) =
      deep' @ CHR ''&'' # (''returnUrl='' @ encodeURIComponent ret2)"
    by (simp add: appendReturnUrl_def)
  from last_sep_unique [OF this] have "deep = deep' \<and> encodeURIComponent ret1 = encodeURIComponent ret2"
    by (auto simp: encodeURIComponent_no_amp)
  then show "deep = deep' \<and> ret1 = ret2" using encodeURIComponent_inj by blast
qed simp

text \<open>
  What \<open>setRedirectUris\<close> stores is what \<open>getRedirectUris\<close> and the allow-list check read back: for
  entries without a comma, which the gateway's DTO enforces, the comma-separated column gives back
  exactly the trimmed entries in order, each once.
\<close>

theorem redirect_uris_roundtrip:
  assumes "\<And>u. u \<in> set uris \<Longrightarrow> CHR '','' \<notin> set u" and "extParseURL ext [] = None"
    and run: "setRedirectUris ext orgId uris userId s = (Inr stored, s')"
  shows "stored = rev (remdups (rev (map trim uris))) \<and> getRedirectUris orgId s' = (Inr stored, s') \<and>
    vsStore s' = vsStore s"
proof -
  let ?n = "rev (remdups (rev (map trim uris)))"
  let ?http = "isHttpRedirectUriAllowed (extAllowHttp ext)"
  have ok: "list_all (\<lambda>uri. hasAllowedRedirectProtocol (extParseURL ext) uri ?http) ?n"
    using run by (auto simp: setRedirectUris_def Let_def split: if_splits)
  have "CHR '','' \<notin> set w \<and> w \<noteq> [] \<and> trim w = w" if "w \<in> set ?n" for w
  proof -
    from that obtain u where "u \<in> set uris" "w = trim u" by auto
    moreover have "w \<noteq> []"
      using ok that assms(2) by (auto simp: list_all_iff hasAllowedRedirectProtocol_def)
    ultimately show ?thesis using assms(1) [of u] trim_subset [of u] by auto
  qed
  then have parse: "parseRedirectUriAllowlist (Some (joinWith CHR '','' ?n)) = ?n" by (rule parse_joined)
  obtain a where a: "List.find (\<lambda>a. agOrgId a = orgId) (vsAgents s) = Some a"
    using run ok by (auto simp: setRedirectUris_def getAgentEndPoint_def bind_def split: option.splits)
  let ?a' = "a\<lparr>agRedirectUriAllowlist := Some (joinWith CHR '','' ?n), agLastChangedBy := userId\<rparr>"
  have stored: "stored = ?n" and s': "s' = s\<lparr>vsAgents := updateWhere (\<lambda>r. agOrgId r = orgId) (\<lambda>_. ?a') (vsAgents s)\<rparr>"
    using run ok a parse
    by (auto simp: setRedirectUris_def getAgentEndPoint_def updateRedirectUriAllowlist_def bind_def Let_def)
  have key: "agOrgId a = orgId" using find_SomeD [OF a] by simp
  have "List.find (\<lambda>a. agOrgId a = orgId) (updateWhere (\<lambda>r. agOrgId r = orgId) (\<lambda>_. ?a') rows) = Some ?a'"
    if "List.find (\<lambda>a. agOrgId a = orgId) rows = Some a" for rows
    using that key by (induction rows) (auto split: if_splits)
  from this [OF a] show ?thesis
    using parse by (simp add: stored s' getRedirectUris_def getAgentEndPoint_def bind_def)
qed

text \<open>A parser that knows three addresses, for the examples.\<close>

definition exampleURL :: "string \<Rightarrow> url option" where
  "exampleURL u =
     (if u = ''https://rp.example/cb'' then Some \<lparr>urlProtocol = ''https:'', urlOrigin = ''https://rp.example'', urlPathname = ''/cb'', urlSearch = [], urlHash = []\<rparr>
      else if u = ''https://rp.example/cb/done'' then Some \<lparr>urlProtocol = ''https:'', urlOrigin = ''https://rp.example'', urlPathname = ''/cb/done'', urlSearch = [], urlHash = []\<rparr>
      else if u = ''https://rp.example/cbx'' then Some \<lparr>urlProtocol = ''https:'', urlOrigin = ''https://rp.example'', urlPathname = ''/cbx'', urlSearch = [], urlHash = []\<rparr>
      else None)"

definition exampleInvitation :: invitation where
  "exampleInvitation =
     \<lparr>invProofRecordThId = Some ''th'', invInvitationUrl = Some ''https://i'', invDeepLinkURL = None, invReturnUrl = None\<rparr>"

definition exampleExt :: verif_ext where
  "exampleExt =
     \<lparr>extStoreProof = (\<lambda>_. Inr ()), extOrganization = (\<lambda>_. None), extInvitationDid = (\<lambda>_. None),
      extAgent = (\<lambda>_. Inr (Some exampleInvitation)), extShorten = (\<lambda>_. Inr ''https://s''), extMail = (\<lambda>_ _. Inr ()),
      extAgentUrl = (\<lambda>_. Inr ''http://agent''), extDeepLinkDomain = None, extAllowHttp = None,
      extParseURL = exampleURL, extShowURL = urlPathname\<rparr>"

definition exampleState :: verif_state where
  "exampleState =
     \<lparr>vsStore = (\<lambda>_. None),
      vsAgents = [\<lparr>agOrgId = ''org'', agEndPoint = Some ''ep'', agRedirectUriAllowlist = Some ''https://rp.example/cb'', agLastChangedBy = ''u''\<rparr>],
      vsCalls = []\<rparr>"

definition exampleRequest :: "string \<Rightarrow> oob_request" where
  "exampleRequest uri =
     \<lparr>oobProtocolVersion = None, oobComment = None, oobProofFormats = None, oobAutoAcceptProof = None, oobLabel = None,
      oobGoalCode = None, oobWillConfirm = None, oobImageUrl = None, oobPresentationDefinition = None,
      oobInvitationDid = None, oobEmailId = None, oobIsShortenUrl = False, oobType = ''indy'',
      oobReuseConnection = False, oobRedirectUri = Some uri\<rparr>"

definition exampleEnv :: rc_env where
  "exampleEnv = \<lparr>envNow = (\<lambda>k. int k), envDown = (\<lambda>_. None)\<rparr>"

definition exampleTtls :: rc_ttls where
  "exampleTtls = \<lparr>pendingTtlSeconds = 600, resultTtlSeconds = 60\<rparr>"

lemma example_set:
  "fst (setRedirectUris exampleExt ''org'' [''https://rp.example/cb '', ''https://rp.example/cbx''] ''u'' exampleState) =
     Inr [''https://rp.example/cb'', ''https://rp.example/cbx'']"
  by code_simp

theorem redirect_uris_roundtrip_witness:
  "fst (getRedirectUris ''org''
     (snd (setRedirectUris exampleExt ''org'' [''https://rp.example/cb '', ''https://rp.example/cbx''] ''u'' exampleState))) =
   Inr [''https://rp.example/cb'', ''https://rp.example/cbx'']"
proof -
  let ?uris = "[''https://rp.example/cb '', ''https://rp.example/cbx'']"
  let ?run = "setRedirectUris exampleExt ''org'' ?uris ''u'' exampleState"
  have run: "?run = (Inr [''https://rp.example/cb'', ''https://rp.example/cbx''], snd ?run)"
    using example_set by (metis prod.collapse)
  have nocomma: "CHR '','' \<notin> set u" if "u \<in> set ?uris" for u using that by auto
  have none: "extParseURL exampleExt [] = None" by (simp add: exampleExt_def exampleURL_def)
  show ?thesis by (simp only: redirect_uris_roundtrip [OF nocomma none run, THEN conjunct2, THEN conjunct1] fst_conv)
qed

text \<open>
  C32. Every \<open>response_code\<close> session that an out-of-band proof request adds belongs to the requesting
  organisation and redirects to an address its registered allow list permits, whatever the agent, the
  shortener and Redis answer; the registered lists themselves stay.
\<close>

theorem oob_sessions_allowed:
  assumes run: "sendOutOfBandPresentationRequest ext env ttls token createdAt rq orgId s = (r, s')"
    and entry: "vsStore s' (tokenKey t) = Some (v, e)" and new: "vsStore s (tokenKey t) \<noteq> Some (v, e)"
  shows "vsAgents s' = vsAgents s \<and>
    (\<exists>session agent. v = SessionValue session \<and> rcOrgId session = orgId \<and> rcStatus session = PENDING \<and>
       agent \<in> set (vsAgents s) \<and> agOrgId agent = orgId \<and>
       isRedirectUriAllowed (extParseURL ext) (rcRedirectUri session)
         (parseRedirectUriAllowlist (agRedirectUriAllowlist agent)) (isHttpRedirectUriAllowed (extAllowHttp ext)))"
proof -
  let ?allowed = "\<lambda>agent uri. isRedirectUriAllowed (extParseURL ext) uri
    (parseRedirectUriAllowlist (agRedirectUriAllowlist agent)) (isHttpRedirectUriAllowed (extAllowHttp ext))"
  define A where "A = (\<lambda>session :: IResponseCodeSession. rcOrgId session = orgId \<and> rcStatus session = PENDING \<and>
    (\<exists>agent \<in> set (vsAgents s). agOrgId agent = orgId \<and> ?allowed agent (rcRedirectUri session)))"
  consider (failed) "s' = s"
    | (went) agent r' where "List.find (\<lambda>a. agOrgId a = orgId) (vsAgents s) = Some agent"
        "truthy (oobRedirectUri rq) \<Longrightarrow> ?allowed agent (orEmpty (oobRedirectUri rq))"
        "oobContinue ext env ttls token createdAt rq orgId agent s = (r', s')"
    using run
    by (cases "List.find (\<lambda>a. agOrgId a = orgId) (vsAgents s)")
      (auto simp: sendOutOfBandPresentationRequest_def getAgentEndPoint_def checkRedirect_def eff_defs
        split: if_splits prod.splits sum.splits)
  then have "adds_only A s s'"
  proof cases
    case failed
    then show ?thesis by (simp add: oob.R_refl)
  next
    case went
    have "truthy (oobRedirectUri rq) \<Longrightarrow> A (newSession orgId threadId (orEmpty (oobRedirectUri rq)) createdAt)" for threadId
      using went(2) find_SomeD [OF went(1)] by (auto simp: A_def newSession_def)
    then have "moves (adds_only A) (oobContinue ext env ttls token createdAt rq orgId agent)"
      by (rule moves_oobContinue)
    then show ?thesis using went(3) by (rule movesD)
  qed
  then have "vsAgents s' = vsAgents s" and "\<exists>session. v = SessionValue session \<and> A session"
    using entry new unfolding adds_only_def by blast+
  then show ?thesis unfolding A_def by blast
qed

lemma example_send:
  "vsStore (snd (sendOutOfBandPresentationRequest exampleExt exampleEnv exampleTtls ''tok'' ''now''
     (exampleRequest ''https://rp.example/cb/done'') ''org'' exampleState)) (tokenKey ''tok'') =
   Some (SessionValue (newSession ''org'' ''th'' ''https://rp.example/cb/done'' ''now''), 600000)"
  by code_simp

theorem oob_sessions_allowed_witness:
  "\<exists>agent \<in> set (vsAgents exampleState). agOrgId agent = ''org'' \<and>
     isRedirectUriAllowed exampleURL ''https://rp.example/cb/done''
       (parseRedirectUriAllowlist (agRedirectUriAllowlist agent)) False"
proof -
  have new: "vsStore exampleState (tokenKey ''tok'') \<noteq>
      Some (SessionValue (newSession ''org'' ''th'' ''https://rp.example/cb/done'' ''now''), 600000)"
    by (simp add: exampleState_def)
  have ext: "extParseURL exampleExt = exampleURL" "isHttpRedirectUriAllowed (extAllowHttp exampleExt) = False"
    by (simp_all add: exampleExt_def isHttpRedirectUriAllowed_def)
  from oob_sessions_allowed [OF prod.collapse [symmetric] example_send new] show ?thesis
    unfolding ext by (auto simp: newSession_def)
qed

text \<open>
  A request whose redirect target is not registered, or that names mail recipients beside one, is
  refused before anything happens: no request reaches the agent and no session is created.
\<close>

theorem oob_redirect_refused:
  assumes "List.find (\<lambda>a. agOrgId a = orgId) (vsAgents s) = Some agent"
    and "oobRedirectUri rq = Some uri" and "uri \<noteq> []"
    and "oobEmailId rq \<noteq> None \<or> \<not> isRedirectUriAllowed (extParseURL ext) uri
      (parseRedirectUriAllowlist (agRedirectUriAllowlist agent)) (isHttpRedirectUriAllowed (extAllowHttp ext))"
  shows "\<exists>m. sendOutOfBandPresentationRequest ext env ttls token createdAt rq orgId s =
    (Inl (BadRequestException m), s)"
  using assms
  by (auto simp: sendOutOfBandPresentationRequest_def getAgentEndPoint_def checkRedirect_def eff_defs)

theorem oob_redirect_refused_witness:
  "\<exists>m. sendOutOfBandPresentationRequest exampleExt exampleEnv exampleTtls ''tok'' ''now''
     (exampleRequest ''https://rp.example/cbx'') ''org'' exampleState = (Inl (BadRequestException m), exampleState)"
proof -
  define a where "a = hd (vsAgents exampleState)"
  have a: "List.find (\<lambda>a. agOrgId a = ''org'') (vsAgents exampleState) = Some a"
    by (simp add: a_def exampleState_def)
  have "\<not> isRedirectUriAllowed (extParseURL exampleExt) ''https://rp.example/cbx''
      (parseRedirectUriAllowlist (agRedirectUriAllowlist a)) (isHttpRedirectUriAllowed (extAllowHttp exampleExt))"
    unfolding a_def by code_simp
  then show ?thesis
    by (intro oob_redirect_refused [OF a, of _ "''https://rp.example/cbx''"]) (simp_all add: exampleRequest_def)
qed

text \<open>
  The life of a code while Redis is reachable: before the proof finishes the caller reads pending
  and nothing changes; when the webhook reports a final state before the pending period ends, a caller
  within the result period reads exactly that state and the thread, and every later read is expired.
\<close>

theorem response_code_lifecycle:
  fixes st :: rc_store and createdAt orgId uri :: string and result :: IResponseCodeResult
  assumes names: "token \<noteq> []" "threadId \<noteq> []"
    and up: "envDown e0 0 = None" "\<And>k. envDown e1 k = None" "\<And>k. envDown e2 k = None" "\<And>k. envDown e3 k = None"
    and time: "\<And>k. k \<le> 2 \<Longrightarrow> envNow e1 k < envNow e0 0 + 1000 * pendingTtlSeconds ttls"
      "\<And>k. k \<le> 1 \<Longrightarrow> envNow e2 k < envNow e1 2 + 1000 * resultTtlSeconds ttls"
    and final: "status \<noteq> PENDING"
  defines "s1 \<equiv> snd (createSession e0 ttls token createdAt orgId threadId uri st)"
  defines "s2 \<equiv> snd (markTerminalByThreadId e1 ttls threadId status result s1)"
  defines "s3 \<equiv> snd (getProofCallbackResult e2 token s2)"
  shows "getProofCallbackResult e1 token s1 = (Inr \<lparr>cbStatus = PENDING, cbThreadId = None, cbResult = None\<rparr>, s1) \<and>
    fst (getProofCallbackResult e2 token s2) =
      Inr \<lparr>cbStatus = status, cbThreadId = Some threadId, cbResult = Some result\<rparr> \<and>
    getProofCallbackResult e3 token s3 = (Inr expiredResult, s3)"
proof -
  let ?new = "newSession orgId threadId uri createdAt"
  let ?fin = "markedSession ?new status result"
  have s1: "s1 = createCmd ttls token ?new (envNow e0 0) st"
    using up(1) by (simp add: s1_def createSession_def redisCall_def)
  have get1: "redisGet (envNow e1 k) (tokenKey token) s1 = Some (SessionValue ?new)"
    "redisGet (envNow e1 k) (threadIndexKey threadId) s1 = Some (TokenValue token)" if "k \<le> 2" for k
    using time(1) [OF that] by (simp_all add: s1 redisGet_def createCmd_token createCmd_thread newSession_def)
  have pend: "rcStatus ?new = PENDING" "rcThreadId ?fin = threadId" "rcStatus ?fin = status" "rcResult ?fin = Some result"
    by (simp_all add: newSession_def markedSession_def)
  obtain st' where run: "MARK_TERMINAL_SCRIPT (envNow e1 2) (tokenKey token) (threadIndexKey threadId) (SessionValue ?new)
      (SessionValue ?fin) (resultTtlSeconds ttls) s1 = (True, st')"
    using get1(1) [of 2] by (simp add: MARK_TERMINAL_SCRIPT_def)
  have s2: "s2 = st'"
    using names up(2) get1 pend(1) run
    by (simp add: s2_def markTerminalByThreadId_def getSession_def redisCall_def bind_def)
  have get2: "redisGet (envNow e2 k) (tokenKey token) s2 = Some (SessionValue ?fin)" if "k \<le> 1" for k
    using time(2) [OF that] by (simp add: s2 redisGet_def mark_script_effect(2) [OF run])
  obtain st3 where cons: "consumeCmd token threadId (envNow e2 1) s2 = (True, st3)"
    using consumeCmd_effect(3) get2 [OF order_refl] by (metis option.distinct(1) surj_pair)
  have third: "getProofCallbackResult e2 token s2 = (Inr (callbackOf ?fin), st3)"
    using names(1) up(3) get2 pend final cons
    by (simp add: getProofCallbackResult_def getSession_def consume_def redisCall_def eff_defs)
  then have "redisGet (envNow e3 k) (tokenKey token) s3 = None" for k
    using consumeCmd_effect(1) [OF cons, of token] by (simp add: s3_def)
  then have "getProofCallbackResult e3 token s3 = (Inr expiredResult, s3)"
    using names(1) up(4) by (simp add: getProofCallbackResult_def getSession_def redisCall_def eff_defs)
  moreover have "getProofCallbackResult e1 token s1 = (Inr \<lparr>cbStatus = PENDING, cbThreadId = None, cbResult = None\<rparr>, s1)"
    using names(1) up(2) get1(1) pend(1) by (simp add: getProofCallbackResult_def getSession_def redisCall_def eff_defs)
  ultimately show ?thesis using third pend by (simp add: callbackOf_def)
qed

theorem response_code_lifecycle_witness:
  "fst (getProofCallbackResult exampleEnv ''tok''
     (snd (markTerminalByThreadId exampleEnv exampleTtls ''th'' COMPLETED \<lparr>rcState = ''done'', rcPresentationId = None\<rparr>
       (snd (createSession exampleEnv exampleTtls ''tok'' ''now'' ''org'' ''th'' ''https://rp'' (\<lambda>_. None)))))) =
   Inr \<lparr>cbStatus = COMPLETED, cbThreadId = Some ''th'', cbResult = Some \<lparr>rcState = ''done'', rcPresentationId = None\<rparr>\<rparr>"
proof -
  have env: "envDown exampleEnv k = None" "envNow exampleEnv k = int k" for k by (simp_all add: exampleEnv_def)
  show ?thesis
    by (rule response_code_lifecycle [where ?e3.0 = exampleEnv, THEN conjunct2, THEN conjunct1])
      (simp_all add: env exampleTtls_def)
qed

text \<open>
  Without an explicit \<open>autoAcceptProof\<close> a presentation-exchange request asks the agent to accept
  always, but an Indy request reaches the agent without any value: its payload was copied from the
  request before the default was filled in.
\<close>

theorem indy_misses_auto_accept:
  assumes "oobAutoAcceptProof rq = None"
  shows "(oobType rq = ''presentationExchange'' \<and> buildPayload rq orgId u did label og = Inr (Some p) \<longrightarrow>
      (\<exists>f. p = ExchangePayload orgId u f \<and> oobAutoAcceptProof f = Some ''always'')) \<and>
    (oobType rq = ''indy'' \<longrightarrow>
      (\<exists>f. buildPayload rq orgId u did label og = Inr (Some (IndyPayload orgId u f)) \<and> oobAutoAcceptProof f = None))"
  using assms by (auto simp: buildPayload_def Let_def orElse_def split: option.splits)

theorem indy_misses_auto_accept_witness:
  "\<exists>f. buildPayload (exampleRequest ''u'') ''org'' ''a'' None None None = Inr (Some (IndyPayload ''org'' ''a'' f)) \<and>
     oobAutoAcceptProof f = None"
  using indy_misses_auto_accept [of "exampleRequest ''u''" "''org''" "''a''" None None None]
  by (simp add: exampleRequest_def)

lemma rc_example:
  "\<exists>s. reachable_from rc_start (rc_step exampleTtls) s \<and> map fst (scDelivered s) = [''tok'']"
proof -
  let ?R = "reachable_from rc_start (rc_step exampleTtls)"
  let ?res = "\<lparr>rcState = ''done'', rcPresentationId = None\<rparr>"
  let ?new = "newSession ''org'' ''th'' ''u'' ''now''"
  let ?fin = "markedSession ?new COMPLETED ?res"
  define st1 where "st1 = createCmd exampleTtls ''tok'' ?new 0 Map.empty"
  define st2 where "st2 = snd (MARK_TERMINAL_SCRIPT 1 (tokenKey ''tok'') (threadIndexKey ''th'') (SessionValue ?new)
    (SessionValue ?fin) 60 st1)"
  define st3 where "st3 = snd (consumeCmd ''tok'' ''th'' 2 st2)"
  have get1: "redisGet 1 (tokenKey ''tok'') st1 = Some (SessionValue ?new)"
    "redisGet 1 (threadIndexKey ''th'') st1 = Some (TokenValue ''tok'')"
    by (simp_all add: st1_def redisGet_def createCmd_token createCmd_thread newSession_def exampleTtls_def)
  have run2: "MARK_TERMINAL_SCRIPT 1 (tokenKey ''tok'') (threadIndexKey ''th'') (SessionValue ?new)
      (SessionValue ?fin) (resultTtlSeconds exampleTtls) st1 = (True, st2)"
    using get1(1) by (simp add: st2_def MARK_TERMINAL_SCRIPT_def exampleTtls_def)
  have get2: "redisGet 2 (tokenKey ''tok'') st2 = Some (SessionValue ?fin)"
    by (simp add: redisGet_def mark_script_effect(2) [OF run2] exampleTtls_def)
  have fin: "rcThreadId ?fin = ''th''" "rcStatus ?new = PENDING" by (simp_all add: markedSession_def newSession_def)
  have run3: "consumeCmd ''tok'' ''th'' 2 st2 = (True, st3)"
    using get2 by (simp add: st3_def consumeCmd_def redisDel_def)
  let ?s0 = "\<lparr>scStore = Map.empty, scTask = (\<lambda>_. TIdle), scCreated = Map.empty, scMarked = [], scDelivered = []\<rparr>"
  have r0: "?R ?s0" by (rule reachable_from.init) (simp add: rc_start_def)
  have st: "toTerminalResponseCodeStatus ''done'' True = Some COMPLETED" by (simp add: toTerminalResponseCodeStatus_def)
  have fresh: "scCreated ?s0 ''tok'' = None" by simp
  obtain s1 where s1: "?R s1" "scTask s1 0 = TIdle" "scTask s1 1 = TIdle" "scStore s1 = st1" "scDelivered s1 = []"
    using reachable_from.move [OF r0, OF rc_step.create [where now = 0, OF fresh refl]] by (fastforce simp: st1_def)
  obtain s2 where s2: "?R s2" "scTask s2 0 = TMarkToken ''th'' COMPLETED ?res ''tok''" "scTask s2 1 = TIdle"
    "scStore s2 = st1" "scDelivered s2 = []"
    using reachable_from.move [OF s1(1), OF rc_step.mark_index [where result = ?res, OF s1(2) st get1(2) [folded s1(4)]]] s1
    by fastforce
  obtain s3 where s3: "?R s3" "scTask s3 0 = TMarkSession ''th'' COMPLETED ?res ''tok'' ?new" "scTask s3 1 = TIdle"
    "scStore s3 = st1" "scDelivered s3 = []"
    using reachable_from.move [OF s2(1), OF rc_step.mark_load [OF s2(2) get1(1) [folded s2(4)] fin(2)]] s2 by fastforce
  obtain s4 where s4: "?R s4" "scTask s4 1 = TIdle" "scStore s4 = st2" "scDelivered s4 = []"
    using reachable_from.move [OF s3(1), OF rc_step.mark_apply [OF s3(2) run2 [folded s3(4)]]] s3 by fastforce
  have "rcStatus ?fin \<noteq> PENDING" by simp
  then obtain s5 where s5: "?R s5" "scTask s5 1 = TRead ''tok'' ?fin" "scStore s5 = st2" "scDelivered s5 = []"
    using reachable_from.move [OF s4(1), OF rc_step.read [OF s4(2) get2 [folded s4(3)]]] s4 by fastforce
  have "consumeCmd ''tok'' (rcThreadId ?fin) 2 (scStore s5) = (True, st3)" by (simp only: fin(1) s5(3) run3)
  from reachable_from.move [OF s5(1), OF rc_step.consume [OF s5(2) this]] s5(4) show ?thesis by fastforce
qed

theorem response_code_single_use_witness:
  "\<exists>s cb. reachable_from rc_start (rc_step exampleTtls) s \<and> (''tok'', cb) \<in> set (scDelivered s) \<and>
     redisGet 5 (tokenKey ''tok'') (scStore s) = None"
proof -
  obtain s where s: "reachable_from rc_start (rc_step exampleTtls) s" "map fst (scDelivered s) = [''tok'']"
    using rc_example by (elim exE conjE)
  have "''tok'' \<in> set (map fst (scDelivered s))" unfolding s(2) by (rule list.set_intros(1))
  then obtain d where d: "''tok'' = fst d" "d \<in> set (scDelivered s)" unfolding set_map by (rule imageE)
  then have cb: "(''tok'', snd d) \<in> set (scDelivered s)" by (simp only: prod.collapse)
  from response_code_single_use [OF s(1), THEN conjunct2, THEN conjunct2, THEN bspec, OF cb]
  have "redisGet 5 (tokenKey ''tok'') (scStore s) = None" by simp
  with s(1) cb show ?thesis by (intro exI conjI)
qed

end
