(* ===== verification/Marketplace_Store.thy ===== *)
theory Marketplace_Store
  imports Platform_Prelude Complex_Main
begin

text \<open>
  The data of the Marketplace service and its repository
  (\<open>apps/marketplace/src/repositories/marketplace.repository.ts\<close>, tables of
  \<open>libs/prisma-service/prisma/schema.prisma\<close>).

  A table is the list of its rows. Columns that are stored and never read (\<open>metadata\<close>, \<open>rawPayload\<close>,
  \<open>payload\<close>, \<open>headers\<close>, \<open>lastChangedDateTime\<close>) are left out. Times are milliseconds and the \<open>Float\<close>
  quantities rational numbers. \<open>newId\<close> and \<open>now\<close> are the generated UUID and the clock reading of a
  call. In the data of an update Prisma leaves a column alone whose value is \<open>undefined\<close>: \<open>keep\<close>.
  The unique constraints of the schema, with the partial index of migration \<open>20260605120000\<close>, raise
  \<open>P2002\<close>; an update whose row does not exist raises \<open>P2025\<close>.
\<close>

section \<open>Definitions\<close>

subsection \<open>Tables\<close>

datatype MarketplaceSubscriptionStatus = PendingFulfillmentStart | Subscribed | Suspended | Unsubscribed

datatype MarketplaceActivationStatus = ActNotStarted | ActInProgress | ActActivated | ActFailed

datatype MarketplaceOnboardingStatus =
  ObResolved | ObAccountLinked | ObOrgLinked | ObActivationPending | ObActivated | ObExpired | ObFailed

datatype MarketplaceUsageStatus = UPending | USubmitted | UAccepted | UDuplicate | UFailed | UExpired

datatype MarketplaceWebhookProcessingStatus = WhReceived | WhValidated | WhProcessed | WhFailed

datatype MarketplaceOperationAckStatus = AckNotRequired | AckPending | AckSuccess | AckFailure

record MarketplaceParty =
  pyEmailId :: "string option"
  pyTenantId :: "string option"
  pyObjectId :: "string option"
  pyPuid :: "string option"

record MarketplaceTerm =
  tmUnit :: "string option"
  tmStartDate :: "int option"
  tmEndDate :: "int option"

record MarketplaceResolvedSubscription =
  rsvId :: string
  rsvName :: "string option"
  rsvPublisherId :: "string option"
  rsvOfferId :: string
  rsvPlanId :: string
  rsvStatus :: MarketplaceSubscriptionStatus
  rsvBeneficiary :: "MarketplaceParty option"
  rsvPurchaser :: "MarketplaceParty option"
  rsvTerm :: "MarketplaceTerm option"
  rsvAutoRenew :: "bool option"
  rsvIsFreeTrial :: "bool option"
  rsvIsTest :: "bool option"
  rsvSandboxType :: "string option"
  rsvQuantity :: "int option"
  rsvAllowedCustomerOperations :: "string list option"

record marketplace_subscription =
  subId :: string
  subMarketplaceId :: string
  subPublisherId :: "string option"
  subOfferId :: string
  subPlanId :: string
  subName :: "string option"
  subStatus :: MarketplaceSubscriptionStatus
  subQuantity :: "int option"
  subTermUnit :: "string option"
  subTermStartDate :: "int option"
  subTermEndDate :: "int option"
  subAutoRenew :: "bool option"
  subIsFreeTrial :: "bool option"
  subIsTest :: "bool option"
  subSandboxType :: "string option"
  subAllowedCustomerOperations :: "string list"
  subPurchaserEmail :: "string option"
  subPurchaserTenantId :: "string option"
  subPurchaserObjectId :: "string option"
  subPurchaserPuid :: "string option"
  subBeneficiaryEmail :: "string option"
  subBeneficiaryTenantId :: "string option"
  subBeneficiaryObjectId :: "string option"
  subBeneficiaryPuid :: "string option"
  subLocalUserId :: "string option"
  subOrgId :: "string option"
  subActivationStatus :: MarketplaceActivationStatus
  subActivationError :: "string option"
  subLastResolvedAt :: "int option"
  subLastSyncedAt :: "int option"
  subCreateDateTime :: int
  subDeletedAt :: "int option"

record marketplace_onboarding_session =
  obId :: string
  obSubscriptionId :: string
  obTokenHash :: string
  obBuyerTenantId :: "string option"
  obBuyerObjectId :: "string option"
  obBuyerEmail :: "string option"
  obStatus :: MarketplaceOnboardingStatus
  obExpiresAt :: int
  obCreateDateTime :: int

record marketplace_plan =
  plOfferId :: string
  plPlanId :: string
  plIncludedIssuance :: int
  plIncludedVerification :: int
  plIncludedSchemas :: int
  plMaxOrganizations :: "int option"
  plMaxUsers :: "int option"
  plFeatures :: "(string \<times> bool) list option"  \<comment> \<open>\<open>None\<close>: JSON that is not an object\<close>

record marketplace_usage_event =
  ueId :: string
  ueSubscriptionId :: string
  ueOrgId :: string
  ueDimension :: string
  ueQuantity :: rat
  ueUsageStartTime :: int
  ueStatus :: MarketplaceUsageStatus
  ueResponseStatus :: "string option"
  ueMessage :: "string option"
  ueRequestId :: "string option"
  ueCorrelationId :: "string option"
  ueSubmittedAt :: "int option"
  ueSourceEventIds :: "string list"

record billing_usage_event =
  buId :: string
  buOrgId :: string
  buSubscriptionId :: "string option"
  buEventType :: string
  buSourceTable :: "string option"
  buSourceId :: string
  buOccurredAt :: int
  buQuantity :: rat

record marketplace_webhook_event =
  whId :: string
  whOperationId :: "string option"
  whActivityId :: "string option"
  whSubscriptionId :: string
  whMarketplaceSubscriptionId :: "string option"
  whAction :: string
  whStatus :: "string option"
  whValidationStatus :: "string option"
  whProcessingStatus :: MarketplaceWebhookProcessingStatus
  whError :: "string option"

record marketplace_operation =
  opOperationId :: string
  opSubscriptionId :: string
  opAction :: string
  opStatus :: "string option"
  opPlanId :: "string option"
  opQuantity :: "int option"
  opAckStatus :: MarketplaceOperationAckStatus
  opAckError :: "string option"

record mp_db =
  dbSubs :: "marketplace_subscription list"
  dbSessions :: "marketplace_onboarding_session list"
  dbPlans :: "marketplace_plan list"
  dbUsage :: "marketplace_usage_event list"
  dbBilling :: "billing_usage_event list"
  dbWebhooks :: "marketplace_webhook_event list"
  dbOperations :: "marketplace_operation list"
  dbToken :: "(string \<times> int) option"  \<comment> \<open>\<open>PublisherTokenService.cachedToken\<close>\<close>

definition keep :: "'a option \<Rightarrow> 'a option \<Rightarrow> 'a option" where
  "keep new old = (case new of None \<Rightarrow> old | Some x \<Rightarrow> Some x)"

text \<open>The row a query with \<open>orderBy: { key: 'desc' }\<close> returns first.\<close>

definition findLatest :: "('r \<Rightarrow> int) \<Rightarrow> ('r \<Rightarrow> bool) \<Rightarrow> 'r list \<Rightarrow> 'r option" where
  "findLatest key p rows =
     (case filter p rows of
        [] \<Rightarrow> None
      | r # rs \<Rightarrow> Some (foldl (\<lambda>best x. if key best \<le> key x then x else best) r rs))"

subsection \<open>Subscriptions\<close>

text \<open>The partial unique index: rows that are linked, not deleted and not cancelled.\<close>

definition occupiesOrg :: "marketplace_subscription \<Rightarrow> bool" where
  "occupiesOrg r \<longleftrightarrow> subOrgId r \<noteq> None \<and> subDeletedAt r = None \<and> subStatus r \<noteq> Unsubscribed"

definition subsUnique :: "marketplace_subscription list \<Rightarrow> bool" where
  "subsUnique rows \<longleftrightarrow> distinct (map subId rows) \<and> distinct (map subMarketplaceId rows) \<and>
     distinct (map subOrgId (filter occupiesOrg rows))"

definition putSubs :: "marketplace_subscription list \<Rightarrow> (mp_db, unit) eff" where
  "putSubs rows = (\<lambda>db. if subsUnique rows then (Inr (), db\<lparr>dbSubs := rows\<rparr>) else (Inl (PrismaError ''P2002''), db))"

definition updateSub ::
  "(marketplace_subscription \<Rightarrow> bool) \<Rightarrow> (marketplace_subscription \<Rightarrow> marketplace_subscription) \<Rightarrow>
   (mp_db, marketplace_subscription) eff" where
  "updateSub p f = (\<lambda>db.
     case List.find p (dbSubs db) of
       None \<Rightarrow> (Inl (PrismaError ''P2025''), db)
     | Some r \<Rightarrow> andThen (putSubs (updateWhere p f (dbSubs db))) (ret (f r)) db)"

definition partyField :: "(MarketplaceParty \<Rightarrow> string option) \<Rightarrow> MarketplaceParty option \<Rightarrow> string option" where
  "partyField f p = (case p of None \<Rightarrow> None | Some q \<Rightarrow> f q)"

definition termField :: "(MarketplaceTerm \<Rightarrow> 'a option) \<Rightarrow> MarketplaceTerm option \<Rightarrow> 'a option" where
  "termField f t = (case t of None \<Rightarrow> None | Some q \<Rightarrow> f q)"

text \<open>\<open>toSubscriptionData\<close> as the data of an update of \<open>r\<close>.\<close>

definition toSubscriptionData ::
  "int \<Rightarrow> MarketplaceResolvedSubscription \<Rightarrow> marketplace_subscription \<Rightarrow> marketplace_subscription" where
  "toSubscriptionData now resolved r = r\<lparr>
     subMarketplaceId := rsvId resolved,
     subPublisherId := keep (rsvPublisherId resolved) (subPublisherId r),
     subOfferId := rsvOfferId resolved,
     subPlanId := rsvPlanId resolved,
     subName := keep (rsvName resolved) (subName r),
     subStatus := rsvStatus resolved,
     subQuantity := keep (rsvQuantity resolved) (subQuantity r),
     subTermUnit := keep (termField tmUnit (rsvTerm resolved)) (subTermUnit r),
     subTermStartDate := keep (termField tmStartDate (rsvTerm resolved)) (subTermStartDate r),
     subTermEndDate := keep (termField tmEndDate (rsvTerm resolved)) (subTermEndDate r),
     subAutoRenew := keep (rsvAutoRenew resolved) (subAutoRenew r),
     subIsFreeTrial := keep (rsvIsFreeTrial resolved) (subIsFreeTrial r),
     subIsTest := keep (rsvIsTest resolved) (subIsTest r),
     subSandboxType := keep (rsvSandboxType resolved) (subSandboxType r),
     subAllowedCustomerOperations :=
       (case rsvAllowedCustomerOperations resolved of None \<Rightarrow> [] | Some ops \<Rightarrow> ops),
     subPurchaserEmail := keep (partyField pyEmailId (rsvPurchaser resolved)) (subPurchaserEmail r),
     subPurchaserTenantId := keep (partyField pyTenantId (rsvPurchaser resolved)) (subPurchaserTenantId r),
     subPurchaserObjectId := keep (partyField pyObjectId (rsvPurchaser resolved)) (subPurchaserObjectId r),
     subPurchaserPuid := keep (partyField pyPuid (rsvPurchaser resolved)) (subPurchaserPuid r),
     subBeneficiaryEmail := keep (partyField pyEmailId (rsvBeneficiary resolved)) (subBeneficiaryEmail r),
     subBeneficiaryTenantId := keep (partyField pyTenantId (rsvBeneficiary resolved)) (subBeneficiaryTenantId r),
     subBeneficiaryObjectId := keep (partyField pyObjectId (rsvBeneficiary resolved)) (subBeneficiaryObjectId r),
     subBeneficiaryPuid := keep (partyField pyPuid (rsvBeneficiary resolved)) (subBeneficiaryPuid r),
     subLastResolvedAt := Some now,
     subLastSyncedAt := Some now\<rparr>"

text \<open>A new row: the column defaults of the schema.\<close>

definition blankSubscription :: "string \<Rightarrow> int \<Rightarrow> marketplace_subscription" where
  "blankSubscription newId now =
     \<lparr>subId = newId, subMarketplaceId = [], subPublisherId = None, subOfferId = [], subPlanId = [],
      subName = None, subStatus = PendingFulfillmentStart, subQuantity = None, subTermUnit = None,
      subTermStartDate = None, subTermEndDate = None, subAutoRenew = None, subIsFreeTrial = None,
      subIsTest = None, subSandboxType = None, subAllowedCustomerOperations = [], subPurchaserEmail = None,
      subPurchaserTenantId = None, subPurchaserObjectId = None, subPurchaserPuid = None,
      subBeneficiaryEmail = None, subBeneficiaryTenantId = None, subBeneficiaryObjectId = None,
      subBeneficiaryPuid = None, subLocalUserId = None, subOrgId = None, subActivationStatus = ActNotStarted,
      subActivationError = None, subLastResolvedAt = None, subLastSyncedAt = None, subCreateDateTime = now,
      subDeletedAt = None\<rparr>"

definition upsertResolvedSubscription ::
  "string \<Rightarrow> int \<Rightarrow> MarketplaceResolvedSubscription \<Rightarrow> (mp_db, marketplace_subscription) eff" where
  "upsertResolvedSubscription newId now resolved = (\<lambda>db.
     if \<exists>r \<in> set (dbSubs db). subMarketplaceId r = rsvId resolved
     then updateSub (\<lambda>r. subMarketplaceId r = rsvId resolved) (toSubscriptionData now resolved) db
     else (let r = toSubscriptionData now resolved (blankSubscription newId now)
           in andThen (putSubs (dbSubs db @ [r])) (ret r) db))"

definition updateSubscriptionFromMicrosoft ::
  "int \<Rightarrow> MarketplaceResolvedSubscription \<Rightarrow> (mp_db, marketplace_subscription) eff" where
  "updateSubscriptionFromMicrosoft now resolved =
     updateSub (\<lambda>r. subMarketplaceId r = rsvId resolved) (toSubscriptionData now resolved)"

definition getSubscriptionByMarketplaceId :: "string \<Rightarrow> (mp_db, marketplace_subscription option) eff" where
  "getSubscriptionByMarketplaceId mid = reads (\<lambda>db. List.find (\<lambda>r. subMarketplaceId r = mid) (dbSubs db))"

definition getSubscriptionByInternalId :: "string \<Rightarrow> (mp_db, marketplace_subscription option) eff" where
  "getSubscriptionByInternalId i = reads (\<lambda>db. List.find (\<lambda>r. subId r = i) (dbSubs db))"

definition getSubscriptionByOrgId :: "string \<Rightarrow> (mp_db, marketplace_subscription option) eff" where
  "getSubscriptionByOrgId orgId = reads (\<lambda>db.
     findLatest subCreateDateTime (\<lambda>r. subOrgId r = Some orgId \<and> subDeletedAt r = None) (dbSubs db))"

definition getActiveSubscriptionByOrgId :: "string \<Rightarrow> string \<Rightarrow> (mp_db, marketplace_subscription option) eff" where
  "getActiveSubscriptionByOrgId orgId exceptId = reads (\<lambda>db.
     findLatest subCreateDateTime
       (\<lambda>r. subOrgId r = Some orgId \<and> subDeletedAt r = None \<and> subStatus r \<noteq> Unsubscribed \<and>
            (exceptId \<noteq> [] \<longrightarrow> subId r \<noteq> exceptId)) (dbSubs db))"

definition listActiveSubscriptions :: "(mp_db, marketplace_subscription list) eff" where
  "listActiveSubscriptions = reads (\<lambda>db. filter (\<lambda>r. subDeletedAt r = None \<and> subStatus r = Subscribed) (dbSubs db))"

definition linkUser :: "string \<Rightarrow> string \<Rightarrow> (mp_db, marketplace_subscription) eff" where
  "linkUser subscriptionId userId = updateSub (\<lambda>r. subId r = subscriptionId) (\<lambda>r. r\<lparr>subLocalUserId := Some userId\<rparr>)"

definition linkOrganizationRow :: "string \<Rightarrow> string \<Rightarrow> (mp_db, marketplace_subscription) eff" where
  "linkOrganizationRow subscriptionId orgId =
     updateSub (\<lambda>r. subId r = subscriptionId) (\<lambda>r. r\<lparr>subOrgId := Some orgId\<rparr>)"

definition setActivationStatus ::
  "string \<Rightarrow> MarketplaceActivationStatus \<Rightarrow> string option \<Rightarrow> (mp_db, marketplace_subscription) eff" where
  "setActivationStatus subscriptionId status err =
     updateSub (\<lambda>r. subId r = subscriptionId)
       (\<lambda>r. r\<lparr>subActivationStatus := status, subActivationError := keep err (subActivationError r)\<rparr>)"

definition setSubscriptionPlanId :: "string \<Rightarrow> string \<Rightarrow> (mp_db, marketplace_subscription) eff" where
  "setSubscriptionPlanId i planId = updateSub (\<lambda>r. subId r = i) (\<lambda>r. r\<lparr>subPlanId := planId\<rparr>)"

definition setSubscriptionStatus ::
  "string \<Rightarrow> MarketplaceSubscriptionStatus \<Rightarrow> (mp_db, marketplace_subscription) eff" where
  "setSubscriptionStatus i status = updateSub (\<lambda>r. subId r = i) (\<lambda>r. r\<lparr>subStatus := status\<rparr>)"

subsection \<open>Onboarding sessions\<close>

definition sessionTtlMs :: int where
  "sessionTtlMs = 86400000"

record buyer_identity =
  byTenantId :: "string option"
  byObjectId :: "string option"
  byEmail :: "string option"

definition createOnboardingSession ::
  "string \<Rightarrow> int \<Rightarrow> string \<Rightarrow> string \<Rightarrow> buyer_identity \<Rightarrow> (mp_db, marketplace_onboarding_session) eff" where
  "createOnboardingSession newId now subscriptionId tokenHash buyer = (\<lambda>db.
     case findLatest obCreateDateTime
            (\<lambda>s. obSubscriptionId s = subscriptionId \<and> now < obExpiresAt s \<and>
                 obStatus s \<notin> {ObActivated, ObExpired, ObFailed}) (dbSessions db) of
       Some s \<Rightarrow> (Inr s, db)
     | None \<Rightarrow>
         (let s = \<lparr>obId = newId, obSubscriptionId = subscriptionId, obTokenHash = tokenHash,
                   obBuyerTenantId = byTenantId buyer, obBuyerObjectId = byObjectId buyer,
                   obBuyerEmail = byEmail buyer, obStatus = ObResolved, obExpiresAt = now + sessionTtlMs,
                   obCreateDateTime = now\<rparr>
          in (Inr s, db\<lparr>dbSessions := dbSessions db @ [s]\<rparr>)))"

text \<open>\<open>include: { subscription: true }\<close>: the foreign key guarantees that the subscription exists.\<close>

definition getOnboardingSessionRow ::
  "string \<Rightarrow> (mp_db, (marketplace_onboarding_session \<times> marketplace_subscription) option) eff" where
  "getOnboardingSessionRow sessionId = reads (\<lambda>db.
     case List.find (\<lambda>s. obId s = sessionId) (dbSessions db) of
       None \<Rightarrow> None
     | Some s \<Rightarrow>
         (case List.find (\<lambda>r. subId r = obSubscriptionId s) (dbSubs db) of
            None \<Rightarrow> None
          | Some r \<Rightarrow> Some (s, r)))"

definition updateOnboardingSession :: "string \<Rightarrow> MarketplaceOnboardingStatus \<Rightarrow> (mp_db, unit) eff" where
  "updateOnboardingSession sessionId status = (\<lambda>db.
     if \<exists>s \<in> set (dbSessions db). obId s = sessionId
     then (Inr (), db\<lparr>dbSessions := updateWhere (\<lambda>s. obId s = sessionId) (\<lambda>s. s\<lparr>obStatus := status\<rparr>) (dbSessions db)\<rparr>)
     else (Inl (PrismaError ''P2025''), db))"

subsection \<open>Plans and usage\<close>

definition getPlan :: "string \<Rightarrow> string \<Rightarrow> (mp_db, marketplace_plan option) eff" where
  "getPlan offerId planId = reads (\<lambda>db. List.find (\<lambda>p. plOfferId p = offerId \<and> plPlanId p = planId) (dbPlans db))"

definition getUsageTotals :: "string \<Rightarrow> int \<Rightarrow> int \<Rightarrow> (mp_db, (string \<times> rat) list) eff" where
  "getUsageTotals orgId start end' = reads (\<lambda>db.
     let rows = filter (\<lambda>b. buOrgId b = orgId \<and> start \<le> buOccurredAt b \<and> buOccurredAt b \<le> end') (dbBilling db)
     in map (\<lambda>t. (t, sum_list (map buQuantity (filter (\<lambda>b. buEventType b = t) rows)))) (remdups (map buEventType rows)))"

definition listMeteringEvents :: "string \<Rightarrow> (mp_db, marketplace_usage_event list) eff" where
  "listMeteringEvents orgId = reads (\<lambda>db.
     take 50 (sort_key (\<lambda>u. - ueUsageStartTime u) (filter (\<lambda>u. ueOrgId u = orgId) (dbUsage db))))"

definition getMeteringTotalsByDimension ::
  "string \<Rightarrow> (mp_db, (string \<times> MarketplaceUsageStatus \<times> rat) list) eff" where
  "getMeteringTotalsByDimension orgId = reads (\<lambda>db.
     let rows = filter (\<lambda>u. ueOrgId u = orgId) (dbUsage db)
     in map (\<lambda>(d, st). (d, st, sum_list (map ueQuantity (filter (\<lambda>u. ueDimension u = d \<and> ueStatus u = st) rows))))
          (remdups (map (\<lambda>u. (ueDimension u, ueStatus u)) rows)))"

record MarketplaceUsageEventPayload =
  upOrgId :: string
  upEventType :: string
  upSourceTable :: "string option"
  upSourceId :: string
  upOccurredAt :: "int option"
  upQuantity :: "rat option"

text \<open>\<open>payload.quantity || 1\<close>: zero and absent count as one.\<close>

definition quantityOr1 :: "rat option \<Rightarrow> rat" where
  "quantityOr1 q = (case q of None \<Rightarrow> 1 | Some x \<Rightarrow> if x = 0 then 1 else x)"

definition recordBillingUsageEvent ::
  "string \<Rightarrow> int \<Rightarrow> MarketplaceUsageEventPayload \<Rightarrow> string option \<Rightarrow> (mp_db, unit) eff" where
  "recordBillingUsageEvent newId now payload subscriptionId = (\<lambda>db.
     if \<exists>b \<in> set (dbBilling db). buEventType b = upEventType payload \<and> buSourceId b = upSourceId payload
     then (Inr (), db)
     else (Inr (), db\<lparr>dbBilling := dbBilling db @
       [\<lparr>buId = newId, buOrgId = upOrgId payload, buSubscriptionId = subscriptionId,
         buEventType = upEventType payload, buSourceTable = upSourceTable payload,
         buSourceId = upSourceId payload,
         buOccurredAt = (case upOccurredAt payload of None \<Rightarrow> now | Some t \<Rightarrow> t),
         buQuantity = quantityOr1 (upQuantity payload)\<rparr>]\<rparr>))"

definition usageKey :: "marketplace_usage_event \<Rightarrow> string \<times> string \<times> int" where
  "usageKey u = (ueSubscriptionId u, ueDimension u, ueUsageStartTime u)"

definition createOrUpdateUsageEvent ::
  "string \<Rightarrow> string \<Rightarrow> string \<Rightarrow> string \<Rightarrow> rat \<Rightarrow> int \<Rightarrow> string list \<Rightarrow> (mp_db, unit) eff" where
  "createOrUpdateUsageEvent newId subscriptionId orgId dimension quantity usageStartTime sourceEventIds = (\<lambda>db.
     let key = (subscriptionId, dimension, usageStartTime)
     in if \<exists>u \<in> set (dbUsage db). usageKey u = key
        then (Inr (), db\<lparr>dbUsage := updateWhere (\<lambda>u. usageKey u = key)
               (\<lambda>u. u\<lparr>ueQuantity := quantity, ueSourceEventIds := sourceEventIds\<rparr>) (dbUsage db)\<rparr>)
        else (Inr (), db\<lparr>dbUsage := dbUsage db @
               [\<lparr>ueId = newId, ueSubscriptionId = subscriptionId, ueOrgId = orgId, ueDimension = dimension,
                 ueQuantity = quantity, ueUsageStartTime = usageStartTime, ueStatus = UPending,
                 ueResponseStatus = None, ueMessage = None, ueRequestId = None, ueCorrelationId = None,
                 ueSubmittedAt = None, ueSourceEventIds = sourceEventIds\<rparr>]\<rparr>))"

definition withSubscription ::
  "mp_db \<Rightarrow> marketplace_usage_event \<Rightarrow> (marketplace_usage_event \<times> marketplace_subscription) option" where
  "withSubscription db u = map_option (\<lambda>r. (u, r)) (List.find (\<lambda>r. subId r = ueSubscriptionId u) (dbSubs db))"

definition pendingRows :: "mp_db \<Rightarrow> marketplace_usage_event list" where
  "pendingRows db =
     take 25 (sort_key ueUsageStartTime (filter (\<lambda>u. ueStatus u = UPending \<or> ueStatus u = UFailed) (dbUsage db)))"

definition listPendingUsageEvents ::
  "(mp_db, (marketplace_usage_event \<times> marketplace_subscription) list) eff" where
  "listPendingUsageEvents = reads (\<lambda>db. List.map_filter (withSubscription db) (pendingRows db))"

record usage_response =
  urStatus :: "string option"
  urMessage :: "string option"
  urRequestId :: "string option"
  urCorrelationId :: "string option"

definition updateUsageEventStatus ::
  "int \<Rightarrow> string \<Rightarrow> MarketplaceUsageStatus \<Rightarrow> usage_response \<Rightarrow> (mp_db, unit) eff" where
  "updateUsageEventStatus now i status response = (\<lambda>db.
     if \<exists>u \<in> set (dbUsage db). ueId u = i
     then (Inr (), db\<lparr>dbUsage := updateWhere (\<lambda>u. ueId u = i)
            (\<lambda>u. u\<lparr>ueStatus := status, ueResponseStatus := keep (urStatus response) (ueResponseStatus u),
                   ueMessage := keep (urMessage response) (ueMessage u),
                   ueRequestId := keep (urRequestId response) (ueRequestId u),
                   ueCorrelationId := keep (urCorrelationId response) (ueCorrelationId u),
                   ueSubmittedAt := Some now\<rparr>) (dbUsage db)\<rparr>)
     else (Inl (PrismaError ''P2025''), db))"

definition getBillableEventsForSubscription :: "string \<Rightarrow> int \<Rightarrow> int \<Rightarrow> (mp_db, billing_usage_event list) eff" where
  "getBillableEventsForSubscription subscriptionId start end' = reads (\<lambda>db.
     sort_key buOccurredAt
       (filter (\<lambda>b. buSubscriptionId b = Some subscriptionId \<and> start \<le> buOccurredAt b \<and> buOccurredAt b \<le> end')
         (dbBilling db)))"

subsection \<open>Webhook events and operations\<close>

definition createWebhookEvent ::
  "string \<Rightarrow> string option \<Rightarrow> string option \<Rightarrow> string \<Rightarrow> string option \<Rightarrow> string \<Rightarrow> string option \<Rightarrow> string option \<Rightarrow>
   (mp_db, marketplace_webhook_event) eff" where
  "createWebhookEvent newId operationId activityId subscriptionId internalId action status validationStatus = (\<lambda>db.
     let w = \<lparr>whId = newId, whOperationId = operationId, whActivityId = activityId,
              whSubscriptionId = subscriptionId, whMarketplaceSubscriptionId = internalId, whAction = action,
              whStatus = status, whValidationStatus = validationStatus, whProcessingStatus = WhReceived,
              whError = None\<rparr>
     in (Inr w, db\<lparr>dbWebhooks := dbWebhooks db @ [w]\<rparr>))"

definition updateWebhookEvent ::
  "string \<Rightarrow> MarketplaceWebhookProcessingStatus \<Rightarrow> string option \<Rightarrow> (mp_db, unit) eff" where
  "updateWebhookEvent i status err = (\<lambda>db.
     if \<exists>w \<in> set (dbWebhooks db). whId w = i
     then (Inr (), db\<lparr>dbWebhooks := updateWhere (\<lambda>w. whId w = i)
            (\<lambda>w. w\<lparr>whProcessingStatus := status, whError := keep err (whError w)\<rparr>) (dbWebhooks db)\<rparr>)
     else (Inl (PrismaError ''P2025''), db))"

definition operationKey :: "marketplace_operation \<Rightarrow> string \<times> string" where
  "operationKey o' = (opOperationId o', opSubscriptionId o')"

definition upsertOperation :: "marketplace_operation \<Rightarrow> (mp_db, unit) eff" where
  "upsertOperation p = (\<lambda>db.
     if \<exists>o' \<in> set (dbOperations db). operationKey o' = operationKey p
     then (Inr (), db\<lparr>dbOperations := updateWhere (\<lambda>o'. operationKey o' = operationKey p)
            (\<lambda>o'. o'\<lparr>opStatus := keep (opStatus p) (opStatus o'), opPlanId := keep (opPlanId p) (opPlanId o'),
                     opQuantity := keep (opQuantity p) (opQuantity o'), opAckStatus := opAckStatus p,
                     opAckError := keep (opAckError p) (opAckError o')\<rparr>) (dbOperations db)\<rparr>)
     else (Inr (), db\<lparr>dbOperations := dbOperations db @ [p]\<rparr>))"

definition updateOperationAckStatus ::
  "string \<Rightarrow> string \<Rightarrow> MarketplaceOperationAckStatus \<Rightarrow> string option \<Rightarrow> (mp_db, unit) eff" where
  "updateOperationAckStatus operationId subscriptionId ackStatus ackError = (\<lambda>db.
     if \<exists>o' \<in> set (dbOperations db). operationKey o' = (operationId, subscriptionId)
     then (Inr (), db\<lparr>dbOperations := updateWhere (\<lambda>o'. operationKey o' = (operationId, subscriptionId))
            (\<lambda>o'. o'\<lparr>opAckStatus := ackStatus, opAckError := keep ackError (opAckError o')\<rparr>) (dbOperations db)\<rparr>)
     else (Inl (PrismaError ''P2025''), db))"

section \<open>Queries and updates\<close>

lemma foldl_latest:
  fixes key :: "'r \<Rightarrow> int"
  shows "let m = foldl (\<lambda>best x. if key best \<le> key x then x else best) r rs
   in m \<in> insert r (set rs) \<and> (\<forall>x \<in> insert r (set rs). key x \<le> key m)"
proof (induction rs arbitrary: r)
  case (Cons a rs)
  show ?case
    using Cons [of "if key r \<le> key a then a else r"] by (auto simp: Let_def split: if_splits)
qed simp

lemma findLatest_Some:
  assumes "findLatest key p rows = Some r"
  shows "r \<in> set rows" and "p r" and "\<And>x. x \<in> set rows \<Longrightarrow> p x \<Longrightarrow> key x \<le> key r"
proof -
  obtain a rs where f: "filter p rows = a # rs"
    and r: "r = foldl (\<lambda>best x. if key best \<le> key x then x else best) a rs"
    using assms by (auto simp: findLatest_def split: list.splits)
  have set: "insert a (set rs) = {x \<in> set rows. p x}" using f by (metis list.simps(15) set_filter)
  have "r \<in> {x \<in> set rows. p x} \<and> (\<forall>x \<in> {x \<in> set rows. p x}. key x \<le> key r)"
    using foldl_latest [where key = key and r = a and rs = rs] unfolding set Let_def r by simp
  then show "r \<in> set rows" and "p r" and "\<And>x. x \<in> set rows \<Longrightarrow> p x \<Longrightarrow> key x \<le> key r" by auto
qed

lemma findLatest_None: "findLatest key p rows = None \<longleftrightarrow> (\<forall>x \<in> set rows. \<not> p x)"
proof -
  have "findLatest key p rows = None \<longleftrightarrow> filter p rows = []" by (simp add: findLatest_def split: list.splits)
  then show ?thesis by (simp add: filter_empty_conv)
qed

end
