(* ===== verification/Marketplace_Client.thy ===== *)
theory Marketplace_Client
  imports Marketplace_Store
begin

text \<open>
  The client of Microsoft's SaaS fulfilment API
  (\<open>apps/marketplace/src/services/microsoft-marketplace.client.ts\<close>) and the publisher token it sends
  (\<open>publisher-token.service.ts\<close>).

  \<open>mp_env\<close> holds what a run of a handler meets: the clock, the UUIDs it draws, the environment variables
  and the functions that stand for the services outside the repository: the HTTP endpoints and the
  organisation service behind NATS. The cached publisher token is the field \<open>dbToken\<close> of the state.
\<close>

section \<open>Definitions\<close>

datatype http_method = HttpGet | HttpPost | HttpPatch

record usage_line =
  ulResourceId :: string
  ulQuantity :: rat
  ulDimension :: string
  ulEffectiveStartTime :: int

datatype ms_request_body =
    NoBody
  | ActivateBody string
  | PatchBody string "string option" "int option"
  | UsageBody "usage_line list"

record http_request =
  hqMethod :: http_method
  hqUrl :: string
  hqBody :: ms_request_body
  hqToken :: string
  hqHeaders :: "(string \<times> string) list"

record MarketplaceResolveResponse =
  rrId :: "string option"
  rrSubscriptionName :: "string option"
  rrSubscription :: "MarketplaceResolvedSubscription option"
  rrFlat :: "MarketplaceResolvedSubscription option"  \<comment> \<open>the body itself, when it has the flat shape\<close>

text \<open>The shapes of response bodies the service reads.\<close>

datatype ms_body =
    BResolve MarketplaceResolveResponse
  | BSubscription MarketplaceResolvedSubscription
  | BList "MarketplaceResolvedSubscription list"
  | BWrapped "MarketplaceResolvedSubscription list option"
  | BUsage "string option option list"  \<comment> \<open>\<open>result\<close>: each entry \<open>null\<close> or its \<open>status\<close>\<close>
  | BOther

datatype http_reply = HttpOk ms_body | HttpRejected nat string | HttpFailed error

record token_request =
  tkUrl :: string
  tkClientId :: string
  tkClientSecret :: string

record jwt_claims =
  jcAppid :: "string option"
  jcAzp :: "string option"

text \<open>The message \<open>create-organization\<close>.\<close>

record create_org =
  coName :: string
  coDescription :: "string option"
  coWebsite :: "string option"
  coLogo :: string
  coUserId :: string
  coKeycloakUserId :: "string option"

record mp_env =
  eNow :: int
  eUuid :: "nat \<Rightarrow> string"
  eHttp :: "http_request \<Rightarrow> http_reply"
  eTokenHttp :: "token_request \<Rightarrow> error + string \<times> int"
  eOwners :: "string \<Rightarrow> error + string list option"  \<comment> \<open>\<open>get-organization-owner\<close>\<close>
  eCreateOrg :: "create_org \<Rightarrow> error + string"  \<comment> \<open>\<open>create-organization\<close>\<close>
  eSha256 :: "string \<Rightarrow> string"
  eDecodeUri :: "string \<Rightarrow> string option"
  eJwtKid :: "string \<Rightarrow> string option option"  \<comment> \<open>\<open>jwt.decode\<close>: the header's \<open>kid\<close>\<close>
  eJwtVerify :: "string \<Rightarrow> string \<Rightarrow> string \<Rightarrow> string \<Rightarrow> error + jwt_claims"  \<comment> \<open>tenant, kid, token, audience\<close>
  eVar :: "string \<Rightarrow> string option"  \<comment> \<open>\<open>process.env\<close>\<close>

definition envFlag :: "mp_env \<Rightarrow> string \<Rightarrow> bool" where
  "envFlag env name = isFlagEnabled (eVar env name)"

definition envOr :: "mp_env \<Rightarrow> string \<Rightarrow> string \<Rightarrow> string" where
  "envOr env name fallback = (if truthy (eVar env name) then orEmpty (eVar env name) else fallback)"

subsection \<open>Publisher token\<close>

definition getAccessToken :: "mp_env \<Rightarrow> (mp_db, string) eff" where
  "getAccessToken env = (\<lambda>db.
     let acquire =
       (if \<not> truthy (eVar env ''MARKETPLACE_TENANT_ID'') \<or> \<not> truthy (eVar env ''MARKETPLACE_CLIENT_ID'') \<or>
           \<not> truthy (eVar env ''MARKETPLACE_CLIENT_SECRET'')
        then (Inl (UnauthorizedException ''Marketplace publisher credentials are not configured''), db)
        else
          (case eTokenHttp env
                  \<lparr>tkUrl = ''https://login.microsoftonline.com/'' @ orEmpty (eVar env ''MARKETPLACE_TENANT_ID'') @ ''/oauth2/v2.0/token'',
                   tkClientId = orEmpty (eVar env ''MARKETPLACE_CLIENT_ID''),
                   tkClientSecret = orEmpty (eVar env ''MARKETPLACE_CLIENT_SECRET'')\<rparr> of
             Inl e \<Rightarrow> (Inl e, db)
           | Inr (token, expiresIn) \<Rightarrow> (Inr token, db\<lparr>dbToken := Some (token, eNow env + expiresIn * 1000)\<rparr>)))
     in case dbToken db of
          Some (token, expiresAt) \<Rightarrow> (if eNow env + 60000 < expiresAt then (Inr token, db) else acquire)
        | None \<Rightarrow> acquire)"

subsection \<open>Requests\<close>

record ms_response =
  mrData :: ms_body
  mrRequestId :: string
  mrCorrelationId :: string

definition request ::
  "mp_env \<Rightarrow> http_method \<Rightarrow> string \<Rightarrow> ms_request_body \<Rightarrow> (string \<times> string) list \<Rightarrow> (mp_db, ms_response) eff" where
  "request env method path body extraHeaders =
     bind (getAccessToken env) (\<lambda>token.
       let separator = (if CHR ''?'' \<in> set path then ''&'' else ''?'');
           requestId = eUuid env 0;
           correlationId = eUuid env 1;
           u = envOr env ''MARKETPLACE_API_BASE_URL'' ''https://marketplaceapi.microsoft.com'' @ path @ separator @
               ''api-version='' @ envOr env ''MARKETPLACE_API_VERSION'' ''2018-08-31''
       in case eHttp env
                \<lparr>hqMethod = method, hqUrl = u, hqBody = (if method = HttpGet then NoBody else body), hqToken = token,
                 hqHeaders = [(''x-ms-requestid'', requestId), (''x-ms-correlationid'', correlationId)] @ extraHeaders\<rparr> of
            HttpOk data \<Rightarrow> ret \<lparr>mrData = data, mrRequestId = requestId, mrCorrelationId = correlationId\<rparr>
          | HttpRejected code msg \<Rightarrow> throw (HttpStatusError code msg)
          | HttpFailed e \<Rightarrow> throw e)"

text \<open>Reading fields of a body that does not have them.\<close>

definition badBody :: error where
  "badBody = TypeError ''Cannot read properties of undefined''"

definition msResolveSubscription :: "mp_env \<Rightarrow> string \<Rightarrow> (mp_db, MarketplaceResolvedSubscription) eff" where
  "msResolveSubscription env marketplaceToken =
     bind (request env HttpPost ''/api/saas/subscriptions/resolve'' NoBody
             [(''x-ms-marketplace-token'', marketplaceToken)]) (\<lambda>response.
       case mrData response of
         BResolve body \<Rightarrow>
           (case rrSubscription body of
              None \<Rightarrow> (case rrFlat body of Some r \<Rightarrow> ret r | None \<Rightarrow> throw badBody)
            | Some nested \<Rightarrow>
                ret (nested\<lparr>rsvName := (case rsvName nested of None \<Rightarrow> rrSubscriptionName body | Some n \<Rightarrow> Some n)\<rparr>))
       | _ \<Rightarrow> throw badBody)"

definition subscriptionPath :: "string \<Rightarrow> string" where
  "subscriptionPath i = ''/api/saas/subscriptions/'' @ i"

definition msActivateSubscription :: "mp_env \<Rightarrow> string \<Rightarrow> string \<Rightarrow> (mp_db, unit) eff" where
  "msActivateSubscription env i planId =
     bind (request env HttpPost (subscriptionPath i @ ''/activate'') (ActivateBody planId) []) (\<lambda>_. ret ())"

definition msGetSubscription :: "mp_env \<Rightarrow> string \<Rightarrow> (mp_db, MarketplaceResolvedSubscription) eff" where
  "msGetSubscription env i =
     bind (request env HttpGet (subscriptionPath i) NoBody []) (\<lambda>response.
       case mrData response of BSubscription s \<Rightarrow> ret s | _ \<Rightarrow> throw badBody)"

definition msListSubscriptions :: "mp_env \<Rightarrow> (mp_db, MarketplaceResolvedSubscription list) eff" where
  "msListSubscriptions env =
     bind (request env HttpGet ''/api/saas/subscriptions'' NoBody []) (\<lambda>response.
       case mrData response of
         BList xs \<Rightarrow> ret xs
       | BWrapped (Some xs) \<Rightarrow> ret xs
       | _ \<Rightarrow> ret [])"

definition msGetOperation :: "mp_env \<Rightarrow> string \<Rightarrow> string \<Rightarrow> (mp_db, unit) eff" where
  "msGetOperation env i operationId =
     bind (request env HttpGet (subscriptionPath i @ ''/operations/'' @ operationId) NoBody []) (\<lambda>_. ret ())"

definition msPatchOperation ::
  "mp_env \<Rightarrow> string \<Rightarrow> string \<Rightarrow> string \<Rightarrow> string option \<Rightarrow> int option \<Rightarrow> (mp_db, unit) eff" where
  "msPatchOperation env i operationId status planId quantity =
     bind (request env HttpPatch (subscriptionPath i @ ''/operations/'' @ operationId)
             (PatchBody status planId quantity) []) (\<lambda>_. ret ())"

definition msSubmitBatchUsageEvents :: "mp_env \<Rightarrow> usage_line list \<Rightarrow> (mp_db, ms_response) eff" where
  "msSubmitBatchUsageEvents env events = request env HttpPost ''/api/batchUsageEvent'' (UsageBody events) []"

section \<open>What the client changes\<close>

text \<open>A request touches nothing but the cached token.\<close>

definition same_rows :: "mp_db \<Rightarrow> mp_db \<Rightarrow> bool" where
  "same_rows db db' \<longleftrightarrow> db' = db\<lparr>dbToken := dbToken db'\<rparr>"

interpretation client: effect_preorder same_rows
  by unfold_locales (auto simp: same_rows_def, metis mp_db.surjective mp_db.update_convs(8) mp_db.select_convs)

lemma same_rows_token: "same_rows db (db\<lparr>dbToken := t\<rparr>)"
  by (simp add: same_rows_def)

lemma same_rows_tables:
  assumes "same_rows db db'"
  shows "dbSubs db' = dbSubs db" "dbSessions db' = dbSessions db" "dbPlans db' = dbPlans db"
    "dbUsage db' = dbUsage db" "dbBilling db' = dbBilling db" "dbWebhooks db' = dbWebhooks db"
    "dbOperations db' = dbOperations db"
  using assms unfolding same_rows_def by (metis mp_db.select_convs mp_db.surjective mp_db.update_convs(8))+

lemma moves_getAccessToken: "moves same_rows (getAccessToken env)"
proof (rule movesI)
  fix db r db'
  assume "getAccessToken env db = (r, db')"
  then show "same_rows db db'"
    by (auto simp: getAccessToken_def Let_def client.R_refl same_rows_token split: option.splits if_splits sum.splits prod.splits)
qed

lemma moves_request: "moves same_rows (request env method path body headers)"
  unfolding request_def
  by (intro client.moves_bind moves_getAccessToken)
    (auto simp: Let_def intro: client.moves_rules split: http_reply.splits)

lemma moves_msResolveSubscription: "moves same_rows (msResolveSubscription env t)"
  unfolding msResolveSubscription_def
  by (intro client.moves_bind moves_request) (auto intro: client.moves_rules split: ms_body.splits option.splits)

lemma moves_msActivateSubscription: "moves same_rows (msActivateSubscription env i p)"
  unfolding msActivateSubscription_def by (intro client.moves_rules moves_request)

lemma moves_msGetSubscription: "moves same_rows (msGetSubscription env i)"
  unfolding msGetSubscription_def
  by (intro client.moves_bind moves_request) (auto intro: client.moves_rules split: ms_body.splits)

lemma moves_msListSubscriptions: "moves same_rows (msListSubscriptions env)"
  unfolding msListSubscriptions_def
  by (intro client.moves_bind moves_request) (auto intro: client.moves_rules split: ms_body.splits option.splits)

lemma moves_msGetOperation: "moves same_rows (msGetOperation env i k)"
  unfolding msGetOperation_def by (intro client.moves_rules moves_request)

lemma moves_msPatchOperation: "moves same_rows (msPatchOperation env i k st p q)"
  unfolding msPatchOperation_def by (intro client.moves_rules moves_request)

lemma moves_msSubmit: "moves same_rows (msSubmitBatchUsageEvents env ls)"
  unfolding msSubmitBatchUsageEvents_def by (rule moves_request)

lemmas client_moves = moves_msResolveSubscription moves_msActivateSubscription moves_msGetSubscription
  moves_msListSubscriptions moves_msGetOperation moves_msPatchOperation moves_msSubmit

section \<open>Properties\<close>

text \<open>
  The publisher token: a call returns the cached token exactly while more than a minute of its life
  is left, and then asks nobody; otherwise a token is returned only if the credentials are configured
  and the token endpoint issued it, and it is cached with its lifetime. No table changes either way.
\<close>

theorem publisher_token_cache:
  assumes "getAccessToken env db = (r, db')"
  shows "(\<exists>token e. dbToken db = Some (token, e) \<and> eNow env + 60000 < e \<and> r = Inr token \<and> db' = db) \<or>
    ((\<forall>token e. dbToken db = Some (token, e) \<longrightarrow> e \<le> eNow env + 60000) \<and>
     (case r of
        Inr token \<Rightarrow> \<exists>rq life. eTokenHttp env rq = Inr (token, life) \<and> tkClientSecret rq \<noteq> [] \<and>
          db' = db\<lparr>dbToken := Some (token, eNow env + life * 1000)\<rparr>
      | Inl e \<Rightarrow> db' = db))"
proof (cases "\<exists>token e. dbToken db = Some (token, e) \<and> eNow env + 60000 < e")
  case True
  then show ?thesis using assms by (auto simp: getAccessToken_def)
next
  case False
  define rq where "rq = \<lparr>tkUrl = ''https://login.microsoftonline.com/'' @ orEmpty (eVar env ''MARKETPLACE_TENANT_ID'') @ ''/oauth2/v2.0/token'',
     tkClientId = orEmpty (eVar env ''MARKETPLACE_CLIENT_ID''),
     tkClientSecret = orEmpty (eVar env ''MARKETPLACE_CLIENT_SECRET'')\<rparr>"
  have "getAccessToken env db =
     (if \<not> truthy (eVar env ''MARKETPLACE_TENANT_ID'') \<or> \<not> truthy (eVar env ''MARKETPLACE_CLIENT_ID'') \<or>
         \<not> truthy (eVar env ''MARKETPLACE_CLIENT_SECRET'')
      then (Inl (UnauthorizedException ''Marketplace publisher credentials are not configured''), db)
      else (case eTokenHttp env rq of
             Inl e \<Rightarrow> (Inl e, db)
           | Inr (token, expiresIn) \<Rightarrow> (Inr token, db\<lparr>dbToken := Some (token, eNow env + expiresIn * 1000)\<rparr>)))"
    using False by (auto simp: getAccessToken_def rq_def Let_def split: option.splits)
  moreover have "truthy (eVar env ''MARKETPLACE_CLIENT_SECRET'') \<Longrightarrow> tkClientSecret rq \<noteq> []"
    by (auto simp: rq_def elim: truthyE)
  ultimately show ?thesis
    using assms False by (cases r) (auto split: if_splits sum.splits)
qed

theorem publisher_token_cache_witness:
  "\<exists>db'. getAccessToken
      \<lparr>eNow = 5, eUuid = (\<lambda>_. []), eHttp = (\<lambda>_. HttpOk BOther), eTokenHttp = (\<lambda>_. Inr (''t2'', 3600)),
       eOwners = (\<lambda>_. Inr None), eCreateOrg = (\<lambda>_. Inr []), eSha256 = (\<lambda>s. s), eDecodeUri = Some,
       eJwtKid = (\<lambda>_. None), eJwtVerify = (\<lambda>_ _ _ _. Inl badBody), eVar = (\<lambda>_. None)\<rparr>
      \<lparr>dbSubs = [], dbSessions = [], dbPlans = [], dbUsage = [], dbBilling = [], dbWebhooks = [],
       dbOperations = [], dbToken = Some (''t1'', 100000)\<rparr> = (Inr ''t1'', db')"
proof -
  let ?env = "\<lparr>eNow = 5, eUuid = (\<lambda>_. []), eHttp = (\<lambda>_. HttpOk BOther), eTokenHttp = (\<lambda>_. Inr (''t2'', 3600)),
       eOwners = (\<lambda>_. Inr None), eCreateOrg = (\<lambda>_. Inr []), eSha256 = (\<lambda>s. s), eDecodeUri = Some,
       eJwtKid = (\<lambda>_. None), eJwtVerify = (\<lambda>_ _ _ _. Inl badBody), eVar = (\<lambda>_. None)\<rparr> :: mp_env"
  let ?db = "\<lparr>dbSubs = [], dbSessions = [], dbPlans = [], dbUsage = [], dbBilling = [], dbWebhooks = [],
       dbOperations = [], dbToken = Some (''t1'', 100000)\<rparr> :: mp_db"
  from publisher_token_cache [where env = ?env and db = ?db, OF prod.collapse [symmetric]]
  have "fst (getAccessToken ?env ?db) = Inr ''t1''" by simp
  then show ?thesis by (metis prod.collapse)
qed

end
