(* ===== verification/Marketplace_Usage.thy ===== *)
theory Marketplace_Usage
  imports Marketplace_Client "HOL-Library.Multiset"
begin

text \<open>
  Metering and entitlements: \<open>apps/marketplace/src/services/metering.service.ts\<close> and
  \<open>entitlement.service.ts\<close>.

  The JavaScript objects used as dictionaries (\<open>runningTotals\<close>, \<open>hourlyOverage\<close>, \<open>usage\<close>, \<open>features\<close>) are
  association lists in insertion order; the string key \<open>dimension:hour\<close> of \<open>hourlyOverage\<close> is the pair.
  The JSON text of Microsoft's answer that is stored in the message column is abbreviated to \<open>result\<close>.
\<close>

section \<open>Definitions\<close>

subsection \<open>Metering\<close>

definition dimensionByEventType :: "string \<Rightarrow> string option" where
  "dimensionByEventType = map_of
     [(''organization_setup_completed'', ''setup_fee''), (''issuance_completed'', ''issuance_txn''),
      (''verification_completed'', ''verification_txn''), (''schema_created'', ''schema_create'')]"

definition includedUsage :: "marketplace_plan option \<Rightarrow> string \<Rightarrow> rat" where
  "includedUsage plan dimension =
     (case plan of
        None \<Rightarrow> 0
      | Some p \<Rightarrow>
          (if dimension = ''issuance_txn'' then of_int (plIncludedIssuance p)
           else if dimension = ''verification_txn'' then of_int (plIncludedVerification p)
           else if dimension = ''schema_create'' then of_int (plIncludedSchemas p)
           else 0))"

text \<open>\<open>hour.setUTCMinutes(0, 0, 0)\<close> and the first instant of the UTC month.\<close>

definition utcHour :: "int \<Rightarrow> int" where
  "utcHour t = t - t mod 3600000"

definition dayOfMonth :: "int \<Rightarrow> int" where
  "dayOfMonth days =
     (let z = days + 719468;
          doe = z mod 146097;
          yoe = (doe - doe div 1460 + doe div 36524 - doe div 146096) div 365;
          doy = doe - (365 * yoe + yoe div 4 - yoe div 100);
          mp = (5 * doy + 2) div 153
      in doy - (153 * mp + 2) div 5 + 1)"

definition utcMonthStart :: "int \<Rightarrow> int" where
  "utcMonthStart t = (let days = t div 86400000 in (days - (dayOfMonth days - 1)) * 86400000)"

type_synonym totals = "(string \<times> rat) list"

type_synonym overages = "((string \<times> int) \<times> rat \<times> string list) list"

definition dictGet :: "totals \<Rightarrow> string \<Rightarrow> rat" where
  "dictGet d k = (case map_of d k of None \<Rightarrow> 0 | Some v \<Rightarrow> v)"

fun dictSet :: "('k \<times> 'v) list \<Rightarrow> 'k \<Rightarrow> 'v \<Rightarrow> ('k \<times> 'v) list" where
  "dictSet [] k v = [(k, v)]"
| "dictSet ((k', v') # d) k v = (if k' = k then (k, v) # d else (k', v') # dictSet d k v)"

definition addOverage :: "string \<Rightarrow> int \<Rightarrow> rat \<Rightarrow> string \<Rightarrow> overages \<Rightarrow> overages" where
  "addOverage dimension hour q eventId ov =
     (case map_of ov (dimension, hour) of
        None \<Rightarrow> dictSet ov (dimension, hour) (0 + q, [eventId])
      | Some (q0, ids) \<Rightarrow> dictSet ov (dimension, hour) (q0 + q, ids @ [eventId]))"

text \<open>One round of the loop over the billable events.\<close>

definition meterEvent :: "(string \<Rightarrow> rat) \<Rightarrow> billing_usage_event \<Rightarrow> totals \<times> overages \<Rightarrow> totals \<times> overages" where
  "meterEvent included event s =
     (case dimensionByEventType (buEventType event) of
        None \<Rightarrow> s
      | Some dimension \<Rightarrow>
          (case s of (runningTotals, hourlyOverage) \<Rightarrow>
             (let previousTotal = dictGet runningTotals dimension;
                  total' = previousTotal + buQuantity event;
                  runningTotals' = dictSet runningTotals dimension total'
              in if total' \<le> included dimension then (runningTotals', hourlyOverage)
                 else (let billable = min (buQuantity event) (total' - max previousTotal (included dimension))
                       in (runningTotals',
                           addOverage dimension (utcHour (buOccurredAt event)) billable (buId event) hourlyOverage)))))"

definition meterEvents :: "(string \<Rightarrow> rat) \<Rightarrow> billing_usage_event list \<Rightarrow> overages" where
  "meterEvents included events = snd (fold (meterEvent included) events ([], []))"

definition termStart :: "mp_env \<Rightarrow> marketplace_subscription \<Rightarrow> int" where
  "termStart env sub = (case subTermStartDate sub of Some t \<Rightarrow> t | None \<Rightarrow> utcMonthStart (eNow env))"

definition termEnd :: "mp_env \<Rightarrow> marketplace_subscription \<Rightarrow> int" where
  "termEnd env sub = (case subTermEndDate sub of Some t \<Rightarrow> t | None \<Rightarrow> eNow env)"

text \<open>\<open>newId\<close> gives the UUID a row created for this key would get.\<close>

definition aggregateSubscriptionUsage ::
  "mp_env \<Rightarrow> (string \<times> string \<times> int \<Rightarrow> string) \<Rightarrow> marketplace_subscription \<Rightarrow> (mp_db, unit) eff" where
  "aggregateSubscriptionUsage env newId sub =
     (if \<not> truthy (subOrgId sub) then ret ()
      else bind (getPlan (subOfferId sub) (subPlanId sub)) (\<lambda>plan.
           bind (getBillableEventsForSubscription (subId sub) (termStart env sub) (termEnd env sub)) (\<lambda>sourceEvents.
           forEach (meterEvents (includedUsage plan) sourceEvents) (\<lambda>((dimension, hour), quantity, ids).
             createOrUpdateUsageEvent (newId (subId sub, dimension, hour)) (subId sub) (orEmpty (subOrgId sub))
               dimension quantity hour ids))))"

definition aggregateUsage :: "mp_env \<Rightarrow> (string \<times> string \<times> int \<Rightarrow> string) \<Rightarrow> (mp_db, unit) eff" where
  "aggregateUsage env newId =
     bind listActiveSubscriptions (\<lambda>subscriptions.
       forEach subscriptions (aggregateSubscriptionUsage env newId))"

definition submissionWindowMs :: int where
  "submissionWindowMs = 86400000"

definition toUsageLine :: "marketplace_usage_event \<times> marketplace_subscription \<Rightarrow> usage_line" where
  "toUsageLine = (\<lambda>(event, sub).
     \<lparr>ulResourceId = subMarketplaceId sub, ulQuantity = ueQuantity event, ulDimension = ueDimension event,
      ulEffectiveStartTime = ueUsageStartTime event\<rparr>)"

definition localStatus :: "string option \<Rightarrow> MarketplaceUsageStatus" where
  "localStatus msStatus =
     (if msStatus = Some ''Accepted'' then UAccepted
      else if msStatus = Some ''Duplicate'' then UDuplicate
      else UFailed)"

definition resultStatus :: "string option option list \<Rightarrow> nat \<Rightarrow> string option" where
  "resultStatus result i = (if i < length result then (case result ! i of None \<Rightarrow> None | Some st \<Rightarrow> st) else None)"

fun recordResults ::
  "mp_env \<Rightarrow> ms_response \<Rightarrow> string option option list \<Rightarrow> nat \<Rightarrow>
   (marketplace_usage_event \<times> marketplace_subscription) list \<Rightarrow> (mp_db, unit) eff" where
  "recordResults env response result i [] = ret ()"
| "recordResults env response result i (event # batch) =
     (let msStatus = resultStatus result i
      in andThen
           (updateUsageEventStatus (eNow env) (ueId (fst event)) (localStatus msStatus)
             \<lparr>urStatus = (if truthy msStatus then msStatus else Some ''error''), urMessage = Some ''result'',
              urRequestId = Some (mrRequestId response), urCorrelationId = Some (mrCorrelationId response)\<rparr>)
           (recordResults env response result (Suc i) batch))"

definition submitBatch ::
  "mp_env \<Rightarrow> (marketplace_usage_event \<times> marketplace_subscription) list \<Rightarrow> (mp_db, unit) eff" where
  "submitBatch env batch =
     bind (msSubmitBatchUsageEvents env (map toUsageLine batch)) (\<lambda>response.
       recordResults env response (case mrData response of BUsage result \<Rightarrow> result | _ \<Rightarrow> []) 0 batch)"

fun batches :: "nat \<Rightarrow> 'a list \<Rightarrow> 'a list list" where
  "batches fuel [] = []"
| "batches 0 xs = []"
| "batches (Suc fuel) xs = take 25 xs # batches fuel (drop 25 xs)"

text \<open>The two filters read the clock for every event: \<open>clk1\<close> and \<open>clk2\<close> are their readings.\<close>

definition submitPendingUsage :: "mp_env \<Rightarrow> (nat \<Rightarrow> int) \<Rightarrow> (nat \<Rightarrow> int) \<Rightarrow> (mp_db, unit) eff" where
  "submitPendingUsage env clk1 clk2 =
     bind listPendingUsageEvents (\<lambda>pendingEvents.
       if pendingEvents = [] then ret ()
       else
         (let age = (\<lambda>(clk :: nat \<Rightarrow> int) (i, event :: marketplace_usage_event \<times> marketplace_subscription).
                clk i - ueUsageStartTime (fst event));
              indexed = enumerate 0 pendingEvents;
              eligibleEvents = map snd (filter (\<lambda>x. age clk1 x \<le> submissionWindowMs) indexed);
              expiredEvents = map snd (filter (\<lambda>x. submissionWindowMs < age clk2 x) indexed)
          in andThen
               (forEach expiredEvents (\<lambda>event.
                  updateUsageEventStatus (eNow env) (ueId (fst event)) UExpired
                    \<lparr>urStatus = None, urMessage = Some ''Usage event is older than the Microsoft 24 hour submission window'',
                     urRequestId = None, urCorrelationId = None\<rparr>))
               (forEach (batches (length eligibleEvents) eligibleEvents) (submitBatch env))))"

definition aggregateAndSubmitUsage ::
  "mp_env \<Rightarrow> (string \<times> string \<times> int \<Rightarrow> string) \<Rightarrow> (nat \<Rightarrow> int) \<Rightarrow> (nat \<Rightarrow> int) \<Rightarrow> (mp_db, unit) eff" where
  "aggregateAndSubmitUsage env newId clk1 clk2 =
     (if \<not> envFlag env ''MARKETPLACE_METERING_ENABLED'' then ret ()
      else andThen (aggregateUsage env newId) (submitPendingUsage env clk1 clk2))"

subsection \<open>Entitlements\<close>

definition defaultFeatures :: "(string \<times> bool) list" where
  "defaultFeatures =
     [(''schemaCreate'', True), (''credentialDefinitionCreate'', True), (''issuance'', True),
      (''bulkIssuance'', True), (''verification'', True), (''apiAccess'', True)]"

definition eventTypeByDimension :: "(string \<times> string) list" where
  "eventTypeByDimension =
     [(''setup_fee'', ''organization_setup_completed''), (''issuance_txn'', ''issuance_completed''),
      (''verification_txn'', ''verification_completed''), (''schema_create'', ''schema_created'')]"

record usage_entry =
  uyIncluded :: rat
  uyUsed :: rat
  uyOverage :: rat

record entitlements =
  enOrgId :: string
  enSubscription :: "(string \<times> MarketplaceSubscriptionStatus \<times> string) option"
  enFeatures :: "(string \<times> bool) list"
  enMaxUsers :: "int option"
  enMaxOrganizations :: "int option"
  enUsage :: "(string \<times> usage_entry) list"
  enBlockedReason :: "string option"

definition isExemptOrg :: "mp_env \<Rightarrow> string \<Rightarrow> bool" where
  "isExemptOrg env orgId =
     (if orgId = [] then False
      else let exempt = filter (\<lambda>i. i \<noteq> [])
                 (map (\<lambda>i. toLowerCase (trim i)) (splitOn CHR '','' (orEmpty (eVar env ''MARKETPLACE_EXEMPT_ORG_IDS''))))
           in toLowerCase (trim orgId) \<in> set exempt)"

definition disableFeatures :: "(string \<times> bool) list" where
  "disableFeatures = map (\<lambda>(f, _). (f, False)) defaultFeatures"

fun mergeDict :: "('k \<times> 'v) list \<Rightarrow> ('k \<times> 'v) list \<Rightarrow> ('k \<times> 'v) list" where
  "mergeDict d [] = d"
| "mergeDict d ((k, v) # kvs) = mergeDict (dictSet d k v) kvs"

definition planFeatures :: "marketplace_plan option \<Rightarrow> (string \<times> bool) list" where
  "planFeatures plan =
     (case plan of
        None \<Rightarrow> defaultFeatures
      | Some p \<Rightarrow> (case plFeatures p of None \<Rightarrow> defaultFeatures | Some fs \<Rightarrow> mergeDict defaultFeatures fs))"

definition blockedReason :: "marketplace_subscription \<Rightarrow> string option" where
  "blockedReason sub =
     (if subStatus sub = PendingFulfillmentStart then Some ''marketplace_activation_required''
      else if subStatus sub = Suspended then Some ''marketplace_subscription_suspended''
      else if subStatus sub = Unsubscribed then Some ''marketplace_subscription_unsubscribed''
      else if subActivationStatus sub = ActFailed then Some ''marketplace_activation_failed''
      else None)"

definition includedForDimension :: "marketplace_plan option \<Rightarrow> string \<Rightarrow> rat" where
  "includedForDimension plan dimension =
     (case plan of
        None \<Rightarrow> 0
      | Some p \<Rightarrow>
          (if dimension = ''issuance_txn'' then of_int (plIncludedIssuance p)
           else if dimension = ''verification_txn'' then of_int (plIncludedVerification p)
           else if dimension = ''schema_create'' then of_int (plIncludedSchemas p)
           else 0))"

definition getUsage :: "mp_env \<Rightarrow> marketplace_subscription \<Rightarrow> marketplace_plan option \<Rightarrow> (mp_db, (string \<times> usage_entry) list) eff" where
  "getUsage env sub plan =
     bind (if truthy (subOrgId sub) then getUsageTotals (orEmpty (subOrgId sub)) (termStart env sub) (termEnd env sub)
           else ret []) (\<lambda>totals.
       ret (map (\<lambda>(dimension, eventType).
              let used = dictGet totals eventType; inc = includedForDimension plan dimension
              in (dimension, \<lparr>uyIncluded = inc, uyUsed = used, uyOverage = max (used - inc) 0\<rparr>)) eventTypeByDimension))"

definition positiveOrNull :: "int option \<Rightarrow> int option" where
  "positiveOrNull x = (case x of None \<Rightarrow> None | Some n \<Rightarrow> if n = 0 then None else Some n)"

definition subActive :: "marketplace_subscription \<Rightarrow> bool" where
  "subActive sub \<longleftrightarrow> subStatus sub = Subscribed \<and> subActivationStatus sub = ActActivated"

definition getEntitlements :: "mp_env \<Rightarrow> string \<Rightarrow> (mp_db, entitlements) eff" where
  "getEntitlements env orgId =
     (let open = \<lparr>enOrgId = orgId, enSubscription = None, enFeatures = defaultFeatures, enMaxUsers = None,
                  enMaxOrganizations = None, enUsage = [], enBlockedReason = None\<rparr>
      in if isExemptOrg env orgId then ret open
         else bind (getSubscriptionByOrgId orgId) (\<lambda>found.
           case found of
             None \<Rightarrow>
               (if envFlag env ''MARKETPLACE_REQUIRED''
                then ret (open\<lparr>enFeatures := disableFeatures, enBlockedReason := Some ''marketplace_subscription_required''\<rparr>)
                else ret open)
           | Some sub \<Rightarrow>
               bind (getPlan (subOfferId sub) (subPlanId sub)) (\<lambda>plan.
               bind (getUsage env sub plan) (\<lambda>usage.
                 ret \<lparr>enOrgId = orgId,
                      enSubscription = Some (subMarketplaceId sub, subStatus sub, subPlanId sub),
                      enFeatures = (if subActive sub then planFeatures plan else disableFeatures),
                      enMaxUsers = positiveOrNull (case plan of None \<Rightarrow> None | Some p \<Rightarrow> plMaxUsers p),
                      enMaxOrganizations = positiveOrNull (case plan of None \<Rightarrow> None | Some p \<Rightarrow> plMaxOrganizations p),
                      enUsage = usage,
                      enBlockedReason = (if subActive sub then None else blockedReason sub)\<rparr>))))"

definition isFeatureAllowed :: "mp_env \<Rightarrow> string \<Rightarrow> string \<Rightarrow> (mp_db, bool) eff" where
  "isFeatureAllowed env orgId feature =
     bind (getEntitlements env orgId) (\<lambda>en.
       ret (case map_of (enFeatures en) feature of None \<Rightarrow> False | Some b \<Rightarrow> b))"

section \<open>Dictionaries and overage\<close>

lemma map_of_dictSet: "map_of (dictSet d k v) = (map_of d)(k \<mapsto> v)"
  by (induction d k v rule: dictSet.induct) (auto simp: fun_eq_iff)

lemma dictGet_dictSet [simp]: "dictGet (dictSet d k v) k' = (if k' = k then v else dictGet d k')"
  by (simp add: dictGet_def map_of_dictSet)

lemma keys_dictSet: "fst ` set (dictSet d k v) = insert k (fst ` set d)"
  by (induction d k v rule: dictSet.induct) auto

lemma distinct_dictSet: "distinct (map fst d) \<Longrightarrow> distinct (map fst (dictSet d k v))"
proof (induction d k v rule: dictSet.induct)
  case (2 k' v' d k v)
  then show ?case using keys_dictSet [of d k v] by auto
qed simp

definition billedOf :: "overages \<Rightarrow> string \<Rightarrow> rat" where
  "billedOf ov d = sum_list (map (\<lambda>((d', h), q, ids). if d' = d then q else 0) ov)"

lemma billedOf_dictSet:
  assumes "distinct (map fst ov)"
  shows "billedOf (dictSet ov (d, h) (q, ids)) d' = billedOf ov d' + (if d' = d
    then q - (case map_of ov (d, h) of None \<Rightarrow> 0 | Some (q0, _) \<Rightarrow> q0) else 0)"
  using assms
proof (induction ov)
  case Nil
  then show ?case by (simp add: billedOf_def)
next
  case (Cons a ov)
  obtain d0 h0 q0 ids0 where a: "a = ((d0, h0), q0, ids0)" by (cases a) auto
  show ?case
  proof (cases "(d0, h0) = (d, h)")
    case True
    then show ?thesis by (simp add: a billedOf_def)
  next
    case False
    have "billedOf (dictSet (a # ov) (d, h) (q, ids)) d' =
        (if d0 = d' then q0 else 0) + billedOf (dictSet ov (d, h) (q, ids)) d'"
      using False unfolding a dictSet.simps if_not_P [OF False] by (simp add: billedOf_def)
    also have "billedOf (dictSet ov (d, h) (q, ids)) d' = billedOf ov d' + (if d' = d
        then q - (case map_of ov (d, h) of None \<Rightarrow> 0 | Some (q0, _) \<Rightarrow> q0) else 0)"
      using Cons by simp
    finally show ?thesis using False by (auto simp: a billedOf_def)
  qed
qed

lemma billedOf_addOverage:
  assumes "distinct (map fst ov)"
  shows "billedOf (addOverage d h q i ov) d' = billedOf ov d' + (if d' = d then q else 0)"
  using billedOf_dictSet [OF assms] by (auto simp: addOverage_def split: option.splits prod.splits)

lemma distinct_addOverage: "distinct (map fst ov) \<Longrightarrow> distinct (map fst (addOverage d h q i ov))"
  by (auto simp: addOverage_def intro: distinct_dictSet split: option.splits)

definition dimQuantity :: "billing_usage_event list \<Rightarrow> string \<Rightarrow> rat" where
  "dimQuantity events d =
     sum_list (map buQuantity (filter (\<lambda>e. dimensionByEventType (buEventType e) = Some d) events))"

text \<open>What one round keeps, for one dimension.\<close>

definition meter_ok :: "(string \<Rightarrow> rat) \<Rightarrow> string \<Rightarrow> totals \<times> overages \<Rightarrow> rat \<Rightarrow> bool" where
  "meter_ok included d s total' \<longleftrightarrow> distinct (map fst (snd s)) \<and> dictGet (fst s) d = total' \<and>
     billedOf (snd s) d = max 0 (total' - included d)"

lemma meterEvent_ok:
  assumes ok: "meter_ok included d s total'" and q: "0 \<le> buQuantity e" and inc: "0 \<le> included d" and t: "0 \<le> total'"
  shows "meter_ok included d (meterEvent included e s)
    (total' + (if dimensionByEventType (buEventType e) = Some d then buQuantity e else 0))"
proof (cases "dimensionByEventType (buEventType e)")
  case None
  then show ?thesis using ok by (simp add: meterEvent_def)
next
  case (Some d')
  obtain rt ov where s: "s = (rt, ov)" by (cases s)
  have dist: "distinct (map fst ov)" and get: "dictGet rt d = total'" and billed: "billedOf ov d = max 0 (total' - included d)"
    using ok by (simp_all add: meter_ok_def s)
  show ?thesis
  proof (cases "d' = d")
    case False
    then show ?thesis
      using ok Some by (auto simp: meterEvent_def s Let_def meter_ok_def billedOf_addOverage distinct_addOverage)
  next
    case True
    let ?new = "total' + buQuantity e"
    show ?thesis
    proof (cases "?new \<le> included d")
      case le: True
      then show ?thesis
        using True Some dist get billed q by (simp add: meterEvent_def s Let_def meter_ok_def)
    next
      case gt: False
      have "min (buQuantity e) (?new - max total' (included d)) = ?new - max total' (included d)"
        using gt by (auto simp: min_def max_def)
      then show ?thesis
        using True Some dist get billed gt
        by (auto simp: meterEvent_def s Let_def meter_ok_def billedOf_addOverage distinct_addOverage max_def)
    qed
  qed
qed

lemma fold_meterEvent_ok:
  assumes "\<And>e. e \<in> set events \<Longrightarrow> 0 \<le> buQuantity e" and "0 \<le> included d" and "0 \<le> total'"
    and "meter_ok included d s total'"
  shows "meter_ok included d (fold (meterEvent included) events s) (total' + dimQuantity events d)"
  using assms
proof (induction events arbitrary: s total')
  case (Cons e events)
  let ?t = "total' + (if dimensionByEventType (buEventType e) = Some d then buQuantity e else 0)"
  have q: "0 \<le> buQuantity e" using Cons.prems(1) by simp
  have "meter_ok included d (fold (meterEvent included) events (meterEvent included e s)) (?t + dimQuantity events d)"
    by (rule Cons.IH) (use Cons.prems q meterEvent_ok [OF Cons.prems(4) q] in auto)
  moreover have "?t + dimQuantity events d = total' + dimQuantity (e # events) d" by (simp add: dimQuantity_def)
  ultimately show ?case by simp
qed (simp add: dimQuantity_def)

text \<open>The keys are hours, and every entry bills something when every event has a positive quantity.\<close>

definition entry_ok :: "(string \<times> int) \<times> rat \<times> string list \<Rightarrow> bool" where
  "entry_ok x = (case x of ((d, h), q, ids) \<Rightarrow> h mod 3600000 = 0 \<and> 0 < q \<and> ids \<noteq> [])"

lemma set_dictSet: "set (dictSet d k v) \<subseteq> insert (k, v) (set d)"
  by (induction d k v rule: dictSet.induct) auto

lemma addOverage_entries:
  assumes "\<forall>x \<in> set ov. entry_ok x" and "0 < q" and "h mod 3600000 = 0"
  shows "\<forall>x \<in> set (addOverage d h q i ov). entry_ok x"
proof (cases "map_of ov (d, h)")
  case None
  then show ?thesis
    using assms set_dictSet [of ov "(d, h)" "(0 + q, [i])"] by (auto simp: addOverage_def entry_ok_def)
next
  case (Some x)
  obtain q0 ids where x: "x = (q0, ids)" by (cases x)
  with map_of_SomeD [OF Some] assms(1) have "0 < q0" by (auto simp: entry_ok_def)
  then show ?thesis
    using assms Some x set_dictSet [of ov "(d, h)" "(q0 + q, ids @ [i])"] by (auto simp: addOverage_def entry_ok_def)
qed

lemma meterEvent_entries:
  assumes "\<forall>x \<in> set (snd s). entry_ok x" and "0 < buQuantity e"
  shows "\<forall>x \<in> set (snd (meterEvent included e s)). entry_ok x"
proof (cases "dimensionByEventType (buEventType e)")
  case (Some d)
  obtain rt ov where s: "s = (rt, ov)" by (cases s)
  let ?new = "dictGet rt d + buQuantity e"
  let ?b = "min (buQuantity e) (?new - max (dictGet rt d) (included d))"
  have hour: "utcHour t mod 3600000 = 0" for t by (simp add: utcHour_def mod_diff_left_eq [symmetric])
  show ?thesis
  proof (cases "?new \<le> included d")
    case True
    then show ?thesis using assms(1) Some by (simp add: meterEvent_def s Let_def)
  next
    case False
    then have "0 < ?b" using assms(2) by (simp add: min_def max_def)
    from addOverage_entries [OF _ this hour] assms(1) False Some show ?thesis
      by (simp add: meterEvent_def s Let_def)
  qed
qed (use assms in \<open>simp add: meterEvent_def\<close>)

lemma fold_meterEvent_entries:
  "(\<And>e. e \<in> set events \<Longrightarrow> 0 < buQuantity e) \<Longrightarrow> \<forall>x \<in> set (snd s). entry_ok x \<Longrightarrow>
   \<forall>x \<in> set (snd (fold (meterEvent included) events s)). entry_ok x"
proof (induction events arbitrary: s)
  case (Cons e events)
  then have "\<forall>x \<in> set (snd (meterEvent included e s)). entry_ok x" by (intro meterEvent_entries) auto
  with Cons show ?case by simp
qed simp

lemma billed_total:
  assumes "\<And>e. e \<in> set events \<Longrightarrow> 0 < buQuantity e" and "0 \<le> included d"
  shows "billedOf (meterEvents included events) d = max 0 (dimQuantity events d - included d)"
    and "distinct (map fst (meterEvents included events))"
proof -
  have start: "meter_ok included d ([], []) 0" using assms(2) by (simp add: meter_ok_def dictGet_def billedOf_def)
  have "meter_ok included d (fold (meterEvent included) events ([], [])) (0 + dimQuantity events d)"
    by (rule fold_meterEvent_ok [OF _ assms(2) _ start]) (use assms(1) in \<open>auto intro: less_imp_le\<close>)
  then show "billedOf (meterEvents included events) d = max 0 (dimQuantity events d - included d)"
    and "distinct (map fst (meterEvents included events))"
    by (simp_all add: meter_ok_def meterEvents_def)
qed

section \<open>Totals\<close>






section \<open>Submission\<close>

definition statusOf :: "mp_db \<Rightarrow> string \<Rightarrow> MarketplaceUsageStatus option" where
  "statusOf db i = map_option ueStatus (List.find (\<lambda>u. ueId u = i) (dbUsage db))"

definition hasUsage :: "mp_db \<Rightarrow> string \<Rightarrow> bool" where
  "hasUsage db i \<longleftrightarrow> i \<in> ueId ` set (dbUsage db)"

lemma find_updateWhere_other:
  "(\<And>u. ueId (f u) = ueId u) \<Longrightarrow> (\<And>u. ueId u = j \<Longrightarrow> \<not> p u) \<Longrightarrow>
   List.find (\<lambda>u. ueId u = j) (updateWhere p f rows) = List.find (\<lambda>u. ueId u = j) rows"
  by (induction rows) auto

lemma find_updateWhere_same:
  "(\<And>u. ueId (f u) = ueId u) \<Longrightarrow>
   List.find (\<lambda>u. ueId u = i) (updateWhere (\<lambda>u. ueId u = i) f rows) = map_option f (List.find (\<lambda>u. ueId u = i) rows)"
  by (induction rows) auto

lemma updateUsageEventStatus_run:
  assumes "hasUsage db i"
  obtains db' where "updateUsageEventStatus now i st resp db = (Inr (), db')"
    "\<forall>j. statusOf db' j = (if j = i then Some st else statusOf db j)" "\<forall>j. hasUsage db' j = hasUsage db j"
    "dbToken db' = dbToken db"
proof -
  let ?f = "\<lambda>u. u\<lparr>ueStatus := st, ueResponseStatus := keep (urStatus resp) (ueResponseStatus u),
      ueMessage := keep (urMessage resp) (ueMessage u), ueRequestId := keep (urRequestId resp) (ueRequestId u),
      ueCorrelationId := keep (urCorrelationId resp) (ueCorrelationId u), ueSubmittedAt := Some now\<rparr>"
  let ?db = "db\<lparr>dbUsage := updateWhere (\<lambda>u. ueId u = i) ?f (dbUsage db)\<rparr>"
  have "\<exists>u. List.find (\<lambda>u. ueId u = i) (dbUsage db) = Some u"
    using assms find_None_iff_all [of "\<lambda>u. ueId u = i" "dbUsage db"] by (auto simp: hasUsage_def)
  then have "statusOf ?db j = (if j = i then Some st else statusOf db j)" for j
    by (auto simp: statusOf_def find_updateWhere_same find_updateWhere_other)
  moreover have "hasUsage ?db j = hasUsage db j" for j
    using image_updateWhere_same [of ueId ?f "\<lambda>u. ueId u = i" "dbUsage db"] by (simp add: hasUsage_def)
  moreover have "updateUsageEventStatus now i st resp db = (Inr (), ?db)"
    using assms by (auto simp: updateUsageEventStatus_def hasUsage_def)
  ultimately show ?thesis using that [of ?db] by simp
qed

lemma expire_all:
  assumes "\<And>e. e \<in> set es \<Longrightarrow> hasUsage db (ueId (fst e))"
  obtains db' where "forEach es (\<lambda>e. updateUsageEventStatus now (ueId (fst e)) st resp) db = (Inr (), db')"
    "\<forall>j. statusOf db' j = (if j \<in> (\<lambda>e. ueId (fst e)) ` set es then Some st else statusOf db j)"
    "\<forall>j. hasUsage db' j = hasUsage db j" "dbToken db' = dbToken db"
  using assms
proof (induction es arbitrary: db thesis)
  case Nil
  show ?case by (rule Nil.prems(1) [of db]) simp_all
next
  case (Cons e es)
  obtain db1 where db1: "updateUsageEventStatus now (ueId (fst e)) st resp db = (Inr (), db1)"
    "\<forall>j. statusOf db1 j = (if j = ueId (fst e) then Some st else statusOf db j)" "\<forall>j. hasUsage db1 j = hasUsage db j"
    "dbToken db1 = dbToken db"
    using updateUsageEventStatus_run [of db "ueId (fst e)" now st resp] Cons.prems(2) by (metis list.set_intros(1))
  obtain db2 where db2: "forEach es (\<lambda>e. updateUsageEventStatus now (ueId (fst e)) st resp) db1 = (Inr (), db2)"
    "\<forall>j. statusOf db2 j = (if j \<in> (\<lambda>e. ueId (fst e)) ` set es then Some st else statusOf db1 j)"
    "\<forall>j. hasUsage db2 j = hasUsage db1 j" "dbToken db2 = dbToken db1"
    using Cons.IH [of db1] Cons.prems(2) db1(3) by auto
  show ?case
    by (rule Cons.prems(1) [of db2]) (use db1 db2 in \<open>auto simp: bind_def\<close>)
qed

lemma recordResults_run:
  assumes "\<And>e. e \<in> set batch \<Longrightarrow> hasUsage db (ueId (fst e))" and "distinct (map (\<lambda>e. ueId (fst e)) batch)"
  obtains db' where "recordResults env response result i batch db = (Inr (), db')"
    "\<forall>k < length batch. statusOf db' (ueId (fst (batch ! k))) = Some (localStatus (resultStatus result (i + k)))"
    "\<forall>j. j \<notin> (\<lambda>e. ueId (fst e)) ` set batch \<longrightarrow> statusOf db' j = statusOf db j"
  using assms
proof (induction batch arbitrary: db i thesis)
  case Nil
  show ?case by (rule Nil.prems(1) [of db]) simp_all
next
  case (Cons e batch)
  let ?st = "localStatus (resultStatus result i)"
  let ?resp = "\<lparr>urStatus = (if truthy (resultStatus result i) then resultStatus result i else Some ''error''), urMessage = Some ''result'',
              urRequestId = Some (mrRequestId response), urCorrelationId = Some (mrCorrelationId response)\<rparr>"
  have has: "hasUsage db (ueId (fst e))" using Cons.prems(2) [of e] by simp
  obtain db1 where db1: "updateUsageEventStatus (eNow env) (ueId (fst e)) ?st ?resp db = (Inr (), db1)"
    "\<forall>j. statusOf db1 j = (if j = ueId (fst e) then Some ?st else statusOf db j)" "\<forall>j. hasUsage db1 j = hasUsage db j"
    "dbToken db1 = dbToken db"
    by (rule updateUsageEventStatus_run [OF has])
  obtain db2 where db2: "recordResults env response result (Suc i) batch db1 = (Inr (), db2)"
    "\<forall>k < length batch. statusOf db2 (ueId (fst (batch ! k))) = Some (localStatus (resultStatus result (Suc i + k)))"
    "\<forall>j. j \<notin> (\<lambda>e. ueId (fst e)) ` set batch \<longrightarrow> statusOf db2 j = statusOf db1 j"
    by (rule Cons.IH [where db = db1 and i = "Suc i"]) (use Cons.prems(2,3) db1(3) in auto)
  show ?case
  proof (rule Cons.prems(1) [of db2])
    show "recordResults env response result i (e # batch) db = (Inr (), db2)"
      using db1(1) db2(1) by (simp add: Let_def andThen_def bind_def)
    have "statusOf db2 (ueId (fst ((e # batch) ! k))) = Some (localStatus (resultStatus result (i + k)))"
      if "k < length (e # batch)" for k
    proof (cases k)
      case 0
      have "ueId (fst e) \<notin> (\<lambda>e. ueId (fst e)) ` set batch" using Cons.prems(3) by simp
      then show ?thesis using db2(3) db1(2) 0 by simp
    next
      case (Suc m)
      then show ?thesis using db2(2) that by simp
    qed
    then show "\<forall>k < length (e # batch). statusOf db2 (ueId (fst ((e # batch) ! k))) = Some (localStatus (resultStatus result (i + k)))"
      by blast
    show "\<forall>j. j \<notin> (\<lambda>e. ueId (fst e)) ` set (e # batch) \<longrightarrow> statusOf db2 j = statusOf db j"
      using db2(3) db1(2) by simp
  qed
qed

lemma map_filter_pairs:
  "map fst (List.map_filter (withSubscription db) us) = filter (\<lambda>u. withSubscription db u \<noteq> None) us"
  by (induction us) (auto simp: List.map_filter_def withSubscription_def)

lemma pendingRows_status: "u \<in> set (pendingRows db) \<Longrightarrow> u \<in> set (dbUsage db) \<and> (ueStatus u = UPending \<or> ueStatus u = UFailed)"
  by (auto simp: pendingRows_def dest: in_set_takeD)

lemma pending_run:
  "listPendingUsageEvents db = (Inr pending, db') \<longleftrightarrow> pending = List.map_filter (withSubscription db) (pendingRows db) \<and> db' = db"
  unfolding listPendingUsageEvents_def reads_run by auto

lemma pending_fst:
  "listPendingUsageEvents db = (Inr pending, db') \<Longrightarrow>
   map fst pending = filter (\<lambda>u. withSubscription db u \<noteq> None) (pendingRows db)"
  by (simp add: pending_run map_filter_pairs)

lemma distinct_pendingRows:
  assumes "distinct (map ueId (dbUsage db))"
  shows "distinct (map ueId (pendingRows db))"
proof -
  let ?rows = "filter (\<lambda>u. ueStatus u = UPending \<or> ueStatus u = UFailed) (dbUsage db)"
  have "mset (map ueId (sort_key ueUsageStartTime ?rows)) = mset (map ueId ?rows)" by simp
  then have "distinct (map ueId (sort_key ueUsageStartTime ?rows))"
    using assms by (metis distinct_map_filter mset_eq_imp_distinct_iff)
  then show ?thesis unfolding pendingRows_def by (simp add: take_map [symmetric] distinct_take del: filter_sort)
qed

lemma pending_status:
  assumes "listPendingUsageEvents db = (Inr pending, db')" and "u \<in> fst ` set pending"
  shows "u \<in> set (dbUsage db) \<and> (ueStatus u = UPending \<or> ueStatus u = UFailed)"
proof -
  have "u \<in> set (map fst pending)" using assms(2) by simp
  then have "u \<in> set (pendingRows db)" unfolding pending_fst [OF assms(1)] by simp
  then show ?thesis by (rule pendingRows_status)
qed

lemma pending_events:
  assumes "distinct (map ueId (dbUsage db))" and "listPendingUsageEvents db = (Inr pending, db')"
  shows "length pending \<le> 25" and "distinct (map (\<lambda>e. ueId (fst e)) pending)"
    and "e \<in> set pending \<Longrightarrow> hasUsage db (ueId (fst e))"
proof -
  have "length pending = length (filter (\<lambda>u. withSubscription db u \<noteq> None) (pendingRows db))"
    using pending_fst [OF assms(2)] by (metis length_map)
  also have "\<dots> \<le> length (pendingRows db)" by (rule length_filter_le)
  also have "\<dots> \<le> 25" by (simp add: pendingRows_def)
  finally show "length pending \<le> 25" .
  have "distinct (map ueId (map fst pending))"
    unfolding pending_fst [OF assms(2)] using distinct_pendingRows [OF assms(1)] by (rule distinct_map_filter)
  then show "distinct (map (\<lambda>e. ueId (fst e)) pending)" by (simp add: comp_def)
  show "e \<in> set pending \<Longrightarrow> hasUsage db (ueId (fst e))"
    using pending_status [OF assms(2), of "fst e"] by (auto simp: hasUsage_def)
qed

lemma batches_single: "xs \<noteq> [] \<Longrightarrow> length xs \<le> 25 \<Longrightarrow> batches (length xs) xs = [xs]"
  by (cases xs) auto

lemma filter_enumerate_snd: "map snd (filter (\<lambda>(i, x). p x) (enumerate n xs)) = filter p xs"
  by (induction xs arbitrary: n) auto

lemma getAccessToken_cong:
  "dbToken db = dbToken db' \<Longrightarrow> fst (getAccessToken env db) = fst (getAccessToken env db')"
  by (auto simp: getAccessToken_def Let_def split: option.splits sum.splits)

lemma request_cong:
  assumes "dbToken db = dbToken db'"
  shows "fst (request env m path body hs db) = fst (request env m path body hs db')"
proof -
  obtain r d d' where "getAccessToken env db = (r, d)" "getAccessToken env db' = (r, d')"
    using getAccessToken_cong [OF assms, of env] by (metis prod.collapse)
  then show ?thesis by (cases r) (auto simp: request_def bind_def Let_def split: http_reply.splits)
qed

section \<open>Sample rows\<close>

definition sampleEnv :: mp_env where
  "sampleEnv =
     \<lparr>eNow = 7200000, eUuid = (\<lambda>n. replicate n CHR ''u''), eHttp = (\<lambda>_. HttpOk (BUsage [Some (Some ''Accepted'')])),
      eTokenHttp = (\<lambda>_. Inr (''token'', 3600)), eOwners = (\<lambda>_. Inr (Some [''user''])), eCreateOrg = (\<lambda>_. Inr ''org''),
      eSha256 = (\<lambda>s. s), eDecodeUri = Some, eJwtKid = (\<lambda>_. None), eJwtVerify = (\<lambda>_ _ _ _. Inl badBody),
      eVar = (\<lambda>_. Some ''x'')\<rparr>"

definition sampleSub :: marketplace_subscription where
  "sampleSub = (blankSubscription ''s1'' 0)\<lparr>subMarketplaceId := ''ms1'', subOfferId := ''offer'', subPlanId := ''plan'',
     subStatus := Subscribed, subOrgId := Some ''org'', subLocalUserId := Some ''user'', subPurchaserEmail := Some ''Buyer@x.bt'',
     subActivationStatus := ActActivated\<rparr>"

definition sampleUsage :: "MarketplaceUsageStatus \<Rightarrow> marketplace_usage_event" where
  "sampleUsage st =
     \<lparr>ueId = ''e1'', ueSubscriptionId = ''s1'', ueOrgId = ''org'', ueDimension = ''issuance_txn'', ueQuantity = 3,
      ueUsageStartTime = 3600000, ueStatus = st, ueResponseStatus = None, ueMessage = None, ueRequestId = None,
      ueCorrelationId = None, ueSubmittedAt = None, ueSourceEventIds = [''b1'']\<rparr>"

definition sampleDb :: mp_db where
  "sampleDb =
     \<lparr>dbSubs = [sampleSub], dbSessions = [], dbPlans = [], dbUsage = [sampleUsage UPending],
      dbBilling = [\<lparr>buId = ''b1'', buOrgId = ''org'', buSubscriptionId = Some ''s1'', buEventType = ''issuance_completed'',
        buSourceTable = None, buSourceId = ''c1'', buOccurredAt = 3600001, buQuantity = 3\<rparr>],
      dbWebhooks = [], dbOperations = [], dbToken = Some (''token'', 99999999)\<rparr>"

section \<open>Properties\<close>

text \<open>
  Metering bills exactly the overage: for every dimension the quantities of the hourly entries add
  up to what the subscription used in that dimension beyond the included amount, and to nothing when
  the included amount was not exceeded. There is at most one entry per dimension and hour, each starts
  on a full hour and bills a positive quantity with its source events.
\<close>

theorem metering_overage_exact:
  assumes pos: "\<And>e. e \<in> set events \<Longrightarrow> 0 < buQuantity e" and inc: "0 \<le> included d"
  shows "billedOf (meterEvents included events) d = max 0 (dimQuantity events d - included d) \<and>
    distinct (map fst (meterEvents included events)) \<and>
    (\<forall>((d', h), q, ids) \<in> set (meterEvents included events). h mod 3600000 = 0 \<and> 0 < q \<and> ids \<noteq> [])"
proof -
  have "\<forall>x \<in> set (meterEvents included events). entry_ok x"
    unfolding meterEvents_def by (rule fold_meterEvent_entries [OF pos]) auto
  then show ?thesis
    using billed_total [of events included d] pos inc by (auto simp: entry_ok_def)
qed

definition exampleUsage :: "string \<Rightarrow> string \<Rightarrow> int \<Rightarrow> rat \<Rightarrow> billing_usage_event" where
  "exampleUsage i kind t q =
     \<lparr>buId = i, buOrgId = ''org'', buSubscriptionId = Some ''s1'', buEventType = kind, buSourceTable = None,
      buSourceId = i, buOccurredAt = t, buQuantity = q\<rparr>"

theorem metering_overage_exact_witness:
  "billedOf (meterEvents (\<lambda>_. 5) [exampleUsage ''a'' ''issuance_completed'' 3600001 4,
     exampleUsage ''b'' ''issuance_completed'' 3700000 3, exampleUsage ''c'' ''issuance_completed'' 9000000 2])
     ''issuance_txn'' = 4"
proof -
  let ?es = "[exampleUsage ''a'' ''issuance_completed'' 3600001 4,
     exampleUsage ''b'' ''issuance_completed'' 3700000 3, exampleUsage ''c'' ''issuance_completed'' 9000000 2]"
  have "dimQuantity ?es ''issuance_txn'' = 9" by (simp add: dimQuantity_def exampleUsage_def dimensionByEventType_def)
  moreover have "0 < buQuantity e" if "e \<in> set ?es" for e using that by (auto simp: exampleUsage_def)
  ultimately show ?thesis using metering_overage_exact [of ?es "\<lambda>_. 5" "''issuance_txn''"] by simp
qed




text \<open>
  A submission run that reaches Microsoft settles every listed event: those older than 24 hours are
  marked expired and not sent; the others are sent in one request of at most 25 lines, and each gets the
  status of the response entry at its own position, where anything but Accepted and Duplicate leaves it
  failed so that the next run lists it again. Nothing else changes status.
\<close>

theorem submission_settles:
  fixes now :: int
  assumes ids: "distinct (map ueId (dbUsage db))"
    and list: "listPendingUsageEvents db = (Inr pending, db)"
  defines "eligible \<equiv> filter (\<lambda>e. now - ueUsageStartTime (fst e) \<le> submissionWindowMs) pending"
  assumes ne: "eligible \<noteq> []"
    and reply: "fst (msSubmitBatchUsageEvents env (map toUsageLine eligible) db) = Inr response" "mrData response = BUsage result"
  shows "\<exists>db'. submitPendingUsage env (\<lambda>_. now) (\<lambda>_. now) db = (Inr (), db') \<and> length eligible \<le> 25 \<and>
    (\<forall>k < length eligible. statusOf db' (ueId (fst (eligible ! k))) = Some (localStatus (resultStatus result k))) \<and>
    (\<forall>e \<in> set pending. e \<notin> set eligible \<longrightarrow> statusOf db' (ueId (fst e)) = Some UExpired) \<and>
    (\<forall>i. i \<notin> (\<lambda>e. ueId (fst e)) ` set pending \<longrightarrow> statusOf db' i = statusOf db i)"
proof -
  note pend = pending_events [OF ids list]
  let ?old = "filter (\<lambda>e. submissionWindowMs < now - ueUsageStartTime (fst e)) pending"
  let ?msg = "\<lparr>urStatus = None, urMessage = Some ''Usage event is older than the Microsoft 24 hour submission window'',
                     urRequestId = None, urCorrelationId = None\<rparr>"
  let ?id = "\<lambda>e :: marketplace_usage_event \<times> marketplace_subscription. ueId (fst e)"
  have "\<And>e. e \<in> set ?old \<Longrightarrow> hasUsage db (?id e)" using pend(3) by auto
  then obtain db1 where db1: "forEach ?old (\<lambda>e. updateUsageEventStatus (eNow env) (?id e) UExpired ?msg) db = (Inr (), db1)"
    "\<forall>j. statusOf db1 j = (if j \<in> ?id ` set ?old then Some UExpired else statusOf db j)"
    "\<forall>j. hasUsage db1 j = hasUsage db j" "dbToken db1 = dbToken db"
    by (rule expire_all)
  obtain r db2 where sub: "msSubmitBatchUsageEvents env (map toUsageLine eligible) db1 = (r, db2)" by fastforce
  have r: "r = Inr response"
    using reply(1) request_cong [OF db1(4)] sub unfolding msSubmitBatchUsageEvents_def by (metis fst_conv)
  have rows2: "same_rows db1 db2" using movesD [OF moves_msSubmit sub] .
  have st2: "statusOf db2 j = statusOf db1 j" "hasUsage db2 j = hasUsage db1 j" for j
    using same_rows_tables(4) [OF rows2] by (simp_all add: statusOf_def hasUsage_def)
  have sub_el: "set eligible \<subseteq> set pending" by (auto simp: eligible_def)
  have dist: "distinct (map ?id eligible)" using pend(2) by (simp add: eligible_def distinct_map_filter)
  have has: "\<And>e. e \<in> set eligible \<Longrightarrow> hasUsage db2 (?id e)" using pend(3) sub_el st2(2) db1(3) by auto
  obtain db' where db': "recordResults env response result 0 eligible db2 = (Inr (), db')"
    "\<forall>k < length eligible. statusOf db' (?id (eligible ! k)) = Some (localStatus (resultStatus result (0 + k)))"
    "\<forall>j. j \<notin> ?id ` set eligible \<longrightarrow> statusOf db' j = statusOf db2 j"
    using recordResults_run [OF has dist] by blast
  have len: "length eligible \<le> 25"
    unfolding eligible_def using pend(1) length_filter_le le_trans by blast
  have split: "map snd (filter (\<lambda>x. (case x of (i, e) \<Rightarrow> now - ueUsageStartTime (fst e)) \<le> submissionWindowMs) (enumerate 0 pending)) = eligible"
    "map snd (filter (\<lambda>x. submissionWindowMs < (case x of (i, e) \<Rightarrow> now - ueUsageStartTime (fst e))) (enumerate 0 pending)) = ?old"
    unfolding eligible_def
    using filter_enumerate_snd [of "\<lambda>e. now - ueUsageStartTime (fst e) \<le> submissionWindowMs" 0 pending]
      filter_enumerate_snd [of "\<lambda>e. submissionWindowMs < now - ueUsageStartTime (fst e)" 0 pending]
    by (simp_all add: case_prod_unfold)
  have pne: "pending \<noteq> []" using ne by (auto simp: eligible_def)
  have "submitBatch env eligible db1 = (Inr (), db')"
    using sub r db'(1) reply(2) by (simp add: submitBatch_def bind_def)
  then have run: "submitPendingUsage env (\<lambda>_. now) (\<lambda>_. now) db = (Inr (), db')"
    using list pne db1(1) split batches_single [OF ne len]
    by (simp add: submitPendingUsage_def bind_def andThen_def Let_def)
  have idinj: "e = e'" if "e \<in> set pending" "e' \<in> set pending" "?id e = ?id e'" for e e'
    using distinct_map_eqD [OF pend(2) that(1,2)] that(3) by simp
  have "statusOf db' (?id e) = Some UExpired" if "e \<in> set pending" "e \<notin> set eligible" for e
  proof -
    have "?id e \<notin> ?id ` set eligible" using that idinj sub_el by blast
    moreover have "e \<in> set ?old" using that by (auto simp: eligible_def)
    ultimately show ?thesis using db'(3) st2(1) db1(2) by auto
  qed
  moreover have "statusOf db' i = statusOf db i" if "i \<notin> ?id ` set pending" for i
  proof -
    from that sub_el have "i \<notin> ?id ` set eligible" "i \<notin> ?id ` set ?old" by auto
    then show ?thesis using db'(3) st2(1) db1(2) by metis
  qed
  ultimately show ?thesis using run len db'(2) by auto
qed

theorem submission_settles_witness:
  "\<exists>db'. submitPendingUsage sampleEnv (\<lambda>_. 7200000) (\<lambda>_. 7200000) sampleDb = (Inr (), db') \<and> statusOf db' ''e1'' = Some UAccepted"
proof -
  let ?p = "[(sampleUsage UPending, sampleSub)]"
  have ids: "distinct (map ueId (dbUsage sampleDb))" by (simp add: sampleDb_def)
  have list: "listPendingUsageEvents sampleDb = (Inr ?p, sampleDb)"
    unfolding pending_run
    by (simp add: pendingRows_def sampleDb_def sampleUsage_def withSubscription_def sampleSub_def blankSubscription_def List.map_filter_def)
  have el: "filter (\<lambda>e. 7200000 - ueUsageStartTime (fst e) \<le> submissionWindowMs) ?p = ?p"
    by (simp add: sampleUsage_def submissionWindowMs_def)
  obtain r where r: "fst (msSubmitBatchUsageEvents sampleEnv (map toUsageLine ?p) sampleDb) = Inr r"
    "mrData r = BUsage [Some (Some ''Accepted'')]"
    by (simp add: msSubmitBatchUsageEvents_def request_def getAccessToken_def sampleEnv_def sampleDb_def bind_def Let_def)
  from submission_settles [OF ids list, of 7200000 sampleEnv r, unfolded el, OF _ r]
  obtain db' where "submitPendingUsage sampleEnv (\<lambda>_. 7200000) (\<lambda>_. 7200000) sampleDb = (Inr (), db')"
    "statusOf db' (ueId (sampleUsage UPending)) = Some (localStatus (resultStatus [Some (Some ''Accepted'')] 0))"
    by auto
  then show ?thesis by (auto simp: sampleUsage_def resultStatus_def localStatus_def)
qed

text \<open>
  Overage added to an hour that Microsoft has already accepted is not billed: aggregation writes the
  larger quantity into the existing row but keeps its status, and a row with that status is not in the
  list of events to submit.
\<close>

theorem accepted_hour_not_resubmitted:
  assumes row: "u \<in> set (dbUsage db)" "ueStatus u = UAccepted \<or> ueStatus u = UDuplicate"
  shows "\<exists>db' u'. createOrUpdateUsageEvent newId (ueSubscriptionId u) orgId (ueDimension u) quantity (ueUsageStartTime u) ids db = (Inr (), db') \<and>
    u' \<in> set (dbUsage db') \<and> ueId u' = ueId u \<and> ueQuantity u' = quantity \<and> ueStatus u' = ueStatus u \<and>
    (\<forall>pending. listPendingUsageEvents db' = (Inr pending, db') \<longrightarrow> u' \<notin> fst ` set pending)"
proof -
  let ?f = "\<lambda>v. v\<lparr>ueQuantity := quantity, ueSourceEventIds := ids\<rparr>"
  let ?db = "db\<lparr>dbUsage := updateWhere (\<lambda>v. usageKey v = usageKey u) ?f (dbUsage db)\<rparr>"
  have run: "createOrUpdateUsageEvent newId (ueSubscriptionId u) orgId (ueDimension u) quantity (ueUsageStartTime u) ids db = (Inr (), ?db)"
    using row(1) by (auto simp: createOrUpdateUsageEvent_def Let_def usageKey_def)
  have mem: "?f u \<in> set (dbUsage ?db)" using row(1) by (auto simp: set_updateWhere)
  have "?f u \<notin> fst ` set pending" if "listPendingUsageEvents ?db = (Inr pending, ?db)" for pending
  proof
    assume "?f u \<in> fst ` set pending"
    then have "?f u \<in> set (map fst pending)" by simp
    then have "ueStatus (?f u) = UPending \<or> ueStatus (?f u) = UFailed"
      using pending_status [OF that, of "?f u"] by auto
    with row(2) show False by auto
  qed
  then show ?thesis using run mem row by (intro exI [of _ ?db] exI [of _ "?f u"]) auto
qed

theorem accepted_hour_not_resubmitted_witness:
  "\<exists>db' u'. createOrUpdateUsageEvent ''x'' ''s1'' ''org'' ''issuance_txn'' 9 3600000 []
      (sampleDb\<lparr>dbUsage := [sampleUsage UAccepted]\<rparr>) = (Inr (), db') \<and>
    u' \<in> set (dbUsage db') \<and> ueQuantity u' = 9 \<and> ueStatus u' = UAccepted"
  using accepted_hour_not_resubmitted [of "sampleUsage UAccepted" "sampleDb\<lparr>dbUsage := [sampleUsage UAccepted]\<rparr>" "''x''" "''org''" 9 "[]"]
  by (auto simp: sampleUsage_def)

text \<open>
  A paid feature is on only for an organisation that is entitled to it: it is exempt, or it has no
  subscription and none is required, or its most recent subscription that is not deleted is subscribed
  and activated. The answer is always given and reading it changes nothing.
\<close>

theorem feature_needs_active_subscription:
  "\<exists>allowed. isFeatureAllowed env orgId feature db = (Inr allowed, db) \<and>
    (allowed \<longrightarrow> isExemptOrg env orgId \<or>
      \<not> envFlag env ''MARKETPLACE_REQUIRED'' \<and> (\<forall>r \<in> set (dbSubs db). subOrgId r = Some orgId \<longrightarrow> subDeletedAt r \<noteq> None) \<or>
      (\<exists>sub \<in> set (dbSubs db). subOrgId sub = Some orgId \<and> subDeletedAt sub = None \<and>
         subStatus sub = Subscribed \<and> subActivationStatus sub = ActActivated \<and>
         (\<forall>r \<in> set (dbSubs db). subOrgId r = Some orgId \<longrightarrow> subDeletedAt r = None \<longrightarrow>
            subCreateDateTime r \<le> subCreateDateTime sub)))"
proof -
  let ?p = "\<lambda>r. subOrgId r = Some orgId \<and> subDeletedAt r = None"
  have off: "map_of disableFeatures feature \<noteq> Some True"
    by (auto simp: disableFeatures_def dest: map_of_SomeD)
  have usage: "\<exists>u. getUsage env sub plan db = (Inr u, db)" for sub plan
    by (auto simp: getUsage_def getUsageTotals_def bind_def Let_def)
  show ?thesis
  proof (cases "findLatest subCreateDateTime ?p (dbSubs db)")
    case None
    then have "\<forall>r \<in> set (dbSubs db). \<not> ?p r" by (simp only: findLatest_None)
    with None off show ?thesis
      by (auto simp: isFeatureAllowed_def getEntitlements_def getSubscriptionByOrgId_def Let_def bind_def split: option.splits)
  next
    case (Some sub)
    note f = findLatest_Some [OF Some]
    obtain plan where plan: "getPlan (subOfferId sub) (subPlanId sub) db = (Inr plan, db)"
      by (simp add: getPlan_def)
    obtain u where u: "getUsage env sub plan db = (Inr u, db)" using usage by blast
    have "\<exists>allowed. isFeatureAllowed env orgId feature db = (Inr allowed, db) \<and>
        (allowed \<longrightarrow> isExemptOrg env orgId \<or> subActive sub)"
      using Some plan u off
      by (auto simp: isFeatureAllowed_def getEntitlements_def getSubscriptionByOrgId_def Let_def bind_def split: option.splits)
    then show ?thesis using f by (auto simp: subActive_def)
  qed
qed

theorem feature_needs_active_subscription_witness:
  "fst (isFeatureAllowed sampleEnv ''org'' ''issuance'' sampleDb) = Inr True \<and>
   (\<exists>sub \<in> set (dbSubs sampleDb). subStatus sub = Subscribed \<and> subActivationStatus sub = ActActivated)"
proof -
  have on: "fst (isFeatureAllowed sampleEnv ''org'' ''issuance'' sampleDb) = Inr True" by code_simp
  have no: "\<not> isExemptOrg sampleEnv ''org''" by code_simp
  have "\<not> (\<forall>r \<in> set (dbSubs sampleDb). subOrgId r = Some ''org'' \<longrightarrow> subDeletedAt r \<noteq> None)"
    by (simp add: sampleDb_def sampleSub_def blankSubscription_def)
  with feature_needs_active_subscription [of sampleEnv "''org''" "''issuance''" sampleDb] on no show ?thesis by auto
qed

end
