(* ===== verification/Marketplace_Service.thy ===== *)
theory Marketplace_Service
  imports Marketplace_Usage
begin

text \<open>
  The handlers of the Marketplace service: onboarding, linking, activation and usage
  (\<open>apps/marketplace/src/marketplace.service.ts\<close>), the webhook (\<open>services/webhook.service.ts\<close>), the hourly
  reconciliation (\<open>services/reconciliation.service.ts\<close>), and the dispatch of messages to them
  (\<open>marketplace.controller.ts\<close>).

  A handler is one computation over the tables; \<open>mp_call\<close> is a message or a scheduled job, \<open>mp_run\<close> runs
  it, and \<open>mp_step\<close> is a run of any of them with any answers from outside. An exception with a \<open>code\<close>
  carries that code. Fields that are only stored or only returned for display (session metadata, the
  dashboard URL) are left out.
\<close>

section \<open>Definitions\<close>

subsection \<open>Sessions and guards\<close>

type_synonym session_row = "marketplace_onboarding_session \<times> marketplace_subscription"

definition getValidSession :: "mp_env \<Rightarrow> string \<Rightarrow> (mp_db, session_row) eff" where
  "getValidSession env sessionId =
     bind (getOnboardingSessionRow sessionId) (\<lambda>found.
       case found of
         None \<Rightarrow> throw (NotFoundException ''Marketplace onboarding session is missing or expired'')
       | Some row \<Rightarrow>
           (if obExpiresAt (fst row) < eNow env
            then throw (NotFoundException ''Marketplace onboarding session is missing or expired'')
            else ret row))"

definition assertSessionAccountLinkedTo :: "marketplace_subscription \<Rightarrow> string \<Rightarrow> (mp_db, unit) eff" where
  "assertSessionAccountLinkedTo sub userId =
     (if \<not> truthy (subLocalUserId sub) \<or> subLocalUserId sub \<noteq> Some userId
      then throw (ForbiddenException ''marketplace_account_link_required'') else ret ())"

text \<open>The owners the organisation service reports; no list counts as no owner.\<close>

definition assertUserOwnsOrganization :: "mp_env \<Rightarrow> string \<Rightarrow> string \<Rightarrow> (mp_db, unit) eff" where
  "assertUserOwnsOrganization env userId orgId =
     (case eOwners env orgId of
        Inl e \<Rightarrow> throw (ForbiddenException ''marketplace_org_ownership_unverified'')
      | Inr ownerOrg \<Rightarrow>
          (if \<not> (case ownerOrg of None \<Rightarrow> False | Some owners \<Rightarrow> userId \<in> set owners)
           then throw (ForbiddenException ''marketplace_org_ownership_required'') else ret ()))"

definition alreadyLinked :: error where
  "alreadyLinked = ConflictException ''Organization is already linked to another active Marketplace subscription''"

definition linkSubscriptionToOrg :: "string \<Rightarrow> string \<Rightarrow> (mp_db, unit) eff" where
  "linkSubscriptionToOrg subscriptionId orgId =
     tryCatch (andThen (linkOrganizationRow subscriptionId orgId) (ret ()))
       (\<lambda>e. if e = PrismaError ''P2002'' then throw alreadyLinked else throw e)"

subsection \<open>Resolving a purchase\<close>

record MarketplaceBuyerClaims =
  bcTid :: "string option"
  bcOid :: "string option"
  bcEmail :: "string option"
  bcPreferredUsername :: "string option"

definition claim :: "(MarketplaceBuyerClaims \<Rightarrow> string option) \<Rightarrow> MarketplaceBuyerClaims option \<Rightarrow> string option" where
  "claim f claims = (case claims of None \<Rightarrow> None | Some c \<Rightarrow> f c)"

definition buyerFromClaims :: "MarketplaceBuyerClaims option \<Rightarrow> MarketplaceResolvedSubscription \<Rightarrow> buyer_identity" where
  "buyerFromClaims claims resolved =
     \<lparr>byTenantId = orElse (claim bcTid claims)
        (orElse (partyField pyTenantId (rsvPurchaser resolved)) (partyField pyTenantId (rsvBeneficiary resolved))),
      byObjectId = orElse (claim bcOid claims)
        (orElse (partyField pyObjectId (rsvPurchaser resolved)) (partyField pyObjectId (rsvBeneficiary resolved))),
      byEmail = orElse (claim bcEmail claims) (orElse (claim bcPreferredUsername claims)
        (orElse (partyField pyEmailId (rsvPurchaser resolved)) (partyField pyEmailId (rsvBeneficiary resolved))))\<rparr>"

definition localMockEnabled :: "mp_env \<Rightarrow> bool" where
  "localMockEnabled env = envFlag env ''MARKETPLACE_ALLOW_LOCAL_MOCK''"

definition mockBuyer :: MarketplaceParty where
  "mockBuyer = \<lparr>pyEmailId = Some ''buyer@example.com'', pyTenantId = None, pyObjectId = None, pyPuid = None\<rparr>"

definition resolveWithMicrosoftOrMock :: "mp_env \<Rightarrow> string \<Rightarrow> (mp_db, MarketplaceResolvedSubscription) eff" where
  "resolveWithMicrosoftOrMock env marketplaceToken =
     (if localMockEnabled env
      then ret \<lparr>rsvId = ''mock-'' @ take 24 (eSha256 env marketplaceToken), rsvName = Some ''Phenix ID Platform'',
                rsvPublisherId = None, rsvOfferId = envOr env ''MARKETPLACE_OFFER_ID'' ''phenix-id-platform'',
                rsvPlanId = envOr env ''MARKETPLACE_DEFAULT_PLAN_ID'' ''business'',
                rsvStatus = PendingFulfillmentStart, rsvBeneficiary = Some mockBuyer, rsvPurchaser = Some mockBuyer,
                rsvTerm = Some \<lparr>tmUnit = Some ''P1M'', tmStartDate = Some (eNow env),
                                tmEndDate = Some (eNow env + 30 * 24 * 60 * 60 * 1000)\<rparr>,
                rsvAutoRenew = Some True, rsvIsFreeTrial = None, rsvIsTest = Some True, rsvSandboxType = None,
                rsvQuantity = None, rsvAllowedCustomerOperations = None\<rparr>
      else msResolveSubscription env marketplaceToken)"

datatype MarketplaceNextAction = LinkAccountNext | CreateOrganizationNext | ActivateNext | OpenDashboard | ManageBilling

definition nextAction :: "marketplace_subscription \<Rightarrow> MarketplaceNextAction" where
  "nextAction sub =
     (if subStatus sub = Subscribed \<and> truthy (subOrgId sub) \<and> subActivationStatus sub = ActActivated then OpenDashboard
      else if \<not> truthy (subLocalUserId sub) then LinkAccountNext
      else if \<not> truthy (subOrgId sub) then CreateOrganizationNext
      else if subActivationStatus sub \<noteq> ActActivated then ActivateNext
      else ManageBilling)"

record subscription_summary =
  smSubscriptionId :: string
  smOfferId :: string
  smPlanId :: string
  smSubscriptionName :: string
  smStatus :: MarketplaceSubscriptionStatus
  smActivationStatus :: MarketplaceActivationStatus
  smLinkedOrgId :: "string option"
  smPurchaserEmail :: "string option"
  smBeneficiaryEmail :: "string option"
  smQuantity :: "int option"
  smTermStartDate :: "int option"
  smTermEndDate :: "int option"
  smAutoRenew :: "bool option"

definition toSubscriptionSummary :: "marketplace_subscription \<Rightarrow> subscription_summary" where
  "toSubscriptionSummary sub =
     \<lparr>smSubscriptionId = subMarketplaceId sub, smOfferId = subOfferId sub, smPlanId = subPlanId sub,
      smSubscriptionName = (if truthy (subName sub) then orEmpty (subName sub) else ''Phenix ID Platform''),
      smStatus = subStatus sub, smActivationStatus = subActivationStatus sub, smLinkedOrgId = subOrgId sub,
      smPurchaserEmail = subPurchaserEmail sub, smBeneficiaryEmail = subBeneficiaryEmail sub,
      smQuantity = subQuantity sub, smTermStartDate = subTermStartDate sub, smTermEndDate = subTermEndDate sub,
      smAutoRenew = subAutoRenew sub\<rparr>"

definition decodeMarketplaceToken :: "mp_env \<Rightarrow> string \<Rightarrow> (mp_db, string) eff" where
  "decodeMarketplaceToken env token =
     (case eDecodeUri env token of
        None \<Rightarrow> throw (BadRequestException ''Marketplace token is malformed'') | Some t \<Rightarrow> ret t)"

definition resolveSubscription ::
  "mp_env \<Rightarrow> string \<Rightarrow> MarketplaceBuyerClaims option \<Rightarrow> (mp_db, string \<times> subscription_summary \<times> MarketplaceNextAction) eff" where
  "resolveSubscription env token claims =
     bind (decodeMarketplaceToken env token) (\<lambda>marketplaceToken.
     bind (resolveWithMicrosoftOrMock env marketplaceToken) (\<lambda>resolved.
     bind (upsertResolvedSubscription (eUuid env 2) (eNow env) resolved) (\<lambda>sub.
     bind (createOnboardingSession (eUuid env 3) (eNow env) (subId sub) (eSha256 env marketplaceToken)
             (buyerFromClaims claims resolved)) (\<lambda>onboardingSession.
       ret (obId onboardingSession, toSubscriptionSummary sub, nextAction sub)))))"

record onboarding_view =
  ovId :: string
  ovStatus :: MarketplaceOnboardingStatus
  ovExpiresAt :: int
  ovNextAction :: MarketplaceNextAction
  ovLinkedOrgId :: "string option"
  ovSubscription :: subscription_summary

definition getOnboardingSession :: "mp_env \<Rightarrow> string \<Rightarrow> (mp_db, onboarding_view) eff" where
  "getOnboardingSession env sessionId =
     bind (getValidSession env sessionId) (\<lambda>(session, sub).
       ret \<lparr>ovId = obId session, ovStatus = obStatus session, ovExpiresAt = obExpiresAt session,
            ovNextAction = nextAction sub, ovLinkedOrgId = subOrgId sub, ovSubscription = toSubscriptionSummary sub\<rparr>)"

subsection \<open>Linking the account and the organisation\<close>

record mp_user =
  muId :: string
  muEmail :: "string option"
  muKeycloakUserId :: "string option"

definition expectedEmails :: "marketplace_subscription \<Rightarrow> string list" where
  "expectedEmails sub =
     filter (\<lambda>e. e \<noteq> []) [toLowerCase (orEmpty (subPurchaserEmail sub)), toLowerCase (orEmpty (subBeneficiaryEmail sub))]"

definition linkAccount :: "mp_env \<Rightarrow> string \<Rightarrow> mp_user \<Rightarrow> (mp_db, string \<times> MarketplaceNextAction) eff" where
  "linkAccount env sessionId user =
     bind (getValidSession env sessionId) (\<lambda>(session, sub).
       let userEmail = toLowerCase (orEmpty (muEmail user))
       in if expectedEmails sub = [] \<or> userEmail = []
          then throw (ForbiddenException ''marketplace_account_identity_unverified'')
          else if userEmail \<notin> set (expectedEmails sub)
          then throw (ForbiddenException ''marketplace_account_email_mismatch'')
          else andThen (linkUser (subId sub) (muId user))
              (andThen (updateOnboardingSession (obId session) ObAccountLinked)
              (ret (muId user, CreateOrganizationNext))))"

record org_details =
  odName :: string
  odDescription :: "string option"
  odWebsite :: "string option"
  odLogo :: "string option"

text \<open>The payload: \<open>mode: 'link_existing'\<close> with an optional \<open>orgId\<close>, or the other mode with optional details.\<close>

datatype link_mode = LinkExisting "string option" | CreateOrg "org_details option"

definition finishOrgLink :: "session_row \<Rightarrow> string \<Rightarrow> (mp_db, string \<times> MarketplaceNextAction) eff" where
  "finishOrgLink row orgId =
     andThen (linkSubscriptionToOrg (subId (snd row)) orgId)
     (andThen (updateOnboardingSession (obId (fst row)) ObOrgLinked)
     (ret (orgId, ActivateNext)))"

definition linkOrganization :: "mp_env \<Rightarrow> string \<Rightarrow> link_mode \<Rightarrow> mp_user \<Rightarrow> (mp_db, string \<times> MarketplaceNextAction) eff" where
  "linkOrganization env sessionId mode user =
     bind (getValidSession env sessionId) (\<lambda>row.
     andThen (assertSessionAccountLinkedTo (snd row) (muId user))
     (case mode of
        LinkExisting orgId \<Rightarrow>
          (if \<not> truthy orgId
           then throw (BadRequestException ''orgId is required when linking an existing organization'')
           else
             andThen (assertUserOwnsOrganization env (muId user) (orEmpty orgId))
             (bind (getActiveSubscriptionByOrgId (orEmpty orgId) (subId (snd row))) (\<lambda>activeSubscription.
                if activeSubscription \<noteq> None then throw alreadyLinked
                else finishOrgLink row (orEmpty orgId))))
      | CreateOrg details \<Rightarrow>
          (case details of
             None \<Rightarrow> throw (BadRequestException ''Organization name is required'')
           | Some d \<Rightarrow>
               (if odName d = [] then throw (BadRequestException ''Organization name is required'')
                else bind (lift (eCreateOrg env
                       \<lparr>coName = odName d, coDescription = odDescription d, coWebsite = odWebsite d,
                        coLogo = orEmpty (odLogo d), coUserId = muId user, coKeycloakUserId = muKeycloakUserId user\<rparr>))
                     (\<lambda>newOrg. finishOrgLink row newOrg)))))"

subsection \<open>Activation\<close>

definition setupFeePayload :: "string \<Rightarrow> string \<Rightarrow> MarketplaceUsageEventPayload" where
  "setupFeePayload subscriptionId orgId =
     \<lparr>upOrgId = orgId, upEventType = ''organization_setup_completed'',
      upSourceTable = Some ''marketplace_subscription'', upSourceId = subscriptionId, upOccurredAt = None,
      upQuantity = Some 1\<rparr>"

definition recordSetupFeeUsage :: "mp_env \<Rightarrow> marketplace_subscription \<Rightarrow> string \<Rightarrow> (mp_db, unit) eff" where
  "recordSetupFeeUsage env sub orgId =
     recordBillingUsageEvent (eUuid env 4) (eNow env) (setupFeePayload (subId sub) orgId) (Some (subId sub))"

record activation_result =
  arSubscriptionId :: string
  arOrgId :: string
  arActivationStatus :: MarketplaceActivationStatus
  arStatus :: MarketplaceSubscriptionStatus

text \<open>The three writes that every successful branch of the activation makes.\<close>

definition markActivated :: "mp_env \<Rightarrow> session_row \<Rightarrow> string \<Rightarrow> (mp_db, unit) eff" where
  "markActivated env row orgId =
     andThen (setActivationStatus (subId (snd row)) ActActivated None)
     (andThen (updateOnboardingSession (obId (fst row)) ObActivated)
     (recordSetupFeeUsage env (snd row) orgId))"

text \<open>\<open>error.message\<close>: the text an exception carries; for an error of Prisma its code stands for the text.\<close>

fun errorMessage :: "error \<Rightarrow> string" where
  "errorMessage (BadRequestException m) = m"
| "errorMessage (UnauthorizedException m) = m"
| "errorMessage (ForbiddenException m) = m"
| "errorMessage (NotFoundException m) = m"
| "errorMessage (ConflictException m) = m"
| "errorMessage (ServiceUnavailableException m) = m"
| "errorMessage (PrismaError m) = m"
| "errorMessage (HttpStatusError c m) = m"
| "errorMessage (PlainError m) = m"
| "errorMessage (RangeError m) = m"
| "errorMessage (TypeError m) = m"
| "errorMessage (InternalServerErrorException m) = m"
| "errorMessage (RpcException c m) = m"
| "errorMessage (RpcWrapped e) = errorMessage e"

definition refreshStatus :: "mp_env \<Rightarrow> marketplace_subscription \<Rightarrow> (mp_db, MarketplaceSubscriptionStatus) eff" where
  "refreshStatus env sub =
     tryCatch
       (bind (msGetSubscription env (subMarketplaceId sub)) (\<lambda>latest.
        bind (updateSubscriptionFromMicrosoft (eNow env) latest) (\<lambda>updated. ret (subStatus updated))))
       (\<lambda>_. ret (subStatus sub))"

definition activationAttempt :: "mp_env \<Rightarrow> session_row \<Rightarrow> string \<Rightarrow> (mp_db, activation_result) eff" where
  "activationAttempt env row orgId =
     (let sub = snd row;
          done = (\<lambda>status. \<lparr>arSubscriptionId = subMarketplaceId sub, arOrgId = orgId,
                           arActivationStatus = ActActivated, arStatus = status\<rparr>)
      in if localMockEnabled env
         then andThen (setSubscriptionStatus (subId sub) Subscribed)
             (andThen (markActivated env row orgId) (ret (done Subscribed)))
         else andThen (msActivateSubscription env (subMarketplaceId sub) (subPlanId sub))
             (andThen (markActivated env row orgId)
             (bind (refreshStatus env sub) (\<lambda>status. ret (done status)))))"

text \<open>What follows the guards of \<open>activateSubscription\<close>.\<close>

definition activateLinked :: "mp_env \<Rightarrow> session_row \<Rightarrow> string \<Rightarrow> (mp_db, activation_result) eff" where
  "activateLinked env row orgId =
     (if subStatus (snd row) = Subscribed
      then andThen (markActivated env row orgId)
          (ret \<lparr>arSubscriptionId = subMarketplaceId (snd row), arOrgId = orgId,
                arActivationStatus = ActActivated, arStatus = Subscribed\<rparr>)
      else andThen (setActivationStatus (subId (snd row)) ActInProgress None)
          (tryCatch (activationAttempt env row orgId)
             (\<lambda>e. andThen (setActivationStatus (subId (snd row)) ActFailed (Some (errorMessage e)))
                  (andThen (updateOnboardingSession (obId (fst row)) ObFailed)
                  (throw e)))))"

definition activateSubscription ::
  "mp_env \<Rightarrow> string \<Rightarrow> string \<Rightarrow> string \<Rightarrow> (mp_db, activation_result) eff" where
  "activateSubscription env sessionId orgId userId =
     bind (getValidSession env sessionId) (\<lambda>row.
     andThen (assertSessionAccountLinkedTo (snd row) userId)
     (if subOrgId (snd row) \<noteq> Some orgId
      then throw (BadRequestException ''Marketplace subscription is not linked to the requested organization'')
      else activateLinked env row orgId))"

subsection \<open>Subscriptions and usage\<close>

definition getSubscription :: "string \<Rightarrow> (mp_db, subscription_summary) eff" where
  "getSubscription subscriptionId =
     bind (getSubscriptionByMarketplaceId subscriptionId) (\<lambda>found.
       case found of
         None \<Rightarrow> throw (NotFoundException ''Marketplace subscription not found'')
       | Some sub \<Rightarrow> ret (toSubscriptionSummary sub))"

definition refreshSubscription :: "mp_env \<Rightarrow> string \<Rightarrow> (mp_db, subscription_summary) eff" where
  "refreshSubscription env subscriptionId =
     bind (msGetSubscription env subscriptionId) (\<lambda>latest.
     bind (updateSubscriptionFromMicrosoft (eNow env) latest) (\<lambda>updated. ret (toSubscriptionSummary updated)))"

definition addTo :: "totals \<Rightarrow> string \<Rightarrow> rat \<Rightarrow> totals" where
  "addTo d k q = dictSet d k (dictGet d k + q)"

definition splitTotals :: "(string \<times> MarketplaceUsageStatus \<times> rat) list \<Rightarrow> totals \<times> totals" where
  "splitTotals meteringTotals =
     foldl (\<lambda>(pending, accepted) (dimension, status, quantity).
       if status = UPending \<or> status = UFailed then (addTo pending dimension quantity, accepted)
       else if status = UAccepted \<or> status = UDuplicate then (pending, addTo accepted dimension quantity)
       else (pending, accepted)) ([], []) meteringTotals"

record usage_line_view =
  uvDimension :: string
  uvDisplayName :: string
  uvIncluded :: rat
  uvUsed :: rat
  uvOverage :: rat
  uvPendingSubmission :: rat
  uvAcceptedByMicrosoft :: rat

definition displayNameForDimension :: "string \<Rightarrow> string" where
  "displayNameForDimension dimension =
     (case map_of [(''setup_fee'', ''One-time setup fee''), (''issuance_txn'', ''Credential issuance''),
                   (''verification_txn'', ''Credential verification''), (''schema_create'', ''Schema creation'')] dimension of
        None \<Rightarrow> dimension | Some name \<Rightarrow> name)"

text \<open>The result: the start and end of the billing period and the lines.\<close>

definition getUsageSummary :: "mp_env \<Rightarrow> string \<Rightarrow> (mp_db, int \<times> int \<times> usage_line_view list) eff" where
  "getUsageSummary env orgId =
     bind (getEntitlements env orgId) (\<lambda>en.
     bind (getMeteringTotalsByDimension orgId) (\<lambda>meteringTotals.
       let (pending, accepted) = splitTotals meteringTotals
       in ret (utcMonthStart (eNow env), eNow env,
            map (\<lambda>(dimension, usage).
              \<lparr>uvDimension = dimension, uvDisplayName = displayNameForDimension dimension,
               uvIncluded = uyIncluded usage, uvUsed = uyUsed usage, uvOverage = uyOverage usage,
               uvPendingSubmission = dictGet pending dimension, uvAcceptedByMicrosoft = dictGet accepted dimension\<rparr>)
              (enUsage en))))"

definition recordUsageEvent :: "mp_env \<Rightarrow> MarketplaceUsageEventPayload \<Rightarrow> (mp_db, unit) eff" where
  "recordUsageEvent env payload =
     bind (getSubscriptionByOrgId (upOrgId payload)) (\<lambda>sub.
       recordBillingUsageEvent (eUuid env 4) (eNow env) payload (map_option subId sub))"

subsection \<open>Webhook\<close>

record MarketplaceWebhookPayload =
  wpId :: "string option"
  wpActivityId :: "string option"
  wpOfferId :: string
  wpPlanId :: "string option"
  wpQuantity :: "int option"
  wpSubscriptionId :: string
  wpAction :: string
  wpStatus :: "string option"

definition needsAck :: "string \<Rightarrow> bool" where
  "needsAck action = (action \<in> set [''ChangePlan'', ''ChangeQuantity'', ''Reinstate''])"

definition validateAuthorization :: "mp_env \<Rightarrow> string option \<Rightarrow> (mp_db, unit) eff" where
  "validateAuthorization env authorization =
     (if \<not> envFlag env ''MARKETPLACE_WEBHOOK_VALIDATE_JWT'' then ret ()
      else if \<not> startsWith (orEmpty authorization) ''Bearer ''
      then throw (UnauthorizedException ''Marketplace webhook authorization is missing'')
      else
        (let token = drop 7 (orEmpty authorization);
             tenantId = eVar env ''MARKETPLACE_TENANT_ID'';
             expectedAudience = eVar env ''MARKETPLACE_WEBHOOK_EXPECTED_AUDIENCE'';
             expectedAppId = eVar env ''MARKETPLACE_WEBHOOK_EXPECTED_APP_ID''
         in case eJwtKid env token of
              None \<Rightarrow> throw (UnauthorizedException ''Marketplace webhook token is invalid'')
            | Some kid \<Rightarrow>
                (if \<not> truthy kid then throw (UnauthorizedException ''Marketplace webhook token is invalid'')
                 else if \<not> truthy tenantId \<or> \<not> truthy expectedAudience
                 then throw (UnauthorizedException ''Marketplace webhook validation config is missing'')
                 else bind (lift (eJwtVerify env (orEmpty tenantId) (orEmpty kid) token (orEmpty expectedAudience))) (\<lambda>verified.
                   if truthy expectedAppId \<and> jcAppid verified \<noteq> expectedAppId \<and> jcAzp verified \<noteq> expectedAppId
                   then throw (UnauthorizedException ''Marketplace webhook app id mismatch'') else ret ()))))"

definition patchOperationIfNeeded :: "mp_env \<Rightarrow> MarketplaceWebhookPayload \<Rightarrow> bool \<Rightarrow> (mp_db, unit) eff" where
  "patchOperationIfNeeded env payload success =
     (if \<not> truthy (wpId payload) then ret ()
      else tryCatch
        (msPatchOperation env (wpSubscriptionId payload) (orEmpty (wpId payload)) (if success then ''Success'' else ''Failure'')
           (if wpAction payload = ''ChangePlan'' then wpPlanId payload else None)
           (if wpAction payload = ''ChangeQuantity'' then wpQuantity payload else None))
        (\<lambda>e. case e of
               HttpStatusError status m \<Rightarrow> (if status = 400 then ret () else throw e)
             | _ \<Rightarrow> throw e))"

text \<open>Two sequences the actions share: synchronise the row with Microsoft, and acknowledge the operation.\<close>

definition syncFromMicrosoft :: "mp_env \<Rightarrow> string \<Rightarrow> (mp_db, unit) eff" where
  "syncFromMicrosoft env subscriptionId =
     bind (msGetSubscription env subscriptionId) (\<lambda>latest.
     bind (updateSubscriptionFromMicrosoft (eNow env) latest) (\<lambda>_. ret ()))"

definition acknowledge :: "mp_env \<Rightarrow> string \<Rightarrow> MarketplaceWebhookPayload \<Rightarrow> (mp_db, unit) eff" where
  "acknowledge env subscriptionId payload =
     andThen (patchOperationIfNeeded env payload True)
     (if truthy (wpId payload) then updateOperationAckStatus (orEmpty (wpId payload)) subscriptionId AckSuccess None
      else ret ())"

definition webhookEffect :: "mp_env \<Rightarrow> string \<Rightarrow> MarketplaceWebhookPayload \<Rightarrow> (mp_db, unit) eff" where
  "webhookEffect env subscriptionId payload =
     (if wpAction payload = ''ChangePlan'' \<and> truthy (wpPlanId payload)
      then andThen (syncFromMicrosoft env (wpSubscriptionId payload))
          (andThen (setSubscriptionPlanId subscriptionId (orEmpty (wpPlanId payload)))
          (acknowledge env subscriptionId payload))
      else if wpAction payload = ''ChangeQuantity''
      then andThen (syncFromMicrosoft env (wpSubscriptionId payload)) (acknowledge env subscriptionId payload)
      else if wpAction payload = ''Renew'' then syncFromMicrosoft env (wpSubscriptionId payload)
      else if wpAction payload = ''Reinstate''
      then andThen (syncFromMicrosoft env (wpSubscriptionId payload)) (acknowledge env subscriptionId payload)
      else if wpAction payload = ''Suspend'' then andThen (setSubscriptionStatus subscriptionId Suspended) (ret ())
      else if wpAction payload = ''Unsubscribe'' then andThen (setSubscriptionStatus subscriptionId Unsubscribed) (ret ())
      else ret ())"

definition applyWebhookAction :: "mp_env \<Rightarrow> string \<Rightarrow> MarketplaceWebhookPayload \<Rightarrow> (mp_db, unit) eff" where
  "applyWebhookAction env subscriptionId payload =
     andThen
       (if truthy (wpId payload)
        then upsertOperation \<lparr>opOperationId = orEmpty (wpId payload), opSubscriptionId = subscriptionId,
               opAction = wpAction payload, opStatus = wpStatus payload, opPlanId = wpPlanId payload,
               opQuantity = wpQuantity payload,
               opAckStatus = (if needsAck (wpAction payload) then AckPending else AckNotRequired), opAckError = None\<rparr>
        else ret ())
     (andThen
       (if needsAck (wpAction payload) \<and> truthy (wpId payload)
        then msGetOperation env (wpSubscriptionId payload) (orEmpty (wpId payload)) else ret ())
     (webhookEffect env subscriptionId payload))"

text \<open>What follows the two checks of \<open>processWebhook\<close>.\<close>

definition processWebhookBody :: "mp_env \<Rightarrow> MarketplaceWebhookPayload \<Rightarrow> (mp_db, unit) eff" where
  "processWebhookBody env payload =
     bind (getSubscriptionByMarketplaceId (wpSubscriptionId payload)) (\<lambda>sub.
     bind (createWebhookEvent (eUuid env 5) (wpId payload) (wpActivityId payload) (wpSubscriptionId payload)
             (map_option subId sub) (wpAction payload) (wpStatus payload) (Some ''validated'')) (\<lambda>webhookEvent.
       case sub of
         None \<Rightarrow>
           andThen (updateWebhookEvent (whId webhookEvent) WhFailed (Some ''Subscription not found''))
             (throw (BadRequestException ''Marketplace subscription not found''))
       | Some r \<Rightarrow>
           tryCatch
             (andThen (applyWebhookAction env (subId r) payload)
                (updateWebhookEvent (whId webhookEvent) WhProcessed None))
             (\<lambda>e. andThen (updateWebhookEvent (whId webhookEvent) WhFailed (Some (errorMessage e))) (throw e))))"

definition processWebhook :: "mp_env \<Rightarrow> MarketplaceWebhookPayload \<Rightarrow> string option \<Rightarrow> (mp_db, unit) eff" where
  "processWebhook env payload authorization =
     andThen (validateAuthorization env authorization)
     (if Some (wpOfferId payload) \<noteq> eVar env ''MARKETPLACE_OFFER_ID''
      then throw (BadRequestException ''Marketplace offer mismatch'')
      else processWebhookBody env payload)"

subsection \<open>Reconciliation\<close>

text \<open>\<open>newId\<close> gives the UUID of a row created for a subscription of Microsoft.\<close>

definition reconcileOne :: "mp_env \<Rightarrow> (string \<Rightarrow> string) \<Rightarrow> MarketplaceResolvedSubscription \<Rightarrow> (mp_db, unit) eff" where
  "reconcileOne env newId sub =
     bind (getSubscriptionByMarketplaceId (rsvId sub)) (\<lambda>found.
       case found of
         Some existing \<Rightarrow>
           bind (updateSubscriptionFromMicrosoft (eNow env) sub) (\<lambda>updated.
             if subStatus updated = Subscribed \<and> subActivationStatus existing = ActInProgress
             then andThen (setActivationStatus (subId updated) ActActivated None) (ret ())
             else ret ())
       | None \<Rightarrow> andThen (upsertResolvedSubscription (newId (rsvId sub)) (eNow env) sub) (ret ()))"

definition reconcileSubscriptions :: "mp_env \<Rightarrow> (string \<Rightarrow> string) \<Rightarrow> (mp_db, unit) eff" where
  "reconcileSubscriptions env newId =
     (if \<not> envFlag env ''MARKETPLACE_RECONCILIATION_ENABLED'' then ret ()
      else bind (msListSubscriptions env) (\<lambda>subscriptions. forEach subscriptions (reconcileOne env newId)))"

subsection \<open>Messages and jobs\<close>

datatype mp_call =
    Resolve string "MarketplaceBuyerClaims option"
  | GetOnboardingSession string
  | LinkAccount string mp_user
  | LinkOrganization string link_mode mp_user
  | ActivateSubscription string string string  \<comment> \<open>session, organisation, user\<close>
  | GetSubscription string
  | RefreshSubscription string
  | ProcessWebhook MarketplaceWebhookPayload "string option"
  | GetEntitlements string
  | GetUsageSummary string
  | GetMeteringEvents string
  | RecordUsageEvent MarketplaceUsageEventPayload
  | SubmitMetering "string \<times> string \<times> int \<Rightarrow> string" "nat \<Rightarrow> int" "nat \<Rightarrow> int"
  | Reconcile "string \<Rightarrow> string"

fun mp_run :: "mp_env \<Rightarrow> mp_call \<Rightarrow> (mp_db, unit) eff" where
  "mp_run env (Resolve token claims) = andThen (resolveSubscription env token claims) (ret ())"
| "mp_run env (GetOnboardingSession sid) = andThen (getOnboardingSession env sid) (ret ())"
| "mp_run env (LinkAccount sid user) = andThen (linkAccount env sid user) (ret ())"
| "mp_run env (LinkOrganization sid mode user) = andThen (linkOrganization env sid mode user) (ret ())"
| "mp_run env (ActivateSubscription sid orgId userId) = andThen (activateSubscription env sid orgId userId) (ret ())"
| "mp_run env (GetSubscription i) = andThen (getSubscription i) (ret ())"
| "mp_run env (RefreshSubscription i) = andThen (refreshSubscription env i) (ret ())"
| "mp_run env (ProcessWebhook payload authorization) = processWebhook env payload authorization"
| "mp_run env (GetEntitlements orgId) = andThen (getEntitlements env orgId) (ret ())"
| "mp_run env (GetUsageSummary orgId) = andThen (getUsageSummary env orgId) (ret ())"
| "mp_run env (GetMeteringEvents orgId) = andThen (listMeteringEvents orgId) (ret ())"
| "mp_run env (RecordUsageEvent payload) = recordUsageEvent env payload"
| "mp_run env (SubmitMetering newId clk1 clk2) = aggregateAndSubmitUsage env newId clk1 clk2"
| "mp_run env (Reconcile newId) = reconcileSubscriptions env newId"

inductive mp_step :: "mp_db \<Rightarrow> mp_db \<Rightarrow> bool" where
  call: "mp_run env c db = (r, db') \<Longrightarrow> mp_step db db'"

end
