(* ===== verification/Marketplace_Safety.thy ===== *)
theory Marketplace_Safety
  imports Marketplace_Service
begin

text \<open>
  Properties of the Marketplace handlers.

  \<open>table_frame\<close> is the interface between the repository and the handlers: a relation on states that the
  repository's writes respect. Inside the locale every handler is shown to respect it, relative to the
  writes of links and of the activation. Its interpretations are the frames the properties rest on:
  \<open>user\<close>, \<open>org\<close> and \<open>activation\<close> (rows keep a field), \<open>tables\<close> (the invariant), \<open>ledger\<close> (billing rows are
  only added) and \<open>hooks\<close> (webhook events stay).
\<close>

section \<open>Frames of the repository\<close>

locale table_frame = effect_preorder R for R :: "mp_db \<Rightarrow> mp_db \<Rightarrow> bool" +
  assumes frame_token: "R db (db\<lparr>dbToken := t\<rparr>)"
    and frame_sessions: "R db (db\<lparr>dbSessions := ss\<rparr>)"
    and frame_operations: "R db (db\<lparr>dbOperations := os\<rparr>)"
    and frame_billing: "moves R (recordBillingUsageEvent i now p sid)"
    and frame_usage: "moves R (createOrUpdateUsageEvent i sub orgId d q time src)"
    and frame_usage_status: "moves R (updateUsageEventStatus now i st resp)"
    and frame_sync: "moves R (updateSubscriptionFromMicrosoft now latest)"
    and frame_upsert: "moves R (upsertResolvedSubscription i now latest)"
    and frame_status: "moves R (setSubscriptionStatus i status)"
    and frame_plan: "moves R (setSubscriptionPlanId i plan)"
begin

lemma moves_same_rows: "moves same_rows m \<Longrightarrow> moves R m"
  unfolding moves_def same_rows_def by (metis frame_token)

lemmas moves_client = client_moves [THEN moves_same_rows]

lemma moves_updateOnboardingSession: "moves R (updateOnboardingSession i st)"
  by (rule movesI) (auto simp: updateOnboardingSession_def R_refl frame_sessions split: if_splits)

lemma moves_createOnboardingSession: "moves R (createOnboardingSession i now sid h buyer)"
  by (rule movesI) (auto simp: createOnboardingSession_def R_refl frame_sessions Let_def split: option.splits)

lemma moves_upsertOperation: "moves R (upsertOperation p)"
  by (rule movesI) (auto simp: upsertOperation_def frame_operations split: if_splits)

lemma moves_updateOperationAckStatus: "moves R (updateOperationAckStatus i sid st e)"
  by (rule movesI) (auto simp: updateOperationAckStatus_def R_refl frame_operations split: if_splits)

lemmas moves_tables = moves_client moves_updateOnboardingSession moves_createOnboardingSession
  moves_upsertOperation moves_updateOperationAckStatus frame_billing frame_usage frame_usage_status
  frame_sync frame_upsert frame_status frame_plan

text \<open>Queries do not write.\<close>

lemma moves_queries:
  "moves R (getSubscriptionByMarketplaceId mid)" "moves R (getSubscriptionByOrgId orgId)"
  "moves R (getActiveSubscriptionByOrgId orgId i)" "moves R (getOnboardingSessionRow sid)"
  "moves R (getPlan o' p')" "moves R (getUsageTotals orgId t1 t2)" "moves R (listMeteringEvents orgId)"
  "moves R (getMeteringTotalsByDimension orgId)" "moves R listPendingUsageEvents"
  "moves R listActiveSubscriptions" "moves R (getBillableEventsForSubscription i t1 t2)"
  by (simp_all add: getSubscriptionByMarketplaceId_def getSubscriptionByOrgId_def getActiveSubscriptionByOrgId_def
      getOnboardingSessionRow_def getPlan_def getUsageTotals_def listMeteringEvents_def
      getMeteringTotalsByDimension_def listPendingUsageEvents_def listActiveSubscriptions_def
      getBillableEventsForSubscription_def moves_reads)

lemma moves_getValidSession: "moves R (getValidSession env sid)"
  unfolding getValidSession_def by (intro moves_rules moves_queries)

lemma moves_prod: "(\<And>a b. x = (a, b) \<Longrightarrow> moves R (f a b)) \<Longrightarrow> moves R (case x of (a, b) \<Rightarrow> f a b)"
  by (cases x) simp

lemma moves_getEntitlements: "moves R (getEntitlements env orgId)"
  unfolding getEntitlements_def Let_def getUsage_def by (intro moves_rules moves_queries)

lemma moves_read_only:
  "moves R (getOnboardingSession env sid)" "moves R (getSubscription i)" "moves R (getUsageSummary env orgId)"
  unfolding getOnboardingSession_def getSubscription_def getUsageSummary_def
  by (intro moves_rules moves_prod moves_queries moves_getValidSession moves_getEntitlements)+

lemma moves_resolve: "moves R (resolveSubscription env token claims)"
  unfolding resolveSubscription_def decodeMarketplaceToken_def resolveWithMicrosoftOrMock_def
  by (intro moves_rules moves_tables)

lemma moves_refresh: "moves R (refreshSubscription env i)"
  unfolding refreshSubscription_def by (intro moves_rules moves_tables)

lemma moves_record: "moves R (recordUsageEvent env p)"
  unfolding recordUsageEvent_def by (intro moves_rules moves_tables moves_queries)

lemma moves_recordResults: "moves R (recordResults env resp res n evs)"
  by (induction env resp res n evs rule: recordResults.induct)
    (simp_all only: recordResults.simps Let_def moves_ret moves_andThen frame_usage_status)

lemma moves_metering: "moves R (aggregateAndSubmitUsage env newId clk1 clk2)"
  unfolding aggregateAndSubmitUsage_def aggregateUsage_def aggregateSubscriptionUsage_def submitPendingUsage_def
    submitBatch_def Let_def
  by (intro moves_rules moves_tables moves_queries moves_recordResults) (simp split: prod.split add: frame_usage)

lemma moves_validate: "moves R (validateAuthorization env a)"
  unfolding validateAuthorization_def Let_def by (intro moves_rules)

lemma moves_patch: "moves R (patchOperationIfNeeded env p b)"
  unfolding patchOperationIfNeeded_def
  by (intro moves_rules moves_tables) (auto intro: moves_rules split: error.splits)

lemma moves_sync: "moves R (syncFromMicrosoft env i)"
  unfolding syncFromMicrosoft_def by (intro moves_rules moves_tables)

lemma moves_acknowledge: "moves R (acknowledge env i p)"
  unfolding acknowledge_def by (intro moves_rules moves_tables moves_patch)

lemma moves_applyWebhookAction: "moves R (applyWebhookAction env i p)"
  unfolding applyWebhookAction_def webhookEffect_def
  by (intro moves_rules moves_tables moves_sync moves_acknowledge)

end

text \<open>Frames that also allow webhook events to be written.\<close>

locale service_frame = table_frame +
  assumes frame_webhooks: "R db (db\<lparr>dbWebhooks := ws\<rparr>)"
begin

lemma moves_createWebhookEvent: "moves R (createWebhookEvent i o' a sid iid act st v)"
  by (rule movesI) (auto simp: createWebhookEvent_def Let_def frame_webhooks)

lemma moves_updateWebhookEvent: "moves R (updateWebhookEvent i st e)"
  by (rule movesI) (auto simp: updateWebhookEvent_def R_refl frame_webhooks split: if_splits)

lemma moves_processWebhook: "moves R (processWebhook env p a)"
  unfolding processWebhook_def processWebhookBody_def
  by (intro moves_rules moves_validate moves_queries moves_createWebhookEvent moves_updateWebhookEvent
      moves_applyWebhookAction)

text \<open>The handlers that write links or the activation, relative to those writes.\<close>

lemma moves_linkAccount:
  assumes "\<And>i u. moves R (linkUser i u)"
  shows "moves R (linkAccount env sid user)"
  unfolding linkAccount_def
  by (intro moves_rules moves_prod moves_getValidSession moves_tables assms)

lemma moves_linkOrganization:
  assumes "\<And>i orgId. moves R (linkOrganizationRow i orgId)"
  shows "moves R (linkOrganization env sid mode user)"
  unfolding linkOrganization_def assertSessionAccountLinkedTo_def assertUserOwnsOrganization_def
    finishOrgLink_def linkSubscriptionToOrg_def
  by (intro moves_rules moves_getValidSession)
    (auto split: link_mode.splits sum.splits option.splits intro!: moves_rules moves_tables moves_queries assms)

lemma moves_markActivated:
  assumes "moves R (setActivationStatus (subId (snd row)) ActActivated None)"
  shows "moves R (markActivated env row orgId)"
  unfolding markActivated_def recordSetupFeeUsage_def by (intro moves_rules moves_tables assms)

lemma moves_activationAttempt:
  assumes "moves R (setActivationStatus (subId (snd row)) ActActivated None)"
  shows "moves R (activationAttempt env row orgId)"
  unfolding activationAttempt_def Let_def refreshStatus_def
  by (intro moves_rules moves_tables moves_markActivated assms)

lemma moves_activateLinked:
  assumes "\<And>st e. moves R (setActivationStatus (subId (snd row)) st e)"
  shows "moves R (activateLinked env row orgId)"
  unfolding activateLinked_def
  by (intro moves_rules moves_tables moves_markActivated moves_activationAttempt assms)

lemma moves_activateSubscription:
  assumes "\<And>i st e. moves R (setActivationStatus i st e)"
  shows "moves R (activateSubscription env sid orgId userId)"
  unfolding activateSubscription_def assertSessionAccountLinkedTo_def
  by (intro moves_rules moves_getValidSession moves_activateLinked assms)

lemma moves_reconcile:
  assumes "\<And>sub. moves R (reconcileOne env newId sub)"
  shows "moves R (reconcileSubscriptions env newId)"
  unfolding reconcileSubscriptions_def by (intro moves_rules moves_tables assms)

lemma moves_reconcileOne:
  assumes "\<And>i. moves R (setActivationStatus i ActActivated None)"
  shows "moves R (reconcileOne env newId sub)"
  unfolding reconcileOne_def by (intro moves_rules moves_queries moves_tables assms)

text \<open>Everything but linking, activation and reconciliation stays within the frame.\<close>

lemma moves_mp_run:
  assumes "\<And>sid user. c = LinkAccount sid user \<Longrightarrow> moves R (linkAccount env sid user)"
    and "\<And>sid mode user. c = LinkOrganization sid mode user \<Longrightarrow> moves R (linkOrganization env sid mode user)"
    and "\<And>sid orgId userId. c = ActivateSubscription sid orgId userId \<Longrightarrow>
      moves R (activateSubscription env sid orgId userId)"
    and "\<And>newId sub. c = Reconcile newId \<Longrightarrow> moves R (reconcileOne env newId sub)"
  shows "moves R (mp_run env c)"
  using assms
  by (cases c) (simp_all only: mp_run.simps moves_andThen moves_ret moves_resolve moves_read_only moves_refresh
      moves_processWebhook moves_getEntitlements moves_queries moves_record moves_metering moves_reconcile)

end

section \<open>Rows keep their links\<close>

definition sub_of :: "mp_db \<Rightarrow> string \<Rightarrow> marketplace_subscription option" where
  "sub_of db i = List.find (\<lambda>r. subId r = i) (dbSubs db)"

text \<open>Every row whose id satisfies \<open>P\<close> is still there, with the same value of \<open>sel\<close>.\<close>

definition keeps :: "(string \<Rightarrow> bool) \<Rightarrow> (marketplace_subscription \<Rightarrow> 'a) \<Rightarrow> mp_db \<Rightarrow> mp_db \<Rightarrow> bool" where
  "keeps P sel db db' \<longleftrightarrow>
     (\<forall>i r. P i \<longrightarrow> sub_of db i = Some r \<longrightarrow> (\<exists>r'. sub_of db' i = Some r' \<and> sel r' = sel r))"

lemma keepsD:
  "keeps P sel db db' \<Longrightarrow> sub_of db i = Some r \<Longrightarrow> P i \<Longrightarrow> \<exists>r'. sub_of db' i = Some r' \<and> sel r' = sel r"
  by (simp add: keeps_def)

lemma sub_of_subId: "sub_of db i = Some r \<Longrightarrow> subId r = i \<and> r \<in> set (dbSubs db)"
  unfolding sub_of_def by (auto dest: find_SomeD)

lemma find_updateWhere:
  assumes "\<And>r. subId (f r) = subId r"
  shows "List.find (\<lambda>r. subId r = i) (updateWhere p f rows) =
    map_option (\<lambda>r. if p r then f r else r) (List.find (\<lambda>r. subId r = i) rows)"
  by (induction rows) (auto simp: assms)

lemma find_append: "List.find p (xs @ ys) = (case List.find p xs of None \<Rightarrow> List.find p ys | Some x \<Rightarrow> Some x)"
  by (induction xs) auto

lemma updateSub_run:
  "updateSub p f db = (r, db') \<Longrightarrow>
   db' = db \<or> (subsUnique (updateWhere p f (dbSubs db)) \<and> db' = db\<lparr>dbSubs := updateWhere p f (dbSubs db)\<rparr>)"
  by (auto simp: updateSub_def putSubs_def andThen_def bind_def split: option.splits if_splits)

lemma keeps_refl: "keeps P sel db db"
  by (simp add: keeps_def)

lemma keeps_updateSub:
  assumes "\<And>r. subId (f r) = subId r" and "\<And>r. p r \<Longrightarrow> P (subId r) \<Longrightarrow> sel (f r) = sel r"
  shows "moves (keeps P sel) (updateSub p f)"
proof (rule movesI)
  fix db r db' assume "updateSub p f db = (r, db')"
  then consider "db' = db" | "db' = db\<lparr>dbSubs := updateWhere p f (dbSubs db)\<rparr>" by (blast dest: updateSub_run)
  then show "keeps P sel db db'"
    using assms by cases (auto simp: keeps_def sub_of_def find_updateWhere dest: find_SomeD)
qed

lemma keeps_upsert:
  assumes "\<And>now latest r. sel (toSubscriptionData now latest r) = sel r"
  shows "moves (keeps P sel) (upsertResolvedSubscription i now latest)"
proof (rule movesI)
  fix db r db' assume run: "upsertResolvedSubscription i now latest db = (r, db')"
  show "keeps P sel db db'"
  proof (cases "\<exists>r \<in> set (dbSubs db). subMarketplaceId r = rsvId latest")
    case True
    have "moves (keeps P sel) (updateSub (\<lambda>r. subMarketplaceId r = rsvId latest) (toSubscriptionData now latest))"
      by (rule keeps_updateSub) (simp_all add: assms, simp add: toSubscriptionData_def)
    then show ?thesis using run True unfolding upsertResolvedSubscription_def by (auto dest: movesD)
  next
    case False
    then have "db' = db \<or> (\<exists>new. db' = db\<lparr>dbSubs := dbSubs db @ [new]\<rparr>)"
      using run by (auto simp: upsertResolvedSubscription_def Let_def putSubs_def andThen_def bind_def split: if_splits)
    then show ?thesis by (auto simp: keeps_def sub_of_def find_append)
  qed
qed

text \<open>A field that synchronisation with Microsoft, the plan and the status leave alone is a frame.\<close>

lemma keeps_frame:
  assumes sync: "\<And>now latest r. sel (toSubscriptionData now latest r) = sel r"
    and status: "\<And>r st. sel (r\<lparr>subStatus := st\<rparr>) = sel r"
    and plan: "\<And>r pl. sel (r\<lparr>subPlanId := pl\<rparr>) = sel r"
  shows "service_frame (keeps P sel)"
proof
  have same: "keeps P sel db db'" if "dbSubs db' = dbSubs db" for db db'
    using that by (simp add: keeps_def sub_of_def)
  have data: "subId (toSubscriptionData now latest r) = subId r" for now latest r
    by (simp add: toSubscriptionData_def)
  fix s t u db :: mp_db
  show "keeps P sel s s" by (rule keeps_refl)
  show "keeps P sel s t \<Longrightarrow> keeps P sel t u \<Longrightarrow> keeps P sel s u" by (fastforce simp: keeps_def)
  show "keeps P sel db (db\<lparr>dbToken := tk\<rparr>)" "keeps P sel db (db\<lparr>dbSessions := ss\<rparr>)"
    "keeps P sel db (db\<lparr>dbOperations := os\<rparr>)" "keeps P sel db (db\<lparr>dbWebhooks := ws\<rparr>)" for tk ss os ws
    by (simp_all add: same)
  show "moves (keeps P sel) (recordBillingUsageEvent i now p sid)" for i now p sid
    by (rule movesI) (auto simp: recordBillingUsageEvent_def same split: if_splits)
  show "moves (keeps P sel) (createOrUpdateUsageEvent i sub orgId d q time src)" for i sub orgId d q time src
    by (rule movesI) (auto simp: createOrUpdateUsageEvent_def Let_def same split: if_splits)
  show "moves (keeps P sel) (updateUsageEventStatus now i st resp)" for now i st resp
    by (rule movesI) (auto simp: updateUsageEventStatus_def same split: if_splits)
  show "moves (keeps P sel) (updateSubscriptionFromMicrosoft now latest)" for now latest
    unfolding updateSubscriptionFromMicrosoft_def by (rule keeps_updateSub) (simp_all add: sync data)
  show "moves (keeps P sel) (upsertResolvedSubscription i now latest)" for i now latest
    by (rule keeps_upsert) (rule sync)
  show "moves (keeps P sel) (setSubscriptionStatus i status)" for i status
    unfolding setSubscriptionStatus_def by (rule keeps_updateSub) (simp_all add: status)
  show "moves (keeps P sel) (setSubscriptionPlanId i plan)" for i plan
    unfolding setSubscriptionPlanId_def by (rule keeps_updateSub) (simp_all add: plan)
qed

interpretation user: service_frame "keeps P subLocalUserId" for P
  by (rule keeps_frame) (simp_all add: toSubscriptionData_def)

interpretation org: service_frame "keeps P subOrgId" for P
  by (rule keeps_frame) (simp_all add: toSubscriptionData_def)

interpretation activation: service_frame "keeps P subActivationStatus" for P
  by (rule keeps_frame) (simp_all add: toSubscriptionData_def)

section \<open>Who changes the links\<close>

lemma find_subId: "List.find (\<lambda>r. subId r = k) rows = Some sub \<Longrightarrow> List.find (\<lambda>r. subId r = subId sub) rows = Some sub"
  by (frule find_SomeD) simp

lemma getValidSession_state: "getValidSession env sid db = (r, db') \<Longrightarrow> db' = db"
  by (auto simp: getValidSession_def getOnboardingSessionRow_def bind_def split: option.splits if_splits)

lemma getValidSession_row:
  assumes "getValidSession env sid db = (Inr (s, sub), db')"
  shows "sub_of db (subId sub) = Some sub \<and> obId s = sid \<and> s \<in> set (dbSessions db) \<and> eNow env \<le> obExpiresAt s"
  using assms
  by (auto simp: getValidSession_def getOnboardingSessionRow_def bind_def sub_of_def
      split: option.splits if_splits dest: find_SomeD find_subId)

text \<open>The continuation of a handler on the session it looked up.\<close>

lemma session_cases:
  assumes "bind (getValidSession env sid) f db = (r, db')"
  obtains "db' = db" | s sub where "sub_of db (subId sub) = Some sub" "f (s, sub) db = (r, db')"
  using assms
proof (cases rule: bind_cases)
  case (raised e)
  then show ?thesis using getValidSession_state that(1) by blast
next
  case (went_on row db1)
  obtain s sub where row: "row = (s, sub)" by (cases row)
  have "db1 = db" "sub_of db (subId sub) = Some sub"
    using getValidSession_state [OF went_on(1)] getValidSession_row [OF went_on(1) [unfolded row]] by auto
  then show ?thesis using went_on(2) that(2) [of sub s] by (simp add: row)
qed

lemma updateSub_ok:
  assumes "updateSub p f db = (Inr x, db')"
  shows "\<exists>r. List.find p (dbSubs db) = Some r \<and> x = f r \<and> subsUnique (updateWhere p f (dbSubs db)) \<and>
    db' = db\<lparr>dbSubs := updateWhere p f (dbSubs db)\<rparr>"
  using assms by (auto simp: updateSub_def putSubs_def andThen_def bind_def split: option.splits if_splits)

lemma keeps_at:
  assumes "moves (keeps (\<lambda>_. True) sel) m" "m db = (r, db')" "sub_of db i = Some row"
  shows "\<exists>row'. sub_of db' i = Some row' \<and> sel row' = sel row"
  using keepsD [OF movesD [OF assms(1,2)] assms(3)] by simp

text \<open>A write to the row \<open>j\<close> followed by writes that keep the field.\<close>

lemma write_then:
  assumes run: "andThen (updateSub (\<lambda>r. subId r = j) f) n db = (r, db')"
    and rest: "moves (keeps (\<lambda>_. True) sel) n"
    and ids: "\<And>r. subId (f r) = subId r"
    and row: "sub_of db i = Some row"
  shows "\<exists>row'. sub_of db' i = Some row' \<and> (sel row' = sel row \<or> i = j \<and> sel row' = sel (f row))"
  using run
proof (cases rule: andThen_cases)
  case (raised e)
  then have "db' = db" by (auto simp: updateSub_def putSubs_def andThen_def bind_def split: option.splits if_splits)
  then show ?thesis using row by simp
next
  case (went_on x db1)
  have "sub_of db1 i = Some (if i = j then f row else row)"
    using updateSub_ok [OF went_on(1)] row sub_of_subId [OF row]
    by (auto simp: sub_of_def find_updateWhere ids)
  then show ?thesis using keeps_at [OF rest went_on(2)] by fastforce
qed

lemma linkSubscriptionToOrg_then:
  "andThen (linkSubscriptionToOrg i orgId) n db = (r, db') \<Longrightarrow>
   \<exists>r'. andThen (linkOrganizationRow i orgId) n db = (r', db')"
proof -
  assume run: "andThen (linkSubscriptionToOrg i orgId) n db = (r, db')"
  obtain x db1 where row: "linkOrganizationRow i orgId db = (x, db1)" by fastforce
  then show ?thesis
  proof (cases x)
    case (Inl e)
    then have "fst (linkSubscriptionToOrg i orgId db) \<noteq> Inr ()" "snd (linkSubscriptionToOrg i orgId db) = db1"
      using row by (cases "e = PrismaError ''P2002''"; simp add: linkSubscriptionToOrg_def tryCatch_def andThen_def bind_def)+
    then show ?thesis using run row Inl
      by (cases "linkSubscriptionToOrg i orgId db") (auto simp: andThen_def bind_def split: sum.splits)
  next
    case (Inr y)
    then have "linkSubscriptionToOrg i orgId db = (Inr (), db1)"
      using row by (simp add: linkSubscriptionToOrg_def tryCatch_def andThen_def bind_def)
    then show ?thesis using run row Inr by (auto simp: andThen_def bind_def)
  qed
qed

lemma keeps_linkUser:
  "moves (keeps P subOrgId) (linkUser i u)" "moves (keeps P subActivationStatus) (linkUser i u)"
  unfolding linkUser_def by (rule keeps_updateSub; simp)+

lemma keeps_linkOrganizationRow:
  "moves (keeps P subLocalUserId) (linkOrganizationRow i orgId)"
  "moves (keeps P subActivationStatus) (linkOrganizationRow i orgId)"
  unfolding linkOrganizationRow_def by (rule keeps_updateSub; simp)+

lemma keeps_setActivationStatus:
  "moves (keeps P subLocalUserId) (setActivationStatus i st e)"
  "moves (keeps P subOrgId) (setActivationStatus i st e)"
  "\<not> P i \<Longrightarrow> moves (keeps P subActivationStatus) (setActivationStatus i st e)"
  unfolding setActivationStatus_def by (rule keeps_updateSub; auto)+

lemma expectedEmails_iff:
  "e \<in> set (expectedEmails sub) \<longleftrightarrow>
   e \<noteq> [] \<and> (\<exists>m. (subPurchaserEmail sub = Some m \<or> subBeneficiaryEmail sub = Some m) \<and> e = toLowerCase m)"
  by (cases "subPurchaserEmail sub"; cases "subBeneficiaryEmail sub") (auto simp: expectedEmails_def toLowerCase_def)

text \<open>The identity check of \<open>linkAccount\<close>.\<close>

definition boughtBy :: "mp_user \<Rightarrow> marketplace_subscription \<Rightarrow> bool" where
  "boughtBy user sub \<longleftrightarrow> (\<exists>e m. muEmail user = Some e \<and> e \<noteq> [] \<and>
     (subPurchaserEmail sub = Some m \<or> subBeneficiaryEmail sub = Some m) \<and> toLowerCase e = toLowerCase m)"

lemma boughtBy_iff:
  "boughtBy user sub \<longleftrightarrow> expectedEmails sub \<noteq> [] \<and> toLowerCase (orEmpty (muEmail user)) \<noteq> [] \<and>
     toLowerCase (orEmpty (muEmail user)) \<in> set (expectedEmails sub)"
proof -
  have "boughtBy user sub \<longleftrightarrow> toLowerCase (orEmpty (muEmail user)) \<in> set (expectedEmails sub)"
    by (cases "muEmail user") (auto simp: boughtBy_def expectedEmails_iff)
  moreover have "e \<in> set (expectedEmails sub) \<Longrightarrow> expectedEmails sub \<noteq> [] \<and> e \<noteq> []" for e
    by (auto simp: expectedEmails_def toLowerCase_def)
  ultimately show ?thesis by blast
qed

lemma linkAccount_user:
  assumes run: "linkAccount env sid user db = (r, db')" and row: "sub_of db i = Some row"
  shows "\<exists>row'. sub_of db' i = Some row' \<and>
    (subLocalUserId row' \<noteq> subLocalUserId row \<longrightarrow> subLocalUserId row' = Some (muId user) \<and> boughtBy user row)"
  using run unfolding linkAccount_def
proof (cases rule: session_cases)
  case 1
  then show ?thesis using row by simp
next
  case (2 s sub)
  show ?thesis
  proof (cases "boughtBy user sub")
    case True
    then have "andThen (linkUser (subId sub) (muId user))
              (andThen (updateOnboardingSession (obId s) ObAccountLinked)
              (ret (muId user, CreateOrganizationNext))) db = (r, db')"
      using 2 unfolding boughtBy_iff by (simp add: Let_def split: if_splits)
    from write_then [OF this [unfolded linkUser_def], where sel = subLocalUserId, OF _ _ row]
    obtain row' where "sub_of db' i = Some row'"
      "subLocalUserId row' = subLocalUserId row \<or> i = subId sub \<and> subLocalUserId row' = Some (muId user)"
      by (force intro: user.moves_andThen user.moves_ret user.moves_tables)
    then show ?thesis using True 2(1) row by auto
  next
    case False
    then have "db' = db" using 2 unfolding boughtBy_iff by (auto simp: Let_def split: if_splits)
    then show ?thesis using row by simp
  qed
qed

lemma finishOrgLink_org:
  assumes run: "finishOrgLink (s, sub) orgId db = (r, db')" and row: "sub_of db i = Some row"
  shows "\<exists>row'. sub_of db' i = Some row' \<and>
    (subOrgId row' \<noteq> subOrgId row \<longrightarrow> i = subId sub \<and> subOrgId row' = Some orgId)"
proof -
  obtain r' where "andThen (linkOrganizationRow (subId sub) orgId)
     (andThen (updateOnboardingSession (obId s) ObOrgLinked) (ret (orgId, ActivateNext))) db = (r', db')"
    using linkSubscriptionToOrg_then run unfolding finishOrgLink_def fst_conv snd_conv by blast
  from write_then [OF this [unfolded linkOrganizationRow_def], where sel = subOrgId, OF _ _ row]
  show ?thesis by (force intro: org.moves_andThen org.moves_ret org.moves_tables)
qed

text \<open>The organisation the user may bind: one the user owns, or one just created for the user.\<close>

definition orgGranted :: "mp_env \<Rightarrow> mp_user \<Rightarrow> link_mode \<Rightarrow> string \<Rightarrow> bool" where
  "orgGranted env user mode orgId \<longleftrightarrow>
     (mode = LinkExisting (Some orgId) \<and> (\<exists>owners. eOwners env orgId = Inr (Some owners) \<and> muId user \<in> set owners)) \<or>
     (\<exists>d req. mode = CreateOrg d \<and> coUserId req = muId user \<and> eCreateOrg env req = Inr orgId)"

lemma orgGranted_created:
  "eCreateOrg env \<lparr>coName = n, coDescription = d1, coWebsite = w, coLogo = l, coUserId = muId user,
     coKeycloakUserId = k\<rparr> = Inr orgId \<Longrightarrow> orgGranted env user (CreateOrg d) orgId"
  unfolding orgGranted_def by (metis create_org.select_convs(5))

lemma linkOrganization_cases:
  assumes run: "linkOrganization env sid mode user db = (r, db')"
  obtains "db' = db" | s sub orgId where "sub_of db (subId sub) = Some sub" "subLocalUserId sub = Some (muId user)"
    "orgGranted env user mode orgId" "finishOrgLink (s, sub) orgId db = (r, db')"
  using run unfolding linkOrganization_def
proof (cases rule: session_cases)
  case 1
  then show ?thesis using that(1) by blast
next
  case (2 s sub)
  show ?thesis
  proof (cases "subLocalUserId sub = Some (muId user)")
    case False
    then show ?thesis using 2 that(1) by (simp add: assertSessionAccountLinkedTo_def andThen_def)
  next
    case True
    show ?thesis
    proof (cases mode)
      case (LinkExisting orgId)
      then show ?thesis
        using 2 True that(1) that(2) [of sub "orEmpty orgId" s]
        by (auto simp: andThen_def bind_def assertSessionAccountLinkedTo_def assertUserOwnsOrganization_def
            getActiveSubscriptionByOrgId_def orgGranted_def
            split: if_splits sum.splits option.splits elim!: truthyE)
    next
      case (CreateOrg d)
      then show ?thesis
        using 2 True that(1) that(2) [of sub _ s]
        by (auto simp: andThen_def bind_def assertSessionAccountLinkedTo_def
            split: if_splits sum.splits option.splits dest: orgGranted_created)
    qed
  qed
qed

subsection \<open>Activation\<close>

lemma activateSubscription_cases:
  assumes "activateSubscription env sid orgId userId db = (r, db')"
  obtains "db' = db"
  | s sub where "sub_of db (subId sub) = Some sub" "subLocalUserId sub = Some userId" "subOrgId sub = Some orgId"
    "activateLinked env (s, sub) orgId db = (r, db')"
  using assms unfolding activateSubscription_def
proof (cases rule: session_cases)
  case 1
  then show ?thesis using that(1) by blast
next
  case (2 s sub)
  show ?thesis
  proof (cases "subLocalUserId sub = Some userId \<and> userId \<noteq> [] \<and> subOrgId sub = Some orgId")
    case True
    then show ?thesis using 2 that(2) [of sub s]
      by (simp add: assertSessionAccountLinkedTo_def andThen_def)
  next
    case False
    then have "db' = db" using 2
      by (auto simp: assertSessionAccountLinkedTo_def andThen_def split: if_splits)
    then show ?thesis by (rule that(1))
  qed
qed

definition promoted :: "marketplace_subscription \<Rightarrow> marketplace_subscription \<Rightarrow> bool" where
  "promoted r r' \<longleftrightarrow> subActivationStatus r' = subActivationStatus r \<or>
     subActivationStatus r = ActInProgress \<and> subActivationStatus r' = ActActivated"

definition promotes :: "mp_db \<Rightarrow> mp_db \<Rightarrow> bool" where
  "promotes db db' \<longleftrightarrow> (\<forall>i r. sub_of db i = Some r \<longrightarrow> (\<exists>r'. sub_of db' i = Some r' \<and> promoted r r'))"

interpretation promotion: effect_preorder promotes
  by unfold_locales (simp add: promotes_def promoted_def, fastforce simp: promotes_def promoted_def)

lemma keeps_promotes: "keeps (\<lambda>_. True) subActivationStatus db db' \<Longrightarrow> promotes db db'"
  by (fastforce simp: keeps_def promotes_def promoted_def)

lemma moves_keeps_promotes: "moves (keeps (\<lambda>_. True) subActivationStatus) m \<Longrightarrow> moves promotes m"
  by (simp add: moves_def keeps_promotes)

lemma subsUnique_subId: "subsUnique rows \<Longrightarrow> distinct (map subId rows)"
  by (simp add: subsUnique_def)

text \<open>The promotion: the row that is set to activated is the one that was in progress.\<close>

lemma promotes_promotion:
  assumes upd: "updateSubscriptionFromMicrosoft now latest db = (Inr updated, db1)"
    and existing: "List.find (\<lambda>r. subMarketplaceId r = rsvId latest) (dbSubs db) = Some existing"
    and waiting: "subActivationStatus existing = ActInProgress"
    and set: "setActivationStatus (subId updated) ActActivated None db1 = (r, db')"
  shows "promotes db db'"
  unfolding promotes_def
proof (intro allI impI)
  fix i row assume row: "sub_of db i = Some row"
  let ?f = "toSubscriptionData now latest"
  have ids: "subId (?f r) = subId r" for r by (simp add: toSubscriptionData_def)
  have ok: "updated = ?f existing" "subsUnique (updateWhere (\<lambda>r. subMarketplaceId r = rsvId latest) ?f (dbSubs db))"
    using updateSub_ok [OF upd [unfolded updateSubscriptionFromMicrosoft_def]] existing by auto
  obtain row1 where row1: "sub_of db1 i = Some row1" "subActivationStatus row1 = subActivationStatus row"
    using keeps_at [OF activation.frame_sync upd row] by blast
  have "updateSub (\<lambda>r. subId r = subId existing) (\<lambda>r. r\<lparr>subActivationStatus := ActActivated,
      subActivationError := keep None (subActivationError r)\<rparr>) db1 = (r, db')"
    using set unfolding setActivationStatus_def ok(1) ids .
  then have "andThen (updateSub (\<lambda>r. subId r = subId existing) (\<lambda>r. r\<lparr>subActivationStatus := ActActivated,
      subActivationError := keep None (subActivationError r)\<rparr>)) (lift (map_sum id (\<lambda>_. ()) r)) db1
      = (map_sum id (\<lambda>_. ()) r, db')"
    by (cases r) (simp_all add: andThen_def bind_def)
  from write_then [OF this, where sel = subActivationStatus, OF activation.moves_lift _ row1(1)]
  obtain row' where row': "sub_of db' i = Some row'"
    "subActivationStatus row' = subActivationStatus row1 \<or> i = subId existing \<and> subActivationStatus row' = ActActivated"
    by auto
  have "row = existing" if "i = subId existing"
  proof -
    have "distinct (map subId (dbSubs db))"
      using subsUnique_subId [OF ok(2)] by (simp add: map_updateWhere_same ids)
    then show ?thesis using that sub_of_subId [OF row] find_SomeD [OF existing] by (auto dest: distinct_map_eqD)
  qed
  then show "\<exists>r'. sub_of db' i = Some r' \<and> promoted row r'"
    using row' row1(2) waiting by (auto simp: promoted_def)
qed

lemma moves_promotes_reconcileOne: "moves promotes (reconcileOne env newId sub)"
proof (rule movesI)
  fix db r db' assume run: "reconcileOne env newId sub db = (r, db')"
  show "promotes db db'"
  proof (cases "List.find (\<lambda>r. subMarketplaceId r = rsvId sub) (dbSubs db)")
    case None
    have "moves promotes (andThen (upsertResolvedSubscription (newId (rsvId sub)) (eNow env) sub) (ret ()))"
      by (intro moves_keeps_promotes activation.moves_andThen activation.frame_upsert activation.moves_ret)
    then show ?thesis
      using run None by (auto simp: reconcileOne_def getSubscriptionByMarketplaceId_def bind_Inr dest: movesD)
  next
    case (Some existing)
    have "bind (updateSubscriptionFromMicrosoft (eNow env) sub) (\<lambda>updated.
             if subStatus updated = Subscribed \<and> subActivationStatus existing = ActInProgress
             then andThen (setActivationStatus (subId updated) ActActivated None) (ret ())
             else ret ()) db = (r, db')"
      using run Some by (simp add: reconcileOne_def getSubscriptionByMarketplaceId_def bind_Inr)
    then show ?thesis
    proof (cases rule: bind_cases)
      case (raised e)
      then show ?thesis using movesD [OF activation.frame_sync] keeps_promotes by blast
    next
      case (went_on updated db1)
      have sync: "promotes db db1" using movesD [OF activation.frame_sync went_on(1)] keeps_promotes by blast
      show ?thesis
      proof (cases "subStatus updated = Subscribed \<and> subActivationStatus existing = ActInProgress")
        case True
        then obtain r' where "setActivationStatus (subId updated) ActActivated None db1 = (r', db')"
          using went_on(2) by (auto elim!: andThen_cases)
        then show ?thesis using promotes_promotion [OF went_on(1) Some] True by blast
      next
        case False
        then show ?thesis using went_on(2) sync by auto
      qed
    qed
  qed
qed

lemma moves_promotes_reconcile: "moves promotes (reconcileSubscriptions env newId)"
  unfolding reconcileSubscriptions_def
  by (intro promotion.moves_rules moves_promotes_reconcileOne moves_keeps_promotes activation.moves_client)

subsection \<open>Every call\<close>

lemma run_user:
  assumes run: "mp_run env c db = (r, db')" and row: "sub_of db i = Some row"
  shows "\<exists>row'. sub_of db' i = Some row' \<and> (subLocalUserId row' \<noteq> subLocalUserId row \<longrightarrow>
    (\<exists>sid user. c = LinkAccount sid user \<and> subLocalUserId row' = Some (muId user) \<and> boughtBy user row))"
proof (cases "\<exists>sid user. c = LinkAccount sid user")
  case True
  then obtain sid user where c: "c = LinkAccount sid user" by blast
  then obtain r' where "linkAccount env sid user db = (r', db')" using run by (auto elim!: andThen_cases)
  from linkAccount_user [OF this row] show ?thesis using c by blast
next
  case False
  have "moves (keeps (\<lambda>_. True) subLocalUserId) (mp_run env c)"
    using False by (intro user.moves_mp_run user.moves_linkOrganization user.moves_activateSubscription
        user.moves_reconcileOne keeps_linkOrganizationRow keeps_setActivationStatus) blast
  from keeps_at [OF this run row] show ?thesis by auto
qed

lemma run_org:
  assumes run: "mp_run env c db = (r, db')" and row: "sub_of db i = Some row"
  shows "\<exists>row'. sub_of db' i = Some row' \<and> (subOrgId row' \<noteq> subOrgId row \<longrightarrow>
    (\<exists>sid mode user orgId. c = LinkOrganization sid mode user \<and> subOrgId row' = Some orgId \<and>
       subLocalUserId row = Some (muId user) \<and> orgGranted env user mode orgId))"
proof (cases "\<exists>sid mode user. c = LinkOrganization sid mode user")
  case True
  then obtain sid mode user where c: "c = LinkOrganization sid mode user" by blast
  then obtain r' where "linkOrganization env sid mode user db = (r', db')" using run by (auto elim!: andThen_cases)
  then show ?thesis
  proof (cases rule: linkOrganization_cases)
    case 1
    then show ?thesis using row by simp
  next
    case (2 s sub orgId)
    then show ?thesis using finishOrgLink_org [OF 2(4) row] row c by auto
  qed
next
  case False
  have "moves (keeps (\<lambda>_. True) subOrgId) (mp_run env c)"
    using False by (intro org.moves_mp_run org.moves_linkAccount org.moves_activateSubscription
        org.moves_reconcileOne keeps_linkUser keeps_setActivationStatus) blast
  from keeps_at [OF this run row] show ?thesis by auto
qed

lemma run_activation:
  assumes run: "mp_run env c db = (r, db')" and row: "sub_of db i = Some row"
  shows "\<exists>row'. sub_of db' i = Some row' \<and> (subActivationStatus row' \<noteq> subActivationStatus row \<longrightarrow>
    (\<exists>sid orgId userId. c = ActivateSubscription sid orgId userId \<and> subLocalUserId row = Some userId \<and>
       subOrgId row = Some orgId) \<or>
    (\<exists>newId. c = Reconcile newId \<and> subActivationStatus row = ActInProgress \<and> subActivationStatus row' = ActActivated))"
proof -
  consider (activate) sid orgId userId where "c = ActivateSubscription sid orgId userId"
    | (reconcile) newId where "c = Reconcile newId"
    | (other) "\<nexists>sid orgId userId. c = ActivateSubscription sid orgId userId" "\<nexists>newId. c = Reconcile newId"
    by blast
  then show ?thesis
  proof cases
    case activate
    then obtain r' where "activateSubscription env sid orgId userId db = (r', db')" using run by (auto elim!: andThen_cases)
    then show ?thesis
    proof (cases rule: activateSubscription_cases)
      case 1
      then show ?thesis using row by simp
    next
      case (2 s sub)
      show ?thesis
      proof (cases "i = subId sub")
        case True
        then show ?thesis using 2 row activate run_user [OF run row] by auto
      next
        case False
        have "keeps (\<lambda>i. i \<noteq> subId sub) subActivationStatus db db'"
          using movesD [OF activation.moves_activateLinked
              [where P = "\<lambda>i. i \<noteq> subId sub" and row = "(s, sub)"] 2(4)] keeps_setActivationStatus(3) by simp
        from keepsD [OF this row False] show ?thesis by auto
      qed
    qed
  next
    case reconcile
    then have "promotes db db'" using run movesD [OF moves_promotes_reconcile] by (simp del: not_None_eq)
    then show ?thesis using row reconcile by (fastforce simp: promotes_def promoted_def)
  next
    case other
    have "moves (keeps (\<lambda>_. True) subActivationStatus) (mp_run env c)"
      using other by (intro activation.moves_mp_run activation.moves_linkAccount activation.moves_linkOrganization
          keeps_linkUser keeps_linkOrganizationRow) blast+
    from keeps_at [OF this run row] show ?thesis by auto
  qed
qed

section \<open>The invariant of the tables\<close>

definition rowLinked :: "marketplace_subscription \<Rightarrow> bool" where
  "rowLinked r \<longleftrightarrow> subLocalUserId r \<noteq> None \<and> subOrgId r \<noteq> None"

definition activation_ok :: "marketplace_subscription \<Rightarrow> bool" where
  "activation_ok r \<longleftrightarrow> (subActivationStatus r \<noteq> ActNotStarted \<longrightarrow> rowLinked r)"

definition billingKey :: "billing_usage_event \<Rightarrow> string \<times> string" where
  "billingKey b = (buEventType b, buSourceId b)"

definition mp_inv :: "mp_db \<Rightarrow> bool" where
  "mp_inv db \<longleftrightarrow> subsUnique (dbSubs db) \<and> list_all activation_ok (dbSubs db) \<and>
     distinct (map billingKey (dbBilling db)) \<and> distinct (map usageKey (dbUsage db))"

text \<open>The invariant is kept, and so is the fact that the rows \<open>X\<close> are linked.\<close>

definition linkedIn :: "string set \<Rightarrow> mp_db \<Rightarrow> bool" where
  "linkedIn X db \<longleftrightarrow> (\<forall>i \<in> X. \<exists>r. sub_of db i = Some r \<and> rowLinked r)"

definition inv_with :: "string set \<Rightarrow> mp_db \<Rightarrow> mp_db \<Rightarrow> bool" where
  "inv_with X db db' \<longleftrightarrow> (mp_inv db \<and> linkedIn X db \<longrightarrow> mp_inv db' \<and> linkedIn X db')"

lemma sub_of_unique: "subsUnique (dbSubs db) \<Longrightarrow> r \<in> set (dbSubs db) \<Longrightarrow> sub_of db (subId r) = Some r"
proof -
  assume "subsUnique (dbSubs db)" and r: "r \<in> set (dbSubs db)"
  then have "distinct (map subId (dbSubs db))" by (simp add: subsUnique_def)
  moreover obtain r' where "sub_of db (subId r) = Some r'"
    using r by (cases "sub_of db (subId r)") (auto simp: sub_of_def find_None_iff_all)
  ultimately show ?thesis using r sub_of_subId by (metis distinct_map_eqD)
qed

lemma inv_updateSub:
  assumes ids: "\<And>r. subId (f r) = subId r"
    and linked: "\<And>r. rowLinked r \<Longrightarrow> rowLinked (f r)"
    and ok: "\<And>r. p r \<Longrightarrow> activation_ok r \<Longrightarrow> (subId r \<in> X \<longrightarrow> rowLinked r) \<Longrightarrow> activation_ok (f r)"
  shows "moves (inv_with X) (updateSub p f)"
proof (rule movesI)
  fix db x db' assume run: "updateSub p f db = (x, db')"
  show "inv_with X db db'"
    unfolding inv_with_def
  proof (intro impI)
    assume pre: "mp_inv db \<and> linkedIn X db"
    consider "db' = db" | "subsUnique (updateWhere p f (dbSubs db))" "db' = db\<lparr>dbSubs := updateWhere p f (dbSubs db)\<rparr>"
      using updateSub_run [OF run] by blast
    then show "mp_inv db' \<and> linkedIn X db'"
    proof cases
      case 1
      then show ?thesis using pre by simp
    next
      case 2
      have "activation_ok (if p r then f r else r)" if "r \<in> set (dbSubs db)" for r
      proof -
        have "sub_of db (subId r) = Some r" using pre sub_of_unique [OF _ that] by (simp add: mp_inv_def)
        then have "subId r \<in> X \<longrightarrow> rowLinked r" using pre unfolding linkedIn_def by fastforce
        then show ?thesis using pre that ok [of r] by (simp add: mp_inv_def list_all_iff)
      qed
      then have "list_all activation_ok (updateWhere p f (dbSubs db))"
        unfolding list_all_iff updateWhere_def list.set_map by blast
      moreover have "linkedIn X db'"
        unfolding linkedIn_def
      proof
        fix i assume "i \<in> X"
        then obtain r where "sub_of db i = Some r" "rowLinked r" using pre by (auto simp: linkedIn_def)
        then show "\<exists>r. sub_of db' i = Some r \<and> rowLinked r"
          by (simp add: 2(2) sub_of_def find_updateWhere ids linked)
      qed
      ultimately show ?thesis using pre 2 by (simp add: mp_inv_def)
    qed
  qed
qed

lemma inv_same:
  "dbSubs db' = dbSubs db \<Longrightarrow> dbBilling db' = dbBilling db \<Longrightarrow> dbUsage db' = dbUsage db \<Longrightarrow> inv_with X db db'"
  by (simp add: inv_with_def mp_inv_def linkedIn_def sub_of_def)

lemma rowLinked_update [simp]:
  "rowLinked (r\<lparr>subStatus := st\<rparr>) = rowLinked r" "rowLinked (r\<lparr>subPlanId := pl\<rparr>) = rowLinked r"
  "rowLinked (r\<lparr>subActivationStatus := a, subActivationError := e\<rparr>) = rowLinked r"
  "rowLinked (toSubscriptionData now latest r) = rowLinked r"
  by (simp_all add: rowLinked_def toSubscriptionData_def)

lemma activation_ok_update [simp]:
  "activation_ok (r\<lparr>subStatus := st\<rparr>) = activation_ok r" "activation_ok (r\<lparr>subPlanId := pl\<rparr>) = activation_ok r"
  "activation_ok (toSubscriptionData now latest r) = activation_ok r"
  by (simp_all add: activation_ok_def) (simp add: toSubscriptionData_def)

lemma subId_toSubscriptionData [simp]: "subId (toSubscriptionData now latest r) = subId r"
  by (simp add: toSubscriptionData_def)

lemma inv_upsert: "moves (inv_with X) (upsertResolvedSubscription i now latest)"
proof (rule movesI)
  fix db r db' assume run: "upsertResolvedSubscription i now latest db = (r, db')"
  show "inv_with X db db'"
  proof (cases "\<exists>r \<in> set (dbSubs db). subMarketplaceId r = rsvId latest")
    case True
    have "moves (inv_with X) (updateSub (\<lambda>r. subMarketplaceId r = rsvId latest) (toSubscriptionData now latest))"
      by (rule inv_updateSub) simp_all
    then show ?thesis using run True unfolding upsertResolvedSubscription_def by (auto dest: movesD)
  next
    case False
    let ?new = "toSubscriptionData now latest (blankSubscription i now)"
    have "db' = db \<or> subsUnique (dbSubs db @ [?new]) \<and> db' = db\<lparr>dbSubs := dbSubs db @ [?new]\<rparr>"
      using run False by (auto simp: upsertResolvedSubscription_def Let_def putSubs_def andThen_def bind_def split: if_splits)
    moreover have "activation_ok ?new" by (simp add: activation_ok_def blankSubscription_def toSubscriptionData_def)
    ultimately show ?thesis
      by (fastforce simp: inv_with_def mp_inv_def linkedIn_def sub_of_def find_append)
  qed
qed

lemma recordBilling_run:
  assumes "recordBillingUsageEvent i now p sid db = (r, db')"
  obtains (known) b where "db' = db" "b \<in> set (dbBilling db)" "billingKey b = (upEventType p, upSourceId p)"
  | (added) b where "db' = db\<lparr>dbBilling := dbBilling db @ [b]\<rparr>" "billingKey b = (upEventType p, upSourceId p)"
      "(upEventType p, upSourceId p) \<notin> billingKey ` set (dbBilling db)"
proof (cases "\<exists>b \<in> set (dbBilling db). buEventType b = upEventType p \<and> buSourceId b = upSourceId p")
  case True
  then show ?thesis using assms known by (auto simp: recordBillingUsageEvent_def billingKey_def)
next
  case False
  then have "(upEventType p, upSourceId p) \<notin> billingKey ` set (dbBilling db)" by (force simp: billingKey_def)
  then show ?thesis using assms False added by (auto simp: recordBillingUsageEvent_def billingKey_def)
qed

lemma inv_billing: "moves (inv_with X) (recordBillingUsageEvent i now p sid)"
proof (rule movesI)
  fix db r db' assume "recordBillingUsageEvent i now p sid db = (r, db')"
  then show "inv_with X db db'"
    by (cases rule: recordBilling_run) (simp_all add: inv_with_def mp_inv_def linkedIn_def sub_of_def)
qed

lemma inv_usage: "moves (inv_with X) (createOrUpdateUsageEvent i sub orgId d q time src)"
proof (rule movesI)
  fix db r db' assume "createOrUpdateUsageEvent i sub orgId d q time src db = (r, db')"
  then show "inv_with X db db'"
    by (auto simp: createOrUpdateUsageEvent_def Let_def inv_with_def mp_inv_def linkedIn_def sub_of_def
        map_updateWhere_same usageKey_def split: if_splits)
qed

lemma inv_usage_status: "moves (inv_with X) (updateUsageEventStatus now i st resp)"
proof (rule movesI)
  fix db r db' assume "updateUsageEventStatus now i st resp db = (r, db')"
  then show "inv_with X db db'"
    by (auto simp: updateUsageEventStatus_def inv_with_def mp_inv_def linkedIn_def sub_of_def
        map_updateWhere_same usageKey_def split: if_splits)
qed

interpretation tables: service_frame "inv_with X" for X
proof
  fix s t u db :: mp_db
  show "inv_with X s s" by (simp add: inv_with_def)
  show "inv_with X s t \<Longrightarrow> inv_with X t u \<Longrightarrow> inv_with X s u" by (simp add: inv_with_def)
  show "inv_with X db (db\<lparr>dbToken := tk\<rparr>)" "inv_with X db (db\<lparr>dbSessions := ss\<rparr>)"
    "inv_with X db (db\<lparr>dbOperations := os\<rparr>)" "inv_with X db (db\<lparr>dbWebhooks := ws\<rparr>)" for tk ss os ws
    by (simp_all add: inv_same)
  show "moves (inv_with X) (updateSubscriptionFromMicrosoft now latest)" for now latest
    unfolding updateSubscriptionFromMicrosoft_def by (rule inv_updateSub) simp_all
  show "moves (inv_with X) (setSubscriptionStatus i status)" for i status
    unfolding setSubscriptionStatus_def by (rule inv_updateSub) simp_all
  show "moves (inv_with X) (setSubscriptionPlanId i plan)" for i plan
    unfolding setSubscriptionPlanId_def by (rule inv_updateSub) simp_all
qed (rule inv_billing inv_usage inv_usage_status inv_upsert)+

lemma inv_links:
  "moves (inv_with X) (linkUser i u)" "moves (inv_with X) (linkOrganizationRow i orgId)"
  unfolding linkUser_def linkOrganizationRow_def
  by (rule inv_updateSub; auto simp: rowLinked_def activation_ok_def)+

lemma inv_setActivationStatus: "i \<in> X \<Longrightarrow> moves (inv_with X) (setActivationStatus i st e)"
  unfolding setActivationStatus_def by (rule inv_updateSub) (auto simp: activation_ok_def)

lemma inv_activate: "moves (inv_with {}) (activateSubscription env sid orgId userId)"
proof (rule movesI)
  fix db r db' assume "activateSubscription env sid orgId userId db = (r, db')"
  then show "inv_with {} db db'"
  proof (cases rule: activateSubscription_cases)
    case 1
    then show ?thesis by (simp add: tables.R_refl)
  next
    case (2 s sub)
    have "inv_with {subId sub} db db'"
      using movesD [OF tables.moves_activateLinked [where X = "{subId sub}" and row = "(s, sub)"] 2(4)]
      by (simp add: inv_setActivationStatus)
    moreover have "linkedIn {subId sub} db" using 2 by (simp add: linkedIn_def rowLinked_def)
    ultimately show ?thesis by (simp add: inv_with_def linkedIn_def)
  qed
qed

lemma inv_reconcileOne: "moves (inv_with {}) (reconcileOne env newId sub)"
proof (rule movesI)
  fix db r db' assume run: "reconcileOne env newId sub db = (r, db')"
  show "inv_with {} db db'"
  proof (cases "List.find (\<lambda>r. subMarketplaceId r = rsvId sub) (dbSubs db)")
    case None
    then have "andThen (upsertResolvedSubscription (newId (rsvId sub)) (eNow env) sub) (ret ()) db = (r, db')"
      using run by (simp add: reconcileOne_def getSubscriptionByMarketplaceId_def bind_Inr)
    then show ?thesis by (rule movesD [OF tables.moves_andThen [OF tables.frame_upsert tables.moves_ret]])
  next
    case (Some existing)
    let ?promote = "\<lambda>updated. if subStatus updated = Subscribed \<and> subActivationStatus existing = ActInProgress
             then andThen (setActivationStatus (subId updated) ActActivated None) (ret ()) else ret ()"
    have "bind (updateSubscriptionFromMicrosoft (eNow env) sub) ?promote db = (r, db')"
      using run Some by (simp add: reconcileOne_def getSubscriptionByMarketplaceId_def bind_Inr)
    then show ?thesis
    proof (cases rule: bind_cases)
      case (raised e)
      then show ?thesis using movesD [OF tables.frame_sync] by blast
    next
      case (went_on updated db1)
      have id: "subId updated = subId existing"
        using updateSub_ok [OF went_on(1) [unfolded updateSubscriptionFromMicrosoft_def]] Some by auto
      define X where "X = (if subActivationStatus existing = ActInProgress then {subId existing} else {})"
      have "moves (inv_with X) (?promote updated)"
        by (intro tables.moves_if tables.moves_andThen tables.moves_ret) (simp add: X_def id inv_setActivationStatus)
      from tables.R_trans [OF movesD [OF tables.frame_sync went_on(1)] movesD [OF this went_on(2)]]
      have "inv_with X db db'" .
      moreover have "linkedIn X db" if "mp_inv db"
        using that find_SomeD [OF Some] sub_of_unique
        by (auto simp: linkedIn_def X_def mp_inv_def list_all_iff activation_ok_def)
      ultimately show ?thesis by (auto simp: inv_with_def linkedIn_def)
    qed
  qed
qed

lemma inv_run: "moves (inv_with {}) (mp_run env c)"
  by (intro tables.moves_mp_run tables.moves_linkAccount tables.moves_linkOrganization inv_links inv_activate
      inv_reconcileOne)

definition emptyDb :: "marketplace_plan list \<Rightarrow> mp_db" where
  "emptyDb plans =
     \<lparr>dbSubs = [], dbSessions = [], dbPlans = plans, dbUsage = [], dbBilling = [], dbWebhooks = [],
      dbOperations = [], dbToken = None\<rparr>"

definition mp_start :: "mp_db \<Rightarrow> bool" where
  "mp_start db \<longleftrightarrow> (\<exists>plans. db = emptyDb plans)"

interpretation mp_runs: invariant_system mp_start mp_step mp_inv
proof
  show "mp_start db \<Longrightarrow> mp_inv db" for db
    by (auto simp: mp_start_def emptyDb_def mp_inv_def subsUnique_def)
  show "mp_inv db \<Longrightarrow> mp_step db db' \<Longrightarrow> mp_inv db'" for db db'
    by (auto simp: inv_with_def linkedIn_def elim!: mp_step.cases dest!: movesD [OF inv_run])
qed

section \<open>Billing and webhooks only grow\<close>

lemma updateSub_tables:
  assumes "updateSub p f db = (r, db')"
  shows "dbBilling db' = dbBilling db \<and> dbWebhooks db' = dbWebhooks db"
  using updateSub_run [OF assms] by auto

lemma upsert_tables:
  assumes "upsertResolvedSubscription i now latest db = (r, db')"
  shows "dbBilling db' = dbBilling db \<and> dbWebhooks db' = dbWebhooks db"
proof (cases "\<exists>r \<in> set (dbSubs db). subMarketplaceId r = rsvId latest")
  case True
  then show ?thesis using assms updateSub_tables unfolding upsertResolvedSubscription_def by auto
next
  case False
  then show ?thesis using assms
    by (auto simp: upsertResolvedSubscription_def Let_def putSubs_def andThen_def bind_def split: if_splits)
qed

definition billing_grows :: "mp_db \<Rightarrow> mp_db \<Rightarrow> bool" where
  "billing_grows db db' \<longleftrightarrow> (\<exists>bs. dbBilling db' = dbBilling db @ bs)"

lemma billing_same: "dbBilling db' = dbBilling db \<Longrightarrow> billing_grows db db'"
  by (simp add: billing_grows_def)

lemma billing_updateSub: "moves billing_grows (updateSub p f)"
  by (rule movesI) (simp add: billing_same updateSub_tables)

interpretation ledger: service_frame billing_grows
proof
  fix s t u db :: mp_db
  show "billing_grows s s" by (simp add: billing_grows_def)
  show "billing_grows s t \<Longrightarrow> billing_grows t u \<Longrightarrow> billing_grows s u" by (auto simp: billing_grows_def)
  show "billing_grows db (db\<lparr>dbToken := tk\<rparr>)" "billing_grows db (db\<lparr>dbSessions := ss\<rparr>)"
    "billing_grows db (db\<lparr>dbOperations := os\<rparr>)" "billing_grows db (db\<lparr>dbWebhooks := ws\<rparr>)" for tk ss os ws
    by (simp_all add: billing_grows_def)
  show "moves billing_grows (recordBillingUsageEvent i now p sid)" for i now p sid
    by (rule movesI, erule recordBilling_run) (auto simp: billing_grows_def)
  show "moves billing_grows (createOrUpdateUsageEvent i sub orgId d q time src)" for i sub orgId d q time src
    by (rule movesI) (auto simp: createOrUpdateUsageEvent_def Let_def billing_same split: if_splits)
  show "moves billing_grows (updateUsageEventStatus now i st resp)" for now i st resp
    by (rule movesI) (auto simp: updateUsageEventStatus_def billing_same split: if_splits)
  show "moves billing_grows (upsertResolvedSubscription i now latest)" for i now latest
    by (rule movesI) (simp add: billing_same upsert_tables)
qed (simp_all add: updateSubscriptionFromMicrosoft_def setSubscriptionStatus_def setSubscriptionPlanId_def billing_updateSub)

lemma billing_run: "moves billing_grows (mp_run env c)"
  by (intro ledger.moves_mp_run ledger.moves_linkAccount ledger.moves_linkOrganization ledger.moves_activateSubscription
      ledger.moves_reconcileOne) (simp_all add: linkUser_def linkOrganizationRow_def setActivationStatus_def billing_updateSub)

lemma billing_steps: "mp_step\<^sup>*\<^sup>* db db' \<Longrightarrow> billing_grows db db'"
  by (induction rule: rtranclp_induct)
    (auto intro: ledger.R_refl ledger.R_trans movesD [OF billing_run] elim!: mp_step.cases)

definition hooks_same :: "mp_db \<Rightarrow> mp_db \<Rightarrow> bool" where
  "hooks_same db db' \<longleftrightarrow> dbWebhooks db' = dbWebhooks db"

lemma hooks_updateSub: "moves hooks_same (updateSub p f)"
  by (rule movesI) (simp add: hooks_same_def updateSub_tables)

interpretation hooks: table_frame hooks_same
proof
  fix s t u db :: mp_db
  show "hooks_same s s" "hooks_same db (db\<lparr>dbToken := tk\<rparr>)" "hooks_same db (db\<lparr>dbSessions := ss\<rparr>)"
    "hooks_same db (db\<lparr>dbOperations := os\<rparr>)" for tk ss os by (simp_all add: hooks_same_def)
  show "hooks_same s t \<Longrightarrow> hooks_same t u \<Longrightarrow> hooks_same s u" by (simp add: hooks_same_def)
  show "moves hooks_same (recordBillingUsageEvent i now p sid)" for i now p sid
    by (rule movesI) (auto simp: recordBillingUsageEvent_def hooks_same_def split: if_splits)
  show "moves hooks_same (createOrUpdateUsageEvent i sub orgId d q time src)" for i sub orgId d q time src
    by (rule movesI) (auto simp: createOrUpdateUsageEvent_def Let_def hooks_same_def split: if_splits)
  show "moves hooks_same (updateUsageEventStatus now i st resp)" for now i st resp
    by (rule movesI) (auto simp: updateUsageEventStatus_def hooks_same_def split: if_splits)
  show "moves hooks_same (upsertResolvedSubscription i now latest)" for i now latest
    by (rule movesI) (simp add: hooks_same_def upsert_tables)
qed (simp_all add: updateSubscriptionFromMicrosoft_def setSubscriptionStatus_def setSubscriptionPlanId_def hooks_updateSub)

subsection \<open>The setup fee\<close>

definition setupFeeKey :: "string \<Rightarrow> string \<times> string" where
  "setupFeeKey i = (''organization_setup_completed'', i)"

definition setupFees :: "mp_db \<Rightarrow> string \<Rightarrow> billing_usage_event list" where
  "setupFees db i = filter (\<lambda>b. billingKey b = setupFeeKey i) (dbBilling db)"

lemma andThen_last: "andThen m n s = (Inr x, s') \<Longrightarrow> \<exists>y s1. m s = (Inr y, s1) \<and> n s1 = (Inr x, s')"
  by (auto elim!: andThen_cases)

lemma markActivated_bills:
  assumes "markActivated env row orgId db = (Inr x, db')"
  shows "setupFees db' (subId (snd row)) \<noteq> []"
proof -
  obtain db1 where "recordSetupFeeUsage env (snd row) orgId db1 = (Inr x, db')"
    using assms unfolding markActivated_def by (blast dest: andThen_last)
  then show ?thesis
    unfolding recordSetupFeeUsage_def
    by (cases rule: recordBilling_run) (auto simp: setupFees_def setupFeeKey_def setupFeePayload_def filter_empty_conv)
qed

lemma setupFees_grow: "billing_grows db db' \<Longrightarrow> \<exists>bs. setupFees db' i = setupFees db i @ bs"
  by (auto simp: billing_grows_def setupFees_def)

lemma activateLinked_bills:
  assumes "activateLinked env row orgId db = (Inr res, db')"
  shows "setupFees db' (subId (snd row)) \<noteq> [] \<and> arSubscriptionId res = subMarketplaceId (snd row)"
proof -
  have bills: "setupFees db2 (subId (snd row)) \<noteq> []"
    if "markActivated env row orgId s = (Inr y, s1)" "moves billing_grows m" "m s1 = (r, db2)" for s y s1 m r db2
    using markActivated_bills [OF that(1)] setupFees_grow [OF movesD [OF that(2,3)], of "subId (snd row)"] by auto
  consider (subscribed) y where "subStatus (snd row) = Subscribed" "markActivated env row orgId db = (Inr y, db')"
    | (attempt) db1 where "activationAttempt env row orgId db1 = (Inr res, db')"
    using assms unfolding activateLinked_def
    by (auto simp: tryCatch_def andThen_def bind_def split: if_splits prod.splits sum.splits)
  then show ?thesis
  proof cases
    case subscribed
    then show ?thesis using assms markActivated_bills
      by (auto simp: activateLinked_def andThen_def bind_def split: prod.splits sum.splits)
  next
    case attempt
    show ?thesis
    proof (cases "localMockEnabled env")
      case True
      then show ?thesis using attempt unfolding activationAttempt_def Let_def
        by (auto dest!: andThen_last dest: markActivated_bills)
    next
      case False
      then obtain s y s1 where mark: "markActivated env row orgId s = (Inr y, s1)"
        and rest: "bind (refreshStatus env (snd row)) (\<lambda>status. ret \<lparr>arSubscriptionId = subMarketplaceId (snd row),
             arOrgId = orgId, arActivationStatus = ActActivated, arStatus = status\<rparr>) s1 = (Inr res, db')"
        using attempt unfolding activationAttempt_def Let_def by (auto dest!: andThen_last)
      have grow: "moves billing_grows (refreshStatus env (snd row))"
        unfolding refreshStatus_def by (intro ledger.moves_rules ledger.moves_tables)
      show ?thesis using rest by (cases rule: bind_cases) (auto dest: bills [OF mark grow])
    qed
  qed
qed

lemma setupFees_unique: "mp_inv db \<Longrightarrow> length (setupFees db i) \<le> 1"
proof -
  assume "mp_inv db"
  then have "distinct (map billingKey (setupFees db i))" by (simp add: mp_inv_def setupFees_def distinct_map_filter)
  moreover have "set (map billingKey (setupFees db i)) \<subseteq> {setupFeeKey i}" by (auto simp: setupFees_def)
  ultimately show ?thesis
    by (metis card_insert_disjoint card_mono distinct_card empty_iff finite.emptyI finite_insert length_map One_nat_def card.empty)
qed

subsection \<open>The webhook\<close>

lemma acknowledge_acks:
  assumes "acknowledge env i p db = (Inr x, db')" and "truthy (wpId p)"
  shows "\<exists>o' \<in> set (dbOperations db'). operationKey o' = (orEmpty (wpId p), i) \<and> opAckStatus o' = AckSuccess"
proof -
  obtain db1 where "updateOperationAckStatus (orEmpty (wpId p)) i AckSuccess None db1 = (Inr x, db')"
    using assms unfolding acknowledge_def by (auto dest!: andThen_last)
  then obtain o' where o': "o' \<in> set (dbOperations db1)" "operationKey o' = (orEmpty (wpId p), i)"
    and db': "dbOperations db' = updateWhere (\<lambda>o'. operationKey o' = (orEmpty (wpId p), i))
      (\<lambda>o'. o'\<lparr>opAckStatus := AckSuccess, opAckError := keep None (opAckError o')\<rparr>) (dbOperations db1)"
    by (auto simp: updateOperationAckStatus_def split: if_splits)
  then have "o'\<lparr>opAckStatus := AckSuccess, opAckError := keep None (opAckError o')\<rparr> \<in> set (dbOperations db')"
    by (auto simp: set_updateWhere)
  then show ?thesis by (rule bexI [rotated]) (use o'(2) in \<open>simp add: operationKey_def\<close>)
qed

text \<open>The actions that Microsoft waits for.\<close>

definition waitsForAck :: "MarketplaceWebhookPayload \<Rightarrow> bool" where
  "waitsForAck p \<longleftrightarrow> needsAck (wpAction p) \<and> truthy (wpId p) \<and> (wpAction p = ''ChangePlan'' \<longrightarrow> truthy (wpPlanId p))"

lemma webhookEffect_acks:
  assumes "webhookEffect env i p db = (Inr x, db')" and "waitsForAck p"
  shows "\<exists>db1. acknowledge env i p db1 = (Inr x, db')"
proof -
  from assms(2) consider "wpAction p = ''ChangePlan''" "truthy (wpPlanId p)" | "wpAction p = ''ChangeQuantity''" | "wpAction p = ''Reinstate''"
    by (auto simp: waitsForAck_def needsAck_def)
  then show ?thesis
    using assms(1) by cases (auto simp: webhookEffect_def dest!: andThen_last)
qed

lemma applyWebhookAction_acks:
  assumes "applyWebhookAction env i p db = (Inr x, db')" and "waitsForAck p"
  shows "\<exists>o' \<in> set (dbOperations db'). operationKey o' = (orEmpty (wpId p), i) \<and> opAckStatus o' = AckSuccess"
proof -
  obtain db1 where "webhookEffect env i p db1 = (Inr x, db')"
    using assms(1) unfolding applyWebhookAction_def by (blast dest: andThen_last)
  then obtain db2 where "acknowledge env i p db2 = (Inr x, db')"
    using webhookEffect_acks assms(2) by blast
  then show ?thesis using assms(2) acknowledge_acks unfolding waitsForAck_def by blast
qed

text \<open>The mark at the end of processing reaches exactly the event created for this delivery.\<close>

lemma updateWebhookEvent_fresh:
  assumes "whId w = i" and "i \<notin> whId ` set ws" and "dbWebhooks db = ws @ [w]"
  shows "updateWebhookEvent i st e db =
    (Inr (), db\<lparr>dbWebhooks := ws @ [w\<lparr>whProcessingStatus := st, whError := keep e (whError w)\<rparr>]\<rparr>)"
proof -
  have "updateWhere (\<lambda>w. whId w = i) f ws = ws" for f
    using assms(2) by (induction ws) auto
  moreover have "updateWhere p f (ws @ [w]) = updateWhere p f ws @ updateWhere p f [w]" for p f
    by (simp add: updateWhere_def)
  ultimately show ?thesis using assms by (simp add: updateWebhookEvent_def)
qed

text \<open>What one delivery records, and what it leaves when it succeeds.\<close>

definition delivered :: "MarketplaceWebhookPayload \<Rightarrow> error + unit \<Rightarrow> mp_db \<Rightarrow> mp_db \<Rightarrow> bool" where
  "delivered p r db db' \<longleftrightarrow>
     (\<exists>w. dbWebhooks db' = dbWebhooks db @ [w] \<and> whSubscriptionId w = wpSubscriptionId p \<and> whAction w = wpAction p \<and>
        (case r of
           Inr _ \<Rightarrow> whProcessingStatus w = WhProcessed \<and> whError w = None
         | Inl e \<Rightarrow> whProcessingStatus w = WhFailed \<and> whError w \<noteq> None))"

lemma delivered_mark:
  assumes "dbWebhooks db1 = dbWebhooks db @ [w]" "whId w = i" "i \<notin> whId ` set (dbWebhooks db)"
    "whSubscriptionId w = wpSubscriptionId p" "whAction w = wpAction p" "whError w = None"
    and "st = (case r of Inr _ \<Rightarrow> WhProcessed | Inl _ \<Rightarrow> WhFailed)" "(e = None) = (\<exists>x. r = Inr x)"
    and "updateWebhookEvent i st e db1 = (y, db')"
  shows "y = Inr () \<and> delivered p r db db' \<and> dbOperations db' = dbOperations db1"
proof -
  have "y = Inr ()" and db': "db' = db1\<lparr>dbWebhooks := dbWebhooks db @ [w\<lparr>whProcessingStatus := st, whError := keep e (whError w)\<rparr>]\<rparr>"
    using assms(9) unfolding updateWebhookEvent_fresh [OF assms(2,3,1)] by simp_all
  moreover have "keep e (whError w) = e" using assms(6) by (simp add: keep_def split: option.split)
  ultimately show ?thesis
    using assms(4,5,7,8) by (cases r) (simp_all add: delivered_def)
qed

lemma processWebhook_found:
  assumes w: "whId w = eUuid env 5" "whSubscriptionId w = wpSubscriptionId p" "whAction w = wpAction p" "whError w = None"
    and run: "tryCatch (andThen (applyWebhookAction env (subId r0) p) (updateWebhookEvent (whId w) WhProcessed None))
       (\<lambda>e. andThen (updateWebhookEvent (whId w) WhFailed (Some (errorMessage e))) (throw e))
       (db\<lparr>dbWebhooks := dbWebhooks db @ [w]\<rparr>) = (r, db')"
    and fresh: "eUuid env 5 \<notin> whId ` set (dbWebhooks db)"
  shows "delivered p r db db' \<and> (r = Inr () \<and> waitsForAck p \<longrightarrow>
    (\<exists>o' \<in> set (dbOperations db'). operationKey o' = (orEmpty (wpId p), subId r0) \<and> opAckStatus o' = AckSuccess))"
proof -
  obtain x db1 where action: "applyWebhookAction env (subId r0) p (db\<lparr>dbWebhooks := dbWebhooks db @ [w]\<rparr>) = (x, db1)"
    by fastforce
  have hooks1: "dbWebhooks db1 = dbWebhooks db @ [w]"
    using movesD [OF hooks.moves_applyWebhookAction action] by (simp add: hooks_same_def)
  note mark = delivered_mark [OF hooks1 w(1) fresh w(2,3,4)]
  show ?thesis
  proof (cases x)
    case (Inl e)
    obtain y db2 where u: "updateWebhookEvent (eUuid env 5) WhFailed (Some (errorMessage e)) db1 = (y, db2)" by fastforce
    from mark [where r = "Inl e", OF _ _ u] have m: "y = Inr ()" "delivered p (Inl e) db db2" by simp_all
    have "r = Inl e" "db' = db2"
      using run u m(1) by (simp_all add: tryCatch_def andThen_def bind_def action Inl w)
    then show ?thesis using m by simp
  next
    case (Inr z)
    obtain y db2 where u: "updateWebhookEvent (eUuid env 5) WhProcessed None db1 = (y, db2)" by fastforce
    from mark [where r = "Inr ()", OF _ _ u]
    have m: "y = Inr ()" "delivered p (Inr ()) db db2" "dbOperations db2 = dbOperations db1" by simp_all
    have "r = Inr ()" "db' = db2"
      using run u m(1) by (simp_all add: tryCatch_def andThen_def bind_def action Inr w)
    then show ?thesis using m applyWebhookAction_acks [OF action [unfolded Inr]] by simp
  qed
qed

interpretation unchanged: effect_preorder "(=) :: mp_db \<Rightarrow> mp_db \<Rightarrow> bool"
  by unfold_locales simp_all

lemma validate_run: "validateAuthorization env a db = (fst (validateAuthorization env a db), db)"
proof -
  have "moves (=) (validateAuthorization env a)"
    unfolding validateAuthorization_def Let_def by (intro unchanged.moves_rules)
  then have "snd (validateAuthorization env a db) = db" by (simp add: moves_def)
  then show ?thesis by (metis prod.collapse)
qed

lemma processWebhook_body:
  assumes run: "processWebhookBody env p db = (r, db')" and fresh: "eUuid env 5 \<notin> whId ` set (dbWebhooks db)"
  shows "delivered p r db db' \<and> (r = Inr () \<longrightarrow>
      (\<exists>sub \<in> set (dbSubs db). subMarketplaceId sub = wpSubscriptionId p \<and>
        (waitsForAck p \<longrightarrow> (\<exists>o' \<in> set (dbOperations db').
           operationKey o' = (orEmpty (wpId p), subId sub) \<and> opAckStatus o' = AckSuccess))))"
proof -
  let ?find = "List.find (\<lambda>r. subMarketplaceId r = wpSubscriptionId p) (dbSubs db)"
  define w where "w = \<lparr>whId = eUuid env 5, whOperationId = wpId p, whActivityId = wpActivityId p,
              whSubscriptionId = wpSubscriptionId p, whMarketplaceSubscriptionId = map_option subId ?find,
              whAction = wpAction p, whStatus = wpStatus p, whValidationStatus = Some ''validated'',
              whProcessingStatus = WhReceived, whError = None\<rparr>"
  have rest: "(case ?find of
         None \<Rightarrow> andThen (updateWebhookEvent (whId w) WhFailed (Some ''Subscription not found''))
             (throw (BadRequestException ''Marketplace subscription not found''))
       | Some r \<Rightarrow> tryCatch (andThen (applyWebhookAction env (subId r) p) (updateWebhookEvent (whId w) WhProcessed None))
             (\<lambda>e. andThen (updateWebhookEvent (whId w) WhFailed (Some (errorMessage e))) (throw e)))
      (db\<lparr>dbWebhooks := dbWebhooks db @ [w]\<rparr>) = (r, db')"
    using run unfolding processWebhookBody_def getSubscriptionByMarketplaceId_def createWebhookEvent_def bind_def w_def
    by (simp add: Let_def)
  show ?thesis
  proof (cases ?find)
    case None
    obtain y db2 where u: "updateWebhookEvent (eUuid env 5) WhFailed (Some ''Subscription not found'')
        (db\<lparr>dbWebhooks := dbWebhooks db @ [w]\<rparr>) = (y, db2)" by fastforce
    have m: "y = Inr () \<and> delivered p (Inl e) db db2" for e
      using delivered_mark [where r = "Inl e" and w = w, OF _ _ fresh _ _ _ _ _ u] by (simp add: w_def)
    have "(\<exists>e. r = Inl e) \<and> db' = db2"
      using rest u m unfolding None by (auto simp: andThen_def bind_def w_def)
    then show ?thesis using m by auto
  next
    case (Some r0)
    have "whId w = eUuid env 5" "whSubscriptionId w = wpSubscriptionId p" "whAction w = wpAction p" "whError w = None"
      by (simp_all add: w_def)
    from processWebhook_found [OF this _ fresh] show ?thesis
      using rest find_SomeD [OF Some] unfolding Some by auto
  qed
qed

section \<open>Properties\<close>

text \<open>
  C3. Who can change the links of a subscription. Whatever message or job runs and whatever Microsoft and
  the organisation service answer, a stored subscription stays stored, and: its account changes only
  when a signed-in user links it whose e-mail address is the purchaser's or the beneficiary's (compared
  without case); its organisation changes only when the account-linked user links one that user owns, or
  one that was created for that user; its activation status changes only when the account-linked user
  activates it for the linked organisation, or when reconciliation promotes one in progress.
\<close>

theorem link_changes_authorised:
  assumes "mp_run env c db = (r, db')" and "sub_of db i = Some row"
  shows "\<exists>row'. sub_of db' i = Some row' \<and>
    (subLocalUserId row' \<noteq> subLocalUserId row \<longrightarrow>
      (\<exists>sid user. c = LinkAccount sid user \<and> subLocalUserId row' = Some (muId user) \<and> boughtBy user row)) \<and>
    (subOrgId row' \<noteq> subOrgId row \<longrightarrow>
      (\<exists>sid mode user orgId. c = LinkOrganization sid mode user \<and> subOrgId row' = Some orgId \<and>
         subLocalUserId row = Some (muId user) \<and> orgGranted env user mode orgId)) \<and>
    (subActivationStatus row' \<noteq> subActivationStatus row \<longrightarrow>
      (\<exists>sid orgId userId. c = ActivateSubscription sid orgId userId \<and> subLocalUserId row = Some userId \<and>
         subOrgId row = Some orgId) \<or>
      (\<exists>newId. c = Reconcile newId \<and> subActivationStatus row = ActInProgress \<and>
         subActivationStatus row' = ActActivated))"
  using run_user [OF assms] run_org [OF assms] run_activation [OF assms] by fastforce

definition sampleSession :: marketplace_onboarding_session where
  "sampleSession =
     \<lparr>obId = ''o1'', obSubscriptionId = ''s1'', obTokenHash = ''h'', obBuyerTenantId = None, obBuyerObjectId = None,
      obBuyerEmail = None, obStatus = ObResolved, obExpiresAt = 9000000, obCreateDateTime = 0\<rparr>"

definition freshDb :: mp_db where
  "freshDb = sampleDb\<lparr>dbSubs := [sampleSub\<lparr>subLocalUserId := None, subOrgId := None, subActivationStatus := ActNotStarted\<rparr>],
     dbSessions := [sampleSession], dbUsage := [], dbBilling := []\<rparr>"

definition buyer :: "string \<Rightarrow> mp_user" where
  "buyer email = \<lparr>muId = ''user'', muEmail = Some email, muKeycloakUserId = None\<rparr>"

theorem link_changes_authorised_witness:
  "boughtBy (buyer ''buyer@X.bt'') sampleSub \<and>
   map_option subLocalUserId (sub_of (snd (mp_run sampleEnv (LinkAccount ''o1'' (buyer ''buyer@X.bt'')) freshDb)) ''s1'')
     = Some (Some ''user'') \<and>
   map_option subLocalUserId (sub_of (snd (mp_run sampleEnv (LinkAccount ''o1'' (buyer ''other@x.bt'')) freshDb)) ''s1'')
     = Some None"
proof -
  let ?c = "LinkAccount ''o1'' (buyer ''buyer@X.bt'')" and ?d = "LinkAccount ''o1'' (buyer ''other@x.bt'')"
  let ?row = "sampleSub\<lparr>subLocalUserId := None, subOrgId := None, subActivationStatus := ActNotStarted\<rparr>"
  have row: "sub_of freshDb ''s1'' = Some ?row" by code_simp
  have linked: "map_option subLocalUserId (sub_of (snd (mp_run sampleEnv ?c freshDb)) ''s1'') = Some (Some ''user'')"
    by code_simp
  have "boughtBy (buyer ''buyer@X.bt'') ?row"
    using link_changes_authorised [OF prod.collapse [symmetric, of "mp_run sampleEnv ?c freshDb"] row] linked by auto
  then have "boughtBy (buyer ''buyer@X.bt'') sampleSub" by (simp add: boughtBy_def)
  moreover have "map_option subLocalUserId (sub_of (snd (mp_run sampleEnv ?d freshDb)) ''s1'') = Some None"
    by code_simp
  ultimately show ?thesis using linked by blast
qed

text \<open>
  C6. The invariant of the Marketplace tables, in every state any sequence of messages and jobs reaches:
  ids are unique and no organisation has two live subscriptions, a subscription whose activation has
  started is linked to an account and an organisation, and each billable event and each metered hour is
  recorded once.
\<close>

theorem marketplace_invariant:
  assumes "reachable_from mp_start mp_step db"
  shows "subsUnique (dbSubs db) \<and>
    (\<forall>r \<in> set (dbSubs db). subActivationStatus r \<noteq> ActNotStarted \<longrightarrow> subLocalUserId r \<noteq> None \<and> subOrgId r \<noteq> None) \<and>
    distinct (map billingKey (dbBilling db)) \<and> distinct (map usageKey (dbUsage db))"
  using mp_runs.reachable_inv [OF assms]
  by (auto simp: mp_inv_def list_all_iff activation_ok_def rowLinked_def)

text \<open>A whole onboarding against the local mock.\<close>

definition mockEnv :: mp_env where
  "mockEnv = sampleEnv\<lparr>eVar := \<lambda>_. Some ''true''\<rparr>"

definition onboarding :: "mp_call list" where
  "onboarding =
     [Resolve ''token'' None, LinkAccount ''uuu'' (buyer ''Buyer@example.com''),
      LinkOrganization ''uuu'' (CreateOrg (Some \<lparr>odName = ''Org'', odDescription = None, odWebsite = None, odLogo = None\<rparr>))
        (buyer ''Buyer@example.com''),
      ActivateSubscription ''uuu'' ''org'' ''user'', ActivateSubscription ''uuu'' ''org'' ''user'']"

definition onboarded :: "nat \<Rightarrow> mp_db" where
  "onboarded n = foldl (\<lambda>db c. snd (mp_run mockEnv c db)) (emptyDb []) (take n onboarding)"

lemma onboarded_Suc:
  "n < length onboarding \<Longrightarrow> onboarded (Suc n) = snd (mp_run mockEnv (onboarding ! n) (onboarded n))"
  by (simp add: onboarded_def take_Suc_conv_app_nth)

lemma mp_step_run: "mp_step db (snd (mp_run env c db))"
  by (rule mp_step.call) (rule prod.collapse [symmetric])

lemma onboarded_reachable: "reachable_from mp_start mp_step (onboarded n)"
proof -
  have "reachable_from mp_start mp_step (foldl (\<lambda>db c. snd (mp_run mockEnv c db)) db cs)"
    if "reachable_from mp_start mp_step db" for db cs
    using that by (induction cs arbitrary: db) (auto intro: reachable_from.move mp_step_run)
  moreover have "reachable_from mp_start mp_step (emptyDb [])"
    by (rule reachable_from.init) (auto simp: mp_start_def)
  ultimately show ?thesis by (simp add: onboarded_def)
qed

theorem marketplace_invariant_witness:
  "reachable_from mp_start mp_step (onboarded 4) \<and>
   map subActivationStatus (dbSubs (onboarded 4)) = [ActActivated] \<and>
   list_all (\<lambda>r. subOrgId r \<noteq> None) (dbSubs (onboarded 4))"
proof -
  have act: "map subActivationStatus (dbSubs (onboarded 4)) = [ActActivated]" by code_simp
  then have "\<forall>r \<in> set (dbSubs (onboarded 4)). subActivationStatus r \<noteq> ActNotStarted"
    by (cases "dbSubs (onboarded 4)") auto
  then show ?thesis using marketplace_invariant [OF onboarded_reachable [of 4]] onboarded_reachable [of 4] act
    unfolding list_all_iff by blast
qed

text \<open>
  C25. The setup fee is billed exactly once. After a successful activation in a reachable state there is
  exactly one setup-fee event of the subscription, and it stays the only one through every later run of
  messages and jobs, further activations included; one that was recorded before stays as it was.
\<close>

theorem setup_fee_once:
  assumes "reachable_from mp_start mp_step db"
    and "activateSubscription env sid orgId userId db = (Inr res, db1)"
    and "mp_step\<^sup>*\<^sup>* db1 db2"
  shows "\<exists>sub. sub_of db (subId sub) = Some sub \<and> subMarketplaceId sub = arSubscriptionId res \<and>
    length (setupFees db2 (subId sub)) = 1 \<and>
    (setupFees db (subId sub) \<noteq> [] \<longrightarrow> setupFees db2 (subId sub) = setupFees db (subId sub))"
proof -
  have run: "mp_run env (ActivateSubscription sid orgId userId) db = (Inr (), db1)"
    using assms(2) by (simp add: andThen_def bind_def)
  have inv1: "reachable_from mp_start mp_step db1"
    using reachable_from.move [OF assms(1), OF mp_step.call [OF run]] .
  have inv2: "mp_inv db2" using mp_runs.steps_inv [OF assms(3) mp_runs.reachable_inv [OF inv1]] .
  from assms(2) obtain s sub where sub: "sub_of db (subId sub) = Some sub"
    and body: "activateLinked env (s, sub) orgId db = (Inr res, db1)"
  proof (cases rule: activateSubscription_cases)
    case 1
    show ?thesis using assms(2) that unfolding activateSubscription_def
      by (cases rule: bind_cases) (auto simp: assertSessionAccountLinkedTo_def andThen_def split: if_splits
          dest: getValidSession_state getValidSession_row)
  qed (rule that)
  have bills: "setupFees db1 (subId sub) \<noteq> []" "arSubscriptionId res = subMarketplaceId sub"
    using activateLinked_bills [OF body] by simp_all
  obtain bs where bs: "setupFees db2 (subId sub) = setupFees db1 (subId sub) @ bs"
    using setupFees_grow [OF billing_steps [OF assms(3)]] by blast
  obtain cs where cs: "setupFees db1 (subId sub) = setupFees db (subId sub) @ cs"
    using setupFees_grow [OF movesD [OF billing_run run]] by blast
  have one: "length (setupFees db2 (subId sub)) = 1"
    using setupFees_unique [OF inv2, of "subId sub"] bills(1) bs by (cases "setupFees db1 (subId sub)") auto
  moreover have "setupFees db2 (subId sub) = setupFees db (subId sub)" if "setupFees db (subId sub) \<noteq> []"
    using that one bs cs by (cases "setupFees db (subId sub)") auto
  ultimately show ?thesis using sub bills(2) by auto
qed

lemma run_ok: "isl (fst x) = False \<Longrightarrow> \<exists>r. x = (Inr r, snd x)"
  by (cases x; cases "fst x") auto

lemma activation_step:
  "activateSubscription env sid orgId userId db = (Inr res, db1) \<Longrightarrow>
   snd (mp_run env (ActivateSubscription sid orgId userId) db) = db1"
  by (simp add: andThen_def bind_def)

theorem setup_fee_once_witness:
  "(\<exists>i. length (setupFees (onboarded 5) i) = 1) \<and> length (dbBilling (onboarded 5)) = 1"
proof -
  let ?c = "ActivateSubscription ''uuu'' ''org'' ''user''"
  have "isl (fst (activateSubscription mockEnv ''uuu'' ''org'' ''user'' (onboarded 3))) = False" by code_simp
  from run_ok [OF this] obtain res db1
    where ok: "activateSubscription mockEnv ''uuu'' ''org'' ''user'' (onboarded 3) = (Inr res, db1)" by blast
  have "onboarded 4 = snd (mp_run mockEnv ?c (onboarded 3))" "onboarded 5 = snd (mp_run mockEnv ?c (onboarded 4))"
    using onboarded_Suc [of 3] onboarded_Suc [of 4] by (simp_all add: onboarding_def)
  then have "mp_step db1 (onboarded 5)"
    using mp_step_run [of "onboarded 4" mockEnv ?c] activation_step [OF ok] by simp
  from setup_fee_once [OF onboarded_reachable ok r_into_rtranclp [where r = mp_step, OF this]]
  have "\<exists>i. length (setupFees (onboarded 5) i) = 1" by blast
  moreover have "length (dbBilling (onboarded 5)) = 1" by code_simp
  ultimately show ?thesis by blast
qed

text \<open>
  C24. Every delivery of the webhook is accounted for. A delivery without valid authorisation or for
  another offer raises and changes nothing. Any other one adds exactly one event for the subscription and
  action, processed without an error when the call returns and failed with the reason when it raises, so
  Microsoft repeats exactly the failed ones. When a plan change, a quantity change or a reinstatement
  with an operation id returns, its operation is recorded as acknowledged.
\<close>

theorem webhook_accounted:
  assumes "processWebhook env p a db = (r, db')" and "eUuid env 5 \<notin> whId ` set (dbWebhooks db)"
  shows "if fst (validateAuthorization env a db) \<noteq> Inr () \<or> eVar env ''MARKETPLACE_OFFER_ID'' \<noteq> Some (wpOfferId p)
    then (\<exists>e. r = Inl e) \<and> db' = db
    else delivered p r db db' \<and> (r = Inr () \<longrightarrow>
      (\<exists>sub \<in> set (dbSubs db). subMarketplaceId sub = wpSubscriptionId p \<and>
        (waitsForAck p \<longrightarrow> (\<exists>o' \<in> set (dbOperations db').
           operationKey o' = (orEmpty (wpId p), subId sub) \<and> opAckStatus o' = AckSuccess))))"
proof (cases "fst (validateAuthorization env a db) \<noteq> Inr () \<or> eVar env ''MARKETPLACE_OFFER_ID'' \<noteq> Some (wpOfferId p)")
  case True
  then have "(\<exists>e. r = Inl e) \<and> db' = db"
    using assms(1) validate_run [of env a db] unfolding processWebhook_def
    by (cases "fst (validateAuthorization env a db)") (auto simp: andThen_def bind_def)
  then show ?thesis using True by simp
next
  case False
  then have body: "processWebhookBody env p db = (r, db')"
    using assms(1) validate_run [of env a db] unfolding processWebhook_def
    by (auto simp: andThen_def bind_def)
  have "delivered p r db db' \<and> (r = Inr () \<longrightarrow>
      (\<exists>sub \<in> set (dbSubs db). subMarketplaceId sub = wpSubscriptionId p \<and>
        (waitsForAck p \<longrightarrow> (\<exists>o' \<in> set (dbOperations db').
           operationKey o' = (orEmpty (wpId p), subId sub) \<and> opAckStatus o' = AckSuccess))))"
    by (rule processWebhook_body [OF body assms(2)])
  then show ?thesis using False by simp
qed

definition reinstate :: MarketplaceWebhookPayload where
  "reinstate =
     \<lparr>wpId = Some ''op1'', wpActivityId = None, wpOfferId = ''x'', wpPlanId = None, wpQuantity = None,
      wpSubscriptionId = ''ms1'', wpAction = ''Reinstate'', wpStatus = None\<rparr>"

definition reinstateEnv :: mp_env where
  "reinstateEnv = sampleEnv\<lparr>eHttp := \<lambda>rq. if hqMethod rq = HttpPatch then HttpRejected 400 ''done''
     else HttpOk (BSubscription \<lparr>rsvId = ''ms1'', rsvName = None, rsvPublisherId = None, rsvOfferId = ''x'',
       rsvPlanId = ''plan'', rsvStatus = Subscribed, rsvBeneficiary = None, rsvPurchaser = None, rsvTerm = None,
       rsvAutoRenew = None, rsvIsFreeTrial = None, rsvIsTest = None, rsvSandboxType = None, rsvQuantity = None,
       rsvAllowedCustomerOperations = None\<rparr>)\<rparr>"

theorem webhook_accounted_witness:
  "\<exists>o' \<in> set (dbOperations (snd (processWebhook reinstateEnv reinstate None sampleDb))). opAckStatus o' = AckSuccess"
proof -
  have fresh: "eUuid reinstateEnv 5 \<notin> whId ` set (dbWebhooks sampleDb)"
    by (simp add: sampleDb_def)
  have ok: "isl (fst (processWebhook reinstateEnv reinstate None sampleDb)) = False" by code_simp
  have valid: "\<not> (fst (validateAuthorization reinstateEnv None sampleDb) \<noteq> Inr () \<or>
      eVar reinstateEnv ''MARKETPLACE_OFFER_ID'' \<noteq> Some (wpOfferId reinstate))"
    by (simp add: validateAuthorization_def envFlag_def isFlagEnabled_def reinstateEnv_def reinstate_def sampleEnv_def
        toLowerCase_def)
  have "waitsForAck reinstate" by (simp add: waitsForAck_def reinstate_def needsAck_def)
  moreover have "fst (processWebhook reinstateEnv reinstate None sampleDb) = Inr ()"
    using run_ok [OF ok] by (metis fst_conv old.unit.exhaust)
  ultimately show ?thesis
    using webhook_accounted [OF prod.collapse [symmetric] fresh, where p = reinstate and a = None] valid by auto
qed

end
