(* ===== verification/Guards.thy ===== *)
theory Guards
  imports Marketplace_Usage
begin

text \<open>
  Authorisation at the API gateway: \<open>JwtStrategy.validate\<close>, which turns the claims of a verified token into
  the user of the request (\<open>apps/api-gateway/src/authz/jwt.strategy.ts\<close>), the guards that read this user
  (\<open>authz/guards/*.ts\<close>, \<open>authz/roles.guard.ts\<close>) and the guards of the Marketplace
  (\<open>marketplace/guards/*.ts\<close>).

  A guard takes the request and returns \<open>true\<close>, \<open>false\<close> (which Nest answers with 403) or an exception; the
  two role guards also write the request and run as computations over it. Reading a property of
  \<open>undefined\<close> is a \<open>TypeError\<close>. \<open>validUuid\<close> stands for \<open>validate\<close> of the package \<open>uuid\<close>, \<open>jwt_ext\<close> for the
  services the strategy asks over NATS. The claims are those of \<open>JwtPayload\<close> with \<open>realm_access\<close> and a
  \<open>userRole\<close> claim.
\<close>

section \<open>Definitions\<close>

subsection \<open>Requests and users\<close>

record user_org_role =
  uorOrgId :: "string option"
  uorRole :: string

record ecosystem_role_group =
  erLead :: "string list option"
  erMember :: "string list option"

type_synonym ecosystem_access = "(string \<times> ecosystem_role_group option) list"

record gw_user =
  guId :: "string option"
  guEmail :: "string option"
  guUserRole :: "string option"
  guClientId :: "string option"
  guResourceAccess :: "(string \<times> string list) list option"
  guEcosystemAccess :: "ecosystem_access option"
  guRealmRoles :: "string list option"
  guUserOrgRoles :: "user_org_role list option"
  guSelectedOrg :: "(user_org_role \<times> string option list) option"  \<comment> \<open>the row and its \<open>orgRoles\<close>\<close>

record gw_body =
  bdOrgId :: "string option"
  bdOrganizationId :: "string option"

record gw_request =
  rqParamsOrgId :: "string option"
  rqParamsOrganizationId :: "string option"
  rqQueryOrgId :: "string option"
  rqBody :: "gw_body option"
  rqUser :: "gw_user option"

definition PLATFORM_ADMIN :: string where
  "PLATFORM_ADMIN = ''platform_admin''"

definition ECOSYSTEM_LEAD :: string where
  "ECOSYSTEM_LEAD = ''Ecosystem Lead''"

definition ECOSYSTEM_MEMBER :: string where
  "ECOSYSTEM_MEMBER = ''Ecosystem Member''"

definition holderUser :: "gw_user option \<Rightarrow> bool" where
  "holderUser user =
     (case user of None \<Rightarrow> False
      | Some u \<Rightarrow> truthy (guUserRole u) \<and> includesText (orEmpty (guUserRole u)) ''holder'')"

subsection \<open>The user of a token\<close>

record db_user =
  duId :: string
  duEmail :: "string option"
  duUserOrgRoles :: "user_org_role list"
  duRoleMappings :: "string option list option"  \<comment> \<open>\<open>user_role_mapping\<close>: the role of each row\<close>

record jwt_payload =
  jpSub :: string
  jpSid :: "string option"
  jpClientId :: "string option"
  jpEmail :: "string option"
  jpUserRole :: "string option"
  jpRealmRoles :: "string list option"
  jpResourceAccess :: "(string \<times> string list) list option"
  jpEcosystemAccess :: "ecosystem_access option"

text \<open>\<open>findOrganizationOwner\<close> answers the owner rows of the organisation, each with its user.\<close>

record jwt_ext =
  jxCheckSession :: "string \<Rightarrow> error + bool"
  jxFindOrganizationOwner :: "string \<Rightarrow> error + (user_org_role \<times> db_user) list option"
  jxFindUserinKeycloak :: "string \<Rightarrow> error + db_user option"

definition isHex :: "char \<Rightarrow> bool" where
  "isHex c = (let n = (of_char c :: nat) in (48 \<le> n \<and> n \<le> 57) \<or> (65 \<le> n \<and> n \<le> 70) \<or> (97 \<le> n \<and> n \<le> 102))"

definition uuidRegexTest :: "string \<Rightarrow> bool" where
  "uuidRegexTest s \<longleftrightarrow> map length (splitOn CHR ''-'' s) = [8, 4, 4, 4, 12] \<and>
     list_all (list_all isHex) (splitOn CHR ''-'' s)"

text \<open>The first part of \<open>validate\<close>: the session check and the account of the token, \<open>None\<close> for a token of a
  service.\<close>

definition sessionValid :: "jwt_ext \<Rightarrow> jwt_payload \<Rightarrow> bool" where
  "sessionValid ext p \<longleftrightarrow> (truthy (jpSid p) \<longrightarrow> jxCheckSession ext (orEmpty (jpSid p)) = Inr True)"

definition lookupUser :: "jwt_ext \<Rightarrow> jwt_payload \<Rightarrow> error + db_user option" where
  "lookupUser ext p =
     (case jpClientId p of
        Some clientId \<Rightarrow>
          (if uuidRegexTest clientId
           then (case jxFindOrganizationOwner ext clientId of
                   Inl e \<Rightarrow> Inl e
                 | Inr None \<Rightarrow> Inl (NotFoundException ''Organization does not exists'')
                 | Inr (Some []) \<Rightarrow> Inl undefinedRead
                 | Inr (Some ((role, user) # _)) \<Rightarrow> Inr (Some (user\<lparr>duUserOrgRoles := [role]\<rparr>)))
           else Inr None)
      | None \<Rightarrow> jxFindUserinKeycloak ext (jpSub p))"

definition isServiceToken :: "jwt_payload \<Rightarrow> bool" where
  "isServiceToken p = (case jpClientId p of None \<Rightarrow> False | Some clientId \<Rightarrow> \<not> uuidRegexTest clientId)"

definition isHolder :: "db_user option \<Rightarrow> bool" where
  "isHolder user =
     (case user of None \<Rightarrow> False
      | Some u \<Rightarrow> (case duRoleMappings u of None \<Rightarrow> False | Some ms \<Rightarrow> Some ''HOLDER'' \<in> set ms))"

definition validate :: "jwt_ext \<Rightarrow> jwt_payload \<Rightarrow> error + gw_user" where
  "validate ext p =
     (if \<not> sessionValid ext p then Inl (UnauthorizedException ''Authentication failed'')
      else
        (case lookupUser ext p of
           Inl e \<Rightarrow> Inl e
         | Inr userDetails \<Rightarrow>
             (if userDetails = None \<and> \<not> isServiceToken p then Inl (NotFoundException ''User not found'')
              else Inr \<lparr>guId = map_option duId userDetails,
                        guEmail = (case jpEmail p of Some e \<Rightarrow> Some e
                                   | None \<Rightarrow> (case userDetails of None \<Rightarrow> None | Some u \<Rightarrow> duEmail u)),
                        guUserRole = (if isHolder userDetails then Some ''holder'' else None),
                        guClientId = jpClientId p, guResourceAccess = jpResourceAccess p,
                        guEcosystemAccess = jpEcosystemAccess p, guRealmRoles = jpRealmRoles p,
                        guUserOrgRoles = map_option duUserOrgRoles userDetails, guSelectedOrg = None\<rparr>)))"

definition mobileValidate :: "string option \<Rightarrow> jwt_payload \<Rightarrow> error + jwt_payload" where
  "mobileValidate azp p =
     (if azp \<noteq> Some ''adeyaClient''
      then Inl (UnauthorizedException ''Authorization header contains an invalid token'') else Inr p)"

subsection \<open>Guards on the kind of account\<close>

definition clientAccessGuard :: "gw_user option \<Rightarrow> error + bool" where
  "clientAccessGuard user =
     (case user of
        None \<Rightarrow> Inl (UnauthorizedException ''You do not have access'')
      | Some u \<Rightarrow> (if guClientId u = None then Inl (UnauthorizedException ''You do not have access'') else Inr True))"

definition userAccessGuard :: "gw_user option \<Rightarrow> error + bool" where
  "userAccessGuard user =
     (case user of
        None \<Rightarrow> Inl undefinedRead
      | Some u \<Rightarrow>
          (if guClientId u \<noteq> None then Inl (UnauthorizedException ''You do not have access'')
           else if holderUser user then Inl (ForbiddenException ''This role is a holder.'')
           else Inr True))"

definition userRoleGuard :: "gw_user option \<Rightarrow> error + bool" where
  "userRoleGuard user =
     (case user of
        None \<Rightarrow> Inl (ForbiddenException ''This role is not a holder.'')
      | Some u \<Rightarrow>
          (if \<not> truthy (guUserRole u) then Inl (ForbiddenException ''This role is not a holder.'')
           else if \<not> includesText (orEmpty (guUserRole u)) ''holder''
           then Inl (ForbiddenException ''This role is not a holder.'')
           else Inr True))"

definition trustServiceRoleGuard :: "gw_user option \<Rightarrow> error + bool" where
  "trustServiceRoleGuard user =
     (case user of
        None \<Rightarrow> Inl (UnauthorizedException ''Unauthorized'')
      | Some u \<Rightarrow>
          (if ''trust-service'' \<notin> set (case guRealmRoles u of None \<Rightarrow> [] | Some rs \<Rightarrow> rs)
           then Inl (ForbiddenException ''Access restricted to trust-service clients only'') else Inr True))"

text \<open>\<open>sessionUser\<close> is \<open>userRepository.validateSession\<close>.\<close>

definition sessionGuard :: "(string \<Rightarrow> error + gw_user option) \<Rightarrow> string option \<Rightarrow> (gw_request, bool) eff" where
  "sessionGuard sessionUser cookie =
     (if truthy cookie
      then bind (lift (sessionUser (orEmpty cookie))) (\<lambda>user. andThen (writes (\<lambda>req. req\<lparr>rqUser := user\<rparr>)) (ret True))
      else ret True)"

definition ecosystemFeatureGuard :: "bool option \<Rightarrow> error + bool" where
  "ecosystemFeatureGuard isEcosystemEnabled =
     (if isEcosystemEnabled \<noteq> Some True then Inl (ForbiddenException ''You don't have access to this feature'') else Inr True)"

text \<open>The paths of an API document: per path its methods with their tags.\<close>

type_synonym api_paths = "(string \<times> (string \<times> string list option) list) list"

definition filterDocument :: "bool option \<Rightarrow> api_paths option \<Rightarrow> api_paths option" where
  "filterDocument isEcosystemEnabled paths =
     (if isEcosystemEnabled \<noteq> Some True
      then map_option (\<lambda>ps. filter (\<lambda>(path, ops). ops \<noteq> [])
             (map (\<lambda>(path, ops). (path, filter (\<lambda>(m, tags). \<not> (case tags of None \<Rightarrow> False | Some ts \<Rightarrow> ''ecosystem'' \<in> set ts)) ops)) ps)) paths
      else paths)"

text \<open>\<open>RolesGuard\<close>: the two metadata values and the permissions of the requestor's first role.\<close>

definition matchRoles :: "string list \<Rightarrow> string list \<Rightarrow> bool" where
  "matchRoles userPermissions apiPermissions = (\<exists>v \<in> set apiPermissions. v \<in> set userPermissions)"

definition rolesGuard :: "string list option \<Rightarrow> string list option \<Rightarrow> string list option \<Rightarrow> error + bool" where
  "rolesGuard permissions subscription userPermissions =
     (case permissions of
        None \<Rightarrow> Inr True
      | Some api \<Rightarrow>
          (if subscription = None then Inr True
           else (case userPermissions of None \<Rightarrow> Inl undefinedRead | Some ps \<Rightarrow> Inr (matchRoles ps api))))"

definition upperChar :: "char \<Rightarrow> char" where
  "upperChar c = (let n = (of_char c :: nat) in if 97 \<le> n \<and> n \<le> 122 then char_of (n - 32) else c)"

definition clientAliasTransform :: "string option \<Rightarrow> string \<Rightarrow> error + string" where
  "clientAliasTransform supported value =
     (let allowed = filter (\<lambda>a. a \<noteq> []) (map trim (splitOn CHR '','' (orEmpty supported)))
      in if value = [] then Inr value
         else if map upperChar value \<notin> set allowed then Inl (BadRequestException ''Invalid clientAlias'')
         else Inr (map upperChar value))"

subsection \<open>Roles in an organisation\<close>

definition sameOrg :: "string \<Rightarrow> user_org_role \<Rightarrow> bool" where
  "sameOrg orgId r \<longleftrightarrow> truthy (uorOrgId r) \<and> trim (orEmpty (uorOrgId r)) = trim orgId"

definition invalidOrgId :: error where
  "invalidOrgId = BadRequestException ''Invalid format for orgId''"

definition roleNotMatch :: error where
  "roleNotMatch = ForbiddenException ''User does not have access''"

definition orgNotMatch :: error where
  "orgNotMatch = ForbiddenException ''Organization does not have access''"

definition someRole :: "string list \<Rightarrow> string list \<Rightarrow> bool" where
  "someRole required held = (\<exists>r \<in> set required. r \<in> set held)"

text \<open>The entry of \<open>resource_access\<close> for the organisation, when the token has one.\<close>

definition resourceRoles :: "gw_user \<Rightarrow> string \<Rightarrow> string list option" where
  "resourceRoles u orgId = (case guResourceAccess u of None \<Rightarrow> None | Some ra \<Rightarrow> map_of ra orgId)"

definition isPlatformAdminRow :: "user_org_role \<Rightarrow> bool" where
  "isPlatformAdminRow r \<longleftrightarrow> uorRole r = PLATFORM_ADMIN"

text \<open>\<open>OrgRolesGuard\<close> on an organisation id. \<open>orgRoles\<close> is one entry per membership row, the role name or
  \<open>undefined\<close>.\<close>

definition orgMembership ::
  "(string \<Rightarrow> bool) \<Rightarrow> string list \<Rightarrow> string \<Rightarrow> gw_user option \<Rightarrow> (gw_request, bool) eff" where
  "orgMembership validUuid roles orgId user =
     (if \<not> validUuid orgId then throw invalidOrgId
      else case user of
        None \<Rightarrow> throw undefinedRead
      | Some u \<Rightarrow>
          (case resourceRoles u orgId of
             Some orgRoles \<Rightarrow> (if \<not> someRole roles orgRoles then throw roleNotMatch else ret True)
           | None \<Rightarrow>
               (case guUserOrgRoles u of
                  None \<Rightarrow> throw undefinedRead
                | Some rows \<Rightarrow>
                    (case List.find (sameOrg orgId) rows of
                       None \<Rightarrow> throw orgNotMatch
                     | Some specificOrg \<Rightarrow>
                         (let orgRoles = map (\<lambda>r. if sameOrg orgId r then Some (uorRole r) else None) rows
                          in andThen (writes (\<lambda>req. req\<lparr>rqUser := Some (u\<lparr>guSelectedOrg := Some (specificOrg, orgRoles)\<rparr>)\<rparr>))
                             (if \<not> (\<exists>r \<in> set roles. Some r \<in> set orgRoles) then throw roleNotMatch else ret True))))))"

definition orgRolesGuard :: "(string \<Rightarrow> bool) \<Rightarrow> string list option \<Rightarrow> (gw_request, bool) eff" where
  "orgRolesGuard validUuid requiredRoles =
     (case requiredRoles of
        None \<Rightarrow> throw (TypeError ''Cannot convert undefined or null to object'')
      | Some roles \<Rightarrow>
          bind (reads rqUser) (\<lambda>user.
          if holderUser user then throw (ForbiddenException ''This role is a holder.'')
          else
            andThen (writes (\<lambda>req. req\<lparr>
               rqParamsOrgId := Some (trim (orEmpty (rqParamsOrgId req))),
               rqQueryOrgId := Some (trim (orEmpty (rqQueryOrgId req))),
               rqBody := map_option (\<lambda>b. b\<lparr>bdOrgId := Some (trim (orEmpty (bdOrgId b)))\<rparr>) (rqBody req)\<rparr>))
            (bind (reads (\<lambda>req. orEmpty (orElse (rqParamsOrgId req) (orElse (rqQueryOrgId req)
                     (case rqBody req of None \<Rightarrow> None | Some b \<Rightarrow> bdOrgId b))))) (\<lambda>orgId.
             if orgId \<noteq> [] then orgMembership validUuid roles orgId user
             else if PLATFORM_ADMIN \<in> set roles
             then (case user of
                     None \<Rightarrow> throw undefinedRead
                   | Some u \<Rightarrow>
                       (case guUserOrgRoles u of
                          None \<Rightarrow> throw undefinedRead
                        | Some rows \<Rightarrow> ret (\<exists>r \<in> set rows. isPlatformAdminRow r)))
             else throw (BadRequestException ''Please provide valid orgId'')))))"

text \<open>\<open>EcosystemRolesGuard\<close>.\<close>

definition hasEcosystemRole :: "(ecosystem_role_group \<Rightarrow> string list option) \<Rightarrow> gw_user option \<Rightarrow> bool" where
  "hasEcosystemRole sel user =
     (case user of None \<Rightarrow> False
      | Some u \<Rightarrow>
          (case guEcosystemAccess u of None \<Rightarrow> False
           | Some access \<Rightarrow>
               (\<exists>(i, eco) \<in> set access. case eco of None \<Rightarrow> False
                  | Some g \<Rightarrow> (case sel g of None \<Rightarrow> False | Some ids \<Rightarrow> ids \<noteq> []))))"

definition ecosystemRolesOf :: "gw_user option \<Rightarrow> string list" where
  "ecosystemRolesOf user =
     (if hasEcosystemRole erLead user then [ECOSYSTEM_LEAD] else []) @
     (if hasEcosystemRole erMember user then [ECOSYSTEM_MEMBER] else [])"

definition ecosystemOrgId :: "gw_request \<Rightarrow> string" where
  "ecosystemOrgId req =
     (case rqParamsOrgId req of
        Some s \<Rightarrow> trim s
      | None \<Rightarrow>
          (case rqQueryOrgId req of
             Some s \<Rightarrow> trim s
           | None \<Rightarrow>
               (case rqBody req of
                  None \<Rightarrow> []
                | Some b \<Rightarrow> (case bdOrgId b of None \<Rightarrow> [] | Some s \<Rightarrow> trim s))))"

definition ecosystemMembership ::
  "(string \<Rightarrow> bool) \<Rightarrow> string list \<Rightarrow> string \<Rightarrow> gw_user \<Rightarrow> (gw_request, bool) eff" where
  "ecosystemMembership validUuid roles orgId u =
     (if orgId = [] then ret False
      else if \<not> validUuid orgId then throw invalidOrgId
      else case resourceRoles u orgId of
             Some orgRoles \<Rightarrow> (if \<not> someRole roles orgRoles then throw roleNotMatch else ret True)
           | None \<Rightarrow>
               (case guUserOrgRoles u of
                  None \<Rightarrow> throw undefinedRead
                | Some rows \<Rightarrow>
                    (case List.find (sameOrg orgId) rows of
                       None \<Rightarrow> throw orgNotMatch
                     | Some specificOrg \<Rightarrow>
                         (let orgRoles = map uorRole (filter (sameOrg orgId) rows)
                          in andThen (writes (\<lambda>req. req\<lparr>rqUser := Some (u\<lparr>guSelectedOrg := Some (specificOrg, map Some orgRoles)\<rparr>)\<rparr>))
                             (if \<not> someRole roles orgRoles then throw roleNotMatch else ret True)))))"

definition ecosystemRolesGuard :: "(string \<Rightarrow> bool) \<Rightarrow> string option \<Rightarrow> string list option \<Rightarrow> (gw_request, bool) eff" where
  "ecosystemRolesGuard validUuid platformAdminEmail requiredRoles =
     (case requiredRoles of
        None \<Rightarrow> ret True
      | Some roles \<Rightarrow>
          (if roles = [] then ret True
           else bind (reads (\<lambda>req. req)) (\<lambda>req.
             if someRole roles (ecosystemRolesOf (rqUser req)) then ret True
             else case rqUser req of
               None \<Rightarrow> throw undefinedRead
             | Some u \<Rightarrow>
                 (if guEmail u = platformAdminEmail \<and> PLATFORM_ADMIN \<in> set roles
                  then (case guUserOrgRoles u of
                          None \<Rightarrow> throw undefinedRead
                        | Some rows \<Rightarrow>
                            (if \<exists>r \<in> set rows. isPlatformAdminRow r then ret True
                             else ecosystemMembership validUuid roles (ecosystemOrgId req) u))
                  else ecosystemMembership validUuid roles (ecosystemOrgId req) u))))"

subsection \<open>Marketplace\<close>

definition isPlatformAdmin :: "gw_user option \<Rightarrow> bool" where
  "isPlatformAdmin user =
     (case user of None \<Rightarrow> False
      | Some u \<Rightarrow> (case guUserOrgRoles u of None \<Rightarrow> False | Some rows \<Rightarrow> (\<exists>r \<in> set rows. isPlatformAdminRow r)))"

definition isMarketplaceEnabled :: "mp_env \<Rightarrow> bool" where
  "isMarketplaceEnabled env = envFlag env ''MARKETPLACE_ENABLED''"

definition isMarketplaceMeteringEnabled :: "mp_env \<Rightarrow> bool" where
  "isMarketplaceMeteringEnabled env = (isMarketplaceEnabled env \<and> envFlag env ''MARKETPLACE_METERING_ENABLED'')"

definition subscriptionRequiredGuard :: "mp_env \<Rightarrow> gw_user option \<Rightarrow> error + bool" where
  "subscriptionRequiredGuard env user =
     (if \<not> envFlag env ''MARKETPLACE_ENABLED'' \<or> \<not> envFlag env ''MARKETPLACE_REQUIRED'' then Inr True
      else if isPlatformAdmin user then Inr True
      else Inl (ForbiddenException ''marketplace_subscription_required''))"




section \<open>What the guards decide\<close>

text \<open>The organisation a request names: the first of the three places that is not blank.\<close>

definition requestOrg :: "gw_request \<Rightarrow> string" where
  "requestOrg req =
     orEmpty (orElse (Some (trim (orEmpty (rqParamsOrgId req)))) (orElse (Some (trim (orEmpty (rqQueryOrgId req))))
       (case rqBody req of None \<Rightarrow> None | Some b \<Rightarrow> Some (trim (orEmpty (bdOrgId b))))))"

text \<open>The user holds one of the roles in the organisation: by the token, when it has an entry for the
  organisation, and otherwise by a membership row.\<close>

definition holdsRole :: "string list \<Rightarrow> string \<Rightarrow> gw_user \<Rightarrow> bool" where
  "holdsRole roles orgId u \<longleftrightarrow>
     (case resourceRoles u orgId of
        Some held \<Rightarrow> set roles \<inter> set held \<noteq> {}
      | None \<Rightarrow> \<exists>rows. guUserOrgRoles u = Some rows \<and> (\<exists>r \<in> set rows. sameOrg orgId r \<and> uorRole r \<in> set roles))"

definition holdsPlatformAdmin :: "gw_user \<Rightarrow> bool" where
  "holdsPlatformAdmin u \<longleftrightarrow> (\<exists>rows. guUserOrgRoles u = Some rows \<and> (\<exists>r \<in> set rows. uorRole r = PLATFORM_ADMIN))"

lemma orgRoles_iff:
  "(\<exists>role \<in> set roles. Some role \<in> set (map (\<lambda>r. if sameOrg orgId r then Some (uorRole r) else None) rows)) \<longleftrightarrow>
   (\<exists>r \<in> set rows. sameOrg orgId r \<and> uorRole r \<in> set roles)"
  by (force split: if_splits)

lemma find_sameOrg: "List.find (sameOrg orgId) rows = None \<longleftrightarrow> (\<forall>r \<in> set rows. \<not> sameOrg orgId r)"
  by (rule find_None_iff_all)

lemma orgMembership_iff:
  "fst (orgMembership validUuid roles orgId (Some u) req) = Inr True \<longleftrightarrow> validUuid orgId \<and> holdsRole roles orgId u"
proof (cases "validUuid orgId")
  case True
  show ?thesis
  proof (cases "resourceRoles u orgId")
    case None
    then show ?thesis
    proof (cases "guUserOrgRoles u")
      case (Some rows)
      show ?thesis
      proof (cases "List.find (sameOrg orgId) rows")
        case None
        then have "\<forall>r \<in> set rows. \<not> sameOrg orgId r" by (simp only: find_sameOrg)
        then show ?thesis using True \<open>resourceRoles u orgId = None\<close> Some None
          by (simp add: orgMembership_def holdsRole_def)
      next
        case (Some specificOrg)
        let ?held = "\<exists>role \<in> set roles. Some role \<in> set (map (\<lambda>r. if sameOrg orgId r then Some (uorRole r) else None) rows)"
        have "fst (orgMembership validUuid roles orgId (Some u) req) = Inr True \<longleftrightarrow> ?held"
          using True \<open>resourceRoles u orgId = None\<close> \<open>guUserOrgRoles u = Some rows\<close> Some
          by (cases ?held) (simp_all add: orgMembership_def andThen_def bind_def Let_def)
        then show ?thesis
          using True \<open>resourceRoles u orgId = None\<close> \<open>guUserOrgRoles u = Some rows\<close>
          unfolding orgRoles_iff by (simp add: holdsRole_def)
      qed
    qed (simp add: orgMembership_def holdsRole_def True)
  qed (auto simp: orgMembership_def holdsRole_def someRole_def True)
qed (simp add: orgMembership_def)

lemma orElse_Some: "orEmpty (orElse (Some s) x) = (if s \<noteq> [] then s else orEmpty x)"
  by (simp add: orElse_def)

lemma orgRolesGuard_run:
  assumes "\<not> holderUser (rqUser req)"
  shows "\<exists>req1. fst (orgRolesGuard validUuid (Some roles) req) =
    fst ((if requestOrg req \<noteq> [] then orgMembership validUuid roles (requestOrg req) (rqUser req)
         else if PLATFORM_ADMIN \<in> set roles
         then (case rqUser req of None \<Rightarrow> throw undefinedRead
               | Some u \<Rightarrow> (case guUserOrgRoles u of None \<Rightarrow> throw undefinedRead
                           | Some rows \<Rightarrow> ret (\<exists>r \<in> set rows. isPlatformAdminRow r)))
         else throw (BadRequestException ''Please provide valid orgId'')) req1)"
proof -
  let ?req1 = "req\<lparr>rqParamsOrgId := Some (trim (orEmpty (rqParamsOrgId req))),
               rqQueryOrgId := Some (trim (orEmpty (rqQueryOrgId req))),
               rqBody := map_option (\<lambda>b. b\<lparr>bdOrgId := Some (trim (orEmpty (bdOrgId b)))\<rparr>) (rqBody req)\<rparr>"
  have "orEmpty (orElse (rqParamsOrgId ?req1) (orElse (rqQueryOrgId ?req1)
          (case rqBody ?req1 of None \<Rightarrow> None | Some b \<Rightarrow> bdOrgId b))) = requestOrg req"
    by (cases "rqBody req") (simp_all add: requestOrg_def)
  then show ?thesis
    using assms by (intro exI [of _ ?req1]) (simp add: orgRolesGuard_def bind_def andThen_def)
qed

lemma ecosystemMembership_iff:
  "fst (ecosystemMembership validUuid roles orgId u req) = Inr True \<longleftrightarrow>
   orgId \<noteq> [] \<and> validUuid orgId \<and> holdsRole roles orgId u"
proof (cases "orgId \<noteq> [] \<and> validUuid orgId")
  case True
  show ?thesis
  proof (cases "resourceRoles u orgId")
    case None
    then show ?thesis
    proof (cases "guUserOrgRoles u")
      case (Some rows)
      then show ?thesis
        using True None find_sameOrg [of orgId rows]
        by (cases "someRole roles (map uorRole (filter (sameOrg orgId) rows))")
          (auto simp: ecosystemMembership_def holdsRole_def someRole_def andThen_def bind_def Let_def split: option.splits)
    qed (simp add: ecosystemMembership_def holdsRole_def True)
  qed (auto simp: ecosystemMembership_def holdsRole_def someRole_def True)
qed (auto simp: ecosystemMembership_def)

text \<open>The claim \<open>userRole\<close> is not read.\<close>

lemma validate_claim: "validate ext (p\<lparr>jpUserRole := claimed\<rparr>) = validate ext p"
proof -
  have "lookupUser ext (p\<lparr>jpUserRole := claimed\<rparr>) = lookupUser ext p"
    by (cases "jpClientId p") (simp_all add: lookupUser_def)
  moreover have "sessionValid ext (p\<lparr>jpUserRole := claimed\<rparr>) = sessionValid ext p"
    "isServiceToken (p\<lparr>jpUserRole := claimed\<rparr>) = isServiceToken p"
    by (simp_all add: sessionValid_def isServiceToken_def)
  ultimately show ?thesis by (cases "lookupUser ext p") (simp_all add: validate_def)
qed

section \<open>Properties\<close>

text \<open>
  C12. \<open>OrgRolesGuard\<close> lets a request pass exactly when the route names its roles, the user is no holder
  account, and: the request names an organisation by a valid id and the user holds one of the roles in
  that very organisation, or it names none and the user is a platform administrator on a route for
  platform administrators.
\<close>

theorem org_role_granted_iff:
  "fst (orgRolesGuard validUuid requiredRoles req) = Inr True \<longleftrightarrow>
   (\<exists>roles u. requiredRoles = Some roles \<and> rqUser req = Some u \<and> \<not> holderUser (Some u) \<and>
      (if requestOrg req \<noteq> [] then validUuid (requestOrg req) \<and> holdsRole roles (requestOrg req) u
       else PLATFORM_ADMIN \<in> set roles \<and> holdsPlatformAdmin u))"
proof (cases "holderUser (rqUser req)")
  case True
  then show ?thesis
    by (cases requiredRoles) (auto simp: orgRolesGuard_def bind_def)
next
  case False
  show ?thesis
  proof (cases requiredRoles)
    case (Some roles)
    obtain req1 where run: "fst (orgRolesGuard validUuid (Some roles) req) =
      fst ((if requestOrg req \<noteq> [] then orgMembership validUuid roles (requestOrg req) (rqUser req)
         else if PLATFORM_ADMIN \<in> set roles
         then (case rqUser req of None \<Rightarrow> throw undefinedRead
               | Some u \<Rightarrow> (case guUserOrgRoles u of None \<Rightarrow> throw undefinedRead
                           | Some rows \<Rightarrow> ret (\<exists>r \<in> set rows. isPlatformAdminRow r)))
         else throw (BadRequestException ''Please provide valid orgId'')) req1)"
      using orgRolesGuard_run [OF False] by blast
    show ?thesis
    proof (cases "rqUser req")
      case None
      then show ?thesis using run Some by (auto simp: orgMembership_def)
    next
      case (Some u)
      then show ?thesis
        using run False orgMembership_iff [of validUuid roles "requestOrg req" u req1] \<open>requiredRoles = Some roles\<close>
        by (auto simp: holdsPlatformAdmin_def isPlatformAdminRow_def split: option.splits)
    qed
  qed (simp add: orgRolesGuard_def)
qed

text \<open>
  C37. \<open>EcosystemRolesGuard\<close> decides differently: beside the roles in the named organisation and the
  configured platform administrator, being lead or member of any ecosystem at all satisfies a route that
  asks for that ecosystem role, whatever organisation or ecosystem the request is about.
\<close>

theorem ecosystem_role_granted_iff:
  assumes "roles \<noteq> []" and "rqUser req = Some u" and "guUserOrgRoles u \<noteq> None"
  shows "fst (ecosystemRolesGuard validUuid platformAdminEmail (Some roles) req) = Inr True \<longleftrightarrow>
    (ECOSYSTEM_LEAD \<in> set roles \<and> hasEcosystemRole erLead (Some u)) \<or>
    (ECOSYSTEM_MEMBER \<in> set roles \<and> hasEcosystemRole erMember (Some u)) \<or>
    (PLATFORM_ADMIN \<in> set roles \<and> guEmail u = platformAdminEmail \<and> holdsPlatformAdmin u) \<or>
    (ecosystemOrgId req \<noteq> [] \<and> validUuid (ecosystemOrgId req) \<and> holdsRole roles (ecosystemOrgId req) u)"
proof -
  obtain rows where rows: "guUserOrgRoles u = Some rows" using assms(3) by blast
  have eco: "someRole roles (ecosystemRolesOf (Some u)) \<longleftrightarrow>
      (ECOSYSTEM_LEAD \<in> set roles \<and> hasEcosystemRole erLead (Some u)) \<or>
      (ECOSYSTEM_MEMBER \<in> set roles \<and> hasEcosystemRole erMember (Some u))"
    by (auto simp: someRole_def ecosystemRolesOf_def)
  have admin: "(\<exists>r \<in> set rows. isPlatformAdminRow r) \<longleftrightarrow> holdsPlatformAdmin u"
    by (simp add: holdsPlatformAdmin_def isPlatformAdminRow_def rows)
  have "fst (ecosystemRolesGuard validUuid platformAdminEmail (Some roles) req) = Inr True \<longleftrightarrow>
     someRole roles (ecosystemRolesOf (Some u)) \<or>
     (guEmail u = platformAdminEmail \<and> PLATFORM_ADMIN \<in> set roles \<and> (\<exists>r \<in> set rows. isPlatformAdminRow r)) \<or>
     fst (ecosystemMembership validUuid roles (ecosystemOrgId req) u req) = Inr True"
    using assms(1,2) rows by (auto simp: ecosystemRolesGuard_def bind_def)
  then show ?thesis unfolding eco admin ecosystemMembership_iff by blast
qed

definition sampleUser :: gw_user where
  "sampleUser =
     \<lparr>guId = Some ''u1'', guEmail = Some ''u@x.bt'', guUserRole = None, guClientId = None, guResourceAccess = None,
      guEcosystemAccess = Some [(''eco1'', Some \<lparr>erLead = Some [''org1''], erMember = None\<rparr>)], guRealmRoles = None,
      guUserOrgRoles = Some [\<lparr>uorOrgId = Some ''org1'', uorRole = ''member''\<rparr>], guSelectedOrg = None\<rparr>"

definition requestFor :: "string \<Rightarrow> gw_user \<Rightarrow> gw_request" where
  "requestFor orgId u =
     \<lparr>rqParamsOrgId = Some orgId, rqParamsOrganizationId = None, rqQueryOrgId = None, rqBody = None, rqUser = Some u\<rparr>"

theorem ecosystem_role_granted_iff_witness:
  "fst (ecosystemRolesGuard (\<lambda>_. True) None (Some [ECOSYSTEM_LEAD]) (requestFor ''another org'' sampleUser)) = Inr True \<and>
   fst (ecosystemRolesGuard (\<lambda>_. True) None (Some [''owner'']) (requestFor ''another org'' sampleUser)) \<noteq> Inr True"
proof -
  have "hasEcosystemRole erLead (Some sampleUser)"
    by (simp add: hasEcosystemRole_def sampleUser_def)
  moreover have "ECOSYSTEM_LEAD \<notin> set [''owner'']" "ECOSYSTEM_MEMBER \<notin> set [''owner'']" "PLATFORM_ADMIN \<notin> set [''owner'']"
    by (simp_all add: ECOSYSTEM_LEAD_def ECOSYSTEM_MEMBER_def PLATFORM_ADMIN_def)
  moreover have "\<not> holdsRole [''owner''] (ecosystemOrgId (requestFor ''another org'' sampleUser)) sampleUser"
    by (simp add: holdsRole_def resourceRoles_def sampleUser_def)
  moreover have "rqUser (requestFor ''another org'' sampleUser) = Some sampleUser" "guUserOrgRoles sampleUser \<noteq> None"
    by (simp_all add: requestFor_def sampleUser_def)
  ultimately show ?thesis
    using ecosystem_role_granted_iff [where roles = "[ECOSYSTEM_LEAD]" and u = sampleUser]
      ecosystem_role_granted_iff [where roles = "[''owner'']" and u = sampleUser] by simp
qed

text \<open>
  C38. Holder accounts and the console exclude each other, decided by the platform's own table. For every
  token that is accepted, the holder routes (\<open>UserRoleGuard\<close>) are open exactly if the account behind it
  has the holder mapping, and then every route behind \<open>OrgRolesGuard\<close> and \<open>UserAccessGuard\<close> raises; a
  \<open>userRole\<close> claim in the token changes nothing.
\<close>

theorem holder_separation:
  assumes "validate ext p = Inr u"
  shows "\<exists>account. lookupUser ext p = Inr account \<and>
    (userRoleGuard (Some u) = Inr True \<longleftrightarrow> isHolder account) \<and>
    (isHolder account \<longrightarrow> (\<forall>roles validUuid req. rqUser req = Some u \<longrightarrow>
       (\<exists>e. fst (orgRolesGuard validUuid roles req) = Inl e) \<and> (\<exists>e. userAccessGuard (Some u) = Inl e))) \<and>
    validate ext (p\<lparr>jpUserRole := claimed\<rparr>) = Inr u"
proof -
  obtain account where acc: "lookupUser ext p = Inr account" "guUserRole u = (if isHolder account then Some ''holder'' else None)"
    using assms by (auto simp: validate_def split: if_splits sum.splits)
  have holder: "holderUser (Some u) \<longleftrightarrow> isHolder account"
    by (simp add: holderUser_def acc(2) startsWith_def)
  have "userRoleGuard (Some u) = Inr True \<longleftrightarrow> holderUser (Some u)"
    by (simp add: userRoleGuard_def holderUser_def)
  moreover have "\<exists>e. fst (orgRolesGuard validUuid roles req) = Inl e" if "isHolder account" "rqUser req = Some u" for validUuid roles req
    using that holder by (cases roles) (simp_all add: orgRolesGuard_def bind_def)
  moreover have "\<exists>e. userAccessGuard (Some u) = Inl e" if "isHolder account"
    using that holder by (simp add: userAccessGuard_def)
  moreover have "validate ext (p\<lparr>jpUserRole := claimed\<rparr>) = validate ext p"
    by (rule validate_claim)
  ultimately show ?thesis using acc(1) assms holder by auto
qed

definition holderToken :: jwt_payload where
  "holderToken =
     \<lparr>jpSub = ''kc1'', jpSid = Some ''sid1'', jpClientId = None, jpEmail = None, jpUserRole = None, jpRealmRoles = None,
      jpResourceAccess = None, jpEcosystemAccess = None\<rparr>"

definition holderExt :: jwt_ext where
  "holderExt =
     \<lparr>jxCheckSession = (\<lambda>_. Inr True), jxFindOrganizationOwner = (\<lambda>_. Inr None),
      jxFindUserinKeycloak = (\<lambda>_. Inr (Some \<lparr>duId = ''u2'', duEmail = None, duUserOrgRoles = [],
         duRoleMappings = Some [Some ''HOLDER'']\<rparr>))\<rparr>"

theorem holder_separation_witness:
  "\<exists>u. validate holderExt (holderToken\<lparr>jpUserRole := Some ''DEFAULT_USER''\<rparr>) = Inr u \<and> userRoleGuard (Some u) = Inr True"
proof -
  have ok: "isl (validate holderExt holderToken) = False" by code_simp
  then obtain u where u: "validate holderExt holderToken = Inr u" by (cases "validate holderExt holderToken") auto
  have "lookupUser holderExt holderToken = Inr account \<Longrightarrow> isHolder account" for account
    by (auto simp: lookupUser_def holderExt_def holderToken_def isHolder_def)
  then show ?thesis
    using holder_separation [OF u, of "Some ''DEFAULT_USER''"] by blast
qed

section \<open>The Marketplace at the gateway\<close>















end
