(* ===== verification/Ecosystem_Store.thy ===== *)
theory Ecosystem_Store
  imports Guards Issuance_Deadline
begin

text \<open>
  The data of the ecosystem service and its repository
  (\<open>apps/ecosystem/repositories/ecosystem.repository.ts\<close>, tables of
  \<open>libs/prisma-service/prisma/schema.prisma\<close>), and the \<open>ecosystem_access\<close> attribute of a Keycloak user
  (\<open>libs/client-registration/src/client-registration.service.ts\<close>).

  A table is the list of its rows, oldest first. Columns that no code of the service reads (tags, logo,
  \<open>lastChangedDateTime\<close>) are left out, and the rows of \<open>user\<close>, \<open>organisation\<close> and \<open>verification_templates\<close>
  have the columns the service reads. A violated unique constraint raises \<open>P2002\<close>, a missing referenced
  row \<open>P2003\<close>, a missing row to update or to connect \<open>P2025\<close>, an empty string for an identifier \<open>P2023\<close>.
  In a unique constraint \<open>NULL\<close> differs from \<open>NULL\<close>. The attribute is stored by Keycloak as a JSON text;
  \<open>kc_access\<close> is what \<open>JSON.parse\<close> makes of it.
\<close>

section \<open>Definitions\<close>

subsection \<open>Tables\<close>

datatype Invitation = InvAccepted | InvRejected | InvPending

datatype InviteType = InviteEcosystem | InviteMember

datatype EcosystemOrgStatus = OrgActive | OrgInactive

record ecosystem =
  ecoId :: string
  ecoName :: string
  ecoDescription :: string
  ecoCreatedBy :: string
  ecoDeletedAt :: "int option"

record ecosystem_roles =
  erId :: string
  erName :: string

record ecosystem_orgs =
  eoId :: string
  eoOrgId :: string
  eoStatus :: EcosystemOrgStatus
  eoEcosystemId :: string
  eoRoleId :: string
  eoUserId :: "string option"
  eoCreatedBy :: string
  eoDeletedAt :: "int option"

record ecosystem_invitations =
  eiId :: string
  eiEmail :: string
  eiStatus :: Invitation
  eiUserId :: "string option"
  eiType :: InviteType
  eiEcosystemId :: "string option"
  eiInvitedOrg :: "string option"
  eiCreatedBy :: string
  eiCreateDateTime :: int
  eiDeletedAt :: "int option"

record intents =
  inId :: string
  inEcosystemId :: string
  inName :: string
  inDescription :: "string option"
  inCreatedBy :: string
  inLastChangedBy :: string

record intent_templates =
  itId :: string
  itOrgId :: "string option"
  itIntentId :: string
  itTemplateId :: string
  itCreatedBy :: string
  itLastChangedBy :: string

record intent_notices =
  ntId :: string
  ntIntentId :: string
  ntOrgId :: "string option"
  ntNoticeUrl :: string
  ntCreatedBy :: string
  ntLastChangedBy :: string

record platform_user =
  usId :: string
  usEmail :: "string option"
  usKeycloakUserId :: "string option"

record organisation =
  ogId :: string
  ogCreatedBy :: string
  ogIdpId :: "string option"

datatype EcosystemServiceRole = RoleLead | RoleMember

datatype kc_access = NoAttribute | Unparsable | Access ecosystem_access

record eco_db =
  edEcosystems :: "ecosystem list"
  edRoles :: "ecosystem_roles list"
  edOrgs :: "ecosystem_orgs list"
  edInvitations :: "ecosystem_invitations list"
  edIntents :: "intents list"
  edTemplates :: "intent_templates list"
  edNotices :: "intent_notices list"
  edConfig :: "bool option"
  edUsers :: "platform_user list"
  edOrganisations :: "organisation list"
  edVerificationTemplates :: "string list"
  edKeycloak :: "(string \<times> kc_access) list"

text \<open>
  What a run of a handler meets: the clock, the generated UUIDs, Prisma's case-insensitive comparison and
  its error texts, the mail and HTTP services and the answers of Keycloak.
\<close>

record eco_env =
  xNow :: int
  xUuid :: "nat \<Rightarrow> string"
  xInsensitive :: "string \<Rightarrow> string \<Rightarrow> bool"
  xPrismaMessage :: "string \<Rightarrow> string"
  xSendEmail :: "string \<Rightarrow> error + bool"
  xFetch :: "string \<Rightarrow> string + nat"
  xToken :: "error + string"
  xRealm :: "string option"
  xUserProfilePolicy :: "error + string option"
  xKcGet :: "string \<Rightarrow> error + unit"
  xKcPut :: "string \<Rightarrow> error + unit"
  xServiceAccount :: "string \<Rightarrow> error + string option"

subsection \<open>Invitations\<close>

definition invitationKey :: "ecosystem_invitations \<Rightarrow> (string \<times> string \<times> string) option" where
  "invitationKey i =
     (case (eiEcosystemId i, eiInvitedOrg i) of
        (Some e, Some g) \<Rightarrow> Some (eiEmail i, e, g)
      | _ \<Rightarrow> None)"

definition invitationClash :: "ecosystem_invitations \<Rightarrow> ecosystem_invitations list \<Rightarrow> bool" where
  "invitationClash i rows \<longleftrightarrow>
     (\<exists>j \<in> set rows. eiId j = eiId i \<or> invitationKey i \<noteq> None \<and> invitationKey j = invitationKey i)"

definition knownId :: "string list \<Rightarrow> string option \<Rightarrow> bool" where
  "knownId ids x = (case x of None \<Rightarrow> True | Some i \<Rightarrow> i \<in> set ids)"

definition createEcosystemInvitation ::
  "eco_env \<Rightarrow> string \<Rightarrow> string option \<Rightarrow> string \<Rightarrow> InviteType option \<Rightarrow> Invitation option \<Rightarrow>
   string option \<Rightarrow> string option \<Rightarrow> (eco_db, ecosystem_invitations) eff" where
  "createEcosystemInvitation env email invitedUserId userId type status ecosystemId orgId = (\<lambda>db.
     let row = \<lparr>eiId = xUuid env 0, eiEmail = email,
                eiStatus = (case status of None \<Rightarrow> InvAccepted | Some s \<Rightarrow> s),
                eiUserId = invitedUserId, eiType = (case type of None \<Rightarrow> InviteEcosystem | Some t \<Rightarrow> t),
                eiEcosystemId = ecosystemId, eiInvitedOrg = orgId, eiCreatedBy = userId,
                eiCreateDateTime = xNow env, eiDeletedAt = None\<rparr>
     in if invitationClash row (edInvitations db)
        then (Inl (RpcException 409 ''Invitation already exists for this email in the ecosystem''), db)
        else if knownId (map ecoId (edEcosystems db)) ecosystemId \<and>
                knownId (map ogId (edOrganisations db)) orgId \<and>
                knownId (map usId (edUsers db)) invitedUserId
        then (Inr row, db\<lparr>edInvitations := edInvitations db @ [row]\<rparr>)
        else (Inl (InternalServerErrorException ''invitationCreateFailed''), db))"

text \<open>\<open>findFirst\<close> with \<open>orderBy: { createDateTime: 'desc' }\<close>; the earlier row of two with the same time.\<close>

fun newest :: "ecosystem_invitations list \<Rightarrow> ecosystem_invitations option" where
  "newest [] = None"
| "newest (i # is) =
     (case newest is of
        None \<Rightarrow> Some i
      | Some j \<Rightarrow> (if eiCreateDateTime i < eiCreateDateTime j then Some j else Some i))"

definition findAcceptedInvitationByUserId :: "string \<Rightarrow> (eco_db, ecosystem_invitations option) eff" where
  "findAcceptedInvitationByUserId userId =
     (if userId = [] then throw (BadRequestException ''userId missing'')
      else reads (\<lambda>db. newest (filter (\<lambda>i. eiUserId i = Some userId \<and> eiStatus i = InvAccepted \<and>
                                           eiDeletedAt i = None) (edInvitations db))))"

definition getPendingInvitationByEmail :: "string \<Rightarrow> (eco_db, ecosystem_invitations option) eff" where
  "getPendingInvitationByEmail email =
     reads (\<lambda>db. newest (filter (\<lambda>i. eiEmail i = email \<and> eiEcosystemId i = None) (edInvitations db)))"

definition getEcosystemInvitationsByEmail ::
  "string \<Rightarrow> string \<Rightarrow> string \<Rightarrow> (eco_db, ecosystem_invitations option) eff" where
  "getEcosystemInvitationsByEmail email ecosystemId invitedOrg =
     reads (\<lambda>db. List.find (\<lambda>i. invitationKey i = Some (email, ecosystemId, invitedOrg)) (edInvitations db))"

definition updateInvitationRow ::
  "string \<Rightarrow> (ecosystem_invitations \<Rightarrow> ecosystem_invitations) \<Rightarrow> (eco_db, unit) eff" where
  "updateInvitationRow i f =
     writes (\<lambda>db. db\<lparr>edInvitations := updateWhere (\<lambda>x. eiId x = i) f (edInvitations db)\<rparr>)"

definition updateEcosystemInvitationStatusByEmail ::
  "string \<Rightarrow> string \<Rightarrow> string \<Rightarrow> Invitation \<Rightarrow> (eco_db, ecosystem_invitations) eff" where
  "updateEcosystemInvitationStatusByEmail email orgId ecosystemId status = transact
     (bind (reads (\<lambda>db. List.find (\<lambda>i. eiEmail i = email \<and> eiEcosystemId i = Some ecosystemId \<and>
                                       eiInvitedOrg i = Some orgId) (edInvitations db))) (\<lambda>record.
        case record of
          None \<Rightarrow> throw (PlainError ''Invitation not found for this specific organization'')
        | Some i \<Rightarrow>
            andThen (updateInvitationRow (eiId i) (\<lambda>x. x\<lparr>eiStatus := status\<rparr>))
              (ret (i\<lparr>eiStatus := status\<rparr>))))"

definition updateEcosystemInvitationDetails :: "string \<Rightarrow> string \<Rightarrow> string \<Rightarrow> (eco_db, ecosystem_invitations) eff" where
  "updateEcosystemInvitationDetails email ecosystemId orgId =
     bind (reads (\<lambda>db. newest (filter (\<lambda>i. eiEmail i = email \<and> eiStatus i = InvAccepted \<and>
                                           eiEcosystemId i = None) (edInvitations db)))) (\<lambda>invitation.
       case invitation of
         None \<Rightarrow> throw (RpcException 400 ''invitationRequiredFromPlatformAdmin'')
       | Some i \<Rightarrow> (\<lambda>db.
           let row = i\<lparr>eiEcosystemId := Some ecosystemId, eiInvitedOrg := Some orgId\<rparr>
           in if invitationClash row (filter (\<lambda>x. eiId x \<noteq> eiId i) (edInvitations db))
              then (Inl (PrismaError ''P2002''), db)
              else if ecosystemId \<in> ecoId ` set (edEcosystems db) \<and> orgId \<in> ogId ` set (edOrganisations db)
              then (Inr row, db\<lparr>edInvitations := updateWhere (\<lambda>x. eiId x = eiId i)
                     (\<lambda>x. x\<lparr>eiEcosystemId := Some ecosystemId, eiInvitedOrg := Some orgId\<rparr>) (edInvitations db)\<rparr>)
              else (Inl (PrismaError ''P2003''), db)))"

definition deleteEcosystemInvitationByOrgId :: "string \<Rightarrow> string list \<Rightarrow> (eco_db, nat) eff" where
  "deleteEcosystemInvitationByOrgId ecosystemId orgIds = (\<lambda>db.
     let gone = (\<lambda>i. eiEcosystemId i = Some ecosystemId \<and> eiType i = InviteMember \<and>
                     (case eiInvitedOrg i of None \<Rightarrow> False | Some g \<Rightarrow> g \<in> set orgIds))
     in (Inr (length (filter gone (edInvitations db))),
         db\<lparr>edInvitations := filter (\<lambda>i. \<not> gone i) (edInvitations db)\<rparr>))"

subsection \<open>Ecosystems and their organisations\<close>

definition roleName :: "eco_db \<Rightarrow> ecosystem_orgs \<Rightarrow> string option" where
  "roleName db o' = map_option erName (List.find (\<lambda>r. erId r = eoRoleId o') (edRoles db))"

definition getEcosystemRoleByName :: "string \<Rightarrow> (eco_db, ecosystem_roles option) eff" where
  "getEcosystemRoleByName name = reads (\<lambda>db. List.find (\<lambda>r. erName r = name) (edRoles db))"

definition createEcosystemOrg :: "ecosystem_orgs \<Rightarrow> (eco_db, unit) eff" where
  "createEcosystemOrg row = (\<lambda>db.
     if \<exists>x \<in> set (edOrgs db). eoId x = eoId row \<or> eoOrgId x = eoOrgId row \<and> eoEcosystemId x = eoEcosystemId row
     then (Inl (PrismaError ''P2002''), db)
     else if eoEcosystemId row \<in> ecoId ` set (edEcosystems db) \<and> eoRoleId row \<in> erId ` set (edRoles db) \<and>
             eoOrgId row \<in> ogId ` set (edOrganisations db) \<and> knownId (map usId (edUsers db)) (eoUserId row)
     then (Inr (), db\<lparr>edOrgs := edOrgs db @ [row]\<rparr>)
     else (Inl (PrismaError ''P2003''), db))"

record ICreateEcosystem =
  ceName :: string
  ceDescription :: string
  ceUserId :: string
  ceOrgId :: string

definition insertEcosystem :: "eco_env \<Rightarrow> ICreateEcosystem \<Rightarrow> (eco_db, ecosystem) eff" where
  "insertEcosystem env dto = (\<lambda>db.
     let row = \<lparr>ecoId = xUuid env 1, ecoName = ceName dto, ecoDescription = ceDescription dto,
                ecoCreatedBy = ceUserId dto, ecoDeletedAt = None\<rparr>
     in if xUuid env 1 \<in> ecoId ` set (edEcosystems db) then (Inl (PrismaError ''P2002''), db)
        else (Inr row, db\<lparr>edEcosystems := edEcosystems db @ [row]\<rparr>))"

definition createNewEcosystem :: "eco_env \<Rightarrow> ICreateEcosystem \<Rightarrow> (eco_db, ecosystem) eff" where
  "createNewEcosystem env dto =
     bind (getEcosystemRoleByName ECOSYSTEM_LEAD) (\<lambda>ecosystemRoleDetails.
     bind (insertEcosystem env dto) (\<lambda>createdEcosystem.
       case ecosystemRoleDetails of
         None \<Rightarrow> throw (NotFoundException ''leadNotFound'')
       | Some role \<Rightarrow>
           andThen
             (createEcosystemOrg \<lparr>eoId = xUuid env 2, eoOrgId = ceOrgId dto, eoStatus = OrgActive,
                eoEcosystemId = ecoId createdEcosystem, eoRoleId = erId role, eoUserId = Some (ceUserId dto),
                eoCreatedBy = ceUserId dto, eoDeletedAt = None\<rparr>)
             (ret createdEcosystem)))"

definition checkEcosystemNameExist :: "string \<Rightarrow> (eco_db, ecosystem option) eff" where
  "checkEcosystemNameExist name = reads (\<lambda>db. List.find (\<lambda>e. ecoName e = name) (edEcosystems db))"

definition getEcosystemById :: "string \<Rightarrow> (eco_db, ecosystem) eff" where
  "getEcosystemById i =
     bind (reads (\<lambda>db. List.find (\<lambda>e. ecoId e = i) (edEcosystems db))) (\<lambda>result.
       case result of None \<Rightarrow> throw (NotFoundException ''Ecosystem not found'') | Some e \<Rightarrow> ret e)"

definition getEcosystemOrg :: "string \<Rightarrow> string \<Rightarrow> (eco_db, ecosystem_orgs option) eff" where
  "getEcosystemOrg ecosystemId orgId =
     reads (\<lambda>db. List.find (\<lambda>o'. eoOrgId o' = orgId \<and> eoEcosystemId o' = ecosystemId) (edOrgs db))"

definition findEcosystemOrg :: "string \<Rightarrow> string \<Rightarrow> (eco_db, ecosystem_orgs option) eff" where
  "findEcosystemOrg ecosystemId orgId =
     reads (\<lambda>db. List.find (\<lambda>o'. (eoOrgId o', eoEcosystemId o') = (orgId, ecosystemId)) (edOrgs db))"

definition deleteOrgFromEcosystem :: "string \<Rightarrow> string list \<Rightarrow> (eco_db, nat) eff" where
  "deleteOrgFromEcosystem ecosystemId orgIds = (\<lambda>db.
     let gone = (\<lambda>o'. eoEcosystemId o' = ecosystemId \<and> roleName db o' = Some ECOSYSTEM_MEMBER \<and>
                      eoOrgId o' \<in> set orgIds)
     in (Inr (length (filter gone (edOrgs db))), db\<lparr>edOrgs := filter (\<lambda>o'. \<not> gone o') (edOrgs db)\<rparr>))"

definition updateEcosystemOrgStatusRows ::
  "string \<Rightarrow> string list \<Rightarrow> EcosystemOrgStatus \<Rightarrow> (eco_db, nat) eff" where
  "updateEcosystemOrgStatusRows ecosystemId orgIds status = (\<lambda>db.
     let hit = (\<lambda>o'. eoEcosystemId o' = ecosystemId \<and> eoOrgId o' \<in> set orgIds)
     in (Inr (length (filter hit (edOrgs db))),
         db\<lparr>edOrgs := updateWhere hit (\<lambda>o'. o'\<lparr>eoStatus := status\<rparr>) (edOrgs db)\<rparr>))"

definition isEcosystemLead :: "string \<Rightarrow> string \<Rightarrow> (eco_db, bool) eff" where
  "isEcosystemLead userId ecosystemId =
     reads (\<lambda>db. \<exists>o' \<in> set (edOrgs db). eoUserId o' = Some userId \<and> eoEcosystemId o' = ecosystemId \<and>
                   eoDeletedAt o' = None \<and> roleName db o' = Some ECOSYSTEM_LEAD)"

definition getUserById :: "string \<Rightarrow> (eco_db, platform_user option) eff" where
  "getUserById userId = reads (\<lambda>db. List.find (\<lambda>u. usId u = userId) (edUsers db))"

definition getUserDetails :: "string \<Rightarrow> (eco_db, platform_user option) eff" where
  "getUserDetails email = reads (\<lambda>db. List.find (\<lambda>u. usEmail u = Some email) (edUsers db))"

definition getOrgProfile :: "string \<Rightarrow> (eco_db, organisation option) eff" where
  "getOrgProfile i = reads (\<lambda>db. List.find (\<lambda>g. ogId g = i) (edOrganisations db))"

subsection \<open>Intents, their templates and notices\<close>

definition findIntentById :: "string \<Rightarrow> (eco_db, intents option) eff" where
  "findIntentById intentId = reads (\<lambda>db. List.find (\<lambda>n. inId n = intentId) (edIntents db))"

definition checkIntentExist :: "eco_env \<Rightarrow> string \<Rightarrow> string \<Rightarrow> string option \<Rightarrow> (eco_db, intents option) eff" where
  "checkIntentExist env name ecosystemId excludeIntentId =
     reads (\<lambda>db. List.find (\<lambda>n. inEcosystemId n = ecosystemId \<and> xInsensitive env (inName n) (trim name) \<and>
                   (truthy excludeIntentId \<longrightarrow> Some (inId n) \<noteq> excludeIntentId)) (edIntents db))"

definition insertIntent :: "eco_env \<Rightarrow> string \<Rightarrow> string option \<Rightarrow> string \<Rightarrow> string \<Rightarrow> (eco_db, intents) eff" where
  "insertIntent env name description createdBy ecosystemId =
     (if name = [] \<or> createdBy = [] then throw (BadRequestException ''Intent name and createdBy are required'')
      else if ecosystemId = [] then throw (BadRequestException ''ecosystemId is required'')
      else (\<lambda>db.
        let row = \<lparr>inId = xUuid env 0, inEcosystemId = ecosystemId, inName = name, inDescription = description,
                   inCreatedBy = createdBy, inLastChangedBy = createdBy\<rparr>
        in if xUuid env 0 \<in> inId ` set (edIntents db) then (Inl (PrismaError ''P2002''), db)
           else if ecosystemId \<in> ecoId ` set (edEcosystems db)
           then (Inr row, db\<lparr>edIntents := edIntents db @ [row]\<rparr>)
           else (Inl (PrismaError ''P2003''), db)))"

definition updateIntentRow :: "string \<Rightarrow> string \<Rightarrow> string option \<Rightarrow> string \<Rightarrow> (eco_db, unit) eff" where
  "updateIntentRow intentId name description lastChangedBy =
     (if intentId = [] \<or> lastChangedBy = []
      then throw (BadRequestException ''Intent id and lastChangedBy are required'')
      else (\<lambda>db.
        if intentId \<notin> inId ` set (edIntents db) then (Inl (PrismaError ''P2025''), db)
        else (Inr (), db\<lparr>edIntents := updateWhere (\<lambda>n. inId n = intentId)
               (\<lambda>n. n\<lparr>inName := name,
                      inDescription := (case description of None \<Rightarrow> inDescription n | Some d \<Rightarrow> Some d),
                      inLastChangedBy := lastChangedBy\<rparr>) (edIntents db)\<rparr>)))"

definition deleteIntent :: "string \<Rightarrow> string \<Rightarrow> (eco_db, intents) eff" where
  "deleteIntent ecosystemId intentId =
     bind (reads (\<lambda>db. List.find (\<lambda>n. inId n = intentId \<and> inEcosystemId n = ecosystemId) (edIntents db))) (\<lambda>intent.
       case intent of
         None \<Rightarrow> throw (NotFoundException ''Intent not found in the given ecosystem'')
       | Some n \<Rightarrow> (\<lambda>db.
           if intentId \<in> itIntentId ` set (edTemplates db) \<or> intentId \<in> ntIntentId ` set (edNotices db)
           then (Inl (PrismaError ''P2003''), db)
           else (Inr n, db\<lparr>edIntents := filter (\<lambda>x. \<not> (inId x = intentId \<and> inEcosystemId x = ecosystemId))
                                              (edIntents db)\<rparr>)))"

definition templateKey :: "intent_templates \<Rightarrow> string option \<times> string \<times> string" where
  "templateKey t = (itOrgId t, itIntentId t, itTemplateId t)"

definition findIntentTemplate ::
  "string option \<Rightarrow> string \<Rightarrow> string \<Rightarrow> (eco_db, intent_templates option) eff" where
  "findIntentTemplate orgId intentId templateId =
     (if orgId = Some [] then throw (PrismaError ''P2023'')
      else reads (\<lambda>db. List.find (\<lambda>t. templateKey t = (orgId, intentId, templateId)) (edTemplates db)))"

definition templateRefs :: "eco_db \<Rightarrow> string option \<Rightarrow> string \<Rightarrow> string \<Rightarrow> bool" where
  "templateRefs db orgId intentId templateId \<longleftrightarrow>
     knownId (map ogId (edOrganisations db)) orgId \<and> intentId \<in> inId ` set (edIntents db) \<and>
     templateId \<in> set (edVerificationTemplates db)"

definition insertIntentTemplate ::
  "eco_env \<Rightarrow> string option \<Rightarrow> string \<Rightarrow> string \<Rightarrow> string \<Rightarrow> (eco_db, intent_templates) eff" where
  "insertIntentTemplate env orgId intentId templateId createdBy = (\<lambda>db.
     let row = \<lparr>itId = xUuid env 0, itOrgId = orgId, itIntentId = intentId, itTemplateId = templateId,
                itCreatedBy = createdBy, itLastChangedBy = createdBy\<rparr>
     in if xUuid env 0 \<in> itId ` set (edTemplates db) then (Inl (PrismaError ''P2002''), db)
        else if templateRefs db orgId intentId templateId
        then (Inr row, db\<lparr>edTemplates := edTemplates db @ [row]\<rparr>)
        else (Inl (PrismaError ''P2003''), db))"

definition getIntentTemplateRow :: "string \<Rightarrow> (eco_db, intent_templates option) eff" where
  "getIntentTemplateRow i = reads (\<lambda>db. List.find (\<lambda>t. itId t = i) (edTemplates db))"

definition updateIntentTemplateRow ::
  "string \<Rightarrow> string option \<Rightarrow> string \<Rightarrow> string \<Rightarrow> string \<Rightarrow> (eco_db, unit) eff" where
  "updateIntentTemplateRow i orgId intentId templateId lastChangedBy = (\<lambda>db.
     if i \<notin> itId ` set (edTemplates db) then (Inl (PrismaError ''P2025''), db)
     else if templateRefs db orgId intentId templateId
     then (Inr (), db\<lparr>edTemplates := updateWhere (\<lambda>t. itId t = i)
            (\<lambda>t. t\<lparr>itOrgId := orgId, itIntentId := intentId, itTemplateId := templateId,
                   itLastChangedBy := lastChangedBy\<rparr>) (edTemplates db)\<rparr>)
     else (Inl (PrismaError ''P2003''), db))"

definition deleteIntentTemplateRow :: "string \<Rightarrow> (eco_db, unit) eff" where
  "deleteIntentTemplateRow i = (\<lambda>db.
     if i \<notin> itId ` set (edTemplates db) then (Inl (PrismaError ''P2025''), db)
     else (Inr (), db\<lparr>edTemplates := filter (\<lambda>t. itId t \<noteq> i) (edTemplates db)\<rparr>))"

definition intentNoticeExists :: "string \<Rightarrow> string option \<Rightarrow> (eco_db, bool) eff" where
  "intentNoticeExists intentId orgId =
     (if orgId = Some [] then throw (PrismaError ''P2023'')
      else reads (\<lambda>db. \<exists>n \<in> set (edNotices db). ntIntentId n = intentId \<and> ntOrgId n = orgId))"

definition insertIntentNotice ::
  "eco_env \<Rightarrow> string \<Rightarrow> string \<Rightarrow> string \<Rightarrow> string option \<Rightarrow> (eco_db, intent_notices) eff" where
  "insertIntentNotice env intentId noticeUrl userId orgId = (\<lambda>db.
     let row = \<lparr>ntId = xUuid env 0, ntIntentId = intentId, ntOrgId = (if truthy orgId then orgId else None),
                ntNoticeUrl = noticeUrl, ntCreatedBy = userId, ntLastChangedBy = userId\<rparr>
     in if intentId \<notin> inId ` set (edIntents db) \<or> \<not> knownId (map ogId (edOrganisations db)) (ntOrgId row)
        then (Inl (PrismaError ''P2025''), db)
        else if xUuid env 0 \<in> ntId ` set (edNotices db) then (Inl (PrismaError ''P2002''), db)
        else (Inr row, db\<lparr>edNotices := edNotices db @ [row]\<rparr>))"

text \<open>\<open>getIntentNotices(id)\<close> as the handlers use it: without an \<open>id\<close> it selects every notice, the newest first.\<close>

definition getIntentNoticeRow :: "string \<Rightarrow> (eco_db, intent_notices option) eff" where
  "getIntentNoticeRow i =
     reads (\<lambda>db. List.find (\<lambda>n. i = [] \<or> ntId n = i) (rev (edNotices db)))"

definition updateIntentNoticeRow :: "string \<Rightarrow> string \<Rightarrow> string \<Rightarrow> (eco_db, unit) eff" where
  "updateIntentNoticeRow i noticeUrl userId =
     (if i = [] then throw (PrismaError ''P2023'')
      else writes (\<lambda>db. db\<lparr>edNotices := updateWhere (\<lambda>n. ntId n = i)
             (\<lambda>n. n\<lparr>ntNoticeUrl := noticeUrl, ntLastChangedBy := userId\<rparr>) (edNotices db)\<rparr>))"

definition deleteIntentNoticeRow :: "string \<Rightarrow> (eco_db, unit) eff" where
  "deleteIntentNoticeRow i =
     (if i = [] then throw (PrismaError ''P2023'')
      else writes (\<lambda>db. db\<lparr>edNotices := filter (\<lambda>n. ntId n \<noteq> i) (edNotices db)\<rparr>))"

definition updateEcosystemConfigRow :: "bool \<Rightarrow> (eco_db, unit) eff" where
  "updateEcosystemConfigRow isEcosystemEnabled = (\<lambda>db.
     case edConfig db of
       None \<Rightarrow> (Inl (RpcException 404 ''platformConfigNotFound''), db)
     | Some _ \<Rightarrow> (Inr (), db\<lparr>edConfig := Some isEcosystemEnabled\<rparr>))"

subsection \<open>The \<open>ecosystem_access\<close> attribute in Keycloak\<close>

definition parsedAccess :: "kc_access \<Rightarrow> ecosystem_access" where
  "parsedAccess attr = (case attr of Access a \<Rightarrow> a | _ \<Rightarrow> [])"

definition roleGroup :: "ecosystem_access \<Rightarrow> string \<Rightarrow> ecosystem_role_group" where
  "roleGroup access orgId =
     (case map_of access orgId of
        Some (Some g) \<Rightarrow>
          \<lparr>erLead = (case erLead g of None \<Rightarrow> Some [] | x \<Rightarrow> x), erMember = (case erMember g of None \<Rightarrow> Some [] | x \<Rightarrow> x)\<rparr>
      | _ \<Rightarrow> \<lparr>erLead = Some [], erMember = Some []\<rparr>)"

definition ecosystemsOf :: "EcosystemServiceRole \<Rightarrow> ecosystem_role_group \<Rightarrow> string list" where
  "ecosystemsOf role g =
     (case (case role of RoleLead \<Rightarrow> erLead g | RoleMember \<Rightarrow> erMember g) of None \<Rightarrow> [] | Some ids \<Rightarrow> ids)"

definition setEcosystems :: "EcosystemServiceRole \<Rightarrow> string list \<Rightarrow> ecosystem_role_group \<Rightarrow> ecosystem_role_group" where
  "setEcosystems role ids g =
     (case role of RoleLead \<Rightarrow> g\<lparr>erLead := Some ids\<rparr> | RoleMember \<Rightarrow> g\<lparr>erMember := Some ids\<rparr>)"

definition addedAccess :: "string \<Rightarrow> string \<Rightarrow> EcosystemServiceRole \<Rightarrow> kc_access \<Rightarrow> kc_access" where
  "addedAccess orgId ecosystemId role attr =
     (let access = parsedAccess attr;
          group = roleGroup access orgId;
          existing = ecosystemsOf role group
      in Access (dictSet access orgId (Some (setEcosystems role
           (if ecosystemId \<in> set existing then existing else existing @ [ecosystemId]) group))))"

definition updateUserEcosystemAccess ::
  "eco_env \<Rightarrow> string \<Rightarrow> string \<Rightarrow> string \<Rightarrow> EcosystemServiceRole \<Rightarrow> (eco_db, unit) eff" where
  "updateUserEcosystemAccess env keycloakUserId orgId ecosystemId role =
     andThen (lift (xKcGet env keycloakUserId))
     (bind (reads (\<lambda>db. map_of (edKeycloak db) keycloakUserId)) (\<lambda>currentUser.
        case currentUser of
          None \<Rightarrow> throw (NotFoundException (''User not found in Keycloak: '' @ keycloakUserId))
        | Some attr \<Rightarrow>
            andThen (lift (xKcPut env keycloakUserId))
              (writes (\<lambda>db. db\<lparr>edKeycloak := dictSet (edKeycloak db) keycloakUserId
                 (addedAccess orgId ecosystemId role attr)\<rparr>))))"

definition updateClientServiceAccountEcosystemAccess ::
  "eco_env \<Rightarrow> string \<Rightarrow> string \<Rightarrow> string \<Rightarrow> EcosystemServiceRole \<Rightarrow> (eco_db, unit) eff" where
  "updateClientServiceAccountEcosystemAccess env clientIdpId orgId ecosystemId role =
     bind (lift (xServiceAccount env clientIdpId)) (\<lambda>serviceAccountUser.
       if \<not> truthy serviceAccountUser then ret ()
       else updateUserEcosystemAccess env (orEmpty serviceAccountUser) orgId ecosystemId role)"

text \<open>\<open>removeUserEcosystemAccess\<close>; no service calls it. \<open>None\<close>: nothing is sent to Keycloak.\<close>

definition removedAccess :: "string \<Rightarrow> string \<Rightarrow> EcosystemServiceRole \<Rightarrow> kc_access \<Rightarrow> kc_access option" where
  "removedAccess orgId ecosystemId role attr =
     (case attr of
        Access access \<Rightarrow>
          (case map_of access orgId of
             Some (Some g) \<Rightarrow>
               (let g' = setEcosystems role (filter (\<lambda>i. i \<noteq> ecosystemId) (ecosystemsOf role g)) g;
                    access' = (if ecosystemsOf RoleLead g' = [] \<and> ecosystemsOf RoleMember g' = []
                               then filter (\<lambda>(k, _). k \<noteq> orgId) access
                               else dictSet access orgId (Some g'))
                in Some (if access' \<noteq> [] then Access access' else NoAttribute))
           | _ \<Rightarrow> None)
      | _ \<Rightarrow> None)"

definition removeUserEcosystemAccess ::
  "eco_env \<Rightarrow> string \<Rightarrow> string \<Rightarrow> string \<Rightarrow> EcosystemServiceRole \<Rightarrow> (eco_db, unit) eff" where
  "removeUserEcosystemAccess env keycloakUserId orgId ecosystemId role =
     andThen (lift (xKcGet env keycloakUserId))
     (bind (reads (\<lambda>db. map_of (edKeycloak db) keycloakUserId)) (\<lambda>currentUser.
        case currentUser of
          None \<Rightarrow> throw (NotFoundException (''User not found in Keycloak: '' @ keycloakUserId))
        | Some attr \<Rightarrow>
            (case removedAccess orgId ecosystemId role attr of
               None \<Rightarrow> ret ()
             | Some attr' \<Rightarrow>
                 andThen (lift (xKcPut env keycloakUserId))
                   (writes (\<lambda>db. db\<lparr>edKeycloak := dictSet (edKeycloak db) keycloakUserId attr'\<rparr>)))))"

end
