(* ===== verification/Ecosystem_Service.thy ===== *)
theory Ecosystem_Service
  imports Ecosystem_Store
begin

text \<open>
  The handlers of the ecosystem service (\<open>apps/ecosystem/src/ecosystem.service.ts\<close>) that change its tables,
  the check of notice URLs (\<open>ecosystem.helper.ts\<close>), the error categories
  (\<open>libs/common/src/utils/error-handler.util.ts\<close>) and the dispatch of messages
  (\<open>ecosystem.controller.ts\<close>).

  A handler is one computation over the tables. \<open>eco_call\<close> is a message, \<open>eco_run\<close> runs it, and \<open>eco_step\<close>
  is a run with any answers from outside or a change that another service makes to its own tables. The
  texts of \<open>ResponseMessages\<close> are abbreviated to their keys, and mails to their recipient.
\<close>

section \<open>Definitions\<close>

subsection \<open>Error categories\<close>

definition getStatusCodeByMessage :: "string \<Rightarrow> nat" where
  "getStatusCodeByMessage message =
     (let has = includesText (toLowerCase message)
      in if has ''already exists'' \<or> has ''already assigned'' \<or> has ''duplicate'' \<or> has ''conflict'' then 409
         else if has ''invalid'' \<or> has ''required'' \<or> has ''validation'' \<or> has ''bad request'' then 400
         else if has ''not found'' \<or> has ''does not exist'' then 404
         else if has ''unauthorized'' \<or> has ''not authorized'' then 401
         else if has ''forbidden'' \<or> has ''permission denied'' then 403
         else 500)"

definition byMessage :: "string \<Rightarrow> string \<Rightarrow> error" where
  "byMessage defaultMessage m =
     (let message = (if m = [] then defaultMessage else m) in RpcException (getStatusCodeByMessage message) message)"

text \<open>\<open>new RpcException(ErrorHandler.categorize(error, defaultMessage))\<close>.\<close>

fun categorize :: "eco_env \<Rightarrow> string \<Rightarrow> error \<Rightarrow> error" where
  "categorize env d (RpcException c m) = RpcException c m"
| "categorize env d (RpcWrapped e) = RpcWrapped e"
| "categorize env d (BadRequestException m) = RpcException 400 m"
| "categorize env d (UnauthorizedException m) = RpcException 401 m"
| "categorize env d (ForbiddenException m) = RpcException 403 m"
| "categorize env d (NotFoundException m) = RpcException 404 m"
| "categorize env d (ConflictException m) = RpcException 409 m"
| "categorize env d (InternalServerErrorException m) = RpcException 500 m"
| "categorize env d (ServiceUnavailableException m) = RpcException 503 m"
| "categorize env d (PrismaError code) = byMessage d (xPrismaMessage env code)"
| "categorize env d (HttpStatusError code m) = byMessage d m"
| "categorize env d (PlainError m) = byMessage d m"
| "categorize env d (RangeError m) = byMessage d m"
| "categorize env d (TypeError m) = byMessage d m"

subsection \<open>Invitations and membership\<close>

definition sendInviteEmailTemplate :: "eco_env \<Rightarrow> string \<Rightarrow> (eco_db, bool) eff" where
  "sendInviteEmailTemplate env email =
     bind (reads edConfig) (\<lambda>platformConfigData.
       case platformConfigData of
         None \<Rightarrow> throw (NotFoundException ''Platform config not found'')
       | Some _ \<Rightarrow> lift (xSendEmail env email))"

definition inviteUserToCreateEcosystem ::
  "eco_env \<Rightarrow> string \<Rightarrow> string \<Rightarrow> (eco_db, ecosystem_invitations) eff" where
  "inviteUserToCreateEcosystem env email platformAdminId =
     (if email = [] \<or> platformAdminId = [] then throw (BadRequestException ''emailOrPlatformAdminIdMissing'')
      else bind (getPendingInvitationByEmail email) (\<lambda>existingInvitation.
        if map_option eiType existingInvitation = Some InviteMember
        then throw (RpcException 409 ''invitationAlreadySent'')
        else bind (getUserDetails email) (\<lambda>invitedUser.
          bind (createEcosystemInvitation env email (map_option usId invitedUser) platformAdminId
                  None None None None) (\<lambda>invitation.
            andThen (sendInviteEmailTemplate env email) (ret invitation)))))"

definition updateOrgServiceAccountEcosystem ::
  "eco_env \<Rightarrow> string \<Rightarrow> string \<Rightarrow> EcosystemServiceRole \<Rightarrow> (eco_db, unit) eff" where
  "updateOrgServiceAccountEcosystem env orgId ecosystemId role = tryCatch
     (bind (getOrgProfile orgId) (\<lambda>organization.
        case organization of
          None \<Rightarrow> ret ()
        | Some g \<Rightarrow>
            (if \<not> truthy (ogIdpId g) then ret ()
             else updateClientServiceAccountEcosystemAccess env (orEmpty (ogIdpId g)) orgId ecosystemId role)))
     (\<lambda>e. ret ())"

definition updateKeycloakEcosystem ::
  "eco_env \<Rightarrow> platform_user \<Rightarrow> string \<Rightarrow> string \<Rightarrow> EcosystemServiceRole \<Rightarrow> (eco_db, unit) eff" where
  "updateKeycloakEcosystem env user orgId ecosystemId role =
     andThen (lift (xToken env))
     (andThen
        (if truthy (usKeycloakUserId user)
         then updateUserEcosystemAccess env (orEmpty (usKeycloakUserId user)) orgId ecosystemId role
         else ret ())
        (updateOrgServiceAccountEcosystem env orgId ecosystemId role))"

definition updateKeycloakEcosystemLeads ::
  "eco_env \<Rightarrow> platform_user \<Rightarrow> string \<Rightarrow> string \<Rightarrow> (eco_db, unit) eff" where
  "updateKeycloakEcosystemLeads env user orgId ecosystemId = updateKeycloakEcosystem env user orgId ecosystemId RoleLead"

definition updateKeycloakEcosystemMember ::
  "eco_env \<Rightarrow> platform_user \<Rightarrow> string \<Rightarrow> string \<Rightarrow> (eco_db, unit) eff" where
  "updateKeycloakEcosystemMember env user orgId ecosystemId = updateKeycloakEcosystem env user orgId ecosystemId RoleMember"

text \<open>The transaction of \<open>createEcosystem\<close>. Prisma refuses \<open>null\<close> for a required column.\<close>

definition createEcosystemRows :: "eco_env \<Rightarrow> ICreateEcosystem \<Rightarrow> platform_user \<Rightarrow> (eco_db, ecosystem) eff" where
  "createEcosystemRows env dto user = transact
     (bind (createNewEcosystem env dto) (\<lambda>newEcosystem.
        case usEmail user of
          None \<Rightarrow> throw (PrismaError ''validation'')
        | Some email \<Rightarrow>
            andThen (updateEcosystemInvitationDetails email (ecoId newEcosystem) (ceOrgId dto)) (ret newEcosystem)))"

definition createEcosystem :: "eco_env \<Rightarrow> ICreateEcosystem \<Rightarrow> (eco_db, ecosystem) eff" where
  "createEcosystem env dto = tryCatch
     (if ceUserId dto = [] then throw (BadRequestException ''userIdMissing'')
      else bind (findAcceptedInvitationByUserId (ceUserId dto)) (\<lambda>invitation.
        if invitation = None then throw (ForbiddenException ''invitationRequiredFromPlatformAdmin'')
        else bind (checkEcosystemNameExist (ceName dto)) (\<lambda>ecosystemExist.
          if ecosystemExist \<noteq> None then throw (ConflictException ''exists'')
          else bind (getUserById (ceUserId dto)) (\<lambda>user.
            case user of
              None \<Rightarrow> throw (PlainError ''Error fetching user'')
            | Some u \<Rightarrow>
                bind (createEcosystemRows env dto u) (\<lambda>ecosystem.
                  andThen (updateKeycloakEcosystemLeads env u (ceOrgId dto) (ecoId ecosystem)) (ret ecosystem))))))
     (\<lambda>e. throw (rpcResponse e))"

text \<open>The part of \<open>updateEcosystemInvitationStatus\<close> after the invitation was accepted.\<close>

definition enterEcosystem :: "eco_env \<Rightarrow> platform_user \<Rightarrow> string \<Rightarrow> ecosystem_invitations \<Rightarrow> (eco_db, unit) eff" where
  "enterEcosystem env user reqUser result =
     bind (getEcosystemRoleByName ECOSYSTEM_MEMBER) (\<lambda>role.
       case role of
         None \<Rightarrow> throw (PlainError ''Error fetching ecosystem role'')
       | Some r \<Rightarrow>
           (if \<not> truthy (eiInvitedOrg result) then throw (PlainError ''orgIdMissing'')
            else if \<not> truthy (eiUserId result) then throw (PlainError ''userIdMissing'')
            else bind (getEcosystemOrg (orEmpty (eiEcosystemId result)) (orEmpty (eiUserId result))) (\<lambda>existingOrg.
              if existingOrg \<noteq> None then ret ()
              else andThen
                (createEcosystemOrg \<lparr>eoId = xUuid env 2, eoOrgId = orEmpty (eiInvitedOrg result),
                   eoStatus = OrgActive, eoEcosystemId = orEmpty (eiEcosystemId result), eoRoleId = erId r,
                   eoUserId = eiUserId result, eoCreatedBy = reqUser, eoDeletedAt = None\<rparr>)
                (updateKeycloakEcosystemMember env user (orEmpty (eiInvitedOrg result))
                   (orEmpty (eiEcosystemId result))))))"

definition updateEcosystemInvitationStatus ::
  "eco_env \<Rightarrow> Invitation \<Rightarrow> string \<Rightarrow> string \<Rightarrow> string \<Rightarrow> (eco_db, bool) eff" where
  "updateEcosystemInvitationStatus env status reqUser ecosystemId orgId =
     bind (getUserById reqUser) (\<lambda>user.
       case user of
         None \<Rightarrow> throw (RpcException 404 ''userNotFoundForInvitation'')
       | Some u \<Rightarrow>
           (if \<not> truthy (usEmail u) then throw (RpcException 400 ''userEmailRequired'')
            else bind (getEcosystemInvitationsByEmail (orEmpty (usEmail u)) ecosystemId orgId) (\<lambda>existingInvitation.
              case existingInvitation of
                None \<Rightarrow> throw (RpcException 404 ''invitationNotFound'')
              | Some found \<Rightarrow>
                  (if eiStatus found = InvAccepted then throw (BadRequestException ''alreadyAccepted'')
                   else bind (updateEcosystemInvitationStatusByEmail (orEmpty (usEmail u)) orgId ecosystemId status)
                     (\<lambda>result.
                        andThen
                          (if eiStatus result = InvAccepted \<and> truthy (eiEcosystemId result)
                           then enterEcosystem env u reqUser result else ret ())
                          (ret True))))))"

text \<open>
  Inviting an organisation when no open or lead invitation is in the way. The invitation found by its key
  has the ecosystem and the organisation of the request, which the source tests again.
\<close>

definition sendMemberInvitation ::
  "eco_env \<Rightarrow> string \<Rightarrow> string \<Rightarrow> string \<Rightarrow> platform_user \<Rightarrow> (eco_db, bool) eff" where
  "sendMemberInvitation env orgId reqUser ecosystemId user =
     bind (createEcosystemInvitation env (orEmpty (usEmail user)) (Some (usId user)) reqUser (Some InviteMember)
             (Some InvPending) (Some ecosystemId) (Some orgId)) (\<lambda>invitation.
       if reqUser = usId user
       then andThen (updateEcosystemInvitationStatus env InvAccepted reqUser ecosystemId orgId) (ret True)
       else bind (getEcosystemById ecosystemId) (\<lambda>ecosystem. lift (xSendEmail env (orEmpty (usEmail user)))))"

definition inviteMemberToEcosystem :: "eco_env \<Rightarrow> string \<Rightarrow> string \<Rightarrow> string \<Rightarrow> (eco_db, bool) eff" where
  "inviteMemberToEcosystem env orgId reqUser ecosystemId = tryCatch
     (bind (reads edConfig) (\<lambda>platformConfigData.
      if platformConfigData = None then throw (InternalServerErrorException ''platformConfigNotFound'')
      else bind (getOrgProfile orgId) (\<lambda>organization.
      case organization of
        None \<Rightarrow> throw (TypeError ''Cannot read properties of null'')
      | Some g \<Rightarrow>
      bind (getUserById (ogCreatedBy g)) (\<lambda>user.
      case user of
        None \<Rightarrow> throw (NotFoundException ''userNotFound'')
      | Some u \<Rightarrow>
      if \<not> truthy (usEmail u) then throw (BadRequestException ''userEmailRequired'')
      else bind (getEcosystemInvitationsByEmail (orEmpty (usEmail u)) ecosystemId orgId) (\<lambda>checkUser.
      case checkUser of
        None \<Rightarrow> sendMemberInvitation env orgId reqUser ecosystemId u
      | Some found \<Rightarrow>
          (if eiStatus found = InvRejected
           then andThen (updateEcosystemInvitationStatusByEmail (orEmpty (usEmail u)) orgId ecosystemId InvPending)
                  (ret True)
           else if eiStatus found = InvPending \<and> eiType found = InviteMember
           then throw (ConflictException (''Invitation already exists for org with email '' @ orEmpty (usEmail u)))
           else if eiStatus found = InvAccepted \<and> eiType found = InviteEcosystem
           then throw (BadRequestException ''unableToSendInvitationToLead'')
           else sendMemberInvitation env orgId reqUser ecosystemId u))))))
     (\<lambda>e. throw (rpcResponse e))"

definition deleteOrgsFromEcosystem :: "string \<Rightarrow> string list \<Rightarrow> (eco_db, nat) eff" where
  "deleteOrgsFromEcosystem ecosystemId orgIds = transact
     (bind (deleteOrgFromEcosystem ecosystemId orgIds) (\<lambda>deletedCount.
        andThen (deleteEcosystemInvitationByOrgId ecosystemId orgIds) (ret deletedCount)))"

definition updateEcosystemOrgStatus :: "string \<Rightarrow> string list \<Rightarrow> EcosystemOrgStatus \<Rightarrow> (eco_db, nat) eff" where
  "updateEcosystemOrgStatus ecosystemId orgIds status = updateEcosystemOrgStatusRows ecosystemId orgIds status"

subsection \<open>Intent templates and intents\<close>

definition scopeText :: "string option \<Rightarrow> string" where
  "scopeText orgId = (if truthy orgId then ''org '' @ orEmpty orgId else ''globally'')"

definition templateAssigned :: "string option \<Rightarrow> error" where
  "templateAssigned orgId =
     RpcException 409 (''A template is already assigned to this intent for '' @ scopeText orgId @ ''.'')"

definition createIntentTemplate ::
  "eco_env \<Rightarrow> string option \<Rightarrow> string \<Rightarrow> string \<Rightarrow> string \<Rightarrow> (eco_db, intent_templates) eff" where
  "createIntentTemplate env orgId intentId templateId userId = tryCatch
     (bind (findIntentById intentId) (\<lambda>intent.
        case intent of
          None \<Rightarrow> throw (RpcException 404 ''Intent not found'')
        | Some n \<Rightarrow>
            andThen
              (if truthy orgId
               then bind (findEcosystemOrg (inEcosystemId n) (orEmpty orgId)) (\<lambda>orgMembership.
                      if map_option eoStatus orgMembership \<noteq> Some OrgActive
                      then throw (RpcException 403 ''Provided orgId is not an ACTIVE member of this ecosystem'')
                      else ret ())
               else ret ())
              (bind (findIntentTemplate orgId intentId templateId) (\<lambda>existingTemplate.
                 if existingTemplate \<noteq> None then throw (templateAssigned orgId)
                 else insertIntentTemplate env orgId intentId templateId userId))))
     (\<lambda>e. throw (categorize env ''Failed to create intent template'' e))"

definition updateIntentTemplate ::
  "eco_env \<Rightarrow> string \<Rightarrow> string option \<Rightarrow> string \<Rightarrow> string \<Rightarrow> string option \<Rightarrow> (eco_db, unit) eff" where
  "updateIntentTemplate env i orgId intentId templateId userId = tryCatch
     (if \<not> truthy userId then throw (RpcException 400 ''user is required'')
      else if intentId = [] \<or> templateId = [] then throw (RpcException 400 ''intentId and templateId are required'')
      else bind (getIntentTemplateRow i) (\<lambda>existing.
        if existing = None then throw (RpcException 404 (''Intent template not found for id '' @ i))
        else bind (findIntentTemplate orgId intentId templateId) (\<lambda>duplicate.
          case duplicate of
            Some t \<Rightarrow>
              (if itId t \<noteq> i then throw (templateAssigned orgId)
               else updateIntentTemplateRow i orgId intentId templateId (orEmpty userId))
          | None \<Rightarrow> updateIntentTemplateRow i orgId intentId templateId (orEmpty userId))))
     (\<lambda>e. throw (categorize env ''Failed to update intent template'' e))"

definition deleteIntentTemplate :: "eco_env \<Rightarrow> string \<Rightarrow> (eco_db, unit) eff" where
  "deleteIntentTemplate env i = tryCatch (deleteIntentTemplateRow i)
     (\<lambda>e. throw (categorize env ''Failed to delete intent template'' e))"

text \<open>
  The promise of the repository's \<open>createIntent\<close> is returned without \<open>await\<close>: its exceptions leave the
  \<open>try\<close> block uncategorised.
\<close>

definition createIntent ::
  "eco_env \<Rightarrow> string \<Rightarrow> string option \<Rightarrow> string \<Rightarrow> string \<Rightarrow> (eco_db, intents) eff" where
  "createIntent env name description ecosystemId userId =
     andThen
       (tryCatch
         (bind (getEcosystemById ecosystemId) (\<lambda>ecosystem.
          bind (checkIntentExist env name ecosystemId None) (\<lambda>intentExist.
            if intentExist \<noteq> None then throw (ConflictException ''intentAlreadyExists'') else ret ())))
         (\<lambda>e. throw (categorize env ''Failed to create intent'' e)))
       (insertIntent env name description userId ecosystemId)"

definition updateIntent ::
  "eco_env \<Rightarrow> string \<Rightarrow> string option \<Rightarrow> string \<Rightarrow> string \<Rightarrow> string \<Rightarrow> (eco_db, unit) eff" where
  "updateIntent env name description ecosystemId intentId userId = tryCatch
     (if userId = [] then throw (BadRequestException ''userIdMissing'')
      else bind (checkIntentExist env name ecosystemId (Some intentId)) (\<lambda>intentExist.
        if intentExist \<noteq> None then throw (ConflictException ''intentAlreadyExists'')
        else updateIntentRow intentId name description userId))
     (\<lambda>e. throw (categorize env ''Failed to update intent'' e))"

definition checkUnmanagedAttributeEnabled :: "eco_env \<Rightarrow> (eco_db, unit) eff" where
  "checkUnmanagedAttributeEnabled env =
     bind (lift (xToken env)) (\<lambda>token.
       if \<not> truthy (xRealm env) \<or> token = []
       then throw (InternalServerErrorException ''keycloakRealmOrTokenMissing'')
       else bind (lift (xUserProfilePolicy env)) (\<lambda>policy.
         if policy \<noteq> Some ''ENABLED'' then throw (BadRequestException ''unmanagedAttributeNotEnabled'') else ret ()))"

definition updateEcosystemConfig :: "eco_env \<Rightarrow> bool \<Rightarrow> string \<Rightarrow> (eco_db, unit) eff" where
  "updateEcosystemConfig env isEcosystemEnabled platformAdminId =
     (if platformAdminId = [] then throw (BadRequestException ''platformIdRequired'')
      else andThen (if isEcosystemEnabled then checkUnmanagedAttributeEnabled env else ret ())
             (updateEcosystemConfigRow isEcosystemEnabled))"

subsection \<open>Intent notices\<close>

definition validateNoticeUrl :: "eco_env \<Rightarrow> string \<Rightarrow> (eco_db, unit) eff" where
  "validateNoticeUrl env noticeUrl =
     (if noticeUrl = [] \<or> trim noticeUrl = [] then throw (RpcException 400 ''noticeUrl must not be empty.'')
      else case xFetch env noticeUrl of
        Inl m \<Rightarrow> throw (RpcException 400 (''noticeUrl could not be resolved: '' @ m))
      | Inr status \<Rightarrow>
          (if 200 \<le> status \<and> status < 300 then ret ()
           else throw (RpcException 400 (''noticeUrl is not reachable (HTTP '' @ showNat status @ '').''))))"

definition validateEcosystemLead :: "string \<Rightarrow> string \<Rightarrow> (eco_db, unit) eff" where
  "validateEcosystemLead userId ecosystemId =
     bind (isEcosystemLead userId ecosystemId) (\<lambda>isLead.
       if \<not> isLead then throw (RpcException 403 ''Only Ecosystem Lead can perform this action.'') else ret ())"

definition createIntentNotice ::
  "eco_env \<Rightarrow> string \<Rightarrow> string \<Rightarrow> string \<Rightarrow> string option \<Rightarrow> (eco_db, intent_notices) eff" where
  "createIntentNotice env intentId noticeUrl userId orgId = tryCatch
     (andThen (validateNoticeUrl env noticeUrl)
     (bind (findIntentById intentId) (\<lambda>intent.
        case intent of
          None \<Rightarrow> throw (RpcException 404 ''intentNotFound'')
        | Some n \<Rightarrow>
            andThen (validateEcosystemLead userId (inEcosystemId n))
            (andThen
              (if truthy orgId
               then bind (getEcosystemOrg (inEcosystemId n) (orEmpty orgId)) (\<lambda>membership.
                      if membership = None
                      then throw (RpcException 403 ''The provided orgId is not a member or lead of this ecosystem.'')
                      else ret ())
               else ret ())
              (bind (intentNoticeExists intentId orgId) (\<lambda>isAlreadyExists.
                 if isAlreadyExists
                 then throw (RpcException 409 (''An intent notice with '' @
                        (if truthy orgId then ''orgId '' @ orEmpty orgId else ''no orgId'') @
                        '' already exists for this intent.''))
                 else insertIntentNotice env intentId noticeUrl userId orgId))))))
     (\<lambda>e. throw (categorize env ''create'' e))"

text \<open>The common beginning of \<open>updateIntentNotice\<close> and \<open>deleteIntentNotice\<close>.\<close>

definition authoriseNotice :: "string \<Rightarrow> string \<Rightarrow> (eco_db, unit) eff" where
  "authoriseNotice i userId =
     bind (getIntentNoticeRow i) (\<lambda>notice.
       case notice of
         None \<Rightarrow> throw (RpcException 404 ''notFound'')
       | Some nt \<Rightarrow>
           bind (findIntentById (ntIntentId nt)) (\<lambda>intent.
             case intent of
               None \<Rightarrow> throw (TypeError ''Cannot read properties of null'')
             | Some n \<Rightarrow> validateEcosystemLead userId (inEcosystemId n)))"

definition updateIntentNotice :: "eco_env \<Rightarrow> string \<Rightarrow> string \<Rightarrow> string \<Rightarrow> (eco_db, unit) eff" where
  "updateIntentNotice env i noticeUrl userId = tryCatch
     (andThen (validateNoticeUrl env noticeUrl)
     (andThen (authoriseNotice i userId) (updateIntentNoticeRow i noticeUrl userId)))
     (\<lambda>e. throw (categorize env ''updateFailed'' e))"

definition deleteIntentNotice :: "eco_env \<Rightarrow> string \<Rightarrow> string \<Rightarrow> (eco_db, unit) eff" where
  "deleteIntentNotice env i userId = tryCatch
     (andThen (authoriseNotice i userId) (deleteIntentNoticeRow i))
     (\<lambda>e. throw (categorize env ''deleteFailed'' e))"

subsection \<open>Messages\<close>

datatype eco_call =
    InviteUser string string
  | CreateEcosystem ICreateEcosystem
  | InviteMemberOrg string string string
  | UpdateInvitation Invitation string string string
  | DeleteOrgs string "string list"
  | UpdateOrgStatus string "string list" EcosystemOrgStatus
  | CreateTemplate "string option" string string string
  | UpdateTemplate string "string option" string string "string option"
  | DeleteTemplate string
  | CreateIntent string "string option" string string
  | UpdateIntent string "string option" string string string
  | DeleteIntent string string
  | UpdateConfig bool string
  | CreateNotice string string string "string option"
  | UpdateNotice string string string
  | DeleteNotice string string

fun eco_run :: "eco_env \<Rightarrow> eco_call \<Rightarrow> (eco_db, unit) eff" where
  "eco_run env (InviteUser email adminId) = andThen (inviteUserToCreateEcosystem env email adminId) (ret ())"
| "eco_run env (CreateEcosystem dto) = andThen (createEcosystem env dto) (ret ())"
| "eco_run env (InviteMemberOrg orgId reqUser ecosystemId) =
     andThen (inviteMemberToEcosystem env orgId reqUser ecosystemId) (ret ())"
| "eco_run env (UpdateInvitation status reqUser ecosystemId orgId) =
     andThen (updateEcosystemInvitationStatus env status reqUser ecosystemId orgId) (ret ())"
| "eco_run env (DeleteOrgs ecosystemId orgIds) = andThen (deleteOrgsFromEcosystem ecosystemId orgIds) (ret ())"
| "eco_run env (UpdateOrgStatus ecosystemId orgIds status) =
     andThen (updateEcosystemOrgStatus ecosystemId orgIds status) (ret ())"
| "eco_run env (CreateTemplate orgId intentId templateId userId) =
     andThen (createIntentTemplate env orgId intentId templateId userId) (ret ())"
| "eco_run env (UpdateTemplate i orgId intentId templateId userId) =
     updateIntentTemplate env i orgId intentId templateId userId"
| "eco_run env (DeleteTemplate i) = deleteIntentTemplate env i"
| "eco_run env (CreateIntent name description ecosystemId userId) =
     andThen (createIntent env name description ecosystemId userId) (ret ())"
| "eco_run env (UpdateIntent name description ecosystemId intentId userId) =
     updateIntent env name description ecosystemId intentId userId"
| "eco_run env (DeleteIntent ecosystemId intentId) = andThen (deleteIntent ecosystemId intentId) (ret ())"
| "eco_run env (UpdateConfig enabled adminId) = updateEcosystemConfig env enabled adminId"
| "eco_run env (CreateNotice intentId url userId orgId) =
     andThen (createIntentNotice env intentId url userId orgId) (ret ())"
| "eco_run env (UpdateNotice i url userId) = updateIntentNotice env i url userId"
| "eco_run env (DeleteNotice i userId) = deleteIntentNotice env i userId"

subsection \<open>All runs\<close>

text \<open>
  The rows of other services that the tables refer to. A foreign key keeps such a row from being deleted;
  deletions that other services cascade into these tables are not modelled.
\<close>

definition foreign_keys :: "eco_db \<Rightarrow> bool" where
  "foreign_keys db \<longleftrightarrow>
     list_all (\<lambda>o'. eoOrgId o' \<in> ogId ` set (edOrganisations db) \<and> knownId (map usId (edUsers db)) (eoUserId o')) (edOrgs db) \<and>
     list_all (\<lambda>i. knownId (map ogId (edOrganisations db)) (eiInvitedOrg i) \<and> knownId (map usId (edUsers db)) (eiUserId i))
       (edInvitations db) \<and>
     list_all (\<lambda>t. templateRefs db (itOrgId t) (itIntentId t) (itTemplateId t)) (edTemplates db) \<and>
     list_all (\<lambda>n. knownId (map ogId (edOrganisations db)) (ntOrgId n)) (edNotices db)"

inductive eco_step :: "eco_db \<Rightarrow> eco_db \<Rightarrow> bool" where
  call: "eco_run env c db = (r, db') \<Longrightarrow> eco_step db db'"
| others: "db' = db\<lparr>edUsers := us, edOrganisations := gs, edVerificationTemplates := ts, edKeycloak := k\<rparr> \<Longrightarrow>
    foreign_keys db' \<Longrightarrow> eco_step db db'"

text \<open>The tables are empty at first but for the seeded roles.\<close>

definition eco_start :: "eco_db \<Rightarrow> bool" where
  "eco_start db \<longleftrightarrow> distinct (map erId (edRoles db)) \<and> distinct (map erName (edRoles db)) \<and>
     edEcosystems db = [] \<and> edOrgs db = [] \<and> edInvitations db = [] \<and> edIntents db = [] \<and> edTemplates db = [] \<and>
     edNotices db = []"

end
