(* ===== verification/Ecosystem_Invariant.thy ===== *)
theory Ecosystem_Invariant
  imports Ecosystem_Service
begin

text \<open>
  The invariant of the ecosystem tables: one predicate per table, a lemma for each write, and one for each
  handler. The locale \<open>access_frame\<close> is what a relation on states has to respect for the Keycloak updates to
  respect it; its interpretation \<open>eco\<close> carries the invariant through the handlers, and \<open>eco_runs\<close> is the
  system of all runs.
\<close>

section \<open>Invariant of the tables\<close>

definition orgKey :: "ecosystem_orgs \<Rightarrow> string \<times> string" where
  "orgKey o' = (eoOrgId o', eoEcosystemId o')"

definition noticeKey :: "intent_notices \<Rightarrow> string \<times> string option" where
  "noticeKey n = (ntIntentId n, ntOrgId n)"

definition roles_ok :: "eco_db \<Rightarrow> bool" where
  "roles_ok db \<longleftrightarrow> distinct (map erId (edRoles db)) \<and> distinct (map erName (edRoles db))"

definition orgs_ok :: "eco_db \<Rightarrow> bool" where
  "orgs_ok db \<longleftrightarrow> distinct (map ecoId (edEcosystems db)) \<and> distinct (map eoId (edOrgs db)) \<and>
     distinct (map orgKey (edOrgs db)) \<and>
     (\<forall>o' \<in> set (edOrgs db). eoEcosystemId o' \<in> ecoId ` set (edEcosystems db) \<and> eoRoleId o' \<in> erId ` set (edRoles db) \<and>
        eoOrgId o' \<in> ogId ` set (edOrganisations db) \<and> knownId (map usId (edUsers db)) (eoUserId o'))"

definition invitation_refs :: "eco_db \<Rightarrow> ecosystem_invitations \<Rightarrow> bool" where
  "invitation_refs db i \<longleftrightarrow> knownId (map ecoId (edEcosystems db)) (eiEcosystemId i) \<and>
     knownId (map ogId (edOrganisations db)) (eiInvitedOrg i) \<and> knownId (map usId (edUsers db)) (eiUserId i)"

definition invitation_type_ok :: "ecosystem_invitations \<Rightarrow> bool" where
  "invitation_type_ok i \<longleftrightarrow>
     (case eiType i of
        InviteEcosystem \<Rightarrow> eiStatus i = InvAccepted
      | InviteMember \<Rightarrow> invitationKey i \<noteq> None)"

definition unique_keys :: "ecosystem_invitations set \<Rightarrow> bool" where
  "unique_keys rows \<longleftrightarrow> (\<forall>i \<in> rows. \<forall>j \<in> rows. invitationKey i \<noteq> None \<longrightarrow> invitationKey j = invitationKey i \<longrightarrow> j = i)"

definition invitations_ok :: "eco_db \<Rightarrow> bool" where
  "invitations_ok db \<longleftrightarrow> distinct (map eiId (edInvitations db)) \<and>
     unique_keys (set (edInvitations db)) \<and>
     (\<forall>i \<in> set (edInvitations db). invitation_refs db i \<and> invitation_type_ok i)"

definition intents_ok :: "eco_db \<Rightarrow> bool" where
  "intents_ok db \<longleftrightarrow> distinct (map inId (edIntents db)) \<and>
     (\<forall>n \<in> set (edIntents db). inEcosystemId n \<in> ecoId ` set (edEcosystems db))"

definition templates_ok :: "eco_db \<Rightarrow> bool" where
  "templates_ok db \<longleftrightarrow> distinct (map itId (edTemplates db)) \<and> distinct (map templateKey (edTemplates db)) \<and>
     (\<forall>t \<in> set (edTemplates db). templateRefs db (itOrgId t) (itIntentId t) (itTemplateId t))"

definition notices_ok :: "eco_db \<Rightarrow> bool" where
  "notices_ok db \<longleftrightarrow> distinct (map ntId (edNotices db)) \<and> distinct (map noticeKey (edNotices db)) \<and>
     (\<forall>n \<in> set (edNotices db). ntIntentId n \<in> inId ` set (edIntents db) \<and>
        knownId (map ogId (edOrganisations db)) (ntOrgId n))"

text \<open>An accepted invitation of an organisation to an ecosystem.\<close>

definition invited :: "eco_db \<Rightarrow> string \<Rightarrow> string \<Rightarrow> bool" where
  "invited db orgId ecosystemId \<longleftrightarrow>
     (\<exists>i \<in> set (edInvitations db). eiType i = InviteMember \<and> eiStatus i = InvAccepted \<and>
        eiEcosystemId i = Some ecosystemId \<and> eiInvitedOrg i = Some orgId)"

definition members_ok :: "eco_db \<Rightarrow> bool" where
  "members_ok db \<longleftrightarrow> (\<forall>o' \<in> set (edOrgs db). roleName db o' = Some ECOSYSTEM_MEMBER \<longrightarrow>
     invited db (eoOrgId o') (eoEcosystemId o'))"

definition leads_ok :: "eco_db \<Rightarrow> bool" where
  "leads_ok db \<longleftrightarrow> (\<forall>e \<in> set (edEcosystems db).
     \<exists>o' \<in> set (edOrgs db). eoEcosystemId o' = ecoId e \<and> roleName db o' = Some ECOSYSTEM_LEAD)"

definition eco_inv :: "eco_db \<Rightarrow> bool" where
  "eco_inv db \<longleftrightarrow> roles_ok db \<and> orgs_ok db \<and> invitations_ok db \<and> intents_ok db \<and> templates_ok db \<and> notices_ok db \<and>
     members_ok db \<and> leads_ok db"

lemmas tables_ok_defs = roles_ok_def orgs_ok_def invitations_ok_def invitation_refs_def intents_ok_def
  templates_ok_def templateRefs_def notices_ok_def

lemma eco_invD:
  assumes "eco_inv db"
  shows "roles_ok db" "orgs_ok db" "invitations_ok db" "intents_ok db" "templates_ok db" "notices_ok db"
    "members_ok db" "leads_ok db"
  using assms by (simp_all add: eco_inv_def)

lemma roleName_cong [simp]:
  "roleName (db\<lparr>edOrgs := os\<rparr>) o' = roleName db o'"
  "roleName (db\<lparr>edInvitations := is\<rparr>) o' = roleName db o'"
  "roleName (db\<lparr>edEcosystems := es\<rparr>) o' = roleName db o'"
  "roleName (db\<lparr>edIntents := ns\<rparr>) o' = roleName db o'"
  "roleName (db\<lparr>edTemplates := ts\<rparr>) o' = roleName db o'"
  "roleName (db\<lparr>edNotices := nts\<rparr>) o' = roleName db o'"
  "roleName (db\<lparr>edConfig := c\<rparr>) o' = roleName db o'"
  "roleName (db\<lparr>edKeycloak := k\<rparr>) o' = roleName db o'"
  "roleName (o''\<lparr>edRoles := edRoles db\<rparr>) o' = roleName db o'"
  by (simp_all add: roleName_def)

lemma roleName_status [simp]: "roleName db (o'\<lparr>eoStatus := s\<rparr>) = roleName db o'"
  by (simp add: roleName_def)

lemma lead_not_member: "ECOSYSTEM_LEAD \<noteq> ECOSYSTEM_MEMBER"
  by code_simp

lemma roleName_role:
  assumes "roles_ok db" and "List.find (\<lambda>r. erName r = nm) (edRoles db) = Some r" and "eoRoleId o' = erId r"
  shows "roleName db o' = Some nm"
proof -
  from assms(2) have r: "r \<in> set (edRoles db)" "erName r = nm" by (auto dest: find_SomeD)
  obtain r' where r': "List.find (\<lambda>r. erId r = eoRoleId o') (edRoles db) = Some r'"
    using r(1) assms(3) find_None_iff_all [of "\<lambda>r. erId r = eoRoleId o'"] by fastforce
  then have "r' = r"
    using assms(1,3) r(1) find_SomeD [OF r'] unfolding roles_ok_def by (metis distinct_map_eqD)
  then show ?thesis using r' r(2) by (simp add: roleName_def)
qed

lemma find_Some_id: "distinct (map k xs) \<Longrightarrow> x \<in> set xs \<Longrightarrow> List.find (\<lambda>y. k y = k x) xs = Some x"
  by (induction xs) auto

section \<open>Writes that keep the invariant\<close>

lemma inv_unrelated:
  assumes "eco_inv db"
  shows "eco_inv (db\<lparr>edConfig := c\<rparr>)" "eco_inv (db\<lparr>edKeycloak := k\<rparr>)"
  using assms by (simp_all add: eco_inv_def tables_ok_defs members_ok_def leads_ok_def invited_def)

lemma inv_orgs_status:
  assumes "eco_inv db"
  shows "eco_inv (db\<lparr>edOrgs := updateWhere p (\<lambda>o'. o'\<lparr>eoStatus := s\<rparr>) (edOrgs db)\<rparr>)"
proof -
  let ?f = "\<lambda>o'. o'\<lparr>eoStatus := s\<rparr> :: ecosystem_orgs"
  have keys: "map eoId (updateWhere p ?f (edOrgs db)) = map eoId (edOrgs db)"
    "map orgKey (updateWhere p ?f (edOrgs db)) = map orgKey (edOrgs db)"
    by (simp_all add: map_updateWhere_same orgKey_def)
  have orgs: "orgs_ok (db\<lparr>edOrgs := updateWhere p ?f (edOrgs db)\<rparr>)"
    using eco_invD(2) [OF assms] by (auto simp: orgs_ok_def keys elim!: in_updateWhereE)
  have members: "members_ok (db\<lparr>edOrgs := updateWhere p ?f (edOrgs db)\<rparr>)"
    using eco_invD(7) [OF assms] by (auto simp: members_ok_def invited_def elim!: in_updateWhereE)
  have "leads_ok (db\<lparr>edOrgs := updateWhere p ?f (edOrgs db)\<rparr>)" unfolding leads_ok_def
  proof
    fix e
    assume "e \<in> set (edEcosystems (db\<lparr>edOrgs := updateWhere p ?f (edOrgs db)\<rparr>))"
    then obtain o' where "o' \<in> set (edOrgs db)" "eoEcosystemId o' = ecoId e" "roleName db o' = Some ECOSYSTEM_LEAD"
      using eco_invD(8) [OF assms] by (auto simp: leads_ok_def)
    then show "\<exists>o' \<in> set (edOrgs (db\<lparr>edOrgs := updateWhere p ?f (edOrgs db)\<rparr>)). eoEcosystemId o' = ecoId e \<and>
        roleName (db\<lparr>edOrgs := updateWhere p ?f (edOrgs db)\<rparr>) o' = Some ECOSYSTEM_LEAD"
      by (intro bexI [of _ "if p o' then ?f o' else o'"]) (auto simp: updateWhere_def)
  qed
  then show ?thesis using assms orgs members by (simp add: eco_inv_def tables_ok_defs)
qed

lemma inv_insert_intent:
  assumes "eco_inv db" and "inId row \<notin> inId ` set (edIntents db)" and "inEcosystemId row \<in> ecoId ` set (edEcosystems db)"
  shows "eco_inv (db\<lparr>edIntents := edIntents db @ [row]\<rparr>)"
  using assms by (auto simp: eco_inv_def tables_ok_defs members_ok_def leads_ok_def invited_def)

lemma inv_update_intent:
  assumes "eco_inv db" and "\<And>n. inId (f n) = inId n" and "\<And>n. inEcosystemId (f n) = inEcosystemId n"
  shows "eco_inv (db\<lparr>edIntents := updateWhere p f (edIntents db)\<rparr>)"
proof -
  have ids: "map inId (updateWhere p f (edIntents db)) = map inId (edIntents db)"
    by (rule map_updateWhere_same) (rule assms(2))
  have set_ids: "inId ` set (updateWhere p f (edIntents db)) = inId ` set (edIntents db)"
    by (rule image_updateWhere_same) (rule assms(2))
  have "intents_ok (db\<lparr>edIntents := updateWhere p f (edIntents db)\<rparr>)"
    using eco_invD(4) [OF assms(1)] by (auto simp: intents_ok_def ids assms(3) elim!: in_updateWhereE)
  then show ?thesis using assms(1)
    by (simp add: eco_inv_def roles_ok_def orgs_ok_def invitations_ok_def invitation_refs_def templates_ok_def
        templateRefs_def notices_ok_def set_ids members_ok_def leads_ok_def invited_def)
qed

lemma inv_delete_intent:
  assumes "eco_inv db" and "i \<notin> itIntentId ` set (edTemplates db)" and "i \<notin> ntIntentId ` set (edNotices db)"
  shows "eco_inv (db\<lparr>edIntents := filter (\<lambda>n. \<not> (inId n = i \<and> inEcosystemId n = e)) (edIntents db)\<rparr>)"
proof -
  let ?db = "db\<lparr>edIntents := filter (\<lambda>n. \<not> (inId n = i \<and> inEcosystemId n = e)) (edIntents db)\<rparr>"
  have rest: "j \<in> inId ` set (edIntents ?db)" if "j \<in> inId ` set (edIntents db)" "j \<noteq> i" for j
    using that by auto
  have "intents_ok ?db" using eco_invD(4) [OF assms(1)] by (auto simp: intents_ok_def distinct_map_filter)
  moreover have "templateRefs ?db (itOrgId t) (itIntentId t) (itTemplateId t)" if "t \<in> set (edTemplates db)" for t
  proof -
    have "templateRefs db (itOrgId t) (itIntentId t) (itTemplateId t)" "itIntentId t \<noteq> i"
      using that eco_invD(5) [OF assms(1)] assms(2) by (auto simp: templates_ok_def)
    then show ?thesis using rest [of "itIntentId t"] by (simp add: templateRefs_def)
  qed
  then have "templates_ok ?db" using eco_invD(5) [OF assms(1)] by (simp add: templates_ok_def)
  moreover have "ntIntentId n \<in> inId ` set (edIntents ?db)" if "n \<in> set (edNotices db)" for n
  proof -
    have "ntIntentId n \<in> inId ` set (edIntents db)" "ntIntentId n \<noteq> i"
      using that eco_invD(6) [OF assms(1)] assms(3) by (auto simp: notices_ok_def)
    then show ?thesis by (rule rest)
  qed
  then have "notices_ok ?db" using eco_invD(6) [OF assms(1)] by (simp add: notices_ok_def)
  ultimately show ?thesis using assms(1)
    by (simp add: eco_inv_def roles_ok_def orgs_ok_def invitations_ok_def invitation_refs_def members_ok_def
        leads_ok_def invited_def)
qed

lemma inv_templates:
  assumes "eco_inv db" and "distinct (map itId ts)" and "distinct (map templateKey ts)"
    and "\<And>t. t \<in> set ts \<Longrightarrow> templateRefs db (itOrgId t) (itIntentId t) (itTemplateId t)"
  shows "eco_inv (db\<lparr>edTemplates := ts\<rparr>)"
  using assms by (simp add: eco_inv_def tables_ok_defs members_ok_def leads_ok_def invited_def)

lemma inv_notices:
  assumes "eco_inv db" and "distinct (map ntId ns)" and "distinct (map noticeKey ns)"
    and "\<And>n. n \<in> set ns \<Longrightarrow> ntIntentId n \<in> inId ` set (edIntents db) \<and> knownId (map ogId (edOrganisations db)) (ntOrgId n)"
  shows "eco_inv (db\<lparr>edNotices := ns\<rparr>)"
  using assms by (simp add: eco_inv_def tables_ok_defs members_ok_def leads_ok_def invited_def)

text \<open>
  The invariant with the invitations replaced: the rows have to be well-formed, and every accepted
  invitation of an organisation has to stay.
\<close>

lemma inv_invitations:
  assumes "eco_inv db" and "invitations_ok (db\<lparr>edInvitations := is\<rparr>)"
    and "\<And>orgId e. invited db orgId e \<Longrightarrow> invited (db\<lparr>edInvitations := is\<rparr>) orgId e"
  shows "eco_inv (db\<lparr>edInvitations := is\<rparr>)"
proof -
  have "members_ok (db\<lparr>edInvitations := is\<rparr>)"
    using eco_invD(7) [OF assms(1)] assms(3) by (simp add: members_ok_def)
  then show ?thesis using assms(1,2)
    by (simp add: eco_inv_def roles_ok_def orgs_ok_def intents_ok_def templates_ok_def templateRefs_def notices_ok_def
        leads_ok_def)
qed

lemma invitation_refs_cong [simp]:
  "invitation_refs (db\<lparr>edInvitations := is\<rparr>) i = invitation_refs db i"
  "invitation_refs db (i\<lparr>eiStatus := s\<rparr>) = invitation_refs db i"
  by (simp_all add: invitation_refs_def)

lemma invitationKey_status [simp]: "invitationKey (i\<lparr>eiStatus := s\<rparr>) = invitationKey i"
  by (simp add: invitationKey_def split: option.splits)

lemma unique_keysD:
  "unique_keys rows \<Longrightarrow> i \<in> rows \<Longrightarrow> j \<in> rows \<Longrightarrow> invitationKey i = Some k \<Longrightarrow> invitationKey j = Some k \<Longrightarrow> j = i"
  unfolding unique_keys_def by (metis option.distinct(1))

lemma unique_keys_subset: "unique_keys rows \<Longrightarrow> rows' \<subseteq> rows \<Longrightarrow> unique_keys rows'"
  unfolding unique_keys_def by blast

lemma unique_keys_insert:
  assumes "unique_keys rows" and "\<And>j. j \<in> rows \<Longrightarrow> invitationKey i \<noteq> None \<Longrightarrow> invitationKey j \<noteq> invitationKey i"
  shows "unique_keys (insert i rows)"
  using assms unfolding unique_keys_def by (metis insert_iff)

lemma inv_create_invitation:
  assumes "eco_inv db" and "\<not> invitationClash row (edInvitations db)" and "invitation_refs db row"
    and "invitation_type_ok row"
  shows "eco_inv (db\<lparr>edInvitations := edInvitations db @ [row]\<rparr>)"
proof (rule inv_invitations [OF assms(1)])
  have "unique_keys (insert row (set (edInvitations db)))"
    using eco_invD(3) [OF assms(1)] assms(2)
    by (intro unique_keys_insert) (auto simp: invitations_ok_def invitationClash_def)
  then show "invitations_ok (db\<lparr>edInvitations := edInvitations db @ [row]\<rparr>)"
    using eco_invD(3) [OF assms(1)] assms(2-4) by (auto simp: invitations_ok_def invitationClash_def)
qed (auto simp: invited_def)

lemma inv_invitation_status:
  assumes "eco_inv db" and "i \<in> set (edInvitations db)" and "eiStatus i \<noteq> InvAccepted"
  shows "eco_inv (db\<lparr>edInvitations := updateWhere (\<lambda>x. eiId x = eiId i) (\<lambda>x. x\<lparr>eiStatus := s\<rparr>) (edInvitations db)\<rparr>)"
proof (rule inv_invitations [OF assms(1)])
  let ?f = "\<lambda>x. x\<lparr>eiStatus := s\<rparr> :: ecosystem_invitations"
  have ok: "invitations_ok db" using assms(1) by (rule eco_invD)
  have rows: "set (updateWhere (\<lambda>x. eiId x = eiId i) ?f (edInvitations db)) = insert (?f i) (set (edInvitations db) - {i})"
    using ok assms(2) unfolding invitations_ok_def by (intro set_updateWhere_key) simp_all
  have keys: "map eiId (updateWhere (\<lambda>x. eiId x = eiId i) ?f (edInvitations db)) = map eiId (edInvitations db)"
    by (simp add: map_updateWhere_same)
  have member: "invitation_type_ok (?f i)"
    using ok assms(2,3) by (auto simp: invitations_ok_def invitation_type_ok_def split: InviteType.splits)
  have "unique_keys (insert (?f i) (set (edInvitations db) - {i}))"
  proof (rule unique_keys_insert)
    show "unique_keys (set (edInvitations db) - {i})"
      using ok by (auto simp: invitations_ok_def intro: unique_keys_subset)
    show "invitationKey j \<noteq> invitationKey (?f i)" if "j \<in> set (edInvitations db) - {i}" "invitationKey (?f i) \<noteq> None" for j
      using that ok assms(2) by (auto simp: invitations_ok_def dest: unique_keysD)
  qed
  then show "invitations_ok (db\<lparr>edInvitations := updateWhere (\<lambda>x. eiId x = eiId i) ?f (edInvitations db)\<rparr>)"
    using ok assms(2) member unfolding invitations_ok_def by (simp add: rows keys)
  show "invited (db\<lparr>edInvitations := updateWhere (\<lambda>x. eiId x = eiId i) ?f (edInvitations db)\<rparr>) orgId e"
    if "invited db orgId e" for orgId e
    using that assms(3) by (auto simp: invited_def rows)
qed

lemma inv_enter:
  assumes "eco_inv db" and "createEcosystemOrg row db = (r, db')"
    and "roleName db row = Some ECOSYSTEM_MEMBER" and "invited db (eoOrgId row) (eoEcosystemId row)"
  shows "eco_inv db'"
proof (cases r)
  case (Inr u)
  then have db': "db' = db\<lparr>edOrgs := edOrgs db @ [row]\<rparr>" and fresh: "eoId row \<notin> eoId ` set (edOrgs db)" "orgKey row \<notin> orgKey ` set (edOrgs db)"
    and refs: "eoEcosystemId row \<in> ecoId ` set (edEcosystems db)" "eoRoleId row \<in> erId ` set (edRoles db)"
      "eoOrgId row \<in> ogId ` set (edOrganisations db)" "knownId (map usId (edUsers db)) (eoUserId row)"
    using assms(2) by (auto simp: createEcosystemOrg_def orgKey_def split: if_splits)
  have "orgs_ok db'" using eco_invD(2) [OF assms(1)] fresh refs by (auto simp: orgs_ok_def db')
  moreover have "members_ok db'" using eco_invD(7) [OF assms(1)] assms(3,4) by (auto simp: members_ok_def invited_def db')
  moreover have "leads_ok db'" using eco_invD(8) [OF assms(1)] by (auto simp: leads_ok_def db')
  ultimately show ?thesis using assms(1)
    by (simp add: eco_inv_def roles_ok_def invitations_ok_def invitation_refs_def intents_ok_def templates_ok_def
        templateRefs_def notices_ok_def db')
qed (use assms(1,2) in \<open>auto simp: createEcosystemOrg_def split: if_splits\<close>)

lemma inv_delete_orgs:
  assumes "eco_inv db" and "deleteOrgsFromEcosystem e orgIds db = (r, db')"
  shows "eco_inv db'"
proof -
  let ?os = "filter (\<lambda>o'. \<not> (eoEcosystemId o' = e \<and> roleName db o' = Some ECOSYSTEM_MEMBER \<and> eoOrgId o' \<in> set orgIds)) (edOrgs db)"
  let ?is = "filter (\<lambda>i. \<not> (eiEcosystemId i = Some e \<and> eiType i = InviteMember \<and>
       (case eiInvitedOrg i of None \<Rightarrow> False | Some g \<Rightarrow> g \<in> set orgIds))) (edInvitations db)"
  have db': "db' = db\<lparr>edOrgs := ?os, edInvitations := ?is\<rparr>"
    using assms(2) by (auto simp: deleteOrgsFromEcosystem_def deleteOrgFromEcosystem_def deleteEcosystemInvitationByOrgId_def
        transact_def bind_def andThen_def Let_def)
  have orgs: "orgs_ok db'" using eco_invD(2) [OF assms(1)] by (auto simp: orgs_ok_def db' distinct_map_filter)
  have invs: "invitations_ok db'" using eco_invD(3) [OF assms(1)]
    by (auto simp: invitations_ok_def invitation_refs_def db' distinct_map_filter intro: unique_keys_subset)
  have members: "members_ok db'"
  proof -
    have "invited db' (eoOrgId o') (eoEcosystemId o')" if "o' \<in> set ?os" "roleName db o' = Some ECOSYSTEM_MEMBER" for o'
      using that eco_invD(7) [OF assms(1)] by (fastforce simp: members_ok_def invited_def db')
    then show ?thesis by (auto simp: members_ok_def db')
  qed
  have leads: "leads_ok db'" using eco_invD(8) [OF assms(1)] lead_not_member by (fastforce simp: leads_ok_def db')
  show ?thesis using assms(1) orgs invs members leads
    by (simp add: eco_inv_def roles_ok_def intents_ok_def templates_ok_def templateRefs_def notices_ok_def db')
qed

lemma newest_in: "newest is = Some i \<Longrightarrow> i \<in> set is"
  by (induction "is" arbitrary: i) (auto split: option.splits if_splits)

lemma createNewEcosystem_Inr:
  assumes "roles_ok db" and "createNewEcosystem env dto db = (Inr e, db')"
  obtains row where "db' = db\<lparr>edEcosystems := edEcosystems db @ [e], edOrgs := edOrgs db @ [row]\<rparr>"
    "ecoId e \<notin> ecoId ` set (edEcosystems db)" "eoId row \<notin> eoId ` set (edOrgs db)" "orgKey row \<notin> orgKey ` set (edOrgs db)"
    "orgKey row = (ceOrgId dto, ecoId e)" "eoUserId row = Some (ceUserId dto)" "roleName db row = Some ECOSYSTEM_LEAD"
    "eoRoleId row \<in> erId ` set (edRoles db)" "eoOrgId row \<in> ogId ` set (edOrganisations db)"
    "knownId (map usId (edUsers db)) (eoUserId row)"
proof (cases "List.find (\<lambda>r. erName r = ECOSYSTEM_LEAD) (edRoles db)")
  case None
  then show ?thesis using assms(2)
    by (auto simp: createNewEcosystem_def getEcosystemRoleByName_def insertEcosystem_def bind_def Let_def split: if_splits)
next
  case (Some role)
  let ?row = "\<lparr>eoId = xUuid env 2, eoOrgId = ceOrgId dto, eoStatus = OrgActive, eoEcosystemId = ecoId e,
     eoRoleId = erId role, eoUserId = Some (ceUserId dto), eoCreatedBy = ceUserId dto, eoDeletedAt = None\<rparr>"
  have "roleName db ?row = Some ECOSYSTEM_LEAD" using assms(1) Some by (rule roleName_role) simp
  then show ?thesis using assms(2) Some
    by (intro that [of ?row])
      (auto simp: createNewEcosystem_def getEcosystemRoleByName_def insertEcosystem_def createEcosystemOrg_def bind_def
        andThen_def Let_def orgKey_def split: if_splits)
qed

lemma inv_createNewEcosystem:
  assumes "eco_inv db" and "createNewEcosystem env dto db = (Inr e, db')"
  shows "eco_inv db'"
proof -
  obtain row where db': "db' = db\<lparr>edEcosystems := edEcosystems db @ [e], edOrgs := edOrgs db @ [row]\<rparr>"
    and row: "ecoId e \<notin> ecoId ` set (edEcosystems db)" "eoId row \<notin> eoId ` set (edOrgs db)" "orgKey row \<notin> orgKey ` set (edOrgs db)"
    "orgKey row = (ceOrgId dto, ecoId e)" "roleName db row = Some ECOSYSTEM_LEAD"
    "eoRoleId row \<in> erId ` set (edRoles db)" "eoOrgId row \<in> ogId ` set (edOrganisations db)"
    "knownId (map usId (edUsers db)) (eoUserId row)"
    using createNewEcosystem_Inr [OF eco_invD(1) [OF assms(1)] assms(2)] by metis
  have eco: "eoEcosystemId row = ecoId e" using row(4) by (simp add: orgKey_def)
  have "orgs_ok db'" using eco_invD(2) [OF assms(1)] row eco by (auto simp: orgs_ok_def db')
  moreover have "invitations_ok db'" using eco_invD(3) [OF assms(1)]
    by (auto simp: invitations_ok_def invitation_refs_def knownId_def db' split: option.splits)
  moreover have "intents_ok db'" using eco_invD(4) [OF assms(1)] by (auto simp: intents_ok_def db')
  moreover have "members_ok db'" using eco_invD(7) [OF assms(1)] row(5) lead_not_member
    by (auto simp: members_ok_def invited_def db')
  moreover have "leads_ok db'" using eco_invD(8) [OF assms(1)] row(5) eco by (auto simp: leads_ok_def db')
  ultimately show ?thesis using assms(1)
    by (simp add: eco_inv_def roles_ok_def templates_ok_def templateRefs_def notices_ok_def db')
qed

lemma inv_invitation_details:
  assumes "eco_inv db" and "updateEcosystemInvitationDetails email e orgId db = (r, db')"
  shows "eco_inv db'"
proof (cases r)
  case (Inr row)
  obtain i where i: "i \<in> set (edInvitations db)" "eiStatus i = InvAccepted" "eiEcosystemId i = None"
    and clash: "\<not> invitationClash (i\<lparr>eiEcosystemId := Some e, eiInvitedOrg := Some orgId\<rparr>)
        (filter (\<lambda>x. eiId x \<noteq> eiId i) (edInvitations db))"
    and refs: "e \<in> ecoId ` set (edEcosystems db)" "orgId \<in> ogId ` set (edOrganisations db)"
    and db': "db' = db\<lparr>edInvitations := updateWhere (\<lambda>x. eiId x = eiId i)
        (\<lambda>x. x\<lparr>eiEcosystemId := Some e, eiInvitedOrg := Some orgId\<rparr>) (edInvitations db)\<rparr>"
    using assms(2) Inr by (auto simp: updateEcosystemInvitationDetails_def bind_def Let_def split: option.splits if_splits
        dest!: newest_in)
  let ?f = "\<lambda>x. x\<lparr>eiEcosystemId := Some e, eiInvitedOrg := Some orgId\<rparr> :: ecosystem_invitations"
  have ok: "invitations_ok db" using assms(1) by (rule eco_invD)
  have rows: "set (updateWhere (\<lambda>x. eiId x = eiId i) ?f (edInvitations db)) = insert (?f i) (set (edInvitations db) - {i})"
    using ok i(1) unfolding invitations_ok_def by (intro set_updateWhere_key) simp_all
  have keys: "map eiId (updateWhere (\<lambda>x. eiId x = eiId i) ?f (edInvitations db)) = map eiId (edInvitations db)"
    by (simp add: map_updateWhere_same)
  have others: "eiId x \<noteq> eiId i" if "x \<in> set (edInvitations db) - {i}" for x
    using ok i(1) that unfolding invitations_ok_def by (metis DiffE distinct_map_eqD singletonI)
  have "unique_keys (insert (?f i) (set (edInvitations db) - {i}))"
  proof (rule unique_keys_insert)
    show "unique_keys (set (edInvitations db) - {i})"
      using ok by (auto simp: invitations_ok_def intro: unique_keys_subset)
    show "invitationKey j \<noteq> invitationKey (?f i)" if "j \<in> set (edInvitations db) - {i}" for j
      using that others clash by (auto simp: invitationClash_def invitationKey_def)
  qed
  moreover have "invitation_type_ok (?f i)" "invitation_refs db (?f i)"
    using ok i refs by (auto simp: invitations_ok_def invitation_type_ok_def invitation_refs_def invitationKey_def knownId_def
        split: InviteType.splits)
  ultimately have "invitations_ok db'"
    using ok unfolding invitations_ok_def db' by (simp add: rows keys)
  then show ?thesis unfolding db'
    by (rule inv_invitations [OF assms(1)]) (use i in \<open>auto simp: invited_def rows\<close>)
qed (use assms in \<open>auto simp: updateEcosystemInvitationDetails_def bind_def Let_def split: option.splits if_splits\<close>)

lemma inv_createEcosystemRows:
  assumes "eco_inv db" and "createEcosystemRows env dto u db = (r, db')"
  shows "eco_inv db'"
proof (cases r)
  case (Inr e)
  then obtain db1 email r1 where "createNewEcosystem env dto db = (Inr e, db1)"
    "updateEcosystemInvitationDetails email (ecoId e) (ceOrgId dto) db1 = (r1, db')"
    using assms(2) unfolding Inr createEcosystemRows_def transact_commits
    by (auto simp: bind_def andThen_def split: option.splits prod.splits sum.splits)
  then show ?thesis using inv_createNewEcosystem [OF assms(1)] inv_invitation_details by blast
qed (use assms in \<open>auto simp: createEcosystemRows_def dest: transact_raises\<close>)

section \<open>Runs keep the invariant\<close>

text \<open>A relation on states that the write of a Keycloak attribute respects.\<close>

locale access_frame = effect_preorder R for R :: "eco_db \<Rightarrow> eco_db \<Rightarrow> bool" +
  assumes frame_keycloak: "R db (db\<lparr>edKeycloak := k\<rparr>)"
begin

lemma moves_userAccess: "moves R (updateUserEcosystemAccess env k orgId e role)"
  unfolding updateUserEcosystemAccess_def by (intro moves_rules moves_writes frame_keycloak)

lemma moves_serviceAccount: "moves R (updateOrgServiceAccountEcosystem env orgId e role)"
  unfolding updateOrgServiceAccountEcosystem_def getOrgProfile_def updateClientServiceAccountEcosystemAccess_def
  by (intro moves_rules moves_userAccess)

lemma moves_keycloak: "moves R (updateKeycloakEcosystem env u orgId e role)"
  unfolding updateKeycloakEcosystem_def by (intro moves_rules moves_userAccess moves_serviceAccount)

end

interpretation eco: access_frame "\<lambda>s t. eco_inv s \<longrightarrow> eco_inv t"
  by unfold_locales (auto intro: inv_unrelated)

lemma eco_movesI: "(\<And>db r db'. eco_inv db \<Longrightarrow> m db = (r, db') \<Longrightarrow> eco_inv db') \<Longrightarrow> moves (\<lambda>s t. eco_inv s \<longrightarrow> eco_inv t) m"
  by (intro movesI) blast

text \<open>Reads before a write give the write's precondition.\<close>

lemma eco_reads_bind:
  "(\<And>db r db'. eco_inv db \<Longrightarrow> g (f db) db = (r, db') \<Longrightarrow> eco_inv db') \<Longrightarrow>
   moves (\<lambda>s t. eco_inv s \<longrightarrow> eco_inv t) (bind (reads f) g)"
  by (intro eco_movesI) (simp add: bind_def)

lemmas eco_keycloak = eco.moves_keycloak

lemma eco_inviteUser: "moves (\<lambda>s t. eco_inv s \<longrightarrow> eco_inv t) (inviteUserToCreateEcosystem env email adminId)"
proof -
  have create: "moves (\<lambda>s t. eco_inv s \<longrightarrow> eco_inv t)
      (createEcosystemInvitation env email uid adminId None None None None)" for uid
    by (intro eco_movesI) (auto simp: createEcosystemInvitation_def Let_def invitation_refs_def invitation_type_ok_def knownId_def
        split: if_splits intro!: inv_create_invitation)
  show ?thesis unfolding inviteUserToCreateEcosystem_def getPendingInvitationByEmail_def getUserDetails_def
      sendInviteEmailTemplate_def
    by (intro eco.moves_rules create)
qed

lemma eco_createEcosystem: "moves (\<lambda>s t. eco_inv s \<longrightarrow> eco_inv t) (createEcosystem env dto)"
  unfolding createEcosystem_def findAcceptedInvitationByUserId_def checkEcosystemNameExist_def getUserById_def
    updateKeycloakEcosystemLeads_def
  by (intro eco.moves_rules eco_keycloak eco_movesI [of "createEcosystemRows env dto _"])
    (blast intro: inv_createEcosystemRows)

text \<open>The invitation a status update changes.\<close>

lemma invitation_status_run:
  assumes "List.find (\<lambda>i. invitationKey i = Some (email, e, orgId)) (edInvitations db) = Some i"
  shows "updateEcosystemInvitationStatusByEmail email orgId e s db =
    (Inr (i\<lparr>eiStatus := s\<rparr>), db\<lparr>edInvitations := updateWhere (\<lambda>x. eiId x = eiId i) (\<lambda>x. x\<lparr>eiStatus := s\<rparr>) (edInvitations db)\<rparr>)"
proof -
  have "(\<lambda>i. invitationKey i = Some (email, e, orgId)) =
      (\<lambda>i. eiEmail i = email \<and> eiEcosystemId i = Some e \<and> eiInvitedOrg i = Some orgId)"
    by (auto simp: invitationKey_def fun_eq_iff split: option.splits)
  then show ?thesis using assms
    by (simp add: updateEcosystemInvitationStatusByEmail_def transact_def bind_def andThen_def updateInvitationRow_def)
qed

lemma inv_enterEcosystem:
  assumes "eco_inv db" and "i \<in> set (edInvitations db)" and "eiStatus i = InvAccepted" and "eiType i = InviteMember"
    and "enterEcosystem env u reqUser i db = (r, db')"
  shows "eco_inv db'"
proof (cases "List.find (\<lambda>r. erName r = ECOSYSTEM_MEMBER) (edRoles db)")
  case None
  then show ?thesis using assms(1,5) by (simp add: enterEcosystem_def getEcosystemRoleByName_def bind_def)
next
  case (Some role)
  let ?row = "\<lparr>eoId = xUuid env 2, eoOrgId = orEmpty (eiInvitedOrg i), eoStatus = OrgActive,
     eoEcosystemId = orEmpty (eiEcosystemId i), eoRoleId = erId role, eoUserId = eiUserId i, eoCreatedBy = reqUser,
     eoDeletedAt = None\<rparr>"
  have role: "roleName db ?row = Some ECOSYSTEM_MEMBER"
    using eco_invD(1) [OF assms(1)] Some by (rule roleName_role) simp
  have "invitation_type_ok i" using eco_invD(3) [OF assms(1)] assms(2) by (simp add: invitations_ok_def)
  then have "invitationKey i \<noteq> None" using assms(4) by (simp add: invitation_type_ok_def)
  then have inv: "invited db (eoOrgId ?row) (eoEcosystemId ?row)"
    unfolding invited_def by (intro bexI [OF _ assms(2)]) (auto simp: assms(3,4) invitationKey_def split: option.splits)
  show ?thesis
  proof (cases "createEcosystemOrg ?row db")
    case (Pair r1 db1)
    then have "eco_inv db1" using inv_enter [OF assms(1) _ role inv] by blast
    then show ?thesis using assms(1,5) Some Pair movesD [OF eco_keycloak]
      by (auto simp: enterEcosystem_def getEcosystemRoleByName_def getEcosystemOrg_def updateKeycloakEcosystemMember_def
          bind_def andThen_def split: if_splits sum.splits)
  qed
qed

text \<open>A call of \<open>updateEcosystemInvitationStatus\<close> is refused without effect or updates the caller's invitation.\<close>

lemma updateInvitation_cases:
  assumes "updateEcosystemInvitationStatus env status reqUser e orgId db = (r, db')"
  obtains (refused) err where "r = Inl err" "db' = db"
    | (updated) u i where "List.find (\<lambda>u. usId u = reqUser) (edUsers db) = Some u" "truthy (usEmail u)"
        "List.find (\<lambda>i. invitationKey i = Some (orEmpty (usEmail u), e, orgId)) (edInvitations db) = Some i"
        "eiStatus i \<noteq> InvAccepted"
        "andThen (if status = InvAccepted \<and> truthy (eiEcosystemId i)
          then enterEcosystem env u reqUser (i\<lparr>eiStatus := status\<rparr>) else ret ()) (ret True)
          (db\<lparr>edInvitations := updateWhere (\<lambda>x. eiId x = eiId i) (\<lambda>x. x\<lparr>eiStatus := status\<rparr>) (edInvitations db)\<rparr>) = (r, db')"
proof (cases "List.find (\<lambda>u. usId u = reqUser) (edUsers db)")
  case None
  then have "(\<exists>err. r = Inl err) \<and> db' = db"
    using assms by (auto simp: updateEcosystemInvitationStatus_def getUserById_def bind_def)
  then show ?thesis using refused by blast
next
  case (Some u)
  let ?found = "List.find (\<lambda>i. invitationKey i = Some (orEmpty (usEmail u), e, orgId)) (edInvitations db)"
  show ?thesis
  proof (cases "truthy (usEmail u) \<and> (\<exists>i. ?found = Some i \<and> eiStatus i \<noteq> InvAccepted)")
    case True
    then obtain i where i: "?found = Some i" "eiStatus i \<noteq> InvAccepted" and email: "truthy (usEmail u)" by blast
    show ?thesis
    proof (rule updated [OF Some email i], goal_cases)
      case 1
      show ?case using assms Some email i(2) invitation_status_run [OF i(1), of status]
        by (simp add: updateEcosystemInvitationStatus_def getUserById_def getEcosystemInvitationsByEmail_def i(1) bind_Inr)
    qed
  next
    case False
    then have "(\<exists>err. r = Inl err) \<and> db' = db" using assms Some
      by (cases "truthy (usEmail u)"; cases ?found)
        (auto simp: updateEcosystemInvitationStatus_def getUserById_def getEcosystemInvitationsByEmail_def bind_def)
    then show ?thesis using refused by blast
  qed
qed

lemma eco_updateInvitation: "moves (\<lambda>s t. eco_inv s \<longrightarrow> eco_inv t) (updateEcosystemInvitationStatus env status reqUser e orgId)"
proof (rule eco_movesI)
  fix db r db'
  assume inv: "eco_inv db" and run: "updateEcosystemInvitationStatus env status reqUser e orgId db = (r, db')"
  from run show "eco_inv db'"
  proof (cases rule: updateInvitation_cases)
    case (updated u i)
    let ?db1 = "db\<lparr>edInvitations := updateWhere (\<lambda>x. eiId x = eiId i) (\<lambda>x. x\<lparr>eiStatus := status\<rparr>) (edInvitations db)\<rparr>"
    have mem: "i \<in> set (edInvitations db)" using find_SomeD [OF updated(3)] by simp
    have inv1: "eco_inv ?db1" by (rule inv_invitation_status [OF inv mem updated(4)])
    have "invitation_type_ok i" using eco_invD(3) [OF inv] mem by (simp add: invitations_ok_def)
    then have "eiType i = InviteMember" using updated(4) by (cases "eiType i") (simp_all add: invitation_type_ok_def)
    moreover have "i\<lparr>eiStatus := status\<rparr> \<in> set (edInvitations ?db1)" using mem by (auto simp: set_updateWhere)
    ultimately have enter: "eco_inv db2" if "status = InvAccepted"
      "enterEcosystem env u reqUser (i\<lparr>eiStatus := status\<rparr>) ?db1 = (r2, db2)" for r2 db2
      using inv_enterEcosystem [OF inv1 _ _ _ that(2)] that(1) by simp
    show ?thesis using updated(5) inv1 enter
      by (auto simp: andThen_def bind_def split: if_splits prod.splits sum.splits)
  qed (use inv in simp)
qed

lemma eco_sendMember: "moves (\<lambda>s t. eco_inv s \<longrightarrow> eco_inv t) (sendMemberInvitation env orgId reqUser e u)"
proof -
  have create: "moves (\<lambda>s t. eco_inv s \<longrightarrow> eco_inv t)
      (createEcosystemInvitation env email uid req (Some InviteMember) (Some InvPending) (Some e) (Some orgId))" for email uid req
    by (intro eco_movesI) (auto simp: createEcosystemInvitation_def Let_def invitation_refs_def invitation_type_ok_def
        invitationKey_def knownId_def split: if_splits intro!: inv_create_invitation)
  show ?thesis unfolding sendMemberInvitation_def getEcosystemById_def
    by (intro eco.moves_rules create eco_updateInvitation)
qed

lemma eco_inviteMember: "moves (\<lambda>s t. eco_inv s \<longrightarrow> eco_inv t) (inviteMemberToEcosystem env orgId reqUser e)"
proof -
  have found: "moves (\<lambda>s t. eco_inv s \<longrightarrow> eco_inv t)
      (bind (getEcosystemInvitationsByEmail email e orgId) (\<lambda>checkUser.
        case checkUser of
          None \<Rightarrow> sendMemberInvitation env orgId reqUser e u
        | Some found \<Rightarrow>
            (if eiStatus found = InvRejected
             then andThen (updateEcosystemInvitationStatusByEmail email orgId e InvPending) (ret True)
             else if eiStatus found = InvPending \<and> eiType found = InviteMember then throw e1
             else if eiStatus found = InvAccepted \<and> eiType found = InviteEcosystem then throw e2
             else sendMemberInvitation env orgId reqUser e u)))" for email u e1 e2
    unfolding getEcosystemInvitationsByEmail_def
  proof (rule eco_reads_bind, goal_cases)
    case (1 db r db')
    show ?case
    proof (cases "List.find (\<lambda>i. invitationKey i = Some (email, e, orgId)) (edInvitations db)")
      case None
      then show ?thesis using 1 movesD [OF eco_sendMember] by fastforce
    next
      case (Some i)
      have mem: "i \<in> set (edInvitations db)" using find_SomeD [OF Some] by simp
      show ?thesis using 1 Some movesD [OF eco_sendMember] inv_invitation_status [OF 1(1) mem, of InvPending]
        by (auto simp: andThen_def bind_def invitation_status_run [OF Some] split: if_splits)
    qed
  qed
  show ?thesis unfolding inviteMemberToEcosystem_def getOrgProfile_def getUserById_def
    by (intro eco.moves_rules found)
qed

lemma eco_createTemplate: "moves (\<lambda>s t. eco_inv s \<longrightarrow> eco_inv t) (createIntentTemplate env orgId n t userId)"
proof -
  have guarded: "moves (\<lambda>s t. eco_inv s \<longrightarrow> eco_inv t) (bind (findIntentTemplate orgId n t) (\<lambda>existing.
      if existing \<noteq> None then throw err else insertIntentTemplate env orgId n t userId))" for err
  proof (rule eco_movesI)
    fix db r db'
    assume inv: "eco_inv db" and run: "bind (findIntentTemplate orgId n t) (\<lambda>existing.
      if existing \<noteq> None then throw err else insertIntentTemplate env orgId n t userId) db = (r, db')"
    show "eco_inv db'"
    proof (cases "orgId \<noteq> Some [] \<and> List.find (\<lambda>x. templateKey x = (orgId, n, t)) (edTemplates db) = None")
      case True
      then have "insertIntentTemplate env orgId n t userId db = (r, db')"
        using run by (simp add: findIntentTemplate_def bind_def)
      then show ?thesis using inv True eco_invD(5) [OF inv]
        by (auto simp: insertIntentTemplate_def Let_def templates_ok_def templateKey_def find_None_iff_all
            split: if_splits intro!: inv_templates)
    qed (use inv run in \<open>auto simp: findIntentTemplate_def bind_def split: if_splits\<close>)
  qed
  show ?thesis unfolding createIntentTemplate_def findIntentById_def findEcosystemOrg_def
    by (intro eco.moves_rules guarded)
qed

lemma inv_updateTemplateRow:
  assumes "eco_inv db" and "\<And>x. x \<in> set (edTemplates db) \<Longrightarrow> templateKey x = (orgId, n, t) \<Longrightarrow> itId x = i"
    and "updateIntentTemplateRow i orgId n t by' db = (r, db')"
  shows "eco_inv db'"
proof (cases "i \<in> itId ` set (edTemplates db) \<and> templateRefs db orgId n t")
  case True
  let ?f = "\<lambda>x. x\<lparr>itOrgId := orgId, itIntentId := n, itTemplateId := t, itLastChangedBy := by'\<rparr>"
  let ?ts = "updateWhere (\<lambda>x. itId x = i) ?f (edTemplates db)"
  obtain x where x: "x \<in> set (edTemplates db)" "i = itId x" using True by blast
  have ok: "distinct (map itId (edTemplates db))" "distinct (map templateKey (edTemplates db))"
    using eco_invD(5) [OF assms(1)] by (simp_all add: templates_ok_def)
  have rows: "set ?ts = insert (?f x) (set (edTemplates db) - {x})"
    unfolding x(2) by (rule set_updateWhere_key [OF ok(1) x(1)])
  have "templateKey y \<noteq> templateKey (?f x)" if "y \<in> set (edTemplates db) - {x}" for y
  proof
    assume "templateKey y = templateKey (?f x)"
    then have "itId y = itId x" using that assms(2) [of y] x(2) by (simp add: templateKey_def)
    then show False using that x(1) distinct_map_eqD [OF ok(1)] by blast
  qed
  moreover have "inj_on templateKey (set (edTemplates db) - {x})"
    using ok(2) by (auto simp: distinct_map intro: inj_on_subset)
  ultimately have "inj_on templateKey (set ?ts)" unfolding rows by (auto simp: inj_on_def) metis+
  moreover have ids: "distinct (map itId ?ts)" using ok(1) by (simp add: map_updateWhere_same)
  ultimately have "distinct (map templateKey ?ts)" using distinct_map [of itId ?ts] distinct_map [of templateKey ?ts] by blast
  moreover have "templateRefs db (itOrgId y) (itIntentId y) (itTemplateId y)" if "y \<in> set ?ts" for y
    using that True eco_invD(5) [OF assms(1)] unfolding rows by (auto simp: templates_ok_def)
  ultimately have "eco_inv (db\<lparr>edTemplates := ?ts\<rparr>)" using ids by (intro inv_templates assms(1))
  then show ?thesis using assms(3) True by (simp add: updateIntentTemplateRow_def)
qed (use assms(1,3) in \<open>auto simp: updateIntentTemplateRow_def split: if_splits\<close>)

lemma eco_updateTemplate: "moves (\<lambda>s t. eco_inv s \<longrightarrow> eco_inv t) (updateIntentTemplate env i orgId n t userId)"
proof -
  have guarded: "moves (\<lambda>s t. eco_inv s \<longrightarrow> eco_inv t) (bind (findIntentTemplate orgId n t) (\<lambda>duplicate.
      case duplicate of
        Some x \<Rightarrow> (if itId x \<noteq> i then throw err else updateIntentTemplateRow i orgId n t by')
      | None \<Rightarrow> updateIntentTemplateRow i orgId n t by'))" for err by'
  proof (rule eco_movesI)
    fix db r db'
    assume inv: "eco_inv db" and run: "bind (findIntentTemplate orgId n t) (\<lambda>duplicate.
      case duplicate of
        Some x \<Rightarrow> (if itId x \<noteq> i then throw err else updateIntentTemplateRow i orgId n t by')
      | None \<Rightarrow> updateIntentTemplateRow i orgId n t by') db = (r, db')"
    have ok: "distinct (map templateKey (edTemplates db))" using eco_invD(5) [OF inv] by (simp add: templates_ok_def)
    show "eco_inv db'"
    proof (cases "List.find (\<lambda>x. templateKey x = (orgId, n, t)) (edTemplates db)")
      case None
      then have "eco_inv db2" if "updateIntentTemplateRow i orgId n t by' db = (r2, db2)" for r2 db2
        using that by (intro inv_updateTemplateRow [OF inv, of orgId n t i by']) (auto simp: find_None_iff_all)
      then show ?thesis using run inv None
        by (auto simp: findIntentTemplate_def bind_def split: if_splits)
    next
      case (Some x)
      have "itId y = itId x" if "y \<in> set (edTemplates db)" "templateKey y = (orgId, n, t)" for y
        using distinct_map_eqD [OF ok that(1)] find_SomeD [OF Some] that(2) by metis
      then have "eco_inv db2" if "itId x = i" "updateIntentTemplateRow i orgId n t by' db = (r2, db2)" for r2 db2
        using that by (intro inv_updateTemplateRow [OF inv, of orgId n t i by']) auto
      then show ?thesis using run inv Some
        by (auto simp: findIntentTemplate_def bind_def split: if_splits)
    qed
  qed
  show ?thesis unfolding updateIntentTemplate_def getIntentTemplateRow_def
    by (intro eco.moves_rules guarded)
qed

lemma eco_intents:
  "moves (\<lambda>s t. eco_inv s \<longrightarrow> eco_inv t) (createIntent env name desc e userId)"
  "moves (\<lambda>s t. eco_inv s \<longrightarrow> eco_inv t) (updateIntent env name desc e i userId)"
  "moves (\<lambda>s t. eco_inv s \<longrightarrow> eco_inv t) (deleteIntent e i)"
proof -
  have insert: "moves (\<lambda>s t. eco_inv s \<longrightarrow> eco_inv t) (insertIntent env name desc userId e)"
    by (intro eco_movesI) (auto simp: insertIntent_def Let_def split: if_splits intro!: inv_insert_intent)
  show "moves (\<lambda>s t. eco_inv s \<longrightarrow> eco_inv t) (createIntent env name desc e userId)"
    unfolding createIntent_def getEcosystemById_def checkIntentExist_def by (intro eco.moves_rules insert)
  have update: "moves (\<lambda>s t. eco_inv s \<longrightarrow> eco_inv t) (updateIntentRow i name desc userId)"
    by (intro eco_movesI) (auto simp: updateIntentRow_def split: if_splits intro!: inv_update_intent)
  show "moves (\<lambda>s t. eco_inv s \<longrightarrow> eco_inv t) (updateIntent env name desc e i userId)"
    unfolding updateIntent_def checkIntentExist_def by (intro eco.moves_rules update)
  show "moves (\<lambda>s t. eco_inv s \<longrightarrow> eco_inv t) (deleteIntent e i)"
    unfolding deleteIntent_def
    by (rule eco_reads_bind) (auto split: option.splits if_splits intro!: inv_delete_intent [simplified])
qed

lemma eco_notices:
  "moves (\<lambda>s t. eco_inv s \<longrightarrow> eco_inv t) (createIntentNotice env n url userId orgId)"
  "moves (\<lambda>s t. eco_inv s \<longrightarrow> eco_inv t) (updateIntentNotice env i url userId)"
  "moves (\<lambda>s t. eco_inv s \<longrightarrow> eco_inv t) (deleteIntentNotice env i userId)"
proof -
  have url: "moves (\<lambda>s t. eco_inv s \<longrightarrow> eco_inv t) (validateNoticeUrl env url)"
    by (intro eco_movesI) (auto simp: validateNoticeUrl_def split: if_splits sum.splits)
  have authorise: "moves (\<lambda>s t. eco_inv s \<longrightarrow> eco_inv t) (authoriseNotice i userId)"
    unfolding authoriseNotice_def getIntentNoticeRow_def findIntentById_def validateEcosystemLead_def isEcosystemLead_def
    by (intro eco.moves_rules)
  have guarded: "moves (\<lambda>s t. eco_inv s \<longrightarrow> eco_inv t) (bind (intentNoticeExists n orgId) (\<lambda>ex.
      if ex then throw err else insertIntentNotice env n url userId orgId))" for err
  proof (rule eco_movesI)
    fix db r db'
    assume inv: "eco_inv db" and run: "bind (intentNoticeExists n orgId) (\<lambda>ex.
      if ex then throw err else insertIntentNotice env n url userId orgId) db = (r, db')"
    show "eco_inv db'"
    proof (cases "orgId \<noteq> Some [] \<and> (n, orgId) \<notin> noticeKey ` set (edNotices db)")
      case True
      have "(if truthy orgId then orgId else None) = orgId" using True by (cases orgId) auto
      moreover have "\<not> (\<exists>x \<in> set (edNotices db). ntIntentId x = n \<and> ntOrgId x = orgId)"
        using True by (auto simp: noticeKey_def)
      ultimately have "insertIntentNotice env n url userId orgId db = (r, db')"
        using run True by (auto simp: intentNoticeExists_def bind_def split: if_splits)
      then show ?thesis using inv True eco_invD(6) [OF inv] \<open>(if truthy orgId then orgId else None) = orgId\<close>
        by (auto simp: insertIntentNotice_def Let_def notices_ok_def noticeKey_def split: if_splits intro!: inv_notices)
    qed (use inv run in \<open>auto simp: intentNoticeExists_def bind_def noticeKey_def split: if_splits\<close>)
  qed
  show "moves (\<lambda>s t. eco_inv s \<longrightarrow> eco_inv t) (createIntentNotice env n url userId orgId)"
    unfolding createIntentNotice_def findIntentById_def validateEcosystemLead_def isEcosystemLead_def getEcosystemOrg_def
    by (intro eco.moves_rules url guarded)
  have update: "moves (\<lambda>s t. eco_inv s \<longrightarrow> eco_inv t) (updateIntentNoticeRow i url userId)"
  proof (rule eco_movesI)
    fix db r db'
    let ?f = "\<lambda>n. n\<lparr>ntNoticeUrl := url, ntLastChangedBy := userId\<rparr>"
    assume inv: "eco_inv db" and run: "updateIntentNoticeRow i url userId db = (r, db')"
    have keys: "map ntId (updateWhere p ?f ns) = map ntId ns" "map noticeKey (updateWhere p ?f ns) = map noticeKey ns" for p ns
      by (simp_all add: map_updateWhere_same noticeKey_def)
    have "eco_inv (db\<lparr>edNotices := updateWhere p ?f (edNotices db)\<rparr>)" for p
      using eco_invD(6) [OF inv] by (intro inv_notices [OF inv]) (auto simp: keys notices_ok_def elim!: in_updateWhereE)
    then show "eco_inv db'" using run inv by (auto simp: updateIntentNoticeRow_def split: if_splits)
  qed
  show "moves (\<lambda>s t. eco_inv s \<longrightarrow> eco_inv t) (updateIntentNotice env i url userId)"
    unfolding updateIntentNotice_def by (intro eco.moves_rules url authorise update)
  have delete: "moves (\<lambda>s t. eco_inv s \<longrightarrow> eco_inv t) (deleteIntentNoticeRow i)"
  proof (rule eco_movesI)
    fix db r db'
    assume inv: "eco_inv db" and run: "deleteIntentNoticeRow i db = (r, db')"
    have "eco_inv (db\<lparr>edNotices := filter p (edNotices db)\<rparr>)" for p
      using eco_invD(6) [OF inv] by (intro inv_notices [OF inv]) (auto simp: notices_ok_def distinct_map_filter)
    then show "eco_inv db'" using run inv by (auto simp: deleteIntentNoticeRow_def split: if_splits)
  qed
  show "moves (\<lambda>s t. eco_inv s \<longrightarrow> eco_inv t) (deleteIntentNotice env i userId)"
    unfolding deleteIntentNotice_def by (intro eco.moves_rules authorise delete)
qed

lemma eco_config: "moves (\<lambda>s t. eco_inv s \<longrightarrow> eco_inv t) (updateEcosystemConfig env b adminId)"
proof -
  have "moves (\<lambda>s t. eco_inv s \<longrightarrow> eco_inv t) (updateEcosystemConfigRow b)"
    by (intro eco_movesI) (auto simp: updateEcosystemConfigRow_def inv_unrelated split: option.splits)
  then show ?thesis unfolding updateEcosystemConfig_def checkUnmanagedAttributeEnabled_def
    by (intro eco.moves_rules)
qed

lemma eco_others:
  "moves (\<lambda>s t. eco_inv s \<longrightarrow> eco_inv t) (deleteOrgsFromEcosystem e orgIds)"
  "moves (\<lambda>s t. eco_inv s \<longrightarrow> eco_inv t) (updateEcosystemOrgStatus e orgIds st)"
  "moves (\<lambda>s t. eco_inv s \<longrightarrow> eco_inv t) (deleteIntentTemplate env i)"
proof -
  show "moves (\<lambda>s t. eco_inv s \<longrightarrow> eco_inv t) (deleteOrgsFromEcosystem e orgIds)"
    by (rule eco_movesI) (rule inv_delete_orgs)
  show "moves (\<lambda>s t. eco_inv s \<longrightarrow> eco_inv t) (updateEcosystemOrgStatus e orgIds st)"
    by (rule eco_movesI) (auto simp: updateEcosystemOrgStatus_def updateEcosystemOrgStatusRows_def Let_def intro: inv_orgs_status)
  have filtered: "eco_inv (db\<lparr>edTemplates := filter p (edTemplates db)\<rparr>)" if "eco_inv db" for p db
    using eco_invD(5) [OF that] by (intro inv_templates [OF that]) (auto simp: templates_ok_def distinct_map_filter)
  have row: "moves (\<lambda>s t. eco_inv s \<longrightarrow> eco_inv t) (deleteIntentTemplateRow i)"
    by (rule eco_movesI) (auto simp: deleteIntentTemplateRow_def filtered split: if_splits)
  show "moves (\<lambda>s t. eco_inv s \<longrightarrow> eco_inv t) (deleteIntentTemplate env i)"
    unfolding deleteIntentTemplate_def by (intro eco.moves_rules row)
qed

lemmas eco_handlers = eco_inviteUser eco_createEcosystem eco_inviteMember eco_updateInvitation eco_createTemplate
  eco_updateTemplate eco_intents eco_notices eco_config eco_others

lemma eco_run_inv: "moves (\<lambda>s t. eco_inv s \<longrightarrow> eco_inv t) (eco_run env c)"
  by (cases c) (simp_all add: eco_handlers eco.moves_andThen eco.moves_ret)

lemma inv_others:
  assumes "eco_inv db" and "foreign_keys db'"
    and "db' = db\<lparr>edUsers := us, edOrganisations := gs, edVerificationTemplates := ts, edKeycloak := k\<rparr>"
  shows "eco_inv db'"
proof -
  have roleName: "roleName db' o' = roleName db o'" for o' using assms(3) by (simp add: roleName_def)
  have "roles_ok db'" "intents_ok db'" using eco_invD(1,4) [OF assms(1)] assms(3) by (simp_all add: roles_ok_def intents_ok_def)
  moreover have "orgs_ok db'" using eco_invD(2) [OF assms(1)] assms(2) unfolding assms(3) orgs_ok_def foreign_keys_def
    by (simp add: list_all_iff)
  moreover have "invitations_ok db'" using eco_invD(3) [OF assms(1)] assms(2)
    unfolding assms(3) invitations_ok_def invitation_refs_def foreign_keys_def by (simp add: list_all_iff)
  moreover have "templates_ok db'" using eco_invD(5) [OF assms(1)] assms(2)
    unfolding assms(3) templates_ok_def foreign_keys_def by (simp add: list_all_iff)
  moreover have "notices_ok db'" using eco_invD(6) [OF assms(1)] assms(2)
    unfolding assms(3) notices_ok_def foreign_keys_def by (simp add: list_all_iff)
  moreover have "members_ok db'" "leads_ok db'" using eco_invD(7,8) [OF assms(1)] unfolding members_ok_def leads_ok_def roleName
    by (simp_all add: assms(3) invited_def)
  ultimately show ?thesis by (simp add: eco_inv_def)
qed

interpretation eco_runs: invariant_system eco_start eco_step eco_inv
proof
  show "eco_inv db" if "eco_start db" for db
    using that by (simp add: eco_start_def eco_inv_def tables_ok_defs members_ok_def leads_ok_def unique_keys_def)
  show "eco_inv db'" if "eco_inv db" "eco_step db db'" for db db'
    using that(2)
  proof cases
    case (call env c r)
    then show ?thesis using movesD [OF eco_run_inv] that(1) by blast
  next
    case (others us gs ts k)
    show ?thesis using that(1) others(2,1) by (rule inv_others)
  qed
qed

end
