(* ===== verification/Ecosystem_Safety.thy ===== *)
theory Ecosystem_Safety
  imports Ecosystem_Invariant
begin

text \<open>
  Properties of the ecosystem service: the consistency of its tables, who becomes a member of an ecosystem,
  who changes intent notices, and what a membership leaves behind in Keycloak and at the gateway.

  \<open>content_frame\<close> and its extensions \<open>org_frame\<close> and \<open>notice_frame\<close> state which writes a relation on states has
  to respect for the handlers to respect it. They are interpreted on the tables that stay unchanged:
  \<open>kept\<close> on the members, \<open>unnoticed\<close> on the notices.
\<close>

section \<open>Frames of the handlers\<close>

text \<open>
  What a relation on states has to respect for the handlers to respect it: beside the writes of the Keycloak
  attribute those of the content tables, and either of the notices or of the members.
\<close>

locale content_frame = access_frame +
  assumes frame_invitations: "R db (db\<lparr>edInvitations := is\<rparr>)"
    and frame_intents: "R db (db\<lparr>edIntents := ns\<rparr>)"
    and frame_templates: "R db (db\<lparr>edTemplates := ts\<rparr>)"
    and frame_config: "R db (db\<lparr>edConfig := c\<rparr>)"
begin

lemma moves_createInvitation: "moves R (createEcosystemInvitation env email uid userId ty st e orgId)"
  by (rule movesI) (auto simp: createEcosystemInvitation_def Let_def R_refl frame_invitations split: if_splits)

lemma moves_inviteUser: "moves R (inviteUserToCreateEcosystem env email adminId)"
  unfolding inviteUserToCreateEcosystem_def getPendingInvitationByEmail_def getUserDetails_def sendInviteEmailTemplate_def
  by (intro moves_rules moves_createInvitation)

lemma moves_invitationStatus: "moves R (updateEcosystemInvitationStatusByEmail email orgId e s)"
  unfolding updateEcosystemInvitationStatusByEmail_def updateInvitationRow_def
  by (intro moves_rules moves_writes frame_invitations)

lemma moves_invitationDetails: "moves R (updateEcosystemInvitationDetails email e orgId)"
  by (rule movesI) (auto simp: updateEcosystemInvitationDetails_def bind_def Let_def R_refl frame_invitations
      split: if_splits option.splits)

lemma moves_config: "moves R (updateEcosystemConfig env b adminId)"
proof -
  have row: "moves R (updateEcosystemConfigRow b)"
    by (rule movesI) (auto simp: updateEcosystemConfigRow_def R_refl frame_config split: option.splits)
  show ?thesis unfolding updateEcosystemConfig_def checkUnmanagedAttributeEnabled_def
    by (intro moves_rules row)
qed

lemma moves_templates:
  "moves R (createIntentTemplate env orgId n t userId)"
  "moves R (updateIntentTemplate env i orgId n t uid)"
  "moves R (deleteIntentTemplate env i)"
proof -
  have rows: "moves R (insertIntentTemplate env orgId n t userId)" "moves R (updateIntentTemplateRow i orgId n t by')"
    "moves R (deleteIntentTemplateRow i)" for by'
    by (rule movesI, auto simp: insertIntentTemplate_def updateIntentTemplateRow_def deleteIntentTemplateRow_def Let_def
        R_refl frame_templates split: if_splits)+
  show "moves R (createIntentTemplate env orgId n t userId)"
    unfolding createIntentTemplate_def findIntentById_def findEcosystemOrg_def findIntentTemplate_def
    by (intro moves_rules rows)
  show "moves R (updateIntentTemplate env i orgId n t uid)"
    unfolding updateIntentTemplate_def getIntentTemplateRow_def findIntentTemplate_def by (intro moves_rules rows)
  show "moves R (deleteIntentTemplate env i)"
    unfolding deleteIntentTemplate_def by (intro moves_rules rows)
qed

lemma moves_intents:
  "moves R (createIntent env name desc e userId)"
  "moves R (updateIntent env name desc e i userId)"
  "moves R (deleteIntent e i)"
proof -
  have rows: "moves R (insertIntent env name desc userId e)" "moves R (updateIntentRow i name desc userId)"
    by (rule movesI, auto simp: insertIntent_def updateIntentRow_def Let_def R_refl frame_intents split: if_splits)+
  show "moves R (createIntent env name desc e userId)"
    unfolding createIntent_def getEcosystemById_def checkIntentExist_def by (intro moves_rules rows)
  show "moves R (updateIntent env name desc e i userId)"
    unfolding updateIntent_def checkIntentExist_def by (intro moves_rules rows)
  show "moves R (deleteIntent e i)"
    by (rule movesI) (auto simp: deleteIntent_def bind_def R_refl frame_intents split: if_splits option.splits)
qed

end

locale org_frame = content_frame +
  assumes frame_notices: "R db (db\<lparr>edNotices := ns'\<rparr>)"
begin

lemma moves_notices:
  "moves R (createIntentNotice env n url userId orgId)"
  "moves R (updateIntentNotice env i url userId)"
  "moves R (deleteIntentNotice env i userId)"
proof -
  have rows: "moves R (insertIntentNotice env n url userId orgId)" "moves R (updateIntentNoticeRow i url userId)"
    "moves R (deleteIntentNoticeRow i)"
    by (rule movesI, auto simp: insertIntentNotice_def updateIntentNoticeRow_def deleteIntentNoticeRow_def Let_def R_refl
        frame_notices split: if_splits)+
  have url: "moves R (validateNoticeUrl env url)"
    by (rule movesI) (auto simp: validateNoticeUrl_def R_refl split: if_splits sum.splits)
  have authorise: "moves R (authoriseNotice i userId)"
    unfolding authoriseNotice_def getIntentNoticeRow_def findIntentById_def validateEcosystemLead_def isEcosystemLead_def
    by (intro moves_rules)
  show "moves R (createIntentNotice env n url userId orgId)"
    unfolding createIntentNotice_def findIntentById_def validateEcosystemLead_def isEcosystemLead_def getEcosystemOrg_def
      intentNoticeExists_def
    by (intro moves_rules url rows)
  show "moves R (updateIntentNotice env i url userId)"
    unfolding updateIntentNotice_def by (intro moves_rules url authorise rows)
  show "moves R (deleteIntentNotice env i userId)"
    unfolding deleteIntentNotice_def by (intro moves_rules authorise rows)
qed

end

locale notice_frame = content_frame +
  assumes frame_orgs: "R db (db\<lparr>edOrgs := os\<rparr>)"
    and frame_ecosystems: "R db (db\<lparr>edEcosystems := es\<rparr>)"
begin

lemma moves_createOrg: "moves R (createEcosystemOrg row)"
  by (rule movesI) (auto simp: createEcosystemOrg_def R_refl frame_orgs split: if_splits)

lemma moves_createEcosystem: "moves R (createEcosystem env dto)"
proof -
  have "moves R (insertEcosystem env dto)"
    by (rule movesI) (auto simp: insertEcosystem_def Let_def R_refl frame_ecosystems split: if_splits)
  then have new: "moves R (createNewEcosystem env dto)"
    unfolding createNewEcosystem_def getEcosystemRoleByName_def by (intro moves_rules moves_createOrg)
  have rows: "moves R (createEcosystemRows env dto u)" for u
    unfolding createEcosystemRows_def by (intro moves_rules new moves_invitationDetails)
  show ?thesis unfolding createEcosystem_def findAcceptedInvitationByUserId_def checkEcosystemNameExist_def getUserById_def
      updateKeycloakEcosystemLeads_def
    by (intro moves_rules rows moves_keycloak)
qed

lemma moves_updateInvitation: "moves R (updateEcosystemInvitationStatus env st reqUser e orgId)"
  unfolding updateEcosystemInvitationStatus_def enterEcosystem_def getUserById_def getEcosystemInvitationsByEmail_def
    getEcosystemRoleByName_def getEcosystemOrg_def updateKeycloakEcosystemMember_def
  by (intro moves_rules moves_invitationStatus moves_createOrg moves_keycloak)

lemma moves_inviteMember: "moves R (inviteMemberToEcosystem env orgId reqUser e)"
  unfolding inviteMemberToEcosystem_def sendMemberInvitation_def getOrgProfile_def getUserById_def
    getEcosystemInvitationsByEmail_def getEcosystemById_def
  by (intro moves_rules moves_invitationStatus moves_createInvitation moves_updateInvitation)

lemma moves_deleteOrgs: "moves R (deleteOrgsFromEcosystem e orgIds)"
proof -
  have rows: "moves R (deleteOrgFromEcosystem e orgIds)" "moves R (deleteEcosystemInvitationByOrgId e orgIds)"
    by (rule movesI, auto simp: deleteOrgFromEcosystem_def deleteEcosystemInvitationByOrgId_def Let_def frame_orgs frame_invitations)+
  show ?thesis unfolding deleteOrgsFromEcosystem_def by (intro moves_rules rows)
qed

lemma moves_orgStatus: "moves R (updateEcosystemOrgStatus e orgIds st)"
  by (rule movesI) (auto simp: updateEcosystemOrgStatus_def updateEcosystemOrgStatusRows_def Let_def frame_orgs)

end

interpretation kept: org_frame "\<lambda>s t. edOrgs t = edOrgs s"
  by unfold_locales simp_all

interpretation unnoticed: notice_frame "\<lambda>s t. edNotices t = edNotices s"
  by unfold_locales simp_all

interpretation same_roles: access_frame "\<lambda>s t. edRoles t = edRoles s"
  by unfold_locales simp_all

section \<open>Members\<close>

definition memberOf :: "eco_db \<Rightarrow> string \<Rightarrow> string \<Rightarrow> bool" where
  "memberOf db orgId ecosystemId \<longleftrightarrow> (orgId, ecosystemId) \<in> orgKey ` set (edOrgs db)"

lemma enterEcosystem_cases:
  assumes "roles_ok db" and "enterEcosystem env u reqUser i db = (r, db')"
  obtains (same) "edOrgs db' = edOrgs db"
    | (entered) row where "orgKey row = (orEmpty (eiInvitedOrg i), orEmpty (eiEcosystemId i))"
        "roleName db row = Some ECOSYSTEM_MEMBER" "edOrgs db' = edOrgs db @ [row]"
        "updateKeycloakEcosystem env u (orEmpty (eiInvitedOrg i)) (orEmpty (eiEcosystemId i)) RoleMember
           (db\<lparr>edOrgs := edOrgs db @ [row]\<rparr>) = (r, db')"
proof (cases "List.find (\<lambda>r. erName r = ECOSYSTEM_MEMBER) (edRoles db)")
  case None
  then show ?thesis using assms(2) same by (simp add: enterEcosystem_def getEcosystemRoleByName_def bind_def)
next
  case (Some role)
  let ?row = "\<lparr>eoId = xUuid env 2, eoOrgId = orEmpty (eiInvitedOrg i), eoStatus = OrgActive,
     eoEcosystemId = orEmpty (eiEcosystemId i), eoRoleId = erId role, eoUserId = eiUserId i, eoCreatedBy = reqUser,
     eoDeletedAt = None\<rparr>"
  have role: "roleName db ?row = Some ECOSYSTEM_MEMBER" using assms(1) Some by (rule roleName_role) simp
  show ?thesis
  proof (cases "createEcosystemOrg ?row db = (Inr (), db\<lparr>edOrgs := edOrgs db @ [?row]\<rparr>) \<and>
      updateKeycloakEcosystem env u (orEmpty (eiInvitedOrg i)) (orEmpty (eiEcosystemId i)) RoleMember
        (db\<lparr>edOrgs := edOrgs db @ [?row]\<rparr>) = (r, db')")
    case True
    then show ?thesis using movesD [OF kept.moves_keycloak, of env u]
      by (intro entered [OF _ role]) (auto simp: orgKey_def)
  next
    case False
    then have "edOrgs db' = edOrgs db" using assms(2) Some
      by (auto simp: enterEcosystem_def getEcosystemRoleByName_def getEcosystemOrg_def updateKeycloakEcosystemMember_def
          createEcosystemOrg_def bind_def andThen_def split: if_splits)
    then show ?thesis by (rule same)
  qed
qed

text \<open>
  Who brought the organisation of a new row in: the caller \<open>reqUser\<close> held an open invitation addressed to
  their mail address.
\<close>

definition broughtBy :: "eco_db \<Rightarrow> string \<Rightarrow> ecosystem_orgs \<Rightarrow> bool" where
  "broughtBy db reqUser o' \<longleftrightarrow>
     (\<exists>u \<in> set (edUsers db). \<exists>i \<in> set (edInvitations db). usId u = reqUser \<and>
        (\<exists>email. usEmail u = Some email \<and> invitationKey i = Some (email, eoEcosystemId o', eoOrgId o')) \<and> eiStatus i \<noteq> InvAccepted)"

lemma updateInvitation_joins:
  assumes "roles_ok db" and "updateEcosystemInvitationStatus env st reqUser e orgId db = (r, db')"
    and "o' \<in> set (edOrgs db')" and "o' \<notin> set (edOrgs db)"
  shows "st = InvAccepted \<and> orgKey o' = (orgId, e) \<and> roleName db o' = Some ECOSYSTEM_MEMBER \<and> broughtBy db reqUser o'"
  using assms(2)
proof (cases rule: updateInvitation_cases)
  case (updated u i)
  let ?db1 = "db\<lparr>edInvitations := updateWhere (\<lambda>x. eiId x = eiId i) (\<lambda>x. x\<lparr>eiStatus := st\<rparr>) (edInvitations db)\<rparr>"
  have roles: "roles_ok ?db1" using assms(1) by (simp add: roles_ok_def)
  have i: "i \<in> set (edInvitations db)" "invitationKey i = Some (orEmpty (usEmail u), e, orgId)" using find_SomeD [OF updated(3)] by simp_all
  then have key: "eiInvitedOrg i = Some orgId" "eiEcosystemId i = Some e" by (auto simp: invitationKey_def split: option.splits)
  have u: "u \<in> set (edUsers db)" "usId u = reqUser" using find_SomeD [OF updated(1)] by simp_all
  have accepted: "st = InvAccepted" and "\<exists>r1. enterEcosystem env u reqUser (i\<lparr>eiStatus := st\<rparr>) ?db1 = (r1, db')"
    using updated(5) assms(3,4) by (auto simp: andThen_def bind_def split: if_splits prod.splits sum.splits)
  then obtain r1 where "enterEcosystem env u reqUser (i\<lparr>eiStatus := st\<rparr>) ?db1 = (r1, db')" by blast
  with roles show ?thesis
  proof (cases rule: enterEcosystem_cases)
    case same
    then show ?thesis using assms(3,4) by simp
  next
    case (entered row)
    then have o': "o' = row" "orgKey o' = (orgId, e)" using assms(3,4) key by auto
    moreover have "broughtBy db reqUser o'"
      using u i updated(2,4) o'(2) unfolding broughtBy_def orgKey_def
      by (intro bexI [OF _ u(1)] bexI [OF _ i(1)]) (auto elim!: truthyE)
    ultimately show ?thesis using entered(2) accepted by simp
  qed
qed (use assms(3,4) in simp)

lemma createEcosystem_joins:
  assumes "roles_ok db" and "createEcosystem env dto db = (r, db')"
    and "o' \<in> set (edOrgs db')" and "o' \<notin> set (edOrgs db)"
  shows "eoOrgId o' = ceOrgId dto \<and> eoUserId o' = Some (ceUserId dto) \<and> roleName db o' = Some ECOSYSTEM_LEAD \<and>
    (\<exists>i \<in> set (edInvitations db). eiUserId i = Some (ceUserId dto) \<and> eiStatus i = InvAccepted)"
proof (cases "\<exists>i u. newest (filter (\<lambda>i. eiUserId i = Some (ceUserId dto) \<and> eiStatus i = InvAccepted \<and> eiDeletedAt i = None)
      (edInvitations db)) = Some i \<and> (\<exists>e db1 r1. createEcosystemRows env dto u db = (Inr e, db1) \<and>
        updateKeycloakEcosystem env u (ceOrgId dto) (ecoId e) RoleLead db1 = (r1, db'))")
  case True
  then obtain i u e db1 r1 where i: "newest (filter (\<lambda>i. eiUserId i = Some (ceUserId dto) \<and> eiStatus i = InvAccepted \<and>
        eiDeletedAt i = None) (edInvitations db)) = Some i"
    and rows: "createEcosystemRows env dto u db = (Inr e, db1)"
    and kc: "updateKeycloakEcosystem env u (ceOrgId dto) (ecoId e) RoleLead db1 = (r1, db')" by blast
  obtain db2 where new: "createNewEcosystem env dto db = (Inr e, db2)" and orgs: "edOrgs db1 = edOrgs db2"
    using rows unfolding createEcosystemRows_def transact_commits
    by (auto simp: bind_def andThen_def split: option.splits prod.splits sum.splits dest!: movesD [OF kept.moves_invitationDetails])
  obtain row where "edOrgs db2 = edOrgs db @ [row]" "orgKey row = (ceOrgId dto, ecoId e)"
    "eoUserId row = Some (ceUserId dto)" "roleName db row = Some ECOSYSTEM_LEAD"
    by (rule createNewEcosystem_Inr [OF assms(1) new]) simp
  then show ?thesis using assms(3,4) orgs movesD [OF kept.moves_keycloak kc] newest_in [OF i] by (auto simp: orgKey_def)
next
  case False
  have "edOrgs db' = edOrgs db"
  proof (cases "createEcosystem env dto db")
    case (Pair r2 db2)
    then show ?thesis using assms(2) False
      by (auto simp: createEcosystem_def findAcceptedInvitationByUserId_def checkEcosystemNameExist_def getUserById_def
          updateKeycloakEcosystemLeads_def tryCatch_def bind_def andThen_def createEcosystemRows_def
          split: if_splits option.splits prod.splits sum.splits dest!: transact_raises)
  qed
  then show ?thesis using assms(3,4) by simp
qed

lemma createInvitation_tables:
  assumes "createEcosystemInvitation env email uid userId ty st e orgId db = (r, db')"
  shows "edOrgs db' = edOrgs db" "edRoles db' = edRoles db"
  using assms by (auto simp: createEcosystemInvitation_def Let_def split: if_splits)

lemma sendMember_joins:
  assumes "roles_ok db" and "sendMemberInvitation env orgId reqUser e u db = (r, db')"
    and "o' \<in> set (edOrgs db')" and "o' \<notin> set (edOrgs db)"
  shows "reqUser = usId u \<and> orgKey o' = (orgId, e) \<and> roleName db o' = Some ECOSYSTEM_MEMBER"
  using assms(2) unfolding sendMemberInvitation_def
proof (cases rule: bind_cases)
  case (raised err)
  then show ?thesis using assms(3,4) createInvitation_tables by metis
next
  case (went_on inv' db1)
  note tables = createInvitation_tables [OF went_on(1)]
  have roles: "roles_ok db1" "roleName db1 o' = roleName db o'"
    using assms(1) tables(2) by (simp_all add: roles_ok_def roleName_def)
  show ?thesis
  proof (cases "reqUser = usId u")
    case True
    then obtain r1 where "updateEcosystemInvitationStatus env InvAccepted reqUser e orgId db1 = (r1, db')"
      using went_on(2) by (auto simp: andThen_def bind_def split: prod.splits sum.splits)
    then show ?thesis using updateInvitation_joins [OF roles(1) _ assms(3)] assms(4) tables(1) roles(2) True by metis
  next
    case False
    then have "edOrgs db' = edOrgs db1"
      using went_on(2) by (auto simp: getEcosystemById_def bind_def split: option.splits)
    then show ?thesis using assms(3,4) tables(1) by simp
  qed
qed

lemma inviteMember_cases:
  assumes "inviteMemberToEcosystem env orgId reqUser e db = (r, db')"
  obtains (same) "edOrgs db' = edOrgs db"
    | (sent) g u r1 where "List.find (\<lambda>g. ogId g = orgId) (edOrganisations db) = Some g"
        "List.find (\<lambda>u. usId u = ogCreatedBy g) (edUsers db) = Some u"
        "sendMemberInvitation env orgId reqUser e u db = (r1, db')"
proof (cases "List.find (\<lambda>g. ogId g = orgId) (edOrganisations db)")
  case None
  then have "edOrgs db' = edOrgs db" using assms
    by (auto simp: inviteMemberToEcosystem_def getOrgProfile_def tryCatch_def bind_def split: if_splits)
  then show ?thesis by (rule same)
next
  case (Some g)
  show ?thesis
  proof (cases "List.find (\<lambda>u. usId u = ogCreatedBy g) (edUsers db)")
    case None
    then have "edOrgs db' = edOrgs db" using assms Some
      by (auto simp: inviteMemberToEcosystem_def getOrgProfile_def getUserById_def tryCatch_def bind_def split: if_splits)
    then show ?thesis by (rule same)
  next
    case user: (Some u)
    let ?found = "List.find (\<lambda>i. invitationKey i = Some (orEmpty (usEmail u), e, orgId)) (edInvitations db)"
    have "edOrgs db' = edOrgs db \<or> (\<exists>r1. sendMemberInvitation env orgId reqUser e u db = (r1, db'))"
    proof (cases ?found)
      case None
      then show ?thesis using assms Some user
        by (auto simp: inviteMemberToEcosystem_def getOrgProfile_def getUserById_def getEcosystemInvitationsByEmail_def
            tryCatch_def bind_def split: if_splits prod.splits sum.splits)
    next
      case found: (Some i)
      show ?thesis using assms Some user found invitation_status_run [OF found]
        by (auto simp: inviteMemberToEcosystem_def getOrgProfile_def getUserById_def getEcosystemInvitationsByEmail_def
            tryCatch_def bind_def andThen_def split: if_splits prod.splits sum.splits)
    qed
    then show ?thesis using same sent [OF Some user] by blast
  qed
qed

lemma other_calls_join_nobody:
  assumes "eco_run env c db = (r, db')" and "\<And>dto. c \<noteq> CreateEcosystem dto" and "\<And>orgId u e. c \<noteq> InviteMemberOrg orgId u e"
    and "\<And>st u e orgId. c \<noteq> UpdateInvitation st u e orgId"
  shows "orgKey ` set (edOrgs db') \<subseteq> orgKey ` set (edOrgs db)"
proof (cases c)
  case (DeleteOrgs e orgIds)
  then show ?thesis using assms(1)
    by (auto simp: deleteOrgsFromEcosystem_def deleteOrgFromEcosystem_def deleteEcosystemInvitationByOrgId_def transact_def
        bind_def andThen_def Let_def)
next
  case (UpdateOrgStatus e orgIds st)
  then show ?thesis using assms(1) image_updateWhere_same [of orgKey "\<lambda>o'. o'\<lparr>eoStatus := st\<rparr>"]
    by (auto simp: updateEcosystemOrgStatus_def updateEcosystemOrgStatusRows_def bind_def andThen_def Let_def orgKey_def
        elim!: in_updateWhereE)
qed (use assms in \<open>auto dest!: movesD [OF kept.moves_andThen [OF _ kept.moves_ret], rotated]
    movesD [OF kept.moves_templates(2)] movesD [OF kept.moves_templates(3)] movesD [OF kept.moves_intents(2)]
    movesD [OF kept.moves_config] movesD [OF kept.moves_notices(2)] movesD [OF kept.moves_notices(3)]
    simp: kept.moves_inviteUser kept.moves_templates kept.moves_intents kept.moves_notices\<close>)

text \<open>
  C7. Who becomes a member of an ecosystem. A run of the service adds an organisation to an ecosystem only
  in one of three ways: a user who holds an accepted invitation creates the ecosystem and their
  organisation becomes its lead; a user accepts the open invitation that was addressed to their mail
  address for that ecosystem and organisation; or the user who created the organisation invites it
  themselves.
\<close>

theorem membership_by_invitation:
  assumes "reachable_from eco_start eco_step db" and "eco_run env c db = (r, db')"
    and "o' \<in> set (edOrgs db')" and "\<not> memberOf db (eoOrgId o') (eoEcosystemId o')"
  shows "(\<exists>dto. c = CreateEcosystem dto \<and> eoOrgId o' = ceOrgId dto \<and> eoUserId o' = Some (ceUserId dto) \<and>
       roleName db o' = Some ECOSYSTEM_LEAD \<and>
       (\<exists>i \<in> set (edInvitations db). eiUserId i = Some (ceUserId dto) \<and> eiStatus i = InvAccepted)) \<or>
    roleName db o' = Some ECOSYSTEM_MEMBER \<and>
      (\<exists>reqUser. c = UpdateInvitation InvAccepted reqUser (eoEcosystemId o') (eoOrgId o') \<and> broughtBy db reqUser o' \<or>
         c = InviteMemberOrg (eoOrgId o') reqUser (eoEcosystemId o') \<and>
           (\<exists>g \<in> set (edOrganisations db). ogId g = eoOrgId o' \<and> ogCreatedBy g = reqUser))"
proof -
  have roles: "roles_ok db" using eco_runs.reachable_inv [OF assms(1)] by (rule eco_invD)
  have new: "o' \<notin> set (edOrgs db)" "orgKey o' \<notin> orgKey ` set (edOrgs db)" using assms(4) by (auto simp: memberOf_def orgKey_def)
  consider (create) dto where "c = CreateEcosystem dto" | (invite) orgId u e where "c = InviteMemberOrg orgId u e"
    | (update) st u e orgId where "c = UpdateInvitation st u e orgId" | (other) "orgKey ` set (edOrgs db') \<subseteq> orgKey ` set (edOrgs db)"
    using other_calls_join_nobody [OF assms(2)] by blast
  then show ?thesis
  proof cases
    case create
    then obtain r1 where "createEcosystem env dto db = (r1, db')"
      using assms(2) by (auto simp: andThen_def bind_def split: prod.splits sum.splits)
    then show ?thesis using createEcosystem_joins [OF roles _ assms(3) new(1)] create by blast
  next
    case invite
    then obtain r1 where "inviteMemberToEcosystem env orgId u e db = (r1, db')"
      using assms(2) by (auto simp: andThen_def bind_def split: prod.splits sum.splits)
    then show ?thesis
    proof (cases rule: inviteMember_cases)
      case (sent g v r2)
      note joined = sendMember_joins [OF roles sent(3) assms(3) new(1)]
      have "g \<in> set (edOrganisations db)" "ogId g = orgId" "ogCreatedBy g = u"
        using find_SomeD [OF sent(1)] find_SomeD [OF sent(2)] joined by auto
      then show ?thesis using joined invite by (auto simp: orgKey_def)
    qed (use assms(3) new(1) in simp)
  next
    case update
    then obtain r1 where "updateEcosystemInvitationStatus env st u e orgId db = (r1, db')"
      using assms(2) by (auto simp: andThen_def bind_def split: prod.splits sum.splits)
    then show ?thesis using updateInvitation_joins [OF roles _ assms(3) new(1)] update by (auto simp: orgKey_def)
  qed (use assms(3) new(2) in blast)
qed

section \<open>Access in Keycloak\<close>

lemma ecosystemsOf_setEcosystems [simp]: "ecosystemsOf role (setEcosystems role ids g) = ids"
  by (simp add: ecosystemsOf_def setEcosystems_def split: EcosystemServiceRole.splits)

text \<open>The ecosystems an attribute lists for a role of an organisation.\<close>

definition listed :: "kc_access \<Rightarrow> EcosystemServiceRole \<Rightarrow> string \<Rightarrow> string \<Rightarrow> bool" where
  "listed attr role orgId ecosystemId \<longleftrightarrow>
     (case map_of (parsedAccess attr) orgId of Some (Some g) \<Rightarrow> ecosystemId \<in> set (ecosystemsOf role g) | _ \<Rightarrow> False)"

lemma listed_addedAccess: "listed (addedAccess orgId e role attr) role orgId e"
  by (simp add: listed_def addedAccess_def parsedAccess_def Let_def map_of_dictSet)

lemma userAccess_lists:
  assumes "updateUserEcosystemAccess env k orgId e role db = (r, db')"
  shows "r = Inr () \<Longrightarrow> (\<exists>attr. map_of (edKeycloak db') k = Some attr \<and> listed attr role orgId e)"
    and "map_of (edKeycloak db) k' = Some attr \<Longrightarrow> listed attr role orgId e \<Longrightarrow>
      (\<exists>attr'. map_of (edKeycloak db') k' = Some attr' \<and> listed attr' role orgId e)"
proof -
  show "\<exists>attr. map_of (edKeycloak db') k = Some attr \<and> listed attr role orgId e" if "r = Inr ()"
    using assms that by (auto simp: updateUserEcosystemAccess_def andThen_def bind_def map_of_dictSet listed_addedAccess
        split: sum.splits option.splits)
  show "\<exists>attr'. map_of (edKeycloak db') k' = Some attr' \<and> listed attr' role orgId e"
    if "map_of (edKeycloak db) k' = Some attr" "listed attr role orgId e"
    using assms that by (auto simp: updateUserEcosystemAccess_def andThen_def bind_def map_of_dictSet listed_addedAccess
        split: sum.splits option.splits)
qed

lemma serviceAccount_lists:
  assumes "updateOrgServiceAccountEcosystem env orgId e role db = (r, db')"
    and "map_of (edKeycloak db) k = Some attr" and "listed attr role orgId e"
  shows "\<exists>attr'. map_of (edKeycloak db') k = Some attr' \<and> listed attr' role orgId e"
proof -
  have "db' = db \<or> (\<exists>sa r1. updateUserEcosystemAccess env sa orgId e role db = (r1, db'))"
    using assms(1) by (auto simp: updateOrgServiceAccountEcosystem_def getOrgProfile_def tryCatch_def bind_def
        updateClientServiceAccountEcosystemAccess_def split: option.splits if_splits sum.splits prod.splits)
  then show ?thesis using assms(2,3) userAccess_lists(2) by blast
qed

lemma keycloak_lists:
  assumes "updateKeycloakEcosystem env u orgId e role db = (Inr (), db')" and "usKeycloakUserId u = Some k" and "k \<noteq> []"
  shows "\<exists>attr. map_of (edKeycloak db') k = Some attr \<and> listed attr role orgId e"
proof -
  obtain db1 where "updateUserEcosystemAccess env k orgId e role db = (Inr (), db1)"
    "updateOrgServiceAccountEcosystem env orgId e role db1 = (Inr (), db')"
    using assms by (auto simp: updateKeycloakEcosystem_def andThen_def bind_def split: sum.splits prod.splits)
  then show ?thesis using userAccess_lists(1) serviceAccount_lists by blast
qed

lemma guard_open_to_member:
  assumes "listed (Access access) RoleMember orgId e" and "rqUser req = Some v" and "guEcosystemAccess v = Some access"
  shows "fst (ecosystemRolesGuard validUuid adminEmail (Some [ECOSYSTEM_MEMBER]) req) = Inr True"
proof -
  from assms(1) obtain g where "(orgId, Some g) \<in> set access" "e \<in> set (ecosystemsOf RoleMember g)"
    by (auto simp: listed_def parsedAccess_def split: option.splits dest: map_of_SomeD)
  moreover from this(2) obtain ids where "erMember g = Some ids" "e \<in> set ids"
    by (cases "erMember g") (auto simp: ecosystemsOf_def)
  ultimately have "hasEcosystemRole erMember (Some v)" using assms(3)
    unfolding hasEcosystemRole_def by (simp, intro bexI [of _ "(orgId, Some g)"]) auto
  then show ?thesis using assms(2)
    by (simp add: ecosystemRolesGuard_def bind_def someRole_def ecosystemRolesOf_def)
qed

section \<open>Properties\<close>


text \<open>
  C30. Removing a member does not revoke its access. When a user with a Keycloak account accepts an
  invitation and the organisation becomes a member, the user's \<open>ecosystem_access\<close> attribute lists the
  ecosystem. \<open>deleteOrgsFromEcosystem\<close> then removes the membership but leaves the attribute: a token with
  that claim still passes \<open>EcosystemRolesGuard\<close> on every route for ecosystem members.
\<close>

theorem removed_member_keeps_access:
  assumes "reachable_from eco_start eco_step db"
    and "updateEcosystemInvitationStatus env InvAccepted reqUser e orgId db = (Inr True, db1)"
    and "\<not> memberOf db orgId e" and "memberOf db1 orgId e"
    and "List.find (\<lambda>u. usId u = reqUser) (edUsers db) = Some u" and "usKeycloakUserId u = Some k" and "k \<noteq> []"
    and "deleteOrgsFromEcosystem e [orgId] db1 = (r, db2)"
  shows "\<not> memberOf db2 orgId e \<and> (\<exists>access. map_of (edKeycloak db2) k = Some (Access access) \<and>
    (\<forall>req v. rqUser req = Some v \<longrightarrow> guEcosystemAccess v = Some access \<longrightarrow>
       fst (ecosystemRolesGuard validUuid adminEmail (Some [ECOSYSTEM_MEMBER]) req) = Inr True))"
proof -
  have roles: "roles_ok db" using eco_runs.reachable_inv [OF assms(1)] by (rule eco_invD)
  obtain i where i: "invitationKey i = Some (orEmpty (usEmail u), e, orgId)"
    and run: "andThen (if truthy (eiEcosystemId i) then enterEcosystem env u reqUser (i\<lparr>eiStatus := InvAccepted\<rparr>) else ret ())
      (ret True) (db\<lparr>edInvitations := updateWhere (\<lambda>x. eiId x = eiId i) (\<lambda>x. x\<lparr>eiStatus := InvAccepted\<rparr>) (edInvitations db)\<rparr>) =
      (Inr True, db1)"
    using assms(2,5) by (cases rule: updateInvitation_cases) (auto dest: find_SomeD)
  let ?db0 = "db\<lparr>edInvitations := updateWhere (\<lambda>x. eiId x = eiId i) (\<lambda>x. x\<lparr>eiStatus := InvAccepted\<rparr>) (edInvitations db)\<rparr>"
  have key: "eiInvitedOrg i = Some orgId" "eiEcosystemId i = Some e"
    using i by (auto simp: invitationKey_def split: option.splits)
  have "enterEcosystem env u reqUser (i\<lparr>eiStatus := InvAccepted\<rparr>) ?db0 = (Inr (), db1)"
    using run assms(3,4) by (auto simp: andThen_def bind_def memberOf_def split: if_splits prod.splits sum.splits)
  moreover have "roles_ok ?db0" using roles by (simp add: roles_ok_def)
  ultimately obtain row where row: "roleName db row = Some ECOSYSTEM_MEMBER" "orgKey row = (orgId, e)" "edOrgs db1 = edOrgs db @ [row]"
    and kc: "updateKeycloakEcosystem env u orgId e RoleMember (?db0\<lparr>edOrgs := edOrgs db @ [row]\<rparr>) = (Inr (), db1)"
    using assms(3,4) key by (cases rule: enterEcosystem_cases [rotated]) (auto simp: memberOf_def)
  obtain attr where attr: "map_of (edKeycloak db1) k = Some attr" "listed attr RoleMember orgId e"
    using keycloak_lists [OF kc assms(6,7)] by blast
  then obtain access where access: "attr = Access access"
    by (cases attr) (auto simp: listed_def parsedAccess_def)
  have "edRoles db1 = edRoles db" using movesD [OF same_roles.moves_keycloak kc] by simp
  then have "roleName db1 row = Some ECOSYSTEM_MEMBER" using row(1) by (simp add: roleName_def)
  then have "\<not> memberOf db2 orgId e" using assms(3,8) row(2,3)
    by (auto simp: deleteOrgsFromEcosystem_def deleteOrgFromEcosystem_def deleteEcosystemInvitationByOrgId_def transact_def
        bind_def andThen_def Let_def memberOf_def orgKey_def)
  moreover have "edKeycloak db2 = edKeycloak db1" using assms(8)
    by (auto simp: deleteOrgsFromEcosystem_def deleteOrgFromEcosystem_def deleteEcosystemInvitationByOrgId_def transact_def
        bind_def andThen_def Let_def)
  ultimately show ?thesis using attr access guard_open_to_member by auto
qed

section \<open>Notices\<close>

definition leadOf :: "eco_db \<Rightarrow> string \<Rightarrow> string \<Rightarrow> bool" where
  "leadOf db userId ecosystemId \<longleftrightarrow>
     (\<exists>o' \<in> set (edOrgs db). eoUserId o' = Some userId \<and> eoEcosystemId o' = ecosystemId \<and> eoDeletedAt o' = None \<and>
        roleName db o' = Some ECOSYSTEM_LEAD)"

fun noticeCaller :: "eco_call \<Rightarrow> string option" where
  "noticeCaller (CreateNotice intentId url userId orgId) = Some userId"
| "noticeCaller (UpdateNotice i url userId) = Some userId"
| "noticeCaller (DeleteNotice i userId) = Some userId"
| "noticeCaller _ = None"

lemma filter_updateWhere:
  "(\<And>x. x \<in> set xs \<Longrightarrow> p x \<Longrightarrow> \<not> q x \<and> \<not> q (f x)) \<Longrightarrow> filter q (updateWhere p f xs) = filter q xs"
  by (induction xs) auto

lemma createNotice_by_lead:
  assumes "createIntentNotice env i url userId orgId db = (r, db')" and "edNotices db' \<noteq> edNotices db"
  shows "\<exists>n row. n \<in> set (edIntents db) \<and> inId n = i \<and> leadOf db userId (inEcosystemId n) \<and>
    edNotices db' = edNotices db @ [row] \<and> ntIntentId row = i"
proof (cases "List.find (\<lambda>n. inId n = i) (edIntents db)")
  case None
  then show ?thesis using assms
    by (auto simp: createIntentNotice_def validateNoticeUrl_def findIntentById_def tryCatch_def andThen_def bind_def
        split: if_splits sum.splits)
next
  case (Some n)
  have n: "n \<in> set (edIntents db)" "inId n = i" using find_SomeD [OF Some] by simp_all
  have "insertIntentNotice env i url userId orgId db = (r, db') \<and> leadOf db userId (inEcosystemId n)"
    using assms Some
    by (auto simp: createIntentNotice_def validateNoticeUrl_def findIntentById_def validateEcosystemLead_def isEcosystemLead_def
        getEcosystemOrg_def intentNoticeExists_def insertIntentNotice_def leadOf_def Let_def tryCatch_def andThen_def bind_def
        split: if_splits sum.splits)
  then show ?thesis using assms(2) n by (auto simp: insertIntentNotice_def Let_def split: if_splits)
qed

lemma authoriseNotice_lead:
  assumes "authoriseNotice i userId db = (Inr (), db')" and "i \<noteq> []"
  shows "db' = db \<and> (\<exists>n nt. n \<in> set (edIntents db) \<and> nt \<in> set (edNotices db) \<and> ntId nt = i \<and> ntIntentId nt = inId n \<and>
    leadOf db userId (inEcosystemId n))"
proof -
  obtain nt where nt: "List.find (\<lambda>n. i = [] \<or> ntId n = i) (rev (edNotices db)) = Some nt"
    using assms by (auto simp: authoriseNotice_def getIntentNoticeRow_def bind_def split: option.splits)
  obtain n where n: "List.find (\<lambda>n. inId n = ntIntentId nt) (edIntents db) = Some n"
    using assms nt by (auto simp: authoriseNotice_def getIntentNoticeRow_def findIntentById_def bind_def split: option.splits)
  have "db' = db \<and> leadOf db userId (inEcosystemId n)"
    using assms nt n by (auto simp: authoriseNotice_def getIntentNoticeRow_def findIntentById_def validateEcosystemLead_def
        isEcosystemLead_def leadOf_def bind_def split: if_splits)
  then show ?thesis using find_SomeD [OF nt] find_SomeD [OF n] assms(2)
    by (intro conjI exI [of _ n] exI [of _ nt]) auto
qed

text \<open>An update or a deletion changes the notice with the given id and no other.\<close>

lemma changeNotice_by_lead:
  assumes "distinct (map ntId (edNotices db))"
    and "updateIntentNotice env i url userId db = (r, db') \<or> deleteIntentNotice env i userId db = (r, db')"
    and "edNotices db' \<noteq> edNotices db"
  shows "\<exists>n. n \<in> set (edIntents db) \<and> leadOf db userId (inEcosystemId n) \<and>
    filter (\<lambda>x. ntIntentId x \<noteq> inId n) (edNotices db') = filter (\<lambda>x. ntIntentId x \<noteq> inId n) (edNotices db)"
proof -
  have run: "i \<noteq> [] \<and> authoriseNotice i userId db = (Inr (), db) \<and>
      (edNotices db' = updateWhere (\<lambda>n. ntId n = i) (\<lambda>n. n\<lparr>ntNoticeUrl := url, ntLastChangedBy := userId\<rparr>) (edNotices db) \<or>
       edNotices db' = filter (\<lambda>n. ntId n \<noteq> i) (edNotices db))"
  proof -
    have state: "snd (authoriseNotice i userId db) = db"
      by (auto simp: authoriseNotice_def getIntentNoticeRow_def findIntentById_def validateEcosystemLead_def
          isEcosystemLead_def bind_def split: option.splits)
    show ?thesis using assms(2,3) state
      by (cases "authoriseNotice i userId db"; cases "fst (authoriseNotice i userId db)")
        (auto simp: updateIntentNotice_def deleteIntentNotice_def validateNoticeUrl_def updateIntentNoticeRow_def
          deleteIntentNoticeRow_def tryCatch_def andThen_def bind_def split: if_splits sum.splits)
  qed
  then obtain n nt where n: "n \<in> set (edIntents db)" "leadOf db userId (inEcosystemId n)"
    and nt: "nt \<in> set (edNotices db)" "ntId nt = i" "ntIntentId nt = inId n"
    using authoriseNotice_lead by blast
  have only: "ntIntentId x = inId n" if "x \<in> set (edNotices db)" "ntId x = i" for x
    using distinct_map_eqD [OF assms(1) that(1) nt(1)] that(2) nt by simp
  have "filter (\<lambda>x. ntIntentId x \<noteq> inId n) (filter (\<lambda>n. ntId n \<noteq> i) (edNotices db)) = filter (\<lambda>x. ntIntentId x \<noteq> inId n) (edNotices db)"
    using only by (auto simp: filter_filter intro: filter_cong)
  moreover have "filter (\<lambda>x. ntIntentId x \<noteq> inId n) (updateWhere (\<lambda>n. ntId n = i)
      (\<lambda>n. n\<lparr>ntNoticeUrl := url, ntLastChangedBy := userId\<rparr>) (edNotices db)) = filter (\<lambda>x. ntIntentId x \<noteq> inId n) (edNotices db)"
    using only by (intro filter_updateWhere) simp
  ultimately show ?thesis using run n by auto
qed

lemma other_calls_keep_notices:
  assumes "eco_run env c db = (r, db')" and "noticeCaller c = None"
  shows "edNotices db' = edNotices db"
  using assms
  by (cases c) (auto dest!: movesD [OF unnoticed.moves_andThen [OF _ unnoticed.moves_ret], rotated]
      movesD [OF unnoticed.moves_templates(2)] movesD [OF unnoticed.moves_templates(3)] movesD [OF unnoticed.moves_intents(2)]
      movesD [OF unnoticed.moves_config]
      simp: unnoticed.moves_inviteUser unnoticed.moves_templates unnoticed.moves_intents unnoticed.moves_createEcosystem
        unnoticed.moves_inviteMember unnoticed.moves_updateInvitation unnoticed.moves_deleteOrgs unnoticed.moves_orgStatus)

text \<open>
  C31. Intent notices belong to the lead. If a run changes the notices, it is a call to create, update or
  delete a notice by a user who leads the ecosystem of the intent concerned, and the notices of every other
  intent stay as they are.
\<close>

theorem notices_by_lead:
  assumes "reachable_from eco_start eco_step db" and "eco_run env c db = (r, db')" and "edNotices db' \<noteq> edNotices db"
  shows "\<exists>userId n. noticeCaller c = Some userId \<and> n \<in> set (edIntents db) \<and> leadOf db userId (inEcosystemId n) \<and>
    filter (\<lambda>x. ntIntentId x \<noteq> inId n) (edNotices db') = filter (\<lambda>x. ntIntentId x \<noteq> inId n) (edNotices db)"
proof -
  have ids: "distinct (map ntId (edNotices db))"
    using eco_invD(6) [OF eco_runs.reachable_inv [OF assms(1)]] by (simp add: notices_ok_def)
  show ?thesis
  proof (cases c)
    case (CreateNotice i url userId orgId)
    then obtain r1 where "createIntentNotice env i url userId orgId db = (r1, db')"
      using assms(2) by (auto simp: andThen_def bind_def split: prod.splits sum.splits)
    then show ?thesis using createNotice_by_lead [OF _ assms(3)] CreateNotice by fastforce
  next
    case (UpdateNotice i url userId)
    then show ?thesis using changeNotice_by_lead [OF ids _ assms(3)] assms(2) by fastforce
  next
    case (DeleteNotice i userId)
    then show ?thesis using changeNotice_by_lead [OF ids _ assms(3)] assms(2) by fastforce
  qed (use other_calls_keep_notices [OF assms(2)] assms(3) in simp_all)
qed

section \<open>An example run\<close>

definition ecoEnv :: "string \<Rightarrow> eco_env" where
  "ecoEnv p =
     \<lparr>xNow = 0, xUuid = (\<lambda>n. p @ showNat n), xInsensitive = (\<lambda>a b. toLowerCase a = toLowerCase b), xPrismaMessage = (\<lambda>c. c),
      xSendEmail = (\<lambda>_. Inr True), xFetch = (\<lambda>_. Inr 200), xToken = Inr ''t'', xRealm = Some ''realm'',
      xUserProfilePolicy = Inr (Some ''ENABLED''), xKcGet = (\<lambda>_. Inr ()), xKcPut = (\<lambda>_. Inr ()),
      xServiceAccount = (\<lambda>_. Inr None)\<rparr>"

definition ecoInit :: eco_db where
  "ecoInit =
     \<lparr>edEcosystems = [], edRoles = [\<lparr>erId = ''r1'', erName = ECOSYSTEM_LEAD\<rparr>, \<lparr>erId = ''r2'', erName = ECOSYSTEM_MEMBER\<rparr>],
      edOrgs = [], edInvitations = [], edIntents = [], edTemplates = [], edNotices = [], edConfig = Some True,
      edUsers = [\<lparr>usId = ''u1'', usEmail = Some ''a@x'', usKeycloakUserId = Some ''k1''\<rparr>,
                 \<lparr>usId = ''u2'', usEmail = Some ''b@x'', usKeycloakUserId = Some ''k2''\<rparr>],
      edOrganisations = [\<lparr>ogId = ''g1'', ogCreatedBy = ''u1'', ogIdpId = None\<rparr>, \<lparr>ogId = ''g2'', ogCreatedBy = ''u2'', ogIdpId = None\<rparr>],
      edVerificationTemplates = [], edKeycloak = [(''k1'', NoAttribute), (''k2'', NoAttribute)]\<rparr>"

definition ecoCalls :: "(string \<times> eco_call) list" where
  "ecoCalls =
     [(''a'', InviteUser ''a@x'' ''admin''),
      (''b'', CreateEcosystem \<lparr>ceName = ''Eco'', ceDescription = ''d'', ceUserId = ''u1'', ceOrgId = ''g1''\<rparr>),
      (''c'', CreateIntent ''travel'' None ''b1'' ''u1''),
      (''d'', CreateNotice ''c0'' ''https://n'' ''u1'' None),
      (''e'', InviteMemberOrg ''g2'' ''u1'' ''b1''),
      (''f'', UpdateInvitation InvAccepted ''u2'' ''b1'' ''g2''),
      (''h'', DeleteOrgs ''b1'' [''g2''])]"

definition ecoState :: "nat \<Rightarrow> eco_db" where
  "ecoState n = foldl (\<lambda>db (p, c). snd (eco_run (ecoEnv p) c db)) ecoInit (take n ecoCalls)"

lemma ecoState_Suc:
  "n < length ecoCalls \<Longrightarrow> ecoState (Suc n) = snd (eco_run (ecoEnv (fst (ecoCalls ! n))) (snd (ecoCalls ! n)) (ecoState n))"
  by (simp add: ecoState_def take_Suc_conv_app_nth case_prod_beta)

lemma ecoState_reachable: "reachable_from eco_start eco_step (ecoState n)"
proof (induction n)
  case 0
  have "eco_start ecoInit" by (simp add: eco_start_def ecoInit_def ECOSYSTEM_LEAD_def ECOSYSTEM_MEMBER_def)
  then show ?case by (simp add: ecoState_def reachable_from.init)
next
  case (Suc n)
  show ?case
  proof (cases "n < length ecoCalls")
    case True
    have "eco_step (ecoState n) (ecoState (Suc n))" unfolding ecoState_Suc [OF True]
      by (rule eco_step.call) (rule prod.collapse [symmetric])
    with Suc show ?thesis by (rule reachable_from.move)
  next
    case False
    then show ?thesis using Suc by (simp add: ecoState_def)
  qed
qed

definition joinedRow :: ecosystem_orgs where
  "joinedRow = \<lparr>eoId = ''f2'', eoOrgId = ''g2'', eoStatus = OrgActive, eoEcosystemId = ''b1'', eoRoleId = ''r2'',
     eoUserId = Some ''u2'', eoCreatedBy = ''u2'', eoDeletedAt = None\<rparr>"

lemma ecoState_facts:
  "joinedRow \<in> set (edOrgs (ecoState 6))" "\<not> memberOf (ecoState 5) ''g2'' ''b1''" "memberOf (ecoState 6) ''g2'' ''b1''"
  "length (edNotices (ecoState 3)) = 0" "length (edNotices (ecoState 4)) = 1" "length (edEcosystems (ecoState 6)) = 1"
  "roleName (ecoState 6) joinedRow = Some ECOSYSTEM_MEMBER"
  by code_simp+


lemma ecoState_6: "eco_run (ecoEnv ''f'') (UpdateInvitation InvAccepted ''u2'' ''b1'' ''g2'') (ecoState 5) = (Inr (), ecoState 6)"
proof -
  have "fst (eco_run (ecoEnv ''f'') (UpdateInvitation InvAccepted ''u2'' ''b1'' ''g2'') (ecoState 5)) = Inr ()" by code_simp
  moreover have "ecoState 6 = snd (eco_run (ecoEnv ''f'') (UpdateInvitation InvAccepted ''u2'' ''b1'' ''g2'') (ecoState 5))"
    using ecoState_Suc [of 5] by (simp add: ecoCalls_def)
  ultimately show ?thesis by (metis prod.collapse)
qed

theorem membership_by_invitation_witness:
  "memberOf (ecoState 6) ''g2'' ''b1'' \<and> \<not> memberOf (ecoState 5) ''g2'' ''b1'' \<and> broughtBy (ecoState 5) ''u2'' joinedRow"
proof -
  have "\<not> memberOf (ecoState 5) (eoOrgId joinedRow) (eoEcosystemId joinedRow)"
    using ecoState_facts(2) by (simp add: joinedRow_def)
  from membership_by_invitation [OF ecoState_reachable ecoState_6 ecoState_facts(1) this] show ?thesis
    using ecoState_facts(2,3) by auto
qed

theorem removed_member_keeps_access_witness:
  "\<not> memberOf (ecoState 7) ''g2'' ''b1'' \<and>
   fst (ecosystemRolesGuard (\<lambda>_. True) None (Some [ECOSYSTEM_MEMBER]) (requestFor ''g2'' (sampleUser\<lparr>guEcosystemAccess :=
     (case map_of (edKeycloak (ecoState 7)) ''k2'' of Some (Access a) \<Rightarrow> Some a | _ \<Rightarrow> None)\<rparr>))) = Inr True"
proof -
  have accept: "updateEcosystemInvitationStatus (ecoEnv ''f'') InvAccepted ''u2'' ''b1'' ''g2'' (ecoState 5) = (Inr True, ecoState 6)"
  proof -
    have "fst (updateEcosystemInvitationStatus (ecoEnv ''f'') InvAccepted ''u2'' ''b1'' ''g2'' (ecoState 5)) = Inr True" by code_simp
    then show ?thesis using ecoState_6
      by (cases "updateEcosystemInvitationStatus (ecoEnv ''f'') InvAccepted ''u2'' ''b1'' ''g2'' (ecoState 5)")
        (simp add: andThen_def bind_def)
  qed
  obtain r where delete: "deleteOrgsFromEcosystem ''b1'' [''g2''] (ecoState 6) = (r, ecoState 7)"
    using ecoState_Suc [of 6]
    by (cases "deleteOrgsFromEcosystem ''b1'' [''g2''] (ecoState 6)"; cases "fst (deleteOrgsFromEcosystem ''b1'' [''g2''] (ecoState 6))")
      (auto simp: ecoCalls_def andThen_def bind_def)
  have user: "List.find (\<lambda>u. usId u = ''u2'') (edUsers (ecoState 5)) =
      Some \<lparr>usId = ''u2'', usEmail = Some ''b@x'', usKeycloakUserId = Some ''k2''\<rparr>" by code_simp
  have "\<not> memberOf (ecoState 7) ''g2'' ''b1'' \<and> (\<exists>access. map_of (edKeycloak (ecoState 7)) ''k2'' = Some (Access access) \<and>
    (\<forall>req v. rqUser req = Some v \<longrightarrow> guEcosystemAccess v = Some access \<longrightarrow>
       fst (ecosystemRolesGuard (\<lambda>_. True) None (Some [ECOSYSTEM_MEMBER]) req) = Inr True))"
    by (rule removed_member_keeps_access [OF ecoState_reachable accept ecoState_facts(2,3) user _ _ delete]) simp_all
  then show ?thesis by (auto simp: requestFor_def)
qed

theorem notices_by_lead_witness:
  "edNotices (ecoState 4) \<noteq> edNotices (ecoState 3) \<and>
   (\<exists>n \<in> set (edIntents (ecoState 3)). leadOf (ecoState 3) ''u1'' (inEcosystemId n))"
proof -
  obtain r where run: "eco_run (ecoEnv ''d'') (CreateNotice ''c0'' ''https://n'' ''u1'' None) (ecoState 3) = (r, ecoState 4)"
    using ecoState_Suc [of 3]
    by (cases "eco_run (ecoEnv ''d'') (CreateNotice ''c0'' ''https://n'' ''u1'' None) (ecoState 3)") (simp add: ecoCalls_def)
  have changed: "edNotices (ecoState 4) \<noteq> edNotices (ecoState 3)" using ecoState_facts(4,5) by auto
  show ?thesis using notices_by_lead [OF ecoState_reachable run changed] changed by auto
qed

end
