(* ===== verification/Agent_Store.thy ===== *)
theory Agent_Store
  imports Platform_Prelude
begin

text \<open>
  The wallets of organisations: the tables \<open>org_agents\<close>, \<open>org_dids\<close> and \<open>agent_invitations\<close> with the repository
  of the agent service (\<open>apps/agent-service/src/repositories/agent-service.repository.ts\<close>), and the queries of
  the organisation repository (\<open>apps/organization/repositories/organization.repository.ts\<close>) that touch them.

  A table is the list of its rows, oldest first. Columns that no modelled code reads (\<open>verkey\<close>,
  \<open>isDidPublic\<close>, \<open>createdBy\<close>, \<open>webhookUrl\<close>) are left out. The tables of other services (\<open>connections\<close>,
  \<open>credentials\<close>, \<open>presentations\<close>) are reduced to their column \<open>orgId\<close>, and \<open>oidc_issuer\<close>, \<open>x509_certificates\<close> and
  \<open>oid4vp_verifier\<close> to the identifiers of the agents they refer to. Identifiers are strings. A DID document is the
  text of a JSON object. An empty string is no UUID (\<open>P2023\<close>). A violated unique index raises \<open>P2002\<close>, a violated foreign key \<open>P2003\<close>, a missing row
  \<open>P2025\<close>, and a missing value for a required column a validation error.
\<close>

section \<open>Definitions\<close>

subsection \<open>Tables\<close>

datatype AgentSpinUpStatus = SPIN_PENDING | WALLET_CREATED | DID_CREATED

record org_agents =
  oaId :: string
  oaOrgId :: "string option"
  oaOrgDid :: "string option"
  oaDidDocument :: "string option"
  oaEndPoint :: "string option"
  oaSpinUpStatus :: "AgentSpinUpStatus option"
  oaWalletName :: "string option"
  oaTenantId :: "string option"
  oaApiKey :: "string option"
  oaAgentsTypeId :: "string option"
  oaOrgAgentTypeId :: "string option"
  oaLedgerId :: "string option"

record org_dids =
  odId :: string
  odOrgId :: string
  odIsPrimaryDid :: bool
  odDid :: string
  odDidDocument :: string
  odOrgAgentId :: string

record agent_invitations =
  aiId :: string
  aiOrgId :: string
  aiAgentId :: string
  aiConnectionInvitation :: string

record wallet_org =
  woId :: string
  woName :: "string option"
  woLogoUrl :: "string option"

record ledgers =
  ldId :: string
  ldName :: string
  ldPoolConfig :: string
  ldIndyNamespace :: "string option"

record platform_config =
  pcExternalIp :: string
  pcInboundEndpoint :: "string option"
  pcApiEndpoint :: string

text \<open>The row of a table with a key and one text: \<open>org_agents_type\<close>, \<open>agents_type\<close> and \<open>user\<close> (its e-mail).\<close>

type_synonym named_row = "string \<times> string"

text \<open>What \<open>provisionWallet\<close> hands to \<open>_agentSpinup\<close>, which it does not wait for.\<close>

record IWalletProvision =
  wpOrgId :: string
  wpExternalIp :: string
  wpWalletName :: string
  wpWalletPassword :: string
  wpSeed :: string
  wpWebhookEndpoint :: string
  wpInboundEndpoint :: "string option"
  wpContainerName :: string
  wpOrgName :: string
  wpIndyLedger :: "(string \<times> string option) list"
  wpTenant :: bool

record spin_up =
  suAgentId :: string
  suOrgId :: string
  suPayload :: IWalletProvision
  suMethod :: string
  suNetwork :: "string option"
  suAgentType :: "string option"
  suWalletName :: string

record agent_db =
  adAgents :: "org_agents list"
  adDids :: "org_dids list"
  adInvitations :: "agent_invitations list"
  adOrgs :: "wallet_org list"
  adOrgAgentTypes :: "named_row list"
  adAgentTypes :: "named_row list"
  adLedgers :: "ledgers list"
  adUsers :: "named_row list"
  adPlatformConfig :: "platform_config option"
  adConnections :: "string list"
  adCredentials :: "string list"
  adPresentations :: "string list"
  adReferences :: "string list"
  adSpinUps :: "spin_up list"

definition P2002 :: error where
  "P2002 = PrismaError ''P2002''"

definition P2003 :: error where
  "P2003 = PrismaError ''P2003''"

definition P2025 :: error where
  "P2025 = PrismaError ''P2025''"

definition P2023 :: error where
  "P2023 = PrismaError ''P2023''"

definition missingArgument :: error where
  "missingArgument = PrismaError ''PrismaClientValidationError''"

text \<open>\<open>findFirstOrThrow\<close> on a table.\<close>

definition firstOrThrow :: "('s \<Rightarrow> 'r list) \<Rightarrow> ('r \<Rightarrow> bool) \<Rightarrow> ('s, 'r) eff" where
  "firstOrThrow tab p =
     bind (reads (\<lambda>db. List.find p (tab db))) (\<lambda>r. case r of None \<Rightarrow> throw P2025 | Some x \<Rightarrow> ret x)"

subsection \<open>Lookups of the agent service\<close>

definition getOrgAgentDetails :: "string \<Rightarrow> agent_db \<Rightarrow> org_agents option" where
  "getOrgAgentDetails orgId db =
     (if orgId = [] then None else List.find (\<lambda>a. oaOrgId a = Some orgId) (adAgents db))"

definition getAgentApiKey :: "string \<Rightarrow> agent_db \<Rightarrow> org_agents option" where
  "getAgentApiKey orgId db =
     (if orgId = [] then None else List.find (\<lambda>a. oaOrgId a = Some orgId) (adAgents db))"

text \<open>\<open>getAgentDetails\<close> selects the status only.\<close>

definition getAgentDetails :: "string \<Rightarrow> agent_db \<Rightarrow> AgentSpinUpStatus option option" where
  "getAgentDetails orgId db =
     (if orgId = [] then None
      else map_option oaSpinUpStatus (List.find (\<lambda>a. oaOrgId a = Some orgId) (adAgents db)))"

definition getOrgDetails :: "string \<Rightarrow> agent_db \<Rightarrow> wallet_org option" where
  "getOrgDetails i db = (if i = [] then None else List.find (\<lambda>r. woId r = i) (adOrgs db))"

definition getPlatfomOrg :: "string option \<Rightarrow> (agent_db, string) eff" where
  "getPlatfomOrg orgName =
     bind (firstOrThrow adOrgs (\<lambda>r. orgName = None \<or> woName r = orgName)) (\<lambda>r. ret (woId r))"

definition getPlatfomAdminUser :: "string \<Rightarrow> agent_db \<Rightarrow> string option" where
  "getPlatfomAdminUser email db = map_option fst (List.find (\<lambda>u. snd u = email) (adUsers db))"

definition getOrgAgentTypeDetails :: "string \<Rightarrow> (agent_db, string) eff" where
  "getOrgAgentTypeDetails agentType =
     bind (firstOrThrow adOrgAgentTypes (\<lambda>t. snd t = agentType)) (\<lambda>t. ret (fst t))"

definition getOrgAgentType :: "string \<Rightarrow> agent_db \<Rightarrow> string option" where
  "getOrgAgentType i db = map_option snd (List.find (\<lambda>t. fst t = i) (adOrgAgentTypes db))"

definition getAgentTypeId :: "string \<Rightarrow> (agent_db, string) eff" where
  "getAgentTypeId agentType =
     bind (firstOrThrow adAgentTypes (\<lambda>t. snd t = agentType)) (\<lambda>t. ret (fst t))"

definition getAgentTypeDetails :: "(agent_db, string) eff" where
  "getAgentTypeDetails = getAgentTypeId ''AFJ''"

definition getLedgerDetails :: "string list \<Rightarrow> agent_db \<Rightarrow> string list" where
  "getLedgerDetails names db = map ldId (filter (\<lambda>l. ldName l \<in> set names) (adLedgers db))"

definition getGenesisUrl :: "string list \<Rightarrow> agent_db \<Rightarrow> ledgers list" where
  "getGenesisUrl ids db = filter (\<lambda>l. ldId l \<in> set ids) (adLedgers db)"

text \<open>\<open>getLedgerByNameSpace\<close> answers \<open>undefined\<close> for a missing or empty name.\<close>

definition getLedgerByNameSpace :: "string option \<Rightarrow> (agent_db, ledgers option) eff" where
  "getLedgerByNameSpace ns =
     (if truthy ns then bind (firstOrThrow adLedgers (\<lambda>l. ldIndyNamespace l = ns)) (\<lambda>l. ret (Some l))
      else ret None)"

definition getLedger :: "string \<Rightarrow> (agent_db, ledgers) eff" where
  "getLedger name = firstOrThrow adLedgers (\<lambda>l. ldName l = name)"

definition getOrgDid :: "string \<Rightarrow> agent_db \<Rightarrow> org_dids list" where
  "getOrgDid orgId db = filter (\<lambda>d. odOrgId d = orgId) (adDids db)"

text \<open>The agents of the organisation \<open>Platform-admin\<close>; the code reads the first of them.\<close>

definition platformAdminAgent :: "(agent_db, org_agents list) eff" where
  "platformAdminAgent =
     bind (firstOrThrow adOrgs (\<lambda>r. woName r = Some ''Platform-admin'')) (\<lambda>r.
     reads (\<lambda>db. filter (\<lambda>a. oaOrgId a = Some (woId r)) (adAgents db)))"

subsection \<open>Writes of the agent service\<close>

definition emptyAgent :: "string \<Rightarrow> org_agents" where
  "emptyAgent i =
     \<lparr>oaId = i, oaOrgId = None, oaOrgDid = None, oaDidDocument = None, oaEndPoint = None, oaSpinUpStatus = None,
      oaWalletName = None, oaTenantId = None, oaApiKey = None, oaAgentsTypeId = None, oaOrgAgentTypeId = None,
      oaLedgerId = None\<rparr>"

text \<open>
  The unique index on \<open>orgId\<close> and the foreign keys of a row of \<open>org_agents\<close> beside the rows \<open>others\<close>. A foreign key is
  checked when its column differs from the row \<open>old\<close> that is replaced.
\<close>

definition references :: "('r \<Rightarrow> string) \<Rightarrow> 'r list \<Rightarrow> string option \<Rightarrow> string option \<Rightarrow> bool" where
  "references k rows old x =
     (x = old \<or> (case x of None \<Rightarrow> True | Some i \<Rightarrow> list_ex (\<lambda>r. k r = i) rows))"

definition agentRow :: "org_agents list \<Rightarrow> org_agents \<Rightarrow> org_agents \<Rightarrow> agent_db \<Rightarrow> error option" where
  "agentRow others old a db =
     (if list_ex (\<lambda>b. oaId b = oaId a \<or> (oaOrgId a \<noteq> None \<and> oaOrgId b = oaOrgId a)) others then Some P2002
      else if references woId (adOrgs db) (oaOrgId old) (oaOrgId a) \<and>
              references fst (adAgentTypes db) (oaAgentsTypeId old) (oaAgentsTypeId a) \<and>
              references fst (adOrgAgentTypes db) (oaOrgAgentTypeId old) (oaOrgAgentTypeId a) \<and>
              references ldId (adLedgers db) (oaLedgerId old) (oaLedgerId a)
      then None
      else Some P2003)"

definition insertAgent :: "org_agents \<Rightarrow> (agent_db, org_agents) eff" where
  "insertAgent a = (\<lambda>db. case agentRow (adAgents db) (emptyAgent (oaId a)) a db of
       Some e \<Rightarrow> (Inl e, db)
     | None \<Rightarrow> (Inr a, db\<lparr>adAgents := adAgents db @ [a]\<rparr>))"

definition updateAgent :: "(org_agents \<Rightarrow> bool) \<Rightarrow> (org_agents \<Rightarrow> org_agents) \<Rightarrow> (agent_db, org_agents) eff" where
  "updateAgent p f = (\<lambda>db. case List.find p (adAgents db) of
       None \<Rightarrow> (Inl P2025, db)
     | Some a \<Rightarrow>
         (case agentRow (filter (\<lambda>b. oaId b \<noteq> oaId a) (adAgents db)) a (f a) db of
            Some e \<Rightarrow> (Inl e, db)
          | None \<Rightarrow> (Inr (f a), db\<lparr>adAgents := updateWhere (\<lambda>b. oaId b = oaId a) f (adAgents db)\<rparr>)))"

definition deleteAgent :: "(org_agents \<Rightarrow> bool) \<Rightarrow> (agent_db, unit) eff" where
  "deleteAgent p = (\<lambda>db. case List.find p (adAgents db) of
       None \<Rightarrow> (Inl P2025, db)
     | Some a \<Rightarrow>
         (if list_ex (\<lambda>d. odOrgAgentId d = oaId a) (adDids db) \<or>
             list_ex (\<lambda>i. aiAgentId i = oaId a) (adInvitations db) \<or> oaId a \<in> set (adReferences db)
          then (Inl P2003, db)
          else (Inr (), db\<lparr>adAgents := filter (\<lambda>b. oaId b \<noteq> oaId a) (adAgents db)\<rparr>)))"

definition createOrgAgent ::
    "string \<Rightarrow> AgentSpinUpStatus \<Rightarrow> string option \<Rightarrow> string \<Rightarrow> (agent_db, string) eff" where
  "createOrgAgent uuid agentSpinUpStatus userId orgId =
     (if userId = None then throw missingArgument
      else bind (insertAgent ((emptyAgent uuid)\<lparr>oaOrgId := Some orgId, oaSpinUpStatus := Some agentSpinUpStatus\<rparr>))
             (\<lambda>a. ret (oaId a)))"

definition removeOrgAgent :: "string \<Rightarrow> (agent_db, unit) eff" where
  "removeOrgAgent i = (if i \<noteq> [] then deleteAgent (\<lambda>a. oaId a = i) else ret ())"

definition deleteOrgAgentById :: "string \<Rightarrow> (agent_db, unit) eff" where
  "deleteOrgAgentById i = deleteAgent (\<lambda>a. oaId a = i)"

record IStoreOrgAgentDetails =
  ssId :: "string option"
  ssOrgId :: string
  ssDid :: "string option"
  ssAgentSpinUpStatus :: AgentSpinUpStatus
  ssWalletName :: "string option"
  ssAgentsTypeId :: "string option"
  ssAgentEndPoint :: "string option"
  ssOrgAgentTypeId :: "string option"
  ssTenantId :: "string option"
  ssApiKey :: "string option"
  ssLedgerId :: "string list option"
  ssUserId :: "string option"

text \<open>A field that is \<open>undefined\<close> is not written.\<close>

definition given :: "'a option \<Rightarrow> 'a option \<Rightarrow> 'a option" where
  "given new old = (case new of None \<Rightarrow> old | Some x \<Rightarrow> Some x)"

definition agentData :: "IStoreOrgAgentDetails \<Rightarrow> org_agents \<Rightarrow> org_agents" where
  "agentData d a =
     a\<lparr>oaOrgId := Some (ssOrgId d), oaOrgDid := given (ssDid d) (oaOrgDid a),
       oaEndPoint := given (ssAgentEndPoint d) (oaEndPoint a), oaSpinUpStatus := Some (ssAgentSpinUpStatus d),
       oaWalletName := given (ssWalletName d) (oaWalletName a), oaTenantId := given (ssTenantId d) (oaTenantId a),
       oaApiKey := given (ssApiKey d) (oaApiKey a), oaAgentsTypeId := given (ssAgentsTypeId d) (oaAgentsTypeId a),
       oaOrgAgentTypeId := given (ssOrgAgentTypeId d) (oaOrgAgentTypeId a),
       oaLedgerId := (case ssLedgerId d of None \<Rightarrow> None | Some [] \<Rightarrow> oaLedgerId a | Some (l # _) \<Rightarrow> Some l)\<rparr>"

definition storeOrgAgentDetails :: "string \<Rightarrow> IStoreOrgAgentDetails \<Rightarrow> (agent_db, org_agents) eff" where
  "storeOrgAgentDetails uuid d =
     (if truthy (ssId d) then updateAgent (\<lambda>a. Some (oaId a) = ssId d) (agentData d)
      else if ssUserId d = None then throw missingArgument
      else insertAgent (agentData d (emptyAgent uuid)))"

definition updateTenantToken :: "string \<Rightarrow> string \<Rightarrow> (agent_db, org_agents) eff" where
  "updateTenantToken orgId token = updateAgent (\<lambda>a. oaOrgId a = Some orgId) (\<lambda>a. a\<lparr>oaApiKey := Some token\<rparr>)"

definition updateVerifiedTenantToken ::
    "string \<Rightarrow> string option \<Rightarrow> string option \<Rightarrow> string \<Rightarrow> (agent_db, unit) eff" where
  "updateVerifiedTenantToken orgId expectedAgentEndPoint expectedOrgAgentTypeId token =
     (let same = (\<lambda>a. oaOrgId a = Some orgId \<and> oaEndPoint a = expectedAgentEndPoint \<and>
                    oaOrgAgentTypeId a = expectedOrgAgentTypeId)
      in bind (reads (\<lambda>db. length (filter same (adAgents db)))) (\<lambda>count.
         bind (writes (\<lambda>db. db\<lparr>adAgents := updateWhere same (\<lambda>a. a\<lparr>oaApiKey := Some token\<rparr>) (adAgents db)\<rparr>)) (\<lambda>_.
         if count \<noteq> 1 then throw (ConflictException ''agentRowChanged'') else ret ())))"

text \<open>\<open>saveAgentConnectionInvitations\<close> of the connection service.\<close>

definition saveAgentConnectionInvitations :: "agent_invitations \<Rightarrow> (agent_db, unit) eff" where
  "saveAgentConnectionInvitations i = (\<lambda>db.
     if list_ex (\<lambda>j. aiId j = aiId i) (adInvitations db) then (Inl P2002, db)
     else if \<not> list_ex (\<lambda>a. oaId a = aiAgentId i) (adAgents db) \<or>
             \<not> list_ex (\<lambda>r. woId r = aiOrgId i) (adOrgs db) then (Inl P2003, db)
     else (Inr (), db\<lparr>adInvitations := adInvitations db @ [i]\<rparr>))"

subsection \<open>DIDs\<close>

text \<open>
  The partial unique index \<open>org_dids_one_primary_per_org_unique\<close>: a row flagged as primary conflicts with any
  other such row of its organisation.
\<close>

definition primaryConflict :: "org_dids \<Rightarrow> org_dids list \<Rightarrow> bool" where
  "primaryConflict d others \<longleftrightarrow>
     odIsPrimaryDid d \<and> list_ex (\<lambda>e. odIsPrimaryDid e \<and> odOrgId e = odOrgId d) others"

definition updateDid :: "string \<Rightarrow> (org_dids \<Rightarrow> org_dids) \<Rightarrow> (agent_db, org_dids) eff" where
  "updateDid i f = (\<lambda>db. case List.find (\<lambda>d. odId d = i) (adDids db) of
       None \<Rightarrow> (Inl P2025, db)
     | Some d \<Rightarrow>
         (if primaryConflict (f d) (filter (\<lambda>e. odId e \<noteq> i) (adDids db)) then (Inl P2002, db)
          else (Inr (f d), db\<lparr>adDids := updateWhere (\<lambda>e. odId e = i) f (adDids db)\<rparr>)))"

definition insertDid :: "org_dids \<Rightarrow> (agent_db, org_dids) eff" where
  "insertDid d = (\<lambda>db.
     if odId d = [] then (Inl P2023, db)
     else if list_ex (\<lambda>e. odId e = odId d) (adDids db) \<or> primaryConflict d (adDids db) then (Inl P2002, db)
     else if \<not> list_ex (\<lambda>a. oaId a = odOrgAgentId d) (adAgents db) then (Inl P2003, db)
     else (Inr d, db\<lparr>adDids := adDids db @ [d]\<rparr>))"

record IStoreDidDetails =
  sdOrgId :: string
  sdDid :: string
  sdDidDocument :: "string option"
  sdIsPrimaryDid :: "bool option"
  sdOrgAgentId :: string

text \<open>With a primary DID, the other DIDs of the organisation are demoted first.\<close>

definition demoted :: "IStoreDidDetails \<Rightarrow> org_dids list \<Rightarrow> org_dids list" where
  "demoted p dids =
     (if sdIsPrimaryDid p = Some True
      then updateWhere (\<lambda>d. odOrgId d = sdOrgId p \<and> odDid d \<noteq> sdDid p) (\<lambda>d. d\<lparr>odIsPrimaryDid := False\<rparr>) dids
      else dids)"

definition stored :: "IStoreDidDetails \<Rightarrow> org_dids \<Rightarrow> org_dids" where
  "stored p d = d\<lparr>odIsPrimaryDid := (case sdIsPrimaryDid p of None \<Rightarrow> odIsPrimaryDid d | Some b \<Rightarrow> b),
                   odDidDocument := (case sdDidDocument p of None \<Rightarrow> odDidDocument d | Some x \<Rightarrow> x)\<rparr>"

definition storeDid :: "string \<Rightarrow> IStoreDidDetails \<Rightarrow> org_dids option \<Rightarrow> (agent_db, org_dids) eff" where
  "storeDid uuid p existingDid =
     (case existingDid of
        Some e \<Rightarrow> updateDid (odId e) (stored p)
      | None \<Rightarrow>
          (case (sdDidDocument p, sdIsPrimaryDid p) of
             (Some doc, Some b) \<Rightarrow>
               insertDid \<lparr>odId = uuid, odOrgId = sdOrgId p, odIsPrimaryDid = b, odDid = sdDid p,
                          odDidDocument = doc, odOrgAgentId = sdOrgAgentId p\<rparr>
           | _ \<Rightarrow> throw missingArgument))"

definition orgAgentData :: "IStoreDidDetails \<Rightarrow> org_dids \<Rightarrow> string option \<Rightarrow> bool \<Rightarrow> org_agents \<Rightarrow> org_agents" where
  "orgAgentData p storedDid ledgerId updateSpinupStatus a =
     (let primary = (sdIsPrimaryDid p = Some True);
          setDid = (primary \<and> odDid storedDid \<noteq> []);
          setLedger = (primary \<and> truthy ledgerId)
      in a\<lparr>oaOrgDid := (if setDid then Some (odDid storedDid) else oaOrgDid a),
           oaDidDocument := (if setDid then Some (odDidDocument storedDid) else oaDidDocument a),
           oaLedgerId := (if setLedger then ledgerId else oaLedgerId a),
           oaSpinUpStatus := (if updateSpinupStatus then Some DID_CREATED else oaSpinUpStatus a)\<rparr>)"

definition persistDidWithUpdates ::
    "string \<Rightarrow> IStoreDidDetails \<Rightarrow> org_dids option \<Rightarrow> string option \<Rightarrow> bool \<Rightarrow> (agent_db, org_dids) eff" where
  "persistDidWithUpdates uuid p existingDid ledgerId updateSpinupStatus =
     transact
       (andThen (writes (\<lambda>db. db\<lparr>adDids := demoted p (adDids db)\<rparr>))
       (bind (storeDid uuid p existingDid) (\<lambda>storedDid.
        if (sdIsPrimaryDid p = Some True \<and> odDid storedDid \<noteq> []) \<or> (sdIsPrimaryDid p = Some True \<and> truthy ledgerId) \<or>
           updateSpinupStatus
        then bind (updateAgent (\<lambda>a. oaOrgId a = Some (sdOrgId p)) (orgAgentData p storedDid ledgerId updateSpinupStatus))
               (\<lambda>_. ret storedDid)
        else ret storedDid)))"

text \<open>The counts of deleted DIDs and invitations are what the caller logs.\<close>

definition deleteOrgAgentByOrg :: "string \<Rightarrow> (agent_db, nat \<times> nat) eff" where
  "deleteOrgAgentByOrg orgId =
     transact
       (bind (reads (\<lambda>db. List.find (\<lambda>t. orgId \<in> set (snd t))
                 [(''connections'', adConnections db), (''credentials'', adCredentials db),
                  (''presentations'', adPresentations db)])) (\<lambda>referenced.
        case referenced of
          Some t \<Rightarrow> throw (ConflictException
                     (''Organization ID '' @ orgId @ '' is referenced in the table '' @ fst t))
        | None \<Rightarrow>
            bind (reads (\<lambda>db. (length (filter (\<lambda>d. odOrgId d = orgId) (adDids db)),
                               length (filter (\<lambda>i. aiOrgId i = orgId) (adInvitations db))))) (\<lambda>counts.
            andThen (writes (\<lambda>db. db\<lparr>adDids := filter (\<lambda>d. odOrgId d \<noteq> orgId) (adDids db),
                                    adInvitations := filter (\<lambda>i. aiOrgId i \<noteq> orgId) (adInvitations db)\<rparr>))
            (andThen (deleteAgent (\<lambda>a. oaOrgId a = Some orgId))
            (ret counts)))))"

subsection \<open>Queries of the organisation repository\<close>

definition getOrgProfile :: "string \<Rightarrow> agent_db \<Rightarrow> wallet_org option" where
  "getOrgProfile i db = List.find (\<lambda>r. woId r = i) (adOrgs db)"

definition getAgentEndPoint :: "string \<Rightarrow> (agent_db, org_agents) eff" where
  "getAgentEndPoint orgId = firstOrThrow adAgents (\<lambda>a. oaOrgId a = Some orgId)"

definition getAllOrganizationDid :: "string \<Rightarrow> agent_db \<Rightarrow> org_dids list" where
  "getAllOrganizationDid orgId db = filter (\<lambda>d. odOrgId d = orgId) (adDids db)"

definition getDids :: "string \<Rightarrow> agent_db \<Rightarrow> org_dids list" where
  "getDids orgId db = filter (\<lambda>d. odOrgId d = orgId) (adDids db)"

definition getDidDetailsByDid :: "string \<Rightarrow> string \<Rightarrow> (agent_db, org_dids) eff" where
  "getDidDetailsByDid orgId did = firstOrThrow adDids (\<lambda>d. odOrgId d = orgId \<and> odDid d = did)"

definition getPerviousPrimaryDid :: "string \<Rightarrow> string \<Rightarrow> agent_db \<Rightarrow> org_dids option" where
  "getPerviousPrimaryDid orgId excludeId db =
     List.find (\<lambda>d. odOrgId d = orgId \<and> odIsPrimaryDid d \<and> odId d \<noteq> excludeId) (adDids db)"

definition getNetworkByNameSpace :: "string \<Rightarrow> (agent_db, ledgers) eff" where
  "getNetworkByNameSpace nameSpace = firstOrThrow adLedgers (\<lambda>l. ldIndyNamespace l = Some nameSpace)"

record IPrimaryDidDetails =
  pdDid :: string
  pdOrgId :: string
  pdId :: string
  pdDidDocument :: string
  pdNetworkId :: "string option"
  pdPreviousDidId :: "string option"

definition setOrgsPrimaryDid :: "IPrimaryDidDetails \<Rightarrow> (agent_db, unit) eff" where
  "setOrgsPrimaryDid p =
     transact
       (andThen
         (if truthy (pdPreviousDidId p)
          then bind (updateDid (orEmpty (pdPreviousDidId p)) (\<lambda>d. d\<lparr>odIsPrimaryDid := False\<rparr>)) (\<lambda>_. ret ())
          else ret ())
       (andThen (updateDid (pdId p) (\<lambda>d. d\<lparr>odIsPrimaryDid := True\<rparr>))
       (andThen (updateAgent (\<lambda>a. oaOrgId a = Some (pdOrgId p))
                  (\<lambda>a. a\<lparr>oaOrgDid := Some (pdDid p), oaDidDocument := Some (pdDidDocument p),
                         oaLedgerId := pdNetworkId p\<rparr>))
       (ret ()))))"

end
