(* ===== verification/Agent_Service.thy ===== *)
theory Agent_Service
  imports Agent_Store
begin

text \<open>
  The handlers of the agent service (\<open>apps/agent-service/src/agent-service.service.ts\<close>) that change the tables
  of \<open>Agent_Store\<close>, the invitation the connection service stores for them
  (\<open>apps/connection/src/connection.service.ts\<close>) and \<open>setPrimaryDid\<close> of the organisation service
  (\<open>apps/organization/src/organization.service.ts\<close>).

  The wallet agents, the other services behind NATS, the cipher and the JWT decoder are the functions of
  \<open>agent_env\<close>. \<open>provisionWallet\<close> starts \<open>_agentSpinup\<close> without waiting for it: the job is put into \<open>adSpinUps\<close>, and
  running it is a step of its own. The payload of the \<open>RpcException\<close> of a handler is the response of the exception it
  caught (\<open>rpcResponse\<close>). Socket events and log lines are left out, and so is the reason printed into the
  message \<open>Failed to get API key\<close>.
\<close>

section \<open>Definitions\<close>

subsection \<open>Namespaces of DIDs\<close>

text \<open>\<open>segments[n]\<close> inside a template literal: a missing element prints as \<open>undefined\<close>.\<close>

definition segment :: "string list \<Rightarrow> nat \<Rightarrow> string" where
  "segment segs n = (if n < length segs then segs ! n else ''undefined'')"

definition networkNamespace :: "string \<Rightarrow> string option" where
  "networkNamespace did =
     (let segments = splitOn CHR '':'' did;
          has = (\<lambda>w. list_ex (\<lambda>s. includesText s w) segments)
      in if has ''polygon'' \<or> has ''ethr''
         then Some (if has ''testnet'' \<or> has ''sepolia'' then segment segments 1 @ '':'' @ segment segments 2
                    else segment segments 1 @ '':mainnet'')
         else if 1 < length segments then Some (segments ! 1) else None)"

definition didLedgerNamespace :: "string option \<Rightarrow> string option" where
  "didLedgerNamespace did =
     (case did of None \<Rightarrow> None
      | Some d \<Rightarrow>
          (let segments = splitOn CHR '':'' d
           in if segments ! 0 \<noteq> ''did'' \<or> length segments < 3 then None
              else if segments ! 1 = ''polygon'' \<or> segments ! 1 = ''ethr'' then networkNamespace d
              else if segments ! 1 = ''indy''
              then (if 5 \<le> length segments then Some (segments ! 2 @ '':'' @ segments ! 3) else None)
              else None))"

definition endsWith :: "string \<Rightarrow> string \<Rightarrow> bool" where
  "endsWith s p \<longleftrightarrow> startsWith (rev s) (rev p)"

definition isMainnet :: "string \<Rightarrow> bool" where
  "isMainnet namespace = endsWith namespace '':mainnet''"

definition upperFirst :: "string \<Rightarrow> string" where
  "upperFirst s =
     (case s of [] \<Rightarrow> []
      | c # cs \<Rightarrow> (let n = (of_char c :: nat) in (if 97 \<le> n \<and> n \<le> 122 then char_of (n - 32) else c) # cs))"

definition ledgerName :: "string option \<Rightarrow> error + string" where
  "ledgerName value =
     (case value of None \<Rightarrow> Inl undefinedRead
      | Some v \<Rightarrow>
          (let network = upperFirst (takeWhile (\<lambda>c. c \<noteq> CHR '':'') v @
                           (case dropWhile (\<lambda>c. c \<noteq> CHR '':'') v of [] \<Rightarrow> [] | _ # rest \<Rightarrow> CHR '' '' # rest));
               words = splitOn CHR '' '' network
           in if length words < 2 then Inl undefinedRead
              else Inr (words ! 0 @ '' '' @ upperFirst (words ! 1))))"

subsection \<open>What a handler meets\<close>

record tenant_wallet =
  twId :: "string option"
  twToken :: "string option"

record did_payload =
  dpKeyType :: string
  dpSeed :: string
  dpDomain :: "string option"
  dpNetwork :: "string option"
  dpPrivatekey :: "string option"
  dpEndpoint :: "string option"
  dpMethod :: string
  dpDid :: "string option"
  dpRole :: "string option"
  dpEndorserDid :: "string option"

text \<open>The agent's answer to \<open>/dids/write\<close>: \<open>drKeys\<close> is the number of its keys, \<open>drState\<close> its \<open>didState\<close>.\<close>

record did_response =
  drKeys :: nat
  drDid :: "string option"
  drDidDocument :: "string option"
  drDidDoc :: "string option"
  drState :: "(string option \<times> string option) option"

datatype probe = Answered bool | Failed "nat option"

record connection_payload =
  cpMultiUse :: bool
  cpAutoAccept :: bool
  cpImageUrl :: "string option"
  cpLabel :: "string option"

record connection_reply =
  crInvitationUrl :: "string option"
  crRecordId :: "string option"

record agent_env =
  gUuid :: "nat \<Rightarrow> string"
  gSecret :: bool
  gEncrypt :: "string \<Rightarrow> string"
  gDataEncryption :: "string \<Rightarrow> error + string"
  gDecryptPassword :: "string option \<Rightarrow> error + string"
  gUrlProtocol :: "string \<Rightarrow> string option"
  gCreateTenant :: "string option \<Rightarrow> string \<Rightarrow> string \<Rightarrow> error + tenant_wallet option"
  gTenantWalletToken :: "string \<Rightarrow> string \<Rightarrow> string \<Rightarrow> error + string option"
  gWriteDid :: "string \<Rightarrow> (string \<times> string) list \<Rightarrow> string \<Rightarrow> error + did_response option"
  gHttpGet :: "string \<Rightarrow> error + string option"
  gAgentInvitation :: "string \<Rightarrow> connection_payload \<Rightarrow> string \<Rightarrow> error + connection_reply"
  gStoreUrl :: "string option \<Rightarrow> error + string"
  gArchiveSchemas :: "string \<Rightarrow> error + unit"
  gHttpDelete :: "string \<Rightarrow> string \<Rightarrow> error + nat"
  gDeletedActivity :: "string \<Rightarrow> nat \<Rightarrow> error + unit"
  gTokenRole :: "string \<Rightarrow> string option"
  gProbe :: "string \<Rightarrow> string \<Rightarrow> probe"
  gAgentHealth :: "string \<Rightarrow> string \<Rightarrow> error + bool"
  gAllLedgers :: "error + string list option"
  gWalletProvision :: "IWalletProvision \<Rightarrow> error + string option"
  gBaseAgentToken :: "string \<Rightarrow> error + string option"
  gGatewayProtocol :: string

subsection \<open>Tokens\<close>

definition tokenEncryption :: "agent_env \<Rightarrow> string \<Rightarrow> error + string" where
  "tokenEncryption env token =
     (if gSecret env then Inr (gEncrypt env token)
      else Inl (InternalServerErrorException ''Encryption key is not configured''))"

definition getTenantToken ::
    "agent_env \<Rightarrow> string option \<Rightarrow> string \<Rightarrow> string option \<Rightarrow> string option \<Rightarrow> (agent_db, org_agents) eff" where
  "getTenantToken env agentEndPoint apiKey tenantId orgId =
     (if \<not> truthy agentEndPoint \<or> apiKey = [] \<or> \<not> truthy tenantId \<or> \<not> truthy orgId
      then throw (BadRequestException ''invalidTenantDetails'')
      else bind (lift (gTenantWalletToken env (orEmpty agentEndPoint) apiKey (orEmpty tenantId))) (\<lambda>tenantWalletToken.
           if \<not> truthy tenantWalletToken then throw (NotFoundException ''tenantWalletToken'')
           else bind (lift (tokenEncryption env (orEmpty tenantWalletToken))) (\<lambda>encrypted.
                updateTenantToken (orEmpty orgId) encrypted)))"

definition getOrgAgentApiKey :: "agent_env \<Rightarrow> string \<Rightarrow> (agent_db, string) eff" where
  "getOrgAgentApiKey env orgId =
     bind (reads (getAgentApiKey orgId)) (\<lambda>orgAgentDetails.
     bind (getOrgAgentTypeDetails ''SHARED'') (\<lambda>orgAgentId.
     bind
       (case orgAgentDetails of
          None \<Rightarrow> throw (NotFoundException ''apiKeyNotExist'')
        | Some a \<Rightarrow>
            (if oaOrgAgentTypeId a = Some orgAgentId \<and> (oaApiKey a = Some [] \<or> oaApiKey a = None)
             then bind platformAdminAgent (\<lambda>admins.
                  let admin = (case admins of [] \<Rightarrow> None | b # _ \<Rightarrow> Some b)
                  in bind (lift (gDecryptPassword env (Option.bind admin oaApiKey))) (\<lambda>adminKey.
                     bind (getTenantToken env (Option.bind admin oaEndPoint) adminKey (oaTenantId a) (oaOrgId a)) (\<lambda>row.
                     if truthy (oaApiKey row) then ret (oaApiKey row)
                     else throw (NotFoundException ''tenantWalletToken''))))
             else if truthy (oaApiKey a) then ret (oaApiKey a)
             else throw (NotFoundException ''apiKeyNotExist'')))
       (\<lambda>agentApiKey. lift (gDecryptPassword env agentApiKey))))"

definition assertTokenRole :: "agent_env \<Rightarrow> string \<Rightarrow> string \<Rightarrow> error option" where
  "assertTokenRole env agentToken expectedRole =
     (if \<not> truthy (gTokenRole env agentToken) then Some (BadRequestException ''agentTokenNoRole'')
      else if gTokenRole env agentToken \<noteq> Some expectedRole
      then Some (BadRequestException (''agentTokenRoleMismatch: expected '' @ expectedRole))
      else None)"

definition assertTokenAcceptedByAgent :: "agent_env \<Rightarrow> string \<Rightarrow> string \<Rightarrow> error option" where
  "assertTokenAcceptedByAgent env agentEndPoint agentToken =
     (case gProbe env (agentEndPoint @ ''/agent'') agentToken of
        Answered isInitialized \<Rightarrow>
          (if isInitialized then None else Some (BadRequestException ''agentTokenRejected''))
      | Failed status \<Rightarrow>
          (if status = Some 401 \<or> status = Some 403 then Some (BadRequestException ''agentTokenRejected'')
           else Some (ServiceUnavailableException ''agentDown'')))"

definition assertEndpointTrusted :: "agent_env \<Rightarrow> string option \<Rightarrow> error option" where
  "assertEndpointTrusted env agentEndPoint =
     (if \<not> truthy agentEndPoint then Some (NotFoundException ''agentUrl'')
      else case gUrlProtocol env (orEmpty agentEndPoint) of
             None \<Rightarrow> Some (BadRequestException ''malformedAgentEndpoint'')
           | Some protocol \<Rightarrow>
               (if protocol \<noteq> ''https:'' then Some (BadRequestException ''insecureAgentEndpoint'') else None))"

definition check :: "error option \<Rightarrow> ('s, unit) eff" where
  "check e = (case e of None \<Rightarrow> ret () | Some x \<Rightarrow> throw x)"

record token_target =
  ttEndPoint :: "string option"
  ttTypeId :: "string option"
  ttRole :: string
  ttEncrypted :: string

text \<open>
  \<open>setDedicatedAgentToken\<close> in its two halves: the checks, with the probe of the agent, and the write. Another call
  can run between them, since the probe is awaited.
\<close>

definition verifyDedicatedToken ::
    "agent_env \<Rightarrow> string \<Rightarrow> string \<Rightarrow> string option \<Rightarrow> (agent_db, token_target) eff" where
  "verifyDedicatedToken env targetOrgId agentToken agentEndPoint =
     bind (reads (getAgentApiKey targetOrgId)) (\<lambda>orgAgentDetails.
     bind (getOrgAgentTypeDetails ''DEDICATED'') (\<lambda>dedicatedAgentTypeId.
     bind (reads (getOrgDetails targetOrgId)) (\<lambda>organizationDetails.
     case orgAgentDetails of
       None \<Rightarrow> throw (NotFoundException ''agentNotExists'')
     | Some a \<Rightarrow>
         (if oaOrgAgentTypeId a \<noteq> Some dedicatedAgentTypeId then throw (BadRequestException ''notDedicatedAgent'')
          else if oaEndPoint a \<noteq> agentEndPoint then throw (BadRequestException ''agentEndpointMismatch'')
          else andThen (check (assertEndpointTrusted env (oaEndPoint a)))
               (let expectedRole = (if Option.bind organizationDetails woName = Some ''Platform-admin''
                                    then ''RestRootAgentWithTenants'' else ''RestRootAgent'')
                in andThen (check (assertTokenRole env agentToken expectedRole))
                   (andThen (check (assertTokenAcceptedByAgent env (orEmpty (oaEndPoint a)) agentToken))
                   (bind (lift (tokenEncryption env agentToken)) (\<lambda>encryptedToken.
                    ret \<lparr>ttEndPoint = oaEndPoint a, ttTypeId = oaOrgAgentTypeId a, ttRole = expectedRole,
                         ttEncrypted = encryptedToken\<rparr>))))))))"

definition storeDedicatedToken :: "string \<Rightarrow> token_target \<Rightarrow> (agent_db, string) eff" where
  "storeDedicatedToken targetOrgId t =
     andThen (updateVerifiedTenantToken targetOrgId (ttEndPoint t) (ttTypeId t) (ttEncrypted t)) (ret (ttRole t))"

definition rpc :: "(agent_db, 'a) eff \<Rightarrow> (agent_db, 'a) eff" where
  "rpc m = tryCatch m (\<lambda>e. throw (rpcResponse e))"

definition setDedicatedAgentToken ::
    "agent_env \<Rightarrow> string \<Rightarrow> string \<Rightarrow> string option \<Rightarrow> (agent_db, string) eff" where
  "setDedicatedAgentToken env targetOrgId agentToken agentEndPoint =
     rpc (bind (verifyDedicatedToken env targetOrgId agentToken agentEndPoint) (storeDedicatedToken targetOrgId))"

subsection \<open>Connection invitation\<close>

definition createConnectionInvitation :: "agent_env \<Rightarrow> string \<Rightarrow> (agent_db, unit) eff" where
  "createConnectionInvitation env orgId =
     bind (reads (\<lambda>db. List.find (\<lambda>a. oaOrgId a = Some orgId) (adAgents db))) (\<lambda>agentDetails.
     bind (reads (\<lambda>db. List.find (\<lambda>r. woId r = orgId) (adOrgs db))) (\<lambda>organisation.
     case (agentDetails, organisation) of
       (Some a, Some r) \<Rightarrow>
         (if \<not> truthy (oaEndPoint a) then throw (NotFoundException ''invalidEndpoint'')
          else bind (lift (gAgentInvitation env (orEmpty (oaEndPoint a) @ ''/didcomm/oob/create-invitation'')
                 \<lparr>cpMultiUse = True, cpAutoAccept = True, cpImageUrl = orElse (woLogoUrl r) None,
                  cpLabel = woName r\<rparr> orgId)) (\<lambda>reply.
               bind (lift (gStoreUrl env (crInvitationUrl reply))) (\<lambda>shortenedUrl.
               andThen (saveAgentConnectionInvitations
                         \<lparr>aiId = gUuid env 1, aiOrgId = orgId, aiAgentId = oaId a, aiConnectionInvitation = shortenedUrl\<rparr>)
                       (if crRecordId reply = None then throw undefinedRead else ret ()))))
     | _ \<Rightarrow> throw undefinedRead))"

definition create_connection_invitation :: "agent_env \<Rightarrow> string \<Rightarrow> (agent_db, unit) eff" where
  "create_connection_invitation env orgId = rpc (rpc (createConnectionInvitation env orgId))"

subsection \<open>Tenants of the shared agent\<close>

definition firstAdmin :: "org_agents list \<Rightarrow> ('s, org_agents) eff" where
  "firstAdmin admins = (case admins of [] \<Rightarrow> throw undefinedRead | a # _ \<Rightarrow> ret a)"

definition createTenantAndNotify :: "agent_env \<Rightarrow> string \<Rightarrow> org_agents list \<Rightarrow> (agent_db, tenant_wallet) eff" where
  "createTenantAndNotify env label admins =
     bind (firstAdmin admins) (\<lambda>admin.
     bind (lift (gDecryptPassword env (oaApiKey admin))) (\<lambda>token.
     bind (lift (gCreateTenant env (oaEndPoint admin) token label)) (\<lambda>wallet.
     case wallet of
       None \<Rightarrow> throw (InternalServerErrorException ''Error while creating the wallet'')
     | Some w \<Rightarrow>
         (if \<not> truthy (twId w) \<or> \<not> truthy (twToken w)
          then throw (InternalServerErrorException ''Error while creating the wallet'')
          else ret w))))"

definition tenantFlow :: "agent_env \<Rightarrow> string \<Rightarrow> string \<Rightarrow> string \<Rightarrow> (agent_db, org_agents) eff" where
  "tenantFlow env label orgId agentProcess =
     bind platformAdminAgent (\<lambda>admins.
     bind (createTenantAndNotify env label admins) (\<lambda>wallet.
     bind (firstAdmin admins) (\<lambda>admin.
     if oaSpinUpStatus admin \<noteq> Some DID_CREATED then throw (NotFoundException ''platformAdminNotAbleToSpinp'')
     else bind (getOrgAgentTypeDetails ''SHARED'') (\<lambda>orgAgentTypeId.
          bind (getAgentTypeId ''AFJ'') (\<lambda>agentTypeId.
          bind (lift (gDataEncryption env (orEmpty (twToken wallet)))) (\<lambda>apiKey.
          bind (reads (getOrgDetails orgId)) (\<lambda>getOrganization.
          bind (storeOrgAgentDetails (gUuid env 0)
                 \<lparr>ssId = Some agentProcess, ssOrgId = orgId, ssDid = None, ssAgentSpinUpStatus = WALLET_CREATED,
                  ssWalletName = Some label, ssAgentsTypeId = Some agentTypeId, ssAgentEndPoint = oaEndPoint admin,
                  ssOrgAgentTypeId = Some orgAgentTypeId, ssTenantId = twId wallet, ssApiKey = Some apiKey,
                  ssLedgerId = None, ssUserId = None\<rparr>) (\<lambda>orgAgentDetails.
          andThen (if getOrganization = None then throw undefinedRead else ret ())
          (andThen (create_connection_invitation env orgId)
          (ret orgAgentDetails))))))))))"

text \<open>When the clean-up fails too, its exception is logged and the first one is thrown.\<close>

definition createTenantSteps :: "agent_env \<Rightarrow> string \<Rightarrow> string \<Rightarrow> string option \<Rightarrow> (agent_db, org_agents) eff" where
  "createTenantSteps env label orgId userId =
     bind (createOrgAgent (gUuid env 0) WALLET_CREATED userId orgId) (\<lambda>agentProcess.
     tryCatch (tenantFlow env label orgId agentProcess)
       (\<lambda>e. andThen (if agentProcess \<noteq> []
                     then tryCatch (deleteOrgAgentById agentProcess) (\<lambda>_. ret ())
                     else ret ())
                    (throw e)))"

definition createTenant :: "agent_env \<Rightarrow> string \<Rightarrow> string \<Rightarrow> string option \<Rightarrow> (agent_db, org_agents) eff" where
  "createTenant env label orgId userId =
     rpc (bind (reads (getAgentDetails orgId)) (\<lambda>getOrgAgent.
          if getOrgAgent = Some (Some WALLET_CREATED) then throw (ConflictException ''walletAlreadyCreated'')
          else createTenantSteps env label orgId userId))"

subsection \<open>Dedicated agents\<close>

definition orPlain :: "string \<Rightarrow> (agent_db, 'a) eff \<Rightarrow> (agent_db, 'a) eff" where
  "orPlain m c = tryCatch c (\<lambda>_. throw (PlainError m))"

text \<open>\<open>Promise.allSettled\<close> runs the three lookups; the first one that was rejected decides the error.\<close>

definition agentConfigure ::
    "agent_env \<Rightarrow> string option \<Rightarrow> string \<Rightarrow> string \<Rightarrow> string \<Rightarrow> string \<Rightarrow> string \<Rightarrow> (agent_db, org_agents) eff" where
  "agentConfigure env agentEndpoint apiKey did walletName orgId userId =
     rpc (bind (reads (getAgentDetails orgId)) (\<lambda>orgExist.
          if orgExist \<noteq> None then throw (ConflictException ''alreadySpinUp'')
          else if \<not> truthy agentEndpoint then throw (BadRequestException ''agentEndpointRequired'')
          else bind (lift (gAgentHealth env (orEmpty agentEndpoint @ ''/agent'') apiKey)) (\<lambda>isInitialized.
               if \<not> isInitialized then throw (BadRequestException ''agentSpinupError'')
               else bind (orPlain ''failedAgentType'' getAgentTypeDetails) (\<lambda>agentsTypeId.
                    bind (orPlain ''failedApiKey'' (lift (tokenEncryption env apiKey))) (\<lambda>encryptedToken.
                    bind (orPlain ''failedOrganization'' (getOrgAgentTypeDetails ''DEDICATED'')) (\<lambda>orgAgentTypeId.
                    bind (reads (getOrgDetails orgId)) (\<lambda>getOrganization.
                    bind (storeOrgAgentDetails (gUuid env 0)
                           \<lparr>ssId = None, ssOrgId = orgId, ssDid = Some did, ssAgentSpinUpStatus = DID_CREATED,
                            ssWalletName = Some walletName, ssAgentsTypeId = Some agentsTypeId,
                            ssAgentEndPoint = agentEndpoint, ssOrgAgentTypeId = Some orgAgentTypeId, ssTenantId = None,
                            ssApiKey = Some encryptedToken, ssLedgerId = None, ssUserId = Some userId\<rparr>) (\<lambda>storeAgentConfig.
                    andThen (if getOrganization = None then throw undefinedRead else ret ())
                    (andThen (create_connection_invitation env orgId)
                    (ret storeAgentConfig))))))))))"

record IAgentSpinupDto =
  adtWalletName :: string
  adtWalletPassword :: string
  adtSeed :: string
  adtOrgId :: "string option"
  adtOrgName :: "string option"
  adtLedgerId :: "string list option"
  adtLedgerName :: "string list option"
  adtMethod :: string
  adtNetwork :: "string option"
  adtAgentType :: "string option"
  adtTenant :: bool
  adtPlatformAdminEmail :: "string option"

definition validatePlatformConfig :: "platform_config option \<Rightarrow> error option" where
  "validatePlatformConfig platformConfig =
     (case platformConfig of
        None \<Rightarrow> Some (BadRequestException ''platformConfiguration'')
      | Some c \<Rightarrow>
          (if pcApiEndpoint c = [] then Some (BadRequestException ''apiEndpoint'')
           else if pcExternalIp c = [] then Some (BadRequestException ''externalIp'')
           else None))"

definition prepareWalletProvisionPayload ::
    "IAgentSpinupDto \<Rightarrow> platform_config \<Rightarrow> ledgers list \<Rightarrow> wallet_org option \<Rightarrow> error + IWalletProvision" where
  "prepareWalletProvisionPayload dto c ledgerDetails orgData =
     (case orgData of
        None \<Rightarrow> Inl undefinedRead
      | Some r \<Rightarrow>
          (case woName r of
             None \<Rightarrow> Inl undefinedRead
           | Some name \<Rightarrow>
               Inr \<lparr>wpOrgId = woId r, wpExternalIp = pcExternalIp c, wpWalletName = adtWalletName dto,
                    wpWalletPassword = adtWalletPassword dto, wpSeed = adtSeed dto,
                    wpWebhookEndpoint = pcApiEndpoint c,
                    wpInboundEndpoint = (if pcInboundEndpoint c \<noteq> Some ''false'' then pcInboundEndpoint c else Some []),
                    wpContainerName = map (\<lambda>ch. if ch = CHR '' '' then CHR ''_'' else ch) name, wpOrgName = name,
                    wpIndyLedger = map (\<lambda>l. (ldPoolConfig l, ldIndyNamespace l)) ledgerDetails,
                    wpTenant = adtTenant dto\<rparr>))"

text \<open>
  \<open>userId\<close> is \<open>user?.userId\<close> and \<open>userRowId\<close> is \<open>user?.id\<close>. Nothing can fail between \<open>createOrgAgent\<close> and the end of the call, so
  \<open>handleErrorOnWalletProvision\<close> never has a row to remove.
\<close>

definition provisionWallet ::
    "agent_env \<Rightarrow> IAgentSpinupDto \<Rightarrow> string option \<Rightarrow> string option \<Rightarrow> (agent_db, unit) eff" where
  "provisionWallet env dto userId userRowId =
     bind (reads adPlatformConfig) (\<lambda>platformConfig.
     bind getAgentTypeDetails (\<lambda>getAgentType.
     bind (reads (getLedgerDetails (case adtLedgerName dto of None \<Rightarrow> [''Indicio Demonet''] | Some n \<Rightarrow> n))) (\<lambda>ledgerIdData.
     bind (reads (\<lambda>db. if \<not> truthy userId \<and> truthy (adtPlatformAdminEmail dto)
                       then getPlatfomAdminUser (orEmpty (adtPlatformAdminEmail dto)) db else userRowId)) (\<lambda>creator.
     bind (getPlatfomOrg (adtOrgName dto)) (\<lambda>platformOrg.
     let orgId = (if truthy (adtOrgId dto) then orEmpty (adtOrgId dto) else platformOrg)
     in bind (reads (getAgentDetails orgId)) (\<lambda>getOrgAgent.
        bind (reads (getOrgDetails orgId)) (\<lambda>orgData.
        bind (reads (getGenesisUrl (case adtLedgerId dto of None \<Rightarrow> ledgerIdData | Some [] \<Rightarrow> ledgerIdData | Some ids \<Rightarrow> ids)))
          (\<lambda>ledgerDetails.
        if getOrgAgent = Some (Some WALLET_CREATED) \<or> getOrgAgent = Some (Some DID_CREATED)
        then throw (BadRequestException ''walletAlreadyCreated'')
        else andThen (check (validatePlatformConfig platformConfig))
             (bind (lift (case platformConfig of None \<Rightarrow> Inl undefinedRead
                          | Some c \<Rightarrow> prepareWalletProvisionPayload dto c ledgerDetails orgData)) (\<lambda>payload.
              bind (createOrgAgent (gUuid env 0) WALLET_CREATED creator orgId) (\<lambda>agentProcess.
              writes (\<lambda>db. db\<lparr>adSpinUps := adSpinUps db @
                [\<lparr>suAgentId = agentProcess, suOrgId = orgId, suPayload = payload, suMethod = adtMethod dto,
                  suNetwork = adtNetwork dto,
                  suAgentType = (if truthy (adtAgentType dto) then adtAgentType dto else Some getAgentType),
                  suWalletName = adtWalletName dto\<rparr>]\<rparr>))))))))))))"

definition walletProvision ::
    "agent_env \<Rightarrow> IAgentSpinupDto \<Rightarrow> string option \<Rightarrow> string option \<Rightarrow> (agent_db, AgentSpinUpStatus) eff" where
  "walletProvision env dto userId userRowId =
     rpc (andThen (provisionWallet env dto userId userRowId) (ret DID_CREATED))"

definition buildStoreOrgAgentData ::
    "spin_up \<Rightarrow> string \<Rightarrow> string \<Rightarrow> string list option \<Rightarrow> string \<Rightarrow> IStoreOrgAgentDetails" where
  "buildStoreOrgAgentData job agentEndPoint apiKey ledgerId orgAgentTypeId =
     \<lparr>ssId = Some (suAgentId job), ssOrgId = suOrgId job, ssDid = Some [], ssAgentSpinUpStatus = DID_CREATED,
      ssWalletName = Some (suWalletName job), ssAgentsTypeId = suAgentType job, ssAgentEndPoint = Some agentEndPoint,
      ssOrgAgentTypeId = Some orgAgentTypeId, ssTenantId = None, ssApiKey = Some apiKey, ssLedgerId = ledgerId,
      ssUserId = None\<rparr>"

definition storeSpunUpAgent ::
    "agent_env \<Rightarrow> spin_up \<Rightarrow> string \<Rightarrow> string \<Rightarrow> string list option \<Rightarrow> (agent_db, org_agents) eff" where
  "storeSpunUpAgent env job agentEndPoint apiKey ledgerId =
     tryCatch
       (bind (getOrgAgentTypeDetails ''DEDICATED'') (\<lambda>orgAgentTypeId.
        storeOrgAgentDetails (gUuid env 0) (buildStoreOrgAgentData job agentEndPoint apiKey ledgerId orgAgentTypeId)))
       (\<lambda>e. andThen (tryCatch (removeOrgAgent (suAgentId job)) (\<lambda>_. ret ())) (throw e))"

definition spinUpLedgers :: "agent_env \<Rightarrow> spin_up \<Rightarrow> (agent_db, string list option) eff" where
  "spinUpLedgers env job =
     (if suMethod job \<noteq> ''key'' \<and> suMethod job \<noteq> ''web''
      then bind (lift (ledgerName (suNetwork job))) (\<lambda>ledger.
           bind (lift (gAllLedgers env)) (\<lambda>ledgerList.
           if ledgerList = None \<or> ledger \<notin> set (the ledgerList) then throw (BadRequestException ''invalidLedger'')
           else bind (reads (getLedgerDetails [ledger])) (\<lambda>ids. ret (Some ids))))
      else ret None)"

definition agentSpinup :: "agent_env \<Rightarrow> spin_up \<Rightarrow> (agent_db, unit) eff" where
  "agentSpinup env job =
     tryCatch
       (bind (spinUpLedgers env job) (\<lambda>ledgerIdData.
        bind (lift (gWalletProvision env (suPayload job))) (\<lambda>agentDetails.
        case agentDetails of
          None \<Rightarrow> throw (BadRequestException ''notAbleToSpinup'')
        | Some endPoint \<Rightarrow>
            bind (lift (gBaseAgentToken env endPoint)) (\<lambda>agentBaseWalletToken.
            if \<not> truthy agentBaseWalletToken then throw (BadRequestException ''baseWalletToken'')
            else bind (lift (tokenEncryption env (orEmpty agentBaseWalletToken))) (\<lambda>encryptedToken.
                 bind (storeSpunUpAgent env job (gGatewayProtocol env @ ''://'' @ endPoint) encryptedToken ledgerIdData)
                   (\<lambda>_. ret ()))))))
       (\<lambda>_. if suAgentId job \<noteq> [] then removeOrgAgent (suAgentId job) else ret ())"

subsection \<open>DIDs\<close>

text \<open>The entries of the request; those that are \<open>undefined\<close>, \<open>null\<close> or empty are not sent.\<close>

definition cleanPayload :: "did_payload \<Rightarrow> (string \<times> string) list" where
  "cleanPayload p =
     [(k, orEmpty v). (k, v) \<leftarrow>
        [(''keyType'', Some (dpKeyType p)), (''seed'', Some (dpSeed p)), (''domain'', dpDomain p),
         (''network'', dpNetwork p), (''privatekey'', dpPrivatekey p), (''endpoint'', dpEndpoint p),
         (''method'', Some (dpMethod p)), (''did'', dpDid p), (''role'', dpRole p), (''endorserDid'', dpEndorserDid p)],
        truthy v]"

definition getDidDetails :: "agent_env \<Rightarrow> string \<Rightarrow> did_payload \<Rightarrow> string \<Rightarrow> (agent_db, did_response) eff" where
  "getDidDetails env url payload apiKey =
     bind (lift (gWriteDid env url (cleanPayload payload) apiKey)) (\<lambda>didDetails.
     case didDetails of
       None \<Rightarrow> throw (InternalServerErrorException ''createDid'')
     | Some d \<Rightarrow> (if drKeys d = 0 then throw (InternalServerErrorException ''createDid'') else ret d))"

definition printed :: "string option \<Rightarrow> string" where
  "printed x = (case x of None \<Rightarrow> ''null'' | Some s \<Rightarrow> s)"

definition constructUrl :: "org_agents option \<Rightarrow> error + string" where
  "constructUrl agentDetails =
     (case agentDetails of None \<Rightarrow> Inl undefinedRead | Some a \<Rightarrow> Inr (printed (oaEndPoint a) @ ''/dids/write''))"

definition verifyWebDidHosting ::
    "agent_env \<Rightarrow> string option \<Rightarrow> did_payload \<Rightarrow> string \<Rightarrow> (agent_db, unit) eff" where
  "verifyWebDidHosting env agentEndPoint payload apiKey =
     (let resolutionUrl = ''https://'' @ (case dpDomain payload of None \<Rightarrow> ''undefined'' | Some d \<Rightarrow> d) @ ''/.well-known/did.json''
      in bind (tryCatch (lift (gHttpGet env resolutionUrl))
                (\<lambda>_. throw (BadRequestException (''DID Document not reachable at '' @ resolutionUrl)))) (\<lambda>hostedDoc.
         if hostedDoc = None then throw (BadRequestException (''No DID Document found at '' @ resolutionUrl))
         else bind (getDidDetails env (printed agentEndPoint @ ''/dids/write'') payload apiKey) (\<lambda>expectedDetails.
              if drDidDocument expectedDetails \<noteq> hostedDoc then throw (BadRequestException ''webDidDocumentMismatch'')
              else ret ())))"

text \<open>The network check of \<open>createDid\<close>; it returns the ledger of the network, if one was given.\<close>

definition networkMismatch :: "org_agents \<Rightarrow> did_payload \<Rightarrow> ledgers \<Rightarrow> bool" where
  "networkMismatch a p l =
     (let network = orEmpty (dpNetwork p);
          primaryNamespace = didLedgerNamespace (oaOrgDid a);
          segments = splitOn CHR '':'' (orEmpty (oaOrgDid a))
      in if truthy primaryNamespace \<and> segments ! 1 = dpMethod p then orEmpty primaryNamespace \<noteq> network
         else if truthy primaryNamespace then isMainnet (orEmpty primaryNamespace) \<noteq> isMainnet network
         else oaLedgerId a \<noteq> None \<and> oaLedgerId a \<noteq> Some (ldId l))"

definition checkNetwork :: "org_agents option \<Rightarrow> did_payload \<Rightarrow> (agent_db, string option) eff" where
  "checkNetwork agentDetails p =
     (if \<not> truthy (dpNetwork p) then ret None
      else bind (getLedgerByNameSpace (dpNetwork p)) (\<lambda>getNameSpace.
           case (getNameSpace, agentDetails) of
             (Some l, Some a) \<Rightarrow>
               (if dpMethod p \<noteq> ''ethr'' \<and> networkMismatch a p l then throw (BadRequestException ''networkMismatch'')
                else ret (Some (ldId l)))
           | _ \<Rightarrow> throw undefinedRead))"

definition orNone :: "string option \<Rightarrow> string option \<Rightarrow> string option" where
  "orNone x y = (case x of None \<Rightarrow> y | Some s \<Rightarrow> Some s)"

definition responseDid :: "did_response \<Rightarrow> string option" where
  "responseDid r = orNone (drDid r) (Option.bind (drState r) fst)"

definition responseDocument :: "did_response \<Rightarrow> string option" where
  "responseDocument r = orNone (drDidDocument r) (orNone (drDidDoc r) (Option.bind (drState r) snd))"

definition primaryLedger :: "did_payload \<Rightarrow> string \<Rightarrow> string option \<Rightarrow> (agent_db, string option) eff" where
  "primaryLedger p did networkLedgerId =
     (if truthy (dpNetwork p) then ret networkLedgerId
      else if dpMethod p = ''ethr''
      then tryCatch
             (bind (getLedgerByNameSpace (networkNamespace did)) (\<lambda>ethrLedger.
              case ethrLedger of None \<Rightarrow> throw undefinedRead | Some l \<Rightarrow> ret (Some (ldId l))))
             (\<lambda>_. bind (getLedger ''NA'') (\<lambda>l. ret (Some (ldId l))))
      else bind (getLedger ''NA'') (\<lambda>l. ret (Some (ldId l))))"

definition writeDid ::
    "agent_env \<Rightarrow> did_payload \<Rightarrow> bool option \<Rightarrow> string \<Rightarrow> org_agents \<Rightarrow> string option \<Rightarrow> string \<Rightarrow> string \<Rightarrow> (agent_db, org_dids) eff" where
  "writeDid env createDidPayload isPrimaryDid orgId agent networkLedgerId getApiKey url =
     (let payload = (if dpMethod createDidPayload = ''polygon'' \<or> dpMethod createDidPayload = ''ethr''
                     then createDidPayload\<lparr>dpEndpoint := oaEndPoint agent\<rparr> else createDidPayload)
      in andThen (if dpMethod payload = ''web'' then verifyWebDidHosting env (oaEndPoint agent) payload getApiKey
                  else ret ())
         (bind (getDidDetails env url payload getApiKey) (\<lambda>didDetails.
          if \<not> truthy (responseDid didDetails) then throw (InternalServerErrorException ''createDid'')
          else let did = orEmpty (responseDid didDetails)
               in bind (reads (getOrgDid orgId)) (\<lambda>getDidByOrg.
                  bind (if isPrimaryDid = Some True then primaryLedger payload did networkLedgerId else ret None)
                    (\<lambda>ledgerId.
                  persistDidWithUpdates (gUuid env 0)
                    \<lparr>sdOrgId = orgId, sdDid = did, sdDidDocument = responseDocument didDetails,
                     sdIsPrimaryDid = isPrimaryDid, sdOrgAgentId = oaId agent\<rparr>
                    (List.find (\<lambda>d. odDid d = did) getDidByOrg) ledgerId
                    (oaSpinUpStatus agent = Some WALLET_CREATED))))))"

definition createDid ::
    "agent_env \<Rightarrow> did_payload \<Rightarrow> bool option \<Rightarrow> string \<Rightarrow> (agent_db, org_dids) eff" where
  "createDid env createDidPayload isPrimaryDid orgId =
     rpc (bind (reads (getOrgAgentDetails orgId)) (\<lambda>agentDetails.
          bind (checkNetwork agentDetails createDidPayload) (\<lambda>networkLedgerId.
          bind (getOrgAgentApiKey env orgId) (\<lambda>getApiKey.
          bind (lift (constructUrl agentDetails)) (\<lambda>url.
          case agentDetails of
            None \<Rightarrow> throw undefinedRead
          | Some agent \<Rightarrow> writeDid env createDidPayload isPrimaryDid orgId agent networkLedgerId getApiKey url)))))"

definition generateWebDid ::
    "agent_env \<Rightarrow> did_payload \<Rightarrow> string \<Rightarrow> (agent_db, string option \<times> string option) eff" where
  "generateWebDid env createDidPayload orgId =
     rpc (bind (reads (getOrgAgentDetails orgId)) (\<lambda>agentDetails.
          bind (reads (getOrgDid orgId)) (\<lambda>existingDids.
          if list_ex (\<lambda>d. odDid d = ''did:web:'' @ (case dpDomain createDidPayload of None \<Rightarrow> ''undefined'' | Some x \<Rightarrow> x)) existingDids
          then throw (BadRequestException ''webDidDomainAlreadyExists'')
          else bind (getOrgAgentApiKey env orgId) (\<lambda>getApiKey.
               bind (lift (constructUrl agentDetails)) (\<lambda>url.
               bind (getDidDetails env url createDidPayload getApiKey) (\<lambda>didDetails.
               ret (drDid didDetails, drDidDocument didDetails)))))))"

text \<open>\<open>setPrimaryDid\<close> of the organisation service.\<close>

definition ensureOrganizationExists :: "string \<Rightarrow> (agent_db, unit) eff" where
  "ensureOrganizationExists orgId =
     bind (reads (getOrgProfile orgId)) (\<lambda>organizationExist.
     if organizationExist = None then throw (NotFoundException ''notFound'') else ret ())"

definition ensureNotExistingPrimaryDid :: "string \<Rightarrow> string \<Rightarrow> (agent_db, unit) eff" where
  "ensureNotExistingPrimaryDid orgId did =
     bind (getAgentEndPoint orgId) (\<lambda>orgAgentDetails.
     if oaOrgDid orgAgentDetails = Some did then throw (ConflictException ''primaryDid'') else ret ())"

definition ensureDidBelongsToOrg :: "string \<Rightarrow> string \<Rightarrow> (agent_db, unit) eff" where
  "ensureDidBelongsToOrg orgId did =
     bind (reads (getAllOrganizationDid orgId)) (\<lambda>organizationDidList.
     if \<not> list_ex (\<lambda>d. odDid d = did) organizationDidList then throw (NotFoundException ''didNotFound'') else ret ())"

definition setPrimaryDid :: "string \<Rightarrow> string \<Rightarrow> string \<Rightarrow> (agent_db, unit) eff" where
  "setPrimaryDid orgId did rowId =
     rpc (andThen (ensureOrganizationExists orgId)
         (andThen (ensureNotExistingPrimaryDid orgId did)
         (andThen (ensureDidBelongsToOrg orgId did)
         (bind (getDidDetailsByDid orgId did) (\<lambda>didDetails.
          if odId didDetails \<noteq> rowId then throw (BadRequestException ''didIdMismatch'')
          else bind (reads (getDids orgId)) (\<lambda>dids.
               let noPrimaryDid = list_all (\<lambda>d. \<not> odIsPrimaryDid d) dids
               in bind (case didLedgerNamespace (Some did) of
                          Some nameSpace \<Rightarrow> getNetworkByNameSpace nameSpace
                        | None \<Rightarrow> getLedger ''NA'') (\<lambda>network.
                  bind (reads (\<lambda>db. if noPrimaryDid then None else getPerviousPrimaryDid orgId rowId db)) (\<lambda>existingPrimaryDid.
                  setOrgsPrimaryDid
                    \<lparr>pdDid = did, pdOrgId = orgId, pdId = rowId, pdDidDocument = odDidDocument didDetails,
                     pdNetworkId = Some (ldId network), pdPreviousDidId = map_option odId existingPrimaryDid\<rparr>))))))))"

subsection \<open>Deleting a wallet\<close>

text \<open>
  \<open>deleteOrgAgentByOrg\<close> opens a transaction of its own on the repository's client, so an exception inside the outer
  \<open>$transaction\<close> does not undo it. The key is that of the platform administrator for both types of agent.
\<close>

definition settled :: "(agent_db, 'a) eff \<Rightarrow> (agent_db, error + 'a) eff" where
  "settled m = tryCatch (bind m (\<lambda>x. ret (Inr x))) (\<lambda>e. ret (Inl e))"

definition deleteWalletTransaction :: "agent_env \<Rightarrow> string \<Rightarrow> string \<Rightarrow> string \<Rightarrow> (agent_db, unit) eff" where
  "deleteWalletTransaction env orgId url getApiKey =
     bind (deleteOrgAgentByOrg orgId) (\<lambda>(dids, invitations).
     bind (lift (gHttpDelete env url getApiKey)) (\<lambda>status.
     if status \<noteq> 204 \<and> status \<noteq> 404 then throw (InternalServerErrorException ''walletNotDeleted'')
     else forEach [(dids, ''org_dids''), (invitations, ''agent_invitations''), (1, ''org_agents'')]
            (\<lambda>(records, table). if records \<noteq> 0 then lift (gDeletedActivity env table records) else ret ())))"

definition deleteWallet :: "agent_env \<Rightarrow> string \<Rightarrow> (agent_db, unit) eff" where
  "deleteWallet env orgId =
     rpc (bind (settled (getOrgAgentApiKey env orgId)) (\<lambda>getApiKeyResult.
          bind (reads (getAgentApiKey orgId)) (\<lambda>orgAgentResult.
          case (orgAgentResult, getApiKeyResult) of
            (None, _) \<Rightarrow> throw (NotFoundException ''walletDoesNotExists'')
          | (_, Inl _) \<Rightarrow> throw (InternalServerErrorException ''Failed to get API key'')
          | (Some orgAgent, Inr _) \<Rightarrow>
              (if \<not> truthy (oaTenantId orgAgent) \<or> \<not> truthy (oaOrgAgentTypeId orgAgent)
               then bind (deleteOrgAgentByOrg (orEmpty (oaOrgId orgAgent))) (\<lambda>_. ret ())
               else bind (reads (getOrgAgentType (orEmpty (oaOrgAgentTypeId orgAgent)))) (\<lambda>orgAgentTypeResult.
                    if orgAgentTypeResult = None then throw (NotFoundException ''orgAgentNotFound'')
                    else bind platformAdminAgent (\<lambda>admins.
                         bind (firstAdmin admins) (\<lambda>admin.
                         bind (lift (gDecryptPassword env (oaApiKey admin))) (\<lambda>getApiKey.
                         let url = printed (oaEndPoint orgAgent) @
                               (if orgAgentTypeResult = Some ''SHARED'' then ''/multi-tenancy/'' @ orEmpty (oaTenantId orgAgent)
                                else ''/agent/wallet'')
                         in andThen (if truthy (oaOrgDid orgAgent)
                                     then lift (gArchiveSchemas env (orEmpty (oaOrgDid orgAgent))) else ret ())
                            (deleteWalletTransaction env orgId url getApiKey)))))))))"

subsection \<open>Calls and steps\<close>

datatype agent_call =
    CreateTenant string string "string option"
  | AgentConfigure "string option" string string string string string
  | WalletProvision IAgentSpinupDto "string option" "string option"
  | CreateDid did_payload "bool option" string
  | GenerateWebDid did_payload string
  | SetPrimaryDid string string string
  | SetDedicatedAgentToken string string "string option"
  | DeleteWallet string

definition quiet :: "(agent_db, 'a) eff \<Rightarrow> (agent_db, unit) eff" where
  "quiet m = bind m (\<lambda>_. ret ())"

fun agent_run :: "agent_env \<Rightarrow> agent_call \<Rightarrow> (agent_db, unit) eff" where
  "agent_run env (CreateTenant label orgId userId) = quiet (createTenant env label orgId userId)"
| "agent_run env (AgentConfigure ep key did wallet orgId userId) = quiet (agentConfigure env ep key did wallet orgId userId)"
| "agent_run env (WalletProvision dto userId userRowId) = quiet (walletProvision env dto userId userRowId)"
| "agent_run env (CreateDid p primary orgId) = quiet (createDid env p primary orgId)"
| "agent_run env (GenerateWebDid p orgId) = quiet (generateWebDid env p orgId)"
| "agent_run env (SetPrimaryDid orgId did rowId) = setPrimaryDid orgId did rowId"
| "agent_run env (SetDedicatedAgentToken orgId token ep) = quiet (setDedicatedAgentToken env orgId token ep)"
| "agent_run env (DeleteWallet orgId) = deleteWallet env orgId"

text \<open>A generated UUID is not the identifier of a row that a spin-up still holds.\<close>

definition fresh_uuid :: "agent_env \<Rightarrow> agent_db \<Rightarrow> bool" where
  "fresh_uuid env db = list_all (\<lambda>job. suAgentId job \<noteq> gUuid env 0) (adSpinUps db)"

text \<open>
  A step is a call, a spin-up that \<open>provisionWallet\<close> has started, the write of a \<open>setDedicatedAgentToken\<close> whose checks
  ran in an earlier state, or a change of another service to its own tables.
\<close>

inductive agent_step :: "agent_db \<Rightarrow> agent_db \<Rightarrow> bool" where
  call: "fresh_uuid env db \<Longrightarrow> agent_step db (snd (agent_run env c db))"
| spin_up: "adSpinUps db = before @ job # after \<Longrightarrow>
    agent_step db (snd (agentSpinup env job (db\<lparr>adSpinUps := before @ after\<rparr>)))"
| late_token: "verifyDedicatedToken env orgId token ep db0 = (Inr t, db1) \<Longrightarrow>
    agent_step db (snd (storeDedicatedToken orgId t db))"
| others: "agent_step db (db\<lparr>adOrgs := adOrgs db @ orgs, adUsers := users, adPlatformConfig := config,
    adConnections := connections, adCredentials := credentials, adPresentations := presentations,
    adReferences := refs\<rparr>)"

definition agent_start :: "agent_db \<Rightarrow> bool" where
  "agent_start db \<longleftrightarrow> adAgents db = [] \<and> adDids db = [] \<and> adInvitations db = [] \<and> adSpinUps db = []"

end
