(* ===== verification/Agent_Invariant.thy ===== *)
theory Agent_Invariant
  imports Agent_Service
begin

text \<open>
  The invariant of the wallet tables and its proof: a lemma for each write of the repository, one for each
  handler, and the interpretation of \<open>invariant_system\<close> on \<open>agent_step\<close>.
\<close>

section \<open>The invariant\<close>

definition dids_ok :: "org_agents list \<Rightarrow> org_dids list \<Rightarrow> bool" where
  "dids_ok agents dids \<longleftrightarrow>
     distinct (map odId dids) \<and> [] \<notin> set (map odId dids) \<and> distinct (map (\<lambda>d. (odOrgId d, odDid d)) dids) \<and>
     (\<forall>d \<in> set dids. \<exists>a \<in> set agents. oaId a = odOrgAgentId d \<and> oaOrgId a = Some (odOrgId d)) \<and>
     (\<forall>d \<in> set dids. \<forall>a \<in> set agents.
        odIsPrimaryDid d \<longrightarrow> oaOrgId a = Some (odOrgId d) \<longrightarrow> oaOrgDid a = Some (odDid d))"

definition jobs_ok :: "org_agents list \<Rightarrow> org_dids list \<Rightarrow> spin_up list \<Rightarrow> bool" where
  "jobs_ok agents dids jobs \<longleftrightarrow>
     distinct (map suAgentId jobs) \<and>
     (\<forall>j \<in> set jobs. \<forall>a \<in> set agents. oaId a = suAgentId j \<longrightarrow>
        oaOrgAgentTypeId a = None \<and> oaApiKey a = None \<and> oaOrgId a = Some (suOrgId j)) \<and>
     (\<forall>j \<in> set jobs. \<forall>d \<in> set dids. odOrgAgentId d \<noteq> suAgentId j)"

definition agents_ok :: "org_agents list \<Rightarrow> bool" where
  "agents_ok agents \<longleftrightarrow> distinct (map oaId agents) \<and> distinct (map oaOrgId agents)"

definition agent_inv :: "agent_db \<Rightarrow> bool" where
  "agent_inv db \<longleftrightarrow> agents_ok (adAgents db) \<and> dids_ok (adAgents db) (adDids db) \<and>
     jobs_ok (adAgents db) (adDids db) (adSpinUps db)"

text \<open>
  Row \<open>i\<close> of \<open>org_agents\<close>, if it is there, belongs to organisation \<open>org\<close>, has no DIDs and is in no waiting spin-up:
  the state in which a handler fills in the row it has created.
\<close>

definition reserved :: "string \<Rightarrow> string \<Rightarrow> agent_db \<Rightarrow> bool" where
  "reserved i org db \<longleftrightarrow> agent_inv db \<and>
     (\<forall>a \<in> set (adAgents db). oaId a = i \<longrightarrow> oaOrgId a = Some org) \<and>
     (\<forall>d \<in> set (adDids db). odOrgAgentId d \<noteq> i) \<and> (\<forall>j \<in> set (adSpinUps db). suAgentId j \<noteq> i)"

section \<open>Lookups\<close>

lemma firstOrThrow_Inr: "firstOrThrow tab p s = (Inr r, t) \<longleftrightarrow> t = s \<and> List.find p (tab s) = Some r"
  by (auto simp: firstOrThrow_def bind_def split: option.splits)

lemma firstOrThrow_state: "snd (firstOrThrow tab p s) = s"
  by (auto simp: firstOrThrow_def bind_def split: option.splits)

lemma agent_of_org:
  assumes "agents_ok agents" and "a \<in> set agents" and "oaOrgId a = Some org"
  shows "List.find (\<lambda>b. oaOrgId b = Some org) agents = Some a"
  using find_distinct [of oaOrgId agents a] assms by (simp add: agents_ok_def)

lemma agents_same_org:
  "agents_ok agents \<Longrightarrow> a \<in> set agents \<Longrightarrow> b \<in> set agents \<Longrightarrow> oaOrgId a = oaOrgId b \<Longrightarrow> a = b"
  by (auto simp: agents_ok_def dest: distinct_map_eqD)

lemma agents_same_id:
  "agents_ok agents \<Longrightarrow> a \<in> set agents \<Longrightarrow> b \<in> set agents \<Longrightarrow> oaId a = oaId b \<Longrightarrow> a = b"
  by (auto simp: agents_ok_def dest: distinct_map_eqD)

text \<open>An update of one row that keeps its key.\<close>

lemma agentRow_None:
  assumes "agentRow others old a db = None"
  shows "\<forall>b \<in> set others. oaId b \<noteq> oaId a \<and> (oaOrgId a \<noteq> None \<longrightarrow> oaOrgId b \<noteq> oaOrgId a)"
  using assms by (auto simp: agentRow_def list_ex_iff split: if_splits)

lemma updateAgent_cases:
  assumes "updateAgent p f s = (r, t)"
  obtains (raised) e where "r = Inl e" "t = s"
    | (updated) a where "a \<in> set (adAgents s)" "p a" "List.find p (adAgents s) = Some a" "r = Inr (f a)"
        "t = s\<lparr>adAgents := updateWhere (\<lambda>b. oaId b = oaId a) f (adAgents s)\<rparr>"
proof (cases "List.find p (adAgents s)")
  case None
  with assms have "r = Inl P2025" "t = s" by (simp_all add: updateAgent_def)
  then show thesis by (rule raised)
next
  case (Some a)
  show thesis
  proof (cases "agentRow (filter (\<lambda>b. oaId b \<noteq> oaId a) (adAgents s)) a (f a) s")
    case None
    with Some assms have "r = Inr (f a)" "t = s\<lparr>adAgents := updateWhere (\<lambda>b. oaId b = oaId a) f (adAgents s)\<rparr>"
      by (simp_all add: updateAgent_def)
    with find_SomeD [OF Some] Some show thesis by (intro updated [of a]) simp_all
  next
    case (Some e)
    with \<open>List.find p (adAgents s) = Some a\<close> assms have "r = Inl e" "t = s" by (simp_all add: updateAgent_def)
    then show thesis by (rule raised)
  qed
qed

lemma insertAgent_cases:
  assumes "insertAgent a s = (r, t)"
  obtains (raised) e where "r = Inl e" "t = s"
    | (inserted) "r = Inr a" "t = s\<lparr>adAgents := adAgents s @ [a]\<rparr>" "agentRow (adAgents s) (emptyAgent (oaId a)) a s = None"
proof (cases "agentRow (adAgents s) (emptyAgent (oaId a)) a s")
  case None
  with assms show thesis by (intro inserted) (simp_all add: insertAgent_def)
next
  case (Some e)
  with assms show thesis by (intro raised [of e]) (simp_all add: insertAgent_def)
qed

lemma deleteAgent_cases:
  assumes "deleteAgent p s = (r, t)"
  obtains (raised) e where "r = Inl e" "t = s"
    | (deleted) a where "a \<in> set (adAgents s)" "p a" "List.find p (adAgents s) = Some a" "r = Inr ()"
        "t = s\<lparr>adAgents := filter (\<lambda>b. oaId b \<noteq> oaId a) (adAgents s)\<rparr>"
        "\<forall>d \<in> set (adDids s). odOrgAgentId d \<noteq> oaId a"
proof (cases "List.find p (adAgents s)")
  case None
  with assms have "r = Inl P2025" "t = s" by (simp_all add: deleteAgent_def)
  then show thesis by (rule raised)
next
  case (Some a)
  let ?used = "list_ex (\<lambda>d. odOrgAgentId d = oaId a) (adDids s) \<or>
    list_ex (\<lambda>i. aiAgentId i = oaId a) (adInvitations s) \<or> oaId a \<in> set (adReferences s)"
  show thesis
  proof (cases ?used)
    case True
    with Some assms have "r = Inl P2003" "t = s" by (simp_all add: deleteAgent_def)
    then show thesis by (rule raised)
  next
    case False
    then have free: "\<forall>d \<in> set (adDids s). odOrgAgentId d \<noteq> oaId a" by (auto simp: list_ex_iff)
    from False Some assms have "r = Inr ()" "t = s\<lparr>adAgents := filter (\<lambda>b. oaId b \<noteq> oaId a) (adAgents s)\<rparr>"
      by (simp_all add: deleteAgent_def)
    with find_SomeD [OF Some] Some free show thesis by (intro deleted [of a]) simp_all
  qed
qed

lemma updateDid_cases:
  assumes "updateDid i f s = (r, t)"
  obtains (raised) e where "r = Inl e" "t = s"
    | (updated) d where "d \<in> set (adDids s)" "odId d = i" "r = Inr (f d)"
        "t = s\<lparr>adDids := updateWhere (\<lambda>e. odId e = i) f (adDids s)\<rparr>"
        "\<not> primaryConflict (f d) (filter (\<lambda>e. odId e \<noteq> i) (adDids s))"
proof (cases "List.find (\<lambda>d. odId d = i) (adDids s)")
  case None
  with assms have "r = Inl P2025" "t = s" by (simp_all add: updateDid_def)
  then show thesis by (rule raised)
next
  case (Some d)
  show thesis
  proof (cases "primaryConflict (f d) (filter (\<lambda>e. odId e \<noteq> i) (adDids s))")
    case True
    with Some assms have "r = Inl P2002" "t = s" by (simp_all add: updateDid_def)
    then show thesis by (rule raised)
  next
    case False
    with Some assms have "r = Inr (f d)" "t = s\<lparr>adDids := updateWhere (\<lambda>e. odId e = i) f (adDids s)\<rparr>"
      by (simp_all add: updateDid_def)
    with find_SomeD [OF Some] False show thesis by (intro updated [of d]) simp_all
  qed
qed

lemma insertDid_cases:
  assumes "insertDid d s = (r, t)"
  obtains (raised) e where "r = Inl e" "t = s"
    | (inserted) "r = Inr d" "t = s\<lparr>adDids := adDids s @ [d]\<rparr>" "\<forall>e \<in> set (adDids s). odId e \<noteq> odId d" "odId d \<noteq> []"
proof (cases "odId d = [] \<or> list_ex (\<lambda>e. odId e = odId d) (adDids s) \<or> primaryConflict d (adDids s) \<or>
    \<not> list_ex (\<lambda>a. oaId a = odOrgAgentId d) (adAgents s)")
  case True
  then have "fst (insertDid d s) \<in> range Inl \<and> snd (insertDid d s) = s" by (auto simp: insertDid_def)
  with assms show thesis by (auto intro: raised)
next
  case False
  with assms have "r = Inr d" "t = s\<lparr>adDids := adDids s @ [d]\<rparr>" by (simp_all add: insertDid_def)
  moreover from False have "\<forall>e \<in> set (adDids s). odId e \<noteq> odId d" "odId d \<noteq> []" by (auto simp: list_ex_iff)
  ultimately show thesis by (rule inserted)
qed

section \<open>Writes to the agents\<close>

lemma agents_ok_update:
  "agents_ok agents \<Longrightarrow> (\<And>a. a \<in> set agents \<Longrightarrow> p a \<Longrightarrow> oaId (f a) = oaId a \<and> oaOrgId (f a) = oaOrgId a) \<Longrightarrow>
   agents_ok (updateWhere p f agents)"
proof -
  assume ok: "agents_ok agents" and keep: "\<And>a. a \<in> set agents \<Longrightarrow> p a \<Longrightarrow> oaId (f a) = oaId a \<and> oaOrgId (f a) = oaOrgId a"
  have "map oaId (updateWhere p f agents) = map oaId agents" "map oaOrgId (updateWhere p f agents) = map oaOrgId agents"
    using keep by (auto simp: updateWhere_def)
  with ok show ?thesis by (simp add: agents_ok_def)
qed

text \<open>A write that leaves the organisation and the DID of every agent alone keeps the invariant on the DIDs.\<close>

lemma dids_ok_update_agents:
  assumes "dids_ok agents dids"
    and "\<And>a. a \<in> set agents \<Longrightarrow> p a \<Longrightarrow> oaId (f a) = oaId a \<and> oaOrgId (f a) = oaOrgId a"
    and "\<And>a d. a \<in> set agents \<Longrightarrow> p a \<Longrightarrow> d \<in> set dids \<Longrightarrow> odIsPrimaryDid d \<Longrightarrow> oaOrgId a = Some (odOrgId d) \<Longrightarrow>
          oaOrgDid (f a) = Some (odDid d)"
  shows "dids_ok (updateWhere p f agents) dids"
proof -
  have "\<exists>b \<in> set (updateWhere p f agents). oaId b = odOrgAgentId d \<and> oaOrgId b = Some (odOrgId d)" if d: "d \<in> set dids" for d
  proof -
    obtain a where a: "a \<in> set agents" "oaId a = odOrgAgentId d" "oaOrgId a = Some (odOrgId d)"
      using assms(1) d by (auto simp: dids_ok_def)
    then have "(if p a then f a else a) \<in> set (updateWhere p f agents)" by (auto simp: updateWhere_def)
    with a assms(2) show ?thesis by (metis (full_types))
  qed
  moreover have "oaOrgDid b = Some (odDid d)"
    if "d \<in> set dids" "b \<in> set (updateWhere p f agents)" "odIsPrimaryDid d" "oaOrgId b = Some (odOrgId d)" for d b
    using that(2)
  proof (cases rule: in_updateWhereE)
    case (1 a)
    with that assms(2,3) show ?thesis by metis
  next
    case 2
    with that assms(1) show ?thesis by (auto simp: dids_ok_def)
  qed
  ultimately show ?thesis using assms(1) by (auto simp: dids_ok_def)
qed

lemma jobs_ok_update_agents:
  assumes "jobs_ok agents dids jobs"
    and "\<And>a. a \<in> set agents \<Longrightarrow> p a \<Longrightarrow> oaId (f a) = oaId a \<and> oaOrgId (f a) = oaOrgId a"
    and "\<And>a j. a \<in> set agents \<Longrightarrow> p a \<Longrightarrow> j \<in> set jobs \<Longrightarrow> oaId a = suAgentId j \<Longrightarrow>
          oaOrgAgentTypeId (f a) = None \<and> oaApiKey (f a) = None"
  shows "jobs_ok (updateWhere p f agents) dids jobs"
proof -
  have "oaOrgAgentTypeId b = None \<and> oaApiKey b = None \<and> oaOrgId b = Some (suOrgId j)"
    if "j \<in> set jobs" "b \<in> set (updateWhere p f agents)" "oaId b = suAgentId j" for j b
    using that(2)
  proof (cases rule: in_updateWhereE)
    case (1 a)
    with that assms show ?thesis by (auto simp: jobs_ok_def)
  next
    case 2
    with that assms(1) show ?thesis by (auto simp: jobs_ok_def)
  qed
  with assms(1) show ?thesis by (auto simp: jobs_ok_def)
qed

lemma agent_inv_update_agents:
  assumes "agent_inv s"
    and "\<And>a. a \<in> set (adAgents s) \<Longrightarrow> p a \<Longrightarrow> oaId (f a) = oaId a \<and> oaOrgId (f a) = oaOrgId a"
    and "\<And>a d. a \<in> set (adAgents s) \<Longrightarrow> p a \<Longrightarrow> d \<in> set (adDids s) \<Longrightarrow> odIsPrimaryDid d \<Longrightarrow>
          oaOrgId a = Some (odOrgId d) \<Longrightarrow> oaOrgDid (f a) = Some (odDid d)"
    and "\<And>a j. a \<in> set (adAgents s) \<Longrightarrow> p a \<Longrightarrow> j \<in> set (adSpinUps s) \<Longrightarrow> oaId a = suAgentId j \<Longrightarrow>
          oaOrgAgentTypeId (f a) = None \<and> oaApiKey (f a) = None"
  shows "agent_inv (s\<lparr>adAgents := updateWhere p f (adAgents s)\<rparr>)"
  using assms agents_ok_update [of "adAgents s" p f] dids_ok_update_agents [of "adAgents s" "adDids s" p f]
    jobs_ok_update_agents [of "adAgents s" "adDids s" "adSpinUps s" p f]
  by (simp add: agent_inv_def)

lemma agent_inv_insert:
  assumes inv: "agent_inv s" and new: "agentRow (adAgents s) (emptyAgent (oaId a)) a s = None" and org: "oaOrgId a = Some org"
    and fresh: "\<forall>j \<in> set (adSpinUps s). suAgentId j \<noteq> oaId a"
  shows "agent_inv (s\<lparr>adAgents := adAgents s @ [a]\<rparr>)"
proof -
  have other: "\<forall>b \<in> set (adAgents s). oaId b \<noteq> oaId a \<and> oaOrgId b \<noteq> Some org"
    using agentRow_None [OF new] org by auto
  have "dids_ok (adAgents s) (adDids s)" using inv by (simp add: agent_inv_def)
  then have "oaOrgId a \<noteq> Some (odOrgId d)" if "d \<in> set (adDids s)" for d
    using that other org unfolding dids_ok_def by (metis option.inject)
  with inv other fresh org show ?thesis
    by (auto simp: agent_inv_def agents_ok_def dids_ok_def jobs_ok_def)
qed

lemma agent_inv_delete:
  assumes inv: "agent_inv s" and free: "\<forall>d \<in> set (adDids s). odOrgAgentId d \<noteq> oaId a"
  shows "agent_inv (s\<lparr>adAgents := filter (\<lambda>b. oaId b \<noteq> oaId a) (adAgents s)\<rparr>)"
proof -
  let ?rest = "filter (\<lambda>b. oaId b \<noteq> oaId a) (adAgents s)"
  have ok: "dids_ok (adAgents s) (adDids s)" using inv by (simp add: agent_inv_def)
  have "\<exists>b \<in> set ?rest. oaId b = odOrgAgentId d \<and> oaOrgId b = Some (odOrgId d)" if d: "d \<in> set (adDids s)" for d
  proof -
    obtain b where "b \<in> set (adAgents s)" "oaId b = odOrgAgentId d" "oaOrgId b = Some (odOrgId d)"
      using ok d by (auto simp: dids_ok_def)
    with free d show ?thesis by (intro bexI [of _ b]) auto
  qed
  with ok have "dids_ok ?rest (adDids s)" by (auto simp: dids_ok_def)
  moreover have "agents_ok ?rest" using inv by (simp add: agent_inv_def agents_ok_def distinct_map_filter)
  moreover have "jobs_ok ?rest (adDids s) (adSpinUps s)" using inv by (auto simp: agent_inv_def jobs_ok_def)
  ultimately show ?thesis by (simp add: agent_inv_def)
qed

section \<open>What every handler respects\<close>

text \<open>
  \<open>wallet_reads\<close> holds the lookups, which respect every reflexive relation on states. \<open>wallet_frame\<close> is the interface
  between the repository and the handlers: a relation that the storing of an invitation, a new token for an agent
  of a known type and the deletion of an agent without DIDs respect. The parts that all handlers share are shown to
  respect every such relation.
\<close>

locale wallet_reads = effect_preorder R for R :: "agent_db \<Rightarrow> agent_db \<Rightarrow> bool"
begin

lemma moves_firstOrThrow: "moves R (firstOrThrow tab p)"
  by (simp add: moves_def firstOrThrow_state R_refl)

lemma moves_check: "moves R (check e)"
  by (cases e) (simp_all add: check_def moves_ret moves_throw)

lemma moves_firstAdmin: "moves R (firstAdmin admins)"
  by (cases admins) (simp_all add: firstAdmin_def moves_ret moves_throw)

lemma moves_rpc: "moves R m \<Longrightarrow> moves R (rpc m)"
  unfolding rpc_def by (intro moves_rules)

lemma moves_orPlain: "moves R m \<Longrightarrow> moves R (orPlain e m)"
  unfolding orPlain_def by (intro moves_rules)

lemma moves_platformAdminAgent: "moves R platformAdminAgent"
  unfolding platformAdminAgent_def by (intro moves_rules moves_firstOrThrow)

lemma moves_getOrgAgentTypeDetails: "moves R (getOrgAgentTypeDetails t)"
  unfolding getOrgAgentTypeDetails_def by (intro moves_rules moves_firstOrThrow)

lemma moves_getAgentTypeId: "moves R (getAgentTypeId t)"
  unfolding getAgentTypeId_def by (intro moves_rules moves_firstOrThrow)

lemma moves_getAgentTypeDetails: "moves R getAgentTypeDetails"
  unfolding getAgentTypeDetails_def by (rule moves_getAgentTypeId)

lemma moves_getPlatfomOrg: "moves R (getPlatfomOrg n)"
  unfolding getPlatfomOrg_def by (intro moves_rules moves_firstOrThrow)

lemma moves_getLedgerByNameSpace: "moves R (getLedgerByNameSpace ns)"
  unfolding getLedgerByNameSpace_def by (intro moves_rules moves_firstOrThrow)

lemma moves_getLedger: "moves R (getLedger n)"
  unfolding getLedger_def by (rule moves_firstOrThrow)

lemmas moves_lookups = moves_firstOrThrow moves_check moves_firstAdmin moves_platformAdminAgent
  moves_getOrgAgentTypeDetails moves_getAgentTypeId moves_getAgentTypeDetails moves_getPlatfomOrg
  moves_getLedgerByNameSpace moves_getLedger

end

locale wallet_frame = wallet_reads +
  assumes frame_invitations: "R s (s\<lparr>adInvitations := is\<rparr>)"
    and frame_token: "a \<in> set (adAgents s) \<Longrightarrow> oaOrgAgentTypeId a \<noteq> None \<Longrightarrow>
      R s (s\<lparr>adAgents := updateWhere (\<lambda>b. oaId b = oaId a) (\<lambda>b. b\<lparr>oaApiKey := Some k\<rparr>) (adAgents s)\<rparr>)"
    and frame_delete: "a \<in> set (adAgents s) \<Longrightarrow> \<forall>d \<in> set (adDids s). odOrgAgentId d \<noteq> oaId a \<Longrightarrow>
      R s (s\<lparr>adAgents := filter (\<lambda>b. oaId b \<noteq> oaId a) (adAgents s)\<rparr>)"
begin

lemma moves_deleteAgent: "moves R (deleteAgent p)"
proof (rule movesI)
  fix s r t
  assume "deleteAgent p s = (r, t)"
  then show "R s t"
    by (cases rule: deleteAgent_cases) (simp_all add: R_refl frame_delete)
qed

lemma moves_removeOrgAgent: "moves R (removeOrgAgent i)"
  unfolding removeOrgAgent_def by (intro moves_rules moves_deleteAgent)

lemma moves_deleteOrgAgentById: "moves R (deleteOrgAgentById i)"
  unfolding deleteOrgAgentById_def by (rule moves_deleteAgent)

lemma moves_saveInvitation: "moves R (saveAgentConnectionInvitations i)"
  by (auto simp: moves_def saveAgentConnectionInvitations_def R_refl frame_invitations)

lemma moves_createConnectionInvitation: "moves R (create_connection_invitation env org)"
proof -
  have "moves R (case (a, r) of (Some x, Some y) \<Rightarrow> f x y | _ \<Rightarrow> throw e)"
    if "\<And>x y. moves R (f x y)" for a :: "org_agents option" and r :: "wallet_org option" and f e
    using that by (auto split: option.split intro: moves_throw)
  note pair = this
  show ?thesis
    unfolding create_connection_invitation_def createConnectionInvitation_def
    by (intro moves_rpc moves_bind moves_reads pair moves_rules moves_saveInvitation)
qed

lemma moves_getTenantToken:
  assumes "\<And>k. moves R (updateTenantToken (orEmpty org) k)"
  shows "moves R (getTenantToken env ep key tenant org)"
  unfolding getTenantToken_def by (intro moves_rules assms)

end

text \<open>\<open>getOrgAgentApiKey\<close> changes nothing or renews the token of an agent of the shared type.\<close>

lemma updateTenantToken_effect:
  assumes "agents_ok (adAgents s)" and "a \<in> set (adAgents s)" and "oaOrgId a = Some org"
    and "updateTenantToken org k s = (r, t)"
  shows "t = s \<or>
    t = s\<lparr>adAgents := updateWhere (\<lambda>b. oaId b = oaId a) (\<lambda>b. b\<lparr>oaApiKey := Some k\<rparr>) (adAgents s)\<rparr>"
  using assms(4) unfolding updateTenantToken_def
proof (cases rule: updateAgent_cases)
  case (updated b)
  then have "b = a" using assms(1-3) by (simp add: agents_same_org)
  with updated show ?thesis by simp
qed simp


definition token_renewed :: "agent_db \<Rightarrow> agent_db \<Rightarrow> bool" where
  "token_renewed s t \<longleftrightarrow> t = s \<or>
     (\<exists>a \<in> set (adAgents s). oaOrgAgentTypeId a \<noteq> None \<and>
        (\<exists>k. t = s\<lparr>adAgents := updateWhere (\<lambda>b. oaId b = oaId a) (\<lambda>b. b\<lparr>oaApiKey := Some k\<rparr>) (adAgents s)\<rparr>))"

lemma lookups_state:
  "snd (getOrgAgentTypeDetails n s) = s" "snd (platformAdminAgent s) = s"
  by (simp_all add: getOrgAgentTypeDetails_def platformAdminAgent_def firstOrThrow_def bind_def split: option.splits)

lemma reads_only:
  "getOrgAgentTypeDetails n s = (r, t) \<Longrightarrow> t = s"
  "platformAdminAgent s = (r', t) \<Longrightarrow> t = s"
  using lookups_state(1) [of n s] lookups_state(2) [of s] by simp_all

lemma getTenantToken_effect:
  assumes ok: "agents_ok (adAgents s)" and a: "a \<in> set (adAgents s)" and type: "oaOrgAgentTypeId a \<noteq> None"
    and run: "getTenantToken env ep key tenant (oaOrgId a) s = (r, t)"
  shows "token_renewed s t"
proof (cases "truthy (oaOrgId a)")
  case True
  then obtain org where org: "oaOrgId a = Some org" by (auto elim: truthyE)
  have "t = s \<or> (\<exists>k. updateTenantToken org k s = (r, t))"
    using run org
    by (auto simp: getTenantToken_def bind_def split: if_splits sum.splits prod.splits)
  then show ?thesis
    using updateTenantToken_effect [OF ok a org] a type unfolding token_renewed_def by blast
next
  case False
  with run show ?thesis by (simp add: getTenantToken_def token_renewed_def)
qed

lemma getOrgAgentApiKey_effect:
  assumes ok: "agents_ok (adAgents s)" and run: "getOrgAgentApiKey env org s = (r, t)"
  shows "token_renewed s t \<and>
    (r \<in> range Inr \<longrightarrow> (\<exists>a. getAgentApiKey org s = Some a \<and> (oaOrgAgentTypeId a \<noteq> None \<or> oaApiKey a \<noteq> None)))"
proof -
  have same: "token_renewed s s" by (simp add: token_renewed_def)
  show ?thesis
  proof (cases "getAgentApiKey org s")
    case None
    with run same show ?thesis
      by (auto simp: getOrgAgentApiKey_def bind_def split: prod.splits sum.splits dest!: reads_only(1))
  next
    case (Some a)
    then have a: "a \<in> set (adAgents s)" "oaOrgId a = Some org"
      by (auto simp: getAgentApiKey_def split: if_splits dest: find_SomeD)
    obtain r1 s1 where types: "getOrgAgentTypeDetails ''SHARED'' s = (r1, s1)" by fastforce
    then have [simp]: "s1 = s" by (rule reads_only)
    show ?thesis
    proof (cases r1)
      case (Inl e)
      with run types Some same show ?thesis by (auto simp: getOrgAgentApiKey_def bind_def)
    next
      case (Inr shared)
      show ?thesis
      proof (cases "oaOrgAgentTypeId a = Some shared \<and> (oaApiKey a = Some [] \<or> oaApiKey a = None)")
        case True
        obtain r2 s2 where admin: "platformAdminAgent s = (r2, s2)" by fastforce
        then have [simp]: "s2 = s" by (rule reads_only)
        have "t = s \<or> (\<exists>ep key r'. getTenantToken env ep key (oaTenantId a) (oaOrgId a) s = (r', t))"
          using run types Inr Some True admin
          by (auto simp: getOrgAgentApiKey_def bind_def Let_def split: prod.splits sum.splits if_splits)
        moreover have type: "oaOrgAgentTypeId a \<noteq> None" using True by simp
        ultimately have "token_renewed s t" using same getTenantToken_effect [OF ok a(1) type] by blast
        with Some type show ?thesis by blast
      next
        case False
        with run types Inr Some have "t = s" "r \<in> range Inr \<longrightarrow> truthy (oaApiKey a)"
          by (auto simp: getOrgAgentApiKey_def bind_def split: if_splits)
        with same Some show ?thesis by (auto elim: truthyE)
      qed
    qed
  qed
qed


section \<open>Interpretations of the frame\<close>

lemma agent_inv_other_tables [simp]:
  "agent_inv (s\<lparr>adInvitations := is\<rparr>) = agent_inv s" "reserved i org (s\<lparr>adInvitations := is\<rparr>) = reserved i org s"
  by (simp_all add: agent_inv_def reserved_def)

lemma agent_inv_token:
  assumes "agent_inv s" and "a \<in> set (adAgents s)" and "oaOrgAgentTypeId a \<noteq> None"
  shows "agent_inv (s\<lparr>adAgents := updateWhere (\<lambda>b. oaId b = oaId a) (\<lambda>b. b\<lparr>oaApiKey := Some k\<rparr>) (adAgents s)\<rparr>)"
proof (rule agent_inv_update_agents [OF assms(1)])
  fix b j
  assume "b \<in> set (adAgents s)" "oaId b = oaId a" "j \<in> set (adSpinUps s)" "oaId b = suAgentId j"
  then have "oaOrgAgentTypeId a = None" using assms(1,2) by (auto simp: agent_inv_def jobs_ok_def)
  with assms(3) show "oaOrgAgentTypeId (b\<lparr>oaApiKey := Some k\<rparr>) = None \<and> oaApiKey (b\<lparr>oaApiKey := Some k\<rparr>) = None" by simp
qed (use assms(1) in \<open>auto simp: agent_inv_def dids_ok_def\<close>)

interpretation invar: wallet_frame "\<lambda>s t. agent_inv s \<longrightarrow> agent_inv t"
  by unfold_locales (simp_all add: agent_inv_token agent_inv_delete)

lemma reserved_agents:
  assumes "reserved i org s" and "agent_inv (s\<lparr>adAgents := agents\<rparr>)"
    and "\<And>a. a \<in> set agents \<Longrightarrow> oaId a = i \<Longrightarrow> \<exists>b \<in> set (adAgents s). oaId b = i \<and> oaOrgId b = oaOrgId a"
  shows "reserved i org (s\<lparr>adAgents := agents\<rparr>)"
  using assms unfolding reserved_def by fastforce

interpretation reserve: wallet_frame "\<lambda>s t. reserved i org s \<longrightarrow> reserved i org t" for i org
proof unfold_locales
  fix a k and s :: agent_db
  assume a: "a \<in> set (adAgents s)" "oaOrgAgentTypeId a \<noteq> None"
  show "reserved i org s \<longrightarrow>
    reserved i org (s\<lparr>adAgents := updateWhere (\<lambda>b. oaId b = oaId a) (\<lambda>b. b\<lparr>oaApiKey := Some k\<rparr>) (adAgents s)\<rparr>)"
  proof
    assume res: "reserved i org s"
    then have "agent_inv s" by (simp add: reserved_def)
    then show "reserved i org (s\<lparr>adAgents := updateWhere (\<lambda>b. oaId b = oaId a) (\<lambda>b. b\<lparr>oaApiKey := Some k\<rparr>) (adAgents s)\<rparr>)"
      using a by (intro reserved_agents [OF res] agent_inv_token) (auto elim!: in_updateWhereE)
  qed
next
  fix a and s :: agent_db
  assume a: "a \<in> set (adAgents s)" "\<forall>d \<in> set (adDids s). odOrgAgentId d \<noteq> oaId a"
  show "reserved i org s \<longrightarrow> reserved i org (s\<lparr>adAgents := filter (\<lambda>b. oaId b \<noteq> oaId a) (adAgents s)\<rparr>)"
  proof
    assume res: "reserved i org s"
    then have "agent_inv s" by (simp add: reserved_def)
    then show "reserved i org (s\<lparr>adAgents := filter (\<lambda>b. oaId b \<noteq> oaId a) (adAgents s)\<rparr>)"
      using a by (intro reserved_agents [OF res] agent_inv_delete) auto
  qed
qed simp_all

section \<open>Tenants and dedicated agents\<close>

lemma createOrgAgent_cases:
  assumes run: "createOrgAgent uuid st userId org s = (r, t)" and inv: "agent_inv s"
    and fresh: "\<forall>j \<in> set (adSpinUps s). suAgentId j \<noteq> uuid"
  obtains (raised) e where "r = Inl e" "t = s"
    | (created) "r = Inr uuid" "reserved uuid org t" "adSpinUps t = adSpinUps s"
        "\<forall>a \<in> set (adAgents t). oaId a = uuid \<longrightarrow> oaOrgAgentTypeId a = None \<and> oaApiKey a = None"
proof (cases userId)
  case None
  with run show thesis by (intro raised [of missingArgument]) (simp_all add: createOrgAgent_def)
next
  case user: (Some u)
  let ?a = "(emptyAgent uuid)\<lparr>oaOrgId := Some org, oaSpinUpStatus := Some st\<rparr>"
  obtain r1 s1 where ins: "insertAgent ?a s = (r1, s1)" by fastforce
  have [simp]: "oaId ?a = uuid" "oaOrgId ?a = Some org" "oaOrgAgentTypeId ?a = None" "oaApiKey ?a = None"
    by (simp_all add: emptyAgent_def)
  from ins show thesis
  proof (cases rule: insertAgent_cases)
    case (raised e)
    with ins user run show thesis by (intro that(1) [of e]) (simp_all add: createOrgAgent_def bind_def)
  next
    case inserted
    with ins user run have eq: "r = Inr uuid" "t = s\<lparr>adAgents := adAgents s @ [?a]\<rparr>"
      by (simp_all add: createOrgAgent_def bind_def)
    have others: "\<forall>b \<in> set (adAgents s). oaId b \<noteq> uuid" using agentRow_None [OF inserted(3)] by simp
    have "agent_inv t" unfolding eq(2) using inserted(3) inv fresh by (intro agent_inv_insert) simp_all
    moreover have "\<forall>d \<in> set (adDids s). odOrgAgentId d \<noteq> uuid"
      using inv others unfolding agent_inv_def dids_ok_def by metis
    ultimately have "reserved uuid org t" using eq(2) others fresh by (auto simp: reserved_def)
    then show thesis using eq others by (intro that(2)) auto
  qed
qed

lemma reserved_no_dids:
  assumes "reserved i org s" and "a \<in> set (adAgents s)" and "oaId a = i" and "d \<in> set (adDids s)"
  shows "odOrgId d \<noteq> org"
proof
  assume "odOrgId d = org"
  moreover obtain b where "b \<in> set (adAgents s)" "oaId b = odOrgAgentId d" "oaOrgId b = Some (odOrgId d)"
    using assms(1,4) by (auto simp: reserved_def agent_inv_def dids_ok_def)
  moreover have "oaOrgId a = Some org" using assms(1-3) by (simp add: reserved_def)
  ultimately have "a = b" using assms(1,2) agents_same_org [of "adAgents s" a b] by (simp add: reserved_def agent_inv_def)
  with \<open>oaId b = odOrgAgentId d\<close> assms show False by (auto simp: reserved_def)
qed

lemma agentData_simps [simp]:
  "oaId (agentData d a) = oaId a" "oaOrgId (agentData d a) = Some (ssOrgId d)"
  by (simp_all add: agentData_def)

lemma moves_storeOrgAgentDetails:
  assumes "ssId d = Some i" and "ssOrgId d = org" and "ssUserId d = None"
  shows "moves (\<lambda>s t. reserved i org s \<longrightarrow> reserved i org t) (storeOrgAgentDetails uuid d)"
proof (rule movesI)
  fix s r t
  assume run: "storeOrgAgentDetails uuid d s = (r, t)"
  show "reserved i org s \<longrightarrow> reserved i org t"
  proof (cases "i = []")
    case True
    with run assms show ?thesis by (simp add: storeOrgAgentDetails_def)
  next
    case False
    with run assms have "updateAgent (\<lambda>a. oaId a = i) (agentData d) s = (r, t)" by (simp add: storeOrgAgentDetails_def)
    then show ?thesis
    proof (cases rule: updateAgent_cases)
      case (updated a)
      show ?thesis
      proof
        assume res: "reserved i org s"
        then have "agent_inv t" unfolding updated(5)
          using updated(1,2) assms(2) res reserved_no_dids [OF res]
          by (intro agent_inv_update_agents) (auto simp: reserved_def)
        then show "reserved i org t" unfolding updated(5)
          using updated(1,2) assms(2) res
          by (intro reserved_agents [OF res]) (auto simp: reserved_def elim!: in_updateWhereE)
      qed
    qed simp
  qed
qed

lemma moves_tenantFlow:
  "moves (\<lambda>s t. reserved i org s \<longrightarrow> reserved i org t) (tenantFlow env label org i)"
proof -
  have "moves (\<lambda>s t. reserved i org s \<longrightarrow> reserved i org t) (createTenantAndNotify env label admins)" for admins
    unfolding createTenantAndNotify_def by (intro reserve.moves_rules reserve.moves_lookups)
  then show ?thesis
    unfolding tenantFlow_def
    by (intro reserve.moves_rules reserve.moves_lookups reserve.moves_createConnectionInvitation
        moves_storeOrgAgentDetails) simp_all
qed


section \<open>Runs between two assertions\<close>

interpretation same: wallet_reads "(=) :: agent_db \<Rightarrow> agent_db \<Rightarrow> bool"
  by unfold_locales simp_all

text \<open>Whatever state a run from \<open>A\<close> ends in satisfies \<open>B\<close>, whether it returns or raises.\<close>

definition ends :: "('s \<Rightarrow> bool) \<Rightarrow> ('s, 'a) eff \<Rightarrow> ('s \<Rightarrow> bool) \<Rightarrow> bool" where
  "ends A m B \<longleftrightarrow> (\<forall>s. A s \<longrightarrow> B (snd (m s)))"

lemma ends_moves: "moves R m \<Longrightarrow> (\<And>s t. R s t \<Longrightarrow> A s \<Longrightarrow> B t) \<Longrightarrow> ends A m B"
  by (auto simp: ends_def moves_def)

lemma ends_inv: "moves (\<lambda>s t. P s \<longrightarrow> P t) m \<Longrightarrow> ends P m P"
  by (auto simp: ends_def moves_def)

lemma ends_bind:
  assumes "ends A m C" and "\<And>x. ends C (f x) B" and "\<And>s. C s \<Longrightarrow> B s"
  shows "ends A (bind m f) B"
  unfolding ends_def
proof (intro allI impI)
  fix s
  assume "A s"
  then have "C (snd (m s))" using assms(1) by (simp add: ends_def)
  then show "B (snd (bind m f s))"
    using assms(2,3) by (cases "m s") (auto simp: bind_def ends_def split: sum.splits)
qed

lemma ends_after_read:
  assumes "moves (=) m" and "\<And>x. ends A (f x) B" and "\<And>s. A s \<Longrightarrow> B s"
  shows "ends A (bind m f) B"
  by (rule ends_bind [OF ends_moves [OF assms(1)] assms(2,3)]) simp

lemma ends_stop: "(\<And>s. A s \<Longrightarrow> B s) \<Longrightarrow> ends A (throw e) B" "(\<And>s. A s \<Longrightarrow> B s) \<Longrightarrow> ends A (ret x) B"
  by (simp_all add: ends_def)

lemma ends_if: "(b \<Longrightarrow> ends A m B) \<Longrightarrow> (\<not> b \<Longrightarrow> ends A n B) \<Longrightarrow> ends A (if b then m else n) B"
  by simp

lemma ends_let: "(\<And>x. ends A (f x) B) \<Longrightarrow> ends A (let x = t in f x) B"
  by simp

lemma ends_rpc: "ends A m B \<Longrightarrow> ends A (rpc m) B"
  by (auto simp: ends_def rpc_def tryCatch_def split: prod.splits sum.splits)

lemma ends_andThen:
  "ends A m C \<Longrightarrow> ends C n B \<Longrightarrow> (\<And>s. C s \<Longrightarrow> B s) \<Longrightarrow> ends A (andThen m n) B"
  unfolding andThen_def by (rule ends_bind)

section \<open>Handlers\<close>

definition ready :: "string \<Rightarrow> agent_db \<Rightarrow> bool" where
  "ready uuid s \<longleftrightarrow> agent_inv s \<and> (\<forall>j \<in> set (adSpinUps s). suAgentId j \<noteq> uuid)"

lemma ready_inv: "ready uuid s \<Longrightarrow> agent_inv s"
  by (simp add: ready_def)

lemma createTenantSteps_inv: "ends (ready (gUuid env 0)) (createTenantSteps env label org userId) agent_inv"
  unfolding ends_def
proof (intro allI impI)
  fix s
  assume "ready (gUuid env 0) s"
  then have inv: "agent_inv s" and fresh: "\<forall>j \<in> set (adSpinUps s). suAgentId j \<noteq> gUuid env 0" by (simp_all add: ready_def)
  obtain r t where run: "createOrgAgent (gUuid env 0) WALLET_CREATED userId org s = (r, t)" by fastforce
  have rest: "moves (\<lambda>s t. reserved i org s \<longrightarrow> reserved i org t)
      (tryCatch (tenantFlow env label org i)
        (\<lambda>e. andThen (if i \<noteq> [] then tryCatch (deleteOrgAgentById i) (\<lambda>_. ret ()) else ret ()) (throw e)))" for i
    by (intro reserve.moves_rules moves_tenantFlow reserve.moves_deleteOrgAgentById)
  from run inv fresh show "agent_inv (snd (createTenantSteps env label org userId s))"
  proof (cases rule: createOrgAgent_cases)
    case (raised e)
    with run inv show ?thesis by (simp add: createTenantSteps_def bind_def)
  next
    case created
    let ?rest = "tryCatch (tenantFlow env label org (gUuid env 0)) (\<lambda>e. andThen (if gUuid env 0 \<noteq> []
      then tryCatch (deleteOrgAgentById (gUuid env 0)) (\<lambda>_. ret ()) else ret ()) (throw e))"
    have "createTenantSteps env label org userId s = ?rest t"
      unfolding createTenantSteps_def using run created(1) by (intro bind_Inr) simp
    moreover have "reserved (gUuid env 0) org (snd (?rest t))"
      using rest [of "gUuid env 0"] created(2) unfolding moves_def by blast
    ultimately show ?thesis by (simp add: reserved_def)
  qed
qed

lemma createTenant_inv: "ends (ready (gUuid env 0)) (createTenant env label org userId) agent_inv"
  unfolding createTenant_def
  by (intro ends_rpc ends_after_read [OF same.moves_reads] ends_if ends_stop createTenantSteps_inv ready_inv)

lemma insertAgent_inv: "oaId a = uuid \<Longrightarrow> oaOrgId a = Some org \<Longrightarrow> ends (ready uuid) (insertAgent a) agent_inv"
  unfolding ends_def
proof (intro allI impI)
  fix s
  assume a: "oaId a = uuid" "oaOrgId a = Some org" and ready: "ready uuid s"
  obtain r t where run: "insertAgent a s = (r, t)" by fastforce
  then show "agent_inv (snd (insertAgent a s))"
  proof (cases rule: insertAgent_cases)
    case (raised e)
    with run ready show ?thesis by (simp add: ready_def)
  next
    case inserted
    with run ready a show ?thesis by (auto simp: ready_def intro!: agent_inv_insert)
  qed
qed

lemma agentConfigure_inv:
  "ends (ready (gUuid env 0)) (agentConfigure env ep key did wallet org userId) agent_inv"
proof -
  have store: "ends (ready u) (storeOrgAgentDetails u d) agent_inv" if "ssId d = None" for u d
    using that by (auto simp: storeOrgAgentDetails_def emptyAgent_def intro!: insertAgent_inv ends_stop ready_inv)
  have finish: "ends agent_inv (andThen (if b then throw undefinedRead else ret ())
      (andThen (create_connection_invitation env org) (ret x))) agent_inv" for b and x :: org_agents
    by (intro ends_inv invar.moves_rules invar.moves_createConnectionInvitation)
  have last: "ends (ready u) (bind (storeOrgAgentDetails u d) (\<lambda>x. andThen (if b then throw undefinedRead else ret ())
      (andThen (create_connection_invitation env org) (ret x)))) agent_inv" if "ssId d = None" for u d b
    by (rule ends_bind [OF store finish]) (simp_all add: that)
  show ?thesis
    unfolding agentConfigure_def
    by (intro ends_rpc ends_after_read [OF same.moves_reads] ends_if ends_stop ready_inv
        ends_after_read [OF same.moves_lift] ends_after_read [OF same.moves_orPlain]
        last same.moves_lookups same.moves_lift) simp_all
qed


lemma enqueue_inv:
  assumes job: "\<And>i. suAgentId (job i) = i \<and> suOrgId (job i) = org"
  shows "ends (ready uuid) (bind (createOrgAgent uuid st creator org)
    (\<lambda>i. writes (\<lambda>db. db\<lparr>adSpinUps := adSpinUps db @ [job i]\<rparr>))) agent_inv"
  unfolding ends_def
proof (intro allI impI)
  fix s
  assume "ready uuid s"
  then have inv: "agent_inv s" and fresh: "\<forall>j \<in> set (adSpinUps s). suAgentId j \<noteq> uuid" by (simp_all add: ready_def)
  let ?m = "bind (createOrgAgent uuid st creator org) (\<lambda>i. writes (\<lambda>db. db\<lparr>adSpinUps := adSpinUps db @ [job i]\<rparr>))"
  obtain r t where run: "createOrgAgent uuid st creator org s = (r, t)" by fastforce
  from run inv fresh show "agent_inv (snd (?m s))"
  proof (cases rule: createOrgAgent_cases)
    case (raised e)
    with run inv show ?thesis by (simp add: bind_def)
  next
    case created
    then have "?m s = (Inr (), t\<lparr>adSpinUps := adSpinUps t @ [job uuid]\<rparr>)" using run by (simp add: bind_def)
    moreover have "agent_inv (t\<lparr>adSpinUps := adSpinUps t @ [job uuid]\<rparr>)"
      using created job [of uuid] by (auto simp: reserved_def agent_inv_def jobs_ok_def)
    ultimately show ?thesis by simp
  qed
qed

lemma provisionWallet_inv: "ends (ready (gUuid env 0)) (provisionWallet env dto userId userRowId) agent_inv"
  unfolding provisionWallet_def andThen_def
  by (intro ends_after_read [OF same.moves_reads] ends_after_read [OF same.moves_getAgentTypeDetails]
      ends_after_read [OF same.moves_getPlatfomOrg] ends_after_read [OF same.moves_check]
      ends_after_read [OF same.moves_lift] ends_let ends_if ends_stop ready_inv enqueue_inv) simp_all

lemma walletProvision_inv: "ends (ready (gUuid env 0)) (walletProvision env dto userId userRowId) agent_inv"
  unfolding walletProvision_def
  by (intro ends_rpc ends_andThen [OF provisionWallet_inv] ends_stop)

lemma moves_agentSpinup:
  "moves (\<lambda>s t. reserved (suAgentId job) (suOrgId job) s \<longrightarrow> reserved (suAgentId job) (suOrgId job) t)
     (agentSpinup env job)"
proof -
  have "moves (\<lambda>s t. reserved (suAgentId job) (suOrgId job) s \<longrightarrow> reserved (suAgentId job) (suOrgId job) t)
      (storeSpunUpAgent env job ep key ledger)" for ep key ledger
    unfolding storeSpunUpAgent_def buildStoreOrgAgentData_def
    by (intro reserve.moves_rules reserve.moves_lookups reserve.moves_removeOrgAgent moves_storeOrgAgentDetails) simp_all
  then show ?thesis
    unfolding agentSpinup_def spinUpLedgers_def
    by (intro reserve.moves_rules reserve.moves_removeOrgAgent)
qed

lemma agentSpinup_inv:
  assumes "agent_inv s" and "adSpinUps s = before @ job # after"
  shows "agent_inv (snd (agentSpinup env job (s\<lparr>adSpinUps := before @ after\<rparr>)))"
proof -
  have "reserved (suAgentId job) (suOrgId job) (s\<lparr>adSpinUps := before @ after\<rparr>)"
    using assms by (auto simp: reserved_def agent_inv_def jobs_ok_def image_iff)
  then show ?thesis using moves_agentSpinup [of job env] unfolding moves_def reserved_def by blast
qed

section \<open>DIDs\<close>

lemma agent_inv_renewed: "agent_inv s \<Longrightarrow> token_renewed s t \<Longrightarrow> agent_inv t"
  unfolding token_renewed_def using agent_inv_token by blast

lemma renewed_rows:
  assumes "token_renewed s t"
  shows "adDids t = adDids s" "adSpinUps t = adSpinUps s" "adLedgers t = adLedgers s"
    "map (\<lambda>a. (oaId a, oaOrgId a)) (adAgents t) = map (\<lambda>a. (oaId a, oaOrgId a)) (adAgents s)"
  using assms by (auto simp: token_renewed_def map_updateWhere_same)

lemma getOrgAgentApiKey_inv: "ends agent_inv (getOrgAgentApiKey env org) agent_inv"
  unfolding ends_def
proof (intro allI impI)
  fix s
  assume inv: "agent_inv s"
  obtain r t where run: "getOrgAgentApiKey env org s = (r, t)" by fastforce
  then have "token_renewed s t" using getOrgAgentApiKey_effect [of s env org r t] inv by (simp add: agent_inv_def)
  with inv run show "agent_inv (snd (getOrgAgentApiKey env org s))" by (simp add: agent_inv_renewed)
qed

lemma dids_ok_add:
  assumes "dids_ok agents dids" and "agents_ok agents" and "a \<in> set agents" "oaId a = odOrgAgentId d" "oaOrgId a = Some (odOrgId d)"
    and "\<forall>e \<in> set dids. odId e \<noteq> odId d" and "\<forall>e \<in> set dids. odOrgId e = odOrgId d \<longrightarrow> odDid e \<noteq> odDid d"
    and "odIsPrimaryDid d \<longrightarrow> oaOrgDid a = Some (odDid d)" and "odId d \<noteq> []"
  shows "dids_ok agents (dids @ [d])"
proof -
  have "b = a" if "b \<in> set agents" "oaOrgId b = Some (odOrgId d)" for b
    using agents_same_org [OF assms(2) that(1) assms(3)] that(2) assms(5) by simp
  then have "oaOrgDid b = Some (odDid d)" if "b \<in> set agents" "odIsPrimaryDid d" "oaOrgId b = Some (odOrgId d)" for b
    using that assms(8) by blast
  moreover have "\<exists>b \<in> set agents. oaId b = odOrgAgentId d \<and> oaOrgId b = Some (odOrgId d)" using assms(3-5) by blast
  moreover have "distinct (map odId (dids @ [d]))" "[] \<notin> set (map odId (dids @ [d]))"
    using assms(1,6,9) by (auto simp: dids_ok_def)
  moreover have "distinct (map (\<lambda>d. (odOrgId d, odDid d)) (dids @ [d]))"
    using assms(1,7) by (auto simp: dids_ok_def)
  ultimately show ?thesis using assms(1) unfolding dids_ok_def by simp
qed

text \<open>Changing only the flag and the document of DIDs.\<close>

lemma dids_ok_update:
  assumes "dids_ok agents dids"
    and keep: "\<And>d. odId (f d) = odId d \<and> odOrgId (f d) = odOrgId d \<and> odDid (f d) = odDid d \<and> odOrgAgentId (f d) = odOrgAgentId d"
    and flag: "\<And>d a. d \<in> set dids \<Longrightarrow> p d \<Longrightarrow> odIsPrimaryDid (f d) \<Longrightarrow> a \<in> set agents \<Longrightarrow> oaOrgId a = Some (odOrgId d) \<Longrightarrow>
      oaOrgDid a = Some (odDid d)"
  shows "dids_ok agents (updateWhere p f dids)"
proof -
  have "map odId (updateWhere p f dids) = map odId dids"
    "map (\<lambda>d. (odOrgId d, odDid d)) (updateWhere p f dids) = map (\<lambda>d. (odOrgId d, odDid d)) dids"
    using keep by (simp_all add: map_updateWhere_same)
  moreover have "\<exists>a \<in> set agents. oaId a = odOrgAgentId d \<and> oaOrgId a = Some (odOrgId d)"
    if "d \<in> set (updateWhere p f dids)" for d
    using that assms(1) keep by (auto simp: dids_ok_def elim!: in_updateWhereE)
  moreover have "oaOrgDid a = Some (odDid d)"
    if d: "d \<in> set (updateWhere p f dids)" and "a \<in> set agents" "odIsPrimaryDid d" "oaOrgId a = Some (odOrgId d)" for d a
    using d
  proof (cases rule: in_updateWhereE)
    case (1 e)
    with that keep flag [of e a] show ?thesis by simp
  next
    case 2
    with that assms(1) show ?thesis by (auto simp: dids_ok_def)
  qed
  ultimately show ?thesis using assms(1) by (simp add: dids_ok_def)
qed

lemma jobs_ok_update_dids:
  assumes "jobs_ok agents dids jobs" and "\<And>d. odOrgAgentId (f d) = odOrgAgentId d"
  shows "jobs_ok agents (updateWhere p f dids) jobs"
  using assms by (auto simp: jobs_ok_def elim!: in_updateWhereE)


lemma persist_cases:
  assumes "persistDidWithUpdates uuid p ex ledgerId upd s = (r, t)"
  obtains (raised) e where "r = Inl e" "t = s"
    | (stored) d s2 where "r = Inr d" "storeDid uuid p ex (s\<lparr>adDids := demoted p (adDids s)\<rparr>) = (Inr d, s2)"
        "(t = s2 \<and> (sdIsPrimaryDid p = Some True \<longrightarrow> odDid d = []) \<and> \<not> upd) \<or>
         (\<exists>x. updateAgent (\<lambda>a. oaOrgId a = Some (sdOrgId p)) (orgAgentData p d ledgerId upd) s2 = (Inr x, t))"
proof (cases r)
  case (Inl e)
  with assms have "t = s" unfolding persistDidWithUpdates_def by (auto dest: transact_raises)
  with Inl show thesis by (rule raised)
next
  case (Inr d)
  let ?s1 = "s\<lparr>adDids := demoted p (adDids s)\<rparr>"
  let ?f = "\<lambda>d. if (sdIsPrimaryDid p = Some True \<and> odDid d \<noteq> []) \<or> (sdIsPrimaryDid p = Some True \<and> truthy ledgerId) \<or> upd
        then bind (updateAgent (\<lambda>a. oaOrgId a = Some (sdOrgId p)) (orgAgentData p d ledgerId upd)) (\<lambda>_. ret d)
        else ret d"
  from assms Inr have "bind (storeDid uuid p ex) ?f ?s1 = (Inr d, t)"
    unfolding persistDidWithUpdates_def by (simp add: transact_commits andThen_def bind_def)
  then show thesis
  proof (cases rule: bind_cases)
    case (went_on d' s2)
    then have "d' = d" by (auto simp: bind_def split: if_splits prod.splits sum.splits)
    with went_on Inr show thesis
      by (intro stored [of d s2]) (auto simp: bind_def split: if_splits prod.splits sum.splits)
  qed simp
qed

lemma storeDid_cases:
  assumes "storeDid uuid p ex s = (Inr d, t)"
  obtains (updated) e d0 where "ex = Some e" "d0 \<in> set (adDids s)" "odId d0 = odId e" "d = stored p d0"
      "t = s\<lparr>adDids := updateWhere (\<lambda>x. odId x = odId e) (stored p) (adDids s)\<rparr>"
    | (inserted) doc b where "ex = None" "sdDidDocument p = Some doc" "sdIsPrimaryDid p = Some b"
      "d = \<lparr>odId = uuid, odOrgId = sdOrgId p, odIsPrimaryDid = b, odDid = sdDid p, odDidDocument = doc,
           odOrgAgentId = sdOrgAgentId p\<rparr>"
      "t = s\<lparr>adDids := adDids s @ [d]\<rparr>" "\<forall>e \<in> set (adDids s). odId e \<noteq> uuid" "uuid \<noteq> []"
proof (cases ex)
  case (Some e)
  with assms have "updateDid (odId e) (stored p) s = (Inr d, t)" by (simp add: storeDid_def stored_def [abs_def])
  then show thesis
  proof (cases rule: updateDid_cases)
    case (updated d0)
    with Some show thesis by (intro that(1) [of e d0]) simp_all
  qed simp
next
  case None
  with assms obtain doc b where given: "sdDidDocument p = Some doc" "sdIsPrimaryDid p = Some b"
    by (auto simp: storeDid_def split: option.splits)
  with None assms have "insertDid \<lparr>odId = uuid, odOrgId = sdOrgId p, odIsPrimaryDid = b, odDid = sdDid p,
      odDidDocument = doc, odOrgAgentId = sdOrgAgentId p\<rparr> s = (Inr d, t)"
    by (simp add: storeDid_def)
  then show thesis
  proof (cases rule: insertDid_cases)
    case inserted
    with None given show thesis by (intro that(2) [of doc b]) simp_all
  qed simp
qed

lemma orgAgentData_simps [simp]:
  "oaId (orgAgentData p d l u a) = oaId a" "oaOrgId (orgAgentData p d l u a) = oaOrgId a"
  "oaApiKey (orgAgentData p d l u a) = oaApiKey a" "oaOrgAgentTypeId (orgAgentData p d l u a) = oaOrgAgentTypeId a"
  "oaOrgDid (orgAgentData p d l u a) =
     (if sdIsPrimaryDid p = Some True \<and> odDid d \<noteq> [] then Some (odDid d) else oaOrgDid a)"
  by (simp_all add: orgAgentData_def Let_def)

lemma stored_simps [simp]:
  "odId (stored p d) = odId d" "odOrgId (stored p d) = odOrgId d" "odDid (stored p d) = odDid d"
  "odOrgAgentId (stored p d) = odOrgAgentId d"
  "odIsPrimaryDid (stored p d) = (case sdIsPrimaryDid p of None \<Rightarrow> odIsPrimaryDid d | Some b \<Rightarrow> b)"
  by (simp_all add: stored_def)

lemma demoted_keys:
  "map odId (demoted p dids) = map odId dids"
  "map (\<lambda>d. (odOrgId d, odDid d)) (demoted p dids) = map (\<lambda>d. (odOrgId d, odDid d)) dids"
  by (simp_all add: demoted_def map_updateWhere_same)

lemma demotedE:
  assumes "d \<in> set (demoted p dids)"
  obtains e where "e \<in> set dids" "odId d = odId e" "odOrgId d = odOrgId e" "odDid d = odDid e"
    "odOrgAgentId d = odOrgAgentId e" "odIsPrimaryDid d \<Longrightarrow> odIsPrimaryDid e"
    "sdIsPrimaryDid p = Some True \<Longrightarrow> odIsPrimaryDid d \<Longrightarrow> odOrgId d = sdOrgId p \<Longrightarrow> odDid d = sdDid p"
proof (cases "sdIsPrimaryDid p = Some True")
  case True
  with assms have "d \<in> set (updateWhere (\<lambda>d. odOrgId d = sdOrgId p \<and> odDid d \<noteq> sdDid p)
      (\<lambda>d. d\<lparr>odIsPrimaryDid := False\<rparr>) dids)" by (simp add: demoted_def)
  then show thesis
    by (cases rule: in_updateWhereE) (auto intro: that)
next
  case False
  with assms show thesis by (intro that [of d]) (simp_all add: demoted_def)
qed

text \<open>
  What \<open>createDid\<close> hands to \<open>persistDidWithUpdates\<close>: the agent of the organisation, which no spin-up holds, and the
  row that already has the DID.
\<close>

definition did_target :: "IStoreDidDetails \<Rightarrow> org_dids option \<Rightarrow> org_agents \<Rightarrow> agent_db \<Rightarrow> bool" where
  "did_target p ex a s \<longleftrightarrow> a \<in> set (adAgents s) \<and> oaId a = sdOrgAgentId p \<and> oaOrgId a = Some (sdOrgId p) \<and> sdDid p \<noteq> [] \<and>
     ex = List.find (\<lambda>d. odDid d = sdDid p) (getOrgDid (sdOrgId p) s) \<and>
     (\<forall>j \<in> set (adSpinUps s). suAgentId j \<noteq> oaId a)"

lemma storeDid_dids:
  assumes inv: "agent_inv s" and target: "did_target p ex a s"
    and run: "storeDid uuid p ex (s\<lparr>adDids := demoted p (adDids s)\<rparr>) = (Inr d, t)"
  shows "odDid d = sdDid p" "odOrgId d = sdOrgId p" "adAgents t = adAgents s" "adSpinUps t = adSpinUps s" "adLedgers t = adLedgers s"
    "dids_ok agents (demoted p (adDids s)) \<Longrightarrow> agents_ok agents \<Longrightarrow> b \<in> set agents \<Longrightarrow> oaId b = sdOrgAgentId p \<Longrightarrow>
     oaOrgId b = Some (sdOrgId p) \<Longrightarrow> (sdIsPrimaryDid p = Some True \<Longrightarrow> oaOrgDid b = Some (sdDid p)) \<Longrightarrow>
     dids_ok agents (adDids t)"
    "jobs_ok agents (adDids s) jobs \<Longrightarrow> \<forall>j \<in> set jobs. suAgentId j \<noteq> sdOrgAgentId p \<Longrightarrow> jobs_ok agents (adDids t) jobs"
proof -
  have jobs1: "jobs_ok agents (demoted p (adDids s)) jobs" if "jobs_ok agents (adDids s) jobs"
    using that by (auto simp: demoted_def intro: jobs_ok_update_dids)
  have dids: "dids_ok (adAgents s) (adDids s)" using inv by (simp add: agent_inv_def)
  have "odDid d = sdDid p \<and> odOrgId d = sdOrgId p \<and> adAgents t = adAgents s \<and> adSpinUps t = adSpinUps s \<and> adLedgers t = adLedgers s \<and>
    (dids_ok agents (demoted p (adDids s)) \<longrightarrow> agents_ok agents \<longrightarrow> b \<in> set agents \<longrightarrow> oaId b = sdOrgAgentId p \<longrightarrow>
     oaOrgId b = Some (sdOrgId p) \<longrightarrow> (sdIsPrimaryDid p = Some True \<longrightarrow> oaOrgDid b = Some (sdDid p)) \<longrightarrow>
     dids_ok agents (adDids t)) \<and>
    (jobs_ok agents (adDids s) jobs \<longrightarrow> (\<forall>j \<in> set jobs. suAgentId j \<noteq> sdOrgAgentId p) \<longrightarrow> jobs_ok agents (adDids t) jobs)"
    using run
  proof (cases rule: storeDid_cases)
    case (updated e d0)
    have e: "e \<in> set (adDids s)" "odOrgId e = sdOrgId p" "odDid e = sdDid p"
      using target updated(1) by (auto simp: did_target_def getOrgDid_def dest!: sym [of "Some e"] find_SomeD)
    have key: "odOrgId x = sdOrgId p \<and> odDid x = sdDid p" if "x \<in> set (demoted p (adDids s))" "odId x = odId e" for x
      using that(1)
    proof (cases rule: demotedE)
      case (1 y)
      then have "y = e" using that(2) e(1) dids by (auto simp: dids_ok_def dest: distinct_map_eqD)
      with 1 e show ?thesis by simp
    qed
    have "dids_ok agents (updateWhere (\<lambda>x. odId x = odId e) (stored p) (demoted p (adDids s)))"
      if ok: "dids_ok agents (demoted p (adDids s))" "agents_ok agents" "b \<in> set agents" "oaOrgId b = Some (sdOrgId p)"
        "sdIsPrimaryDid p = Some True \<longrightarrow> oaOrgDid b = Some (sdDid p)"
    proof (rule dids_ok_update [OF ok(1)])
      fix x c
      assume x: "x \<in> set (demoted p (adDids s))" "odId x = odId e" "odIsPrimaryDid (stored p x)" "c \<in> set agents"
        "oaOrgId c = Some (odOrgId x)"
      then have "c = b" using key [OF x(1,2)] ok(2-4) agents_same_org [of agents c b] by simp
      show "oaOrgDid c = Some (odDid x)"
      proof (cases "sdIsPrimaryDid p")
        case None
        with x ok(1) show ?thesis by (auto simp: dids_ok_def)
      next
        case (Some flag)
        with x(3) ok(5) key [OF x(1,2)] \<open>c = b\<close> show ?thesis by simp
      qed
    qed simp
    moreover have "jobs_ok agents (adDids t) jobs" if "jobs_ok agents (adDids s) jobs"
      using jobs1 [OF that] updated(5) by (auto intro: jobs_ok_update_dids)
    ultimately show ?thesis using updated key [of d0] by simp
  next
    case (inserted doc flag)
    have new: "\<forall>x \<in> set (demoted p (adDids s)). odOrgId x = sdOrgId p \<longrightarrow> odDid x \<noteq> sdDid p"
    proof (intro ballI impI)
      fix x
      assume "x \<in> set (demoted p (adDids s))" "odOrgId x = sdOrgId p"
      then obtain y where "y \<in> set (adDids s)" "odOrgId y = sdOrgId p" "odDid y = odDid x"
        by (auto elim: demotedE)
      with target inserted(1) show "odDid x \<noteq> sdDid p"
        by (auto simp: did_target_def getOrgDid_def find_None_iff_all dest!: sym [of None])
    qed
    have "dids_ok agents (demoted p (adDids s) @ [d])"
      if "dids_ok agents (demoted p (adDids s))" "agents_ok agents" "b \<in> set agents" "oaId b = sdOrgAgentId p"
        "oaOrgId b = Some (sdOrgId p)" "sdIsPrimaryDid p = Some True \<longrightarrow> oaOrgDid b = Some (sdDid p)"
      using that new inserted by (intro dids_ok_add [OF that(1-3)]) simp_all
    moreover have "jobs_ok agents (adDids t) jobs"
      if "jobs_ok agents (adDids s) jobs" "\<forall>j \<in> set jobs. suAgentId j \<noteq> sdOrgAgentId p"
      using jobs1 [OF that(1)] that(2) inserted by (auto simp: jobs_ok_def)
    ultimately show ?thesis using inserted by simp
  qed
  then show "odDid d = sdDid p" "odOrgId d = sdOrgId p" "adAgents t = adAgents s" "adSpinUps t = adSpinUps s" "adLedgers t = adLedgers s"
    "dids_ok agents (demoted p (adDids s)) \<Longrightarrow> agents_ok agents \<Longrightarrow> b \<in> set agents \<Longrightarrow> oaId b = sdOrgAgentId p \<Longrightarrow>
     oaOrgId b = Some (sdOrgId p) \<Longrightarrow> (sdIsPrimaryDid p = Some True \<Longrightarrow> oaOrgDid b = Some (sdDid p)) \<Longrightarrow>
     dids_ok agents (adDids t)"
    "jobs_ok agents (adDids s) jobs \<Longrightarrow> \<forall>j \<in> set jobs. suAgentId j \<noteq> sdOrgAgentId p \<Longrightarrow> jobs_ok agents (adDids t) jobs"
    by blast+
qed

lemma persist_rows:
  assumes inv: "agent_inv s" and target: "did_target p ex a s"
    and run: "persistDidWithUpdates uuid p ex ledgerId upd s = (Inr d, t)"
  obtains s2 where "storeDid uuid p ex (s\<lparr>adDids := demoted p (adDids s)\<rparr>) = (Inr d, s2)"
    "t = s2\<lparr>adAgents := updateWhere (\<lambda>c. oaId c = oaId a) (orgAgentData p d ledgerId upd) (adAgents s)\<rparr>"
  using run
proof (cases rule: persist_cases)
  case (stored d' s2)
  then have [simp]: "d' = d" by simp
  note s2 = storeDid_dids [OF inv target stored(2)]
  have a: "a \<in> set (adAgents s)" "oaOrgId a = Some (sdOrgId p)" "sdDid p \<noteq> []" and ok: "agents_ok (adAgents s)"
    using inv target by (simp_all add: did_target_def agent_inv_def)
  consider (kept) "t = s2" "sdIsPrimaryDid p \<noteq> Some True" "\<not> upd"
    | (wrote) x where "updateAgent (\<lambda>c. oaOrgId c = Some (sdOrgId p)) (orgAgentData p d ledgerId upd) s2 = (Inr x, t)"
    using stored(3) s2(1) a(3) by auto
  then have "t = s2\<lparr>adAgents := updateWhere (\<lambda>c. oaId c = oaId a) (orgAgentData p d ledgerId upd) (adAgents s)\<rparr>"
  proof cases
    case kept
    then have "orgAgentData p d ledgerId upd c = c" for c by (simp add: orgAgentData_def)
    then have "updateWhere (\<lambda>c. oaId c = oaId a) (orgAgentData p d ledgerId upd) (adAgents s) = adAgents s"
      unfolding updateWhere_def by (intro map_idI) simp
    with kept(1) s2(3) show ?thesis by simp
  next
    case wrote
    then show ?thesis
    proof (cases rule: updateAgent_cases)
      case (updated c)
      then have "c = a" using ok a(1,2) s2(3) by (simp add: agents_same_org)
      with updated s2(3) show ?thesis by simp
    qed simp
  qed
  with stored(2) show thesis by (intro that [of s2]) simp_all
qed simp

lemma demoted_ok:
  assumes ok: "dids_ok agents dids" and agents: "agents_ok agents" and a: "a \<in> set agents" "oaOrgId a = Some (sdOrgId p)"
    and d: "odDid d = sdDid p" "sdDid p \<noteq> []"
  shows "dids_ok (updateWhere (\<lambda>c. oaId c = oaId a) (orgAgentData p d l u) agents) (demoted p dids)"
proof (rule dids_ok_update_agents)
  show "dids_ok agents (demoted p dids)"
    using ok by (auto simp: demoted_def intro: dids_ok_update)
next
  fix c e
  assume c: "c \<in> set agents" "oaId c = oaId a" and e: "e \<in> set (demoted p dids)" "odIsPrimaryDid e" "oaOrgId c = Some (odOrgId e)"
  from c have "c = a" using agents a(1) by (simp add: agents_same_id)
  with e(3) a(2) have org: "odOrgId e = sdOrgId p" by simp
  from e(1) show "oaOrgDid (orgAgentData p d l u c) = Some (odDid e)"
  proof (cases rule: demotedE)
    case (1 e0)
    show ?thesis
    proof (cases "sdIsPrimaryDid p = Some True")
      case True
      with 1(7) e(2) org d show ?thesis by simp
    next
      case False
      have "oaOrgDid a = Some (odDid e0)" using ok 1 e(2) a org by (auto simp: dids_ok_def)
      with False \<open>c = a\<close> 1(4) show ?thesis by simp
    qed
  qed
qed simp

lemma persist_inv:
  assumes inv: "agent_inv s" and target: "did_target p ex a s"
    and run: "persistDidWithUpdates uuid p ex ledgerId upd s = (r, t)"
  shows "agent_inv t"
proof (cases r)
  case (Inl e)
  with run have "t = s" by (auto elim: persist_cases)
  with inv show ?thesis by simp
next
  case (Inr d)
  with run obtain s2 where s2: "storeDid uuid p ex (s\<lparr>adDids := demoted p (adDids s)\<rparr>) = (Inr d, s2)"
    "t = s2\<lparr>adAgents := updateWhere (\<lambda>c. oaId c = oaId a) (orgAgentData p d ledgerId upd) (adAgents s)\<rparr>"
    using persist_rows [OF inv target] by blast
  note dids = storeDid_dids [OF inv target s2(1)]
  let ?agents = "updateWhere (\<lambda>c. oaId c = oaId a) (orgAgentData p d ledgerId upd) (adAgents s)"
  let ?a = "orgAgentData p d ledgerId upd a"
  have a: "a \<in> set (adAgents s)" "oaId a = sdOrgAgentId p" "oaOrgId a = Some (sdOrgId p)" "sdDid p \<noteq> []"
    "\<forall>j \<in> set (adSpinUps s). suAgentId j \<noteq> oaId a"
    using target unfolding did_target_def by blast+
  have ok: "agents_ok (adAgents s)" "dids_ok (adAgents s) (adDids s)" "jobs_ok (adAgents s) (adDids s) (adSpinUps s)"
    using inv by (simp_all add: agent_inv_def)
  have agents: "agents_ok ?agents" using ok(1) by (intro agents_ok_update) simp_all
  have "?a \<in> set ?agents" using a(1) by (auto simp: updateWhere_def)
  moreover have "dids_ok ?agents (demoted p (adDids s))" using ok a dids(1) by (intro demoted_ok) simp_all
  ultimately have "dids_ok ?agents (adDids s2)" using a dids(1) agents by (intro dids(6) [of _ ?a]) simp_all
  moreover have "jobs_ok ?agents (adDids s) (adSpinUps s)" using ok(3) a(5) by (intro jobs_ok_update_agents) auto
  then have "jobs_ok ?agents (adDids s2) (adSpinUps s2)" unfolding dids(4) using a(2,5) by (intro dids(7)) auto
  ultimately show ?thesis using s2(2) agents by (simp add: agent_inv_def)
qed

lemma ends_option:
  "(x = None \<Longrightarrow> ends A m B) \<Longrightarrow> (\<And>y. x = Some y \<Longrightarrow> ends A (f y) B) \<Longrightarrow>
   ends A (case x of None \<Rightarrow> m | Some y \<Rightarrow> f y) B"
  by (cases x) simp_all

lemma moves_getDidDetails: "moves (=) (getDidDetails env url payload key)"
  unfolding getDidDetails_def by (intro same.moves_rules)

lemma moves_verifyWebDidHosting: "moves (=) (verifyWebDidHosting env ep payload key)"
  unfolding verifyWebDidHosting_def by (intro same.moves_rules moves_getDidDetails)

lemma moves_primaryLedger: "moves (=) (primaryLedger payload did l)"
  unfolding primaryLedger_def by (intro same.moves_rules same.moves_lookups)

lemma moves_checkNetwork: "moves (=) (checkNetwork agentDetails payload)"
proof -
  have "moves (=) (case (l, agentDetails) of (Some x, Some a) \<Rightarrow> f x a | _ \<Rightarrow> throw e)"
    if "\<And>x a. moves (=) (f x a)" for l :: "ledgers option" and f :: "ledgers \<Rightarrow> org_agents \<Rightarrow> (agent_db, string option) eff" and e
    using that by (auto split: option.split intro: same.moves_throw)
  note pair = this
  show ?thesis
    unfolding checkNetwork_def by (intro same.moves_if same.moves_ret same.moves_bind same.moves_lookups pair) (intro same.moves_rules)
qed

text \<open>The part of \<open>createDid\<close> after the key, for the agent the call has read.\<close>

definition persistAnswer ::
    "agent_env \<Rightarrow> did_payload \<Rightarrow> bool option \<Rightarrow> string \<Rightarrow> org_agents \<Rightarrow> did_response \<Rightarrow> string option \<Rightarrow> org_dids list \<Rightarrow> string option \<Rightarrow>
     (agent_db, org_dids) eff" where
  "persistAnswer env payload primary org agent r networkLedgerId rows ledgerId =
     persistDidWithUpdates (gUuid env 0)
       \<lparr>sdOrgId = org, sdDid = orEmpty (responseDid r), sdDidDocument = responseDocument r, sdIsPrimaryDid = primary,
        sdOrgAgentId = oaId agent\<rparr>
       (List.find (\<lambda>d. odDid d = orEmpty (responseDid r)) rows) ledgerId (oaSpinUpStatus agent = Some WALLET_CREATED)"

lemma ends_reads: "(\<And>s. A s \<Longrightarrow> B (snd (f (g s) s))) \<Longrightarrow> ends A (bind (reads g) f) B"
  by (simp add: ends_def bind_def)

text \<open>The agent found at the start of \<open>createDid\<close>, in a state where no spin-up holds it.\<close>

definition free_agent :: "org_agents \<Rightarrow> string \<Rightarrow> agent_db \<Rightarrow> bool" where
  "free_agent agent org s \<longleftrightarrow> agent_inv s \<and> (\<forall>j \<in> set (adSpinUps s). suAgentId j \<noteq> oaId agent) \<and>
     (\<exists>a \<in> set (adAgents s). oaId a = oaId agent \<and> oaOrgId a = Some org)"

lemma persistAnswer_inv:
  assumes "truthy (responseDid r)"
  shows "ends (free_agent agent org)
    (bind (reads (getOrgDid org)) (\<lambda>rows. bind (if primary = Some True then primaryLedger payload did l else ret None)
      (persistAnswer env payload primary org agent r l rows))) agent_inv"
proof (rule ends_reads)
  fix s
  assume free: "free_agent agent org s"
  then obtain a where a: "a \<in> set (adAgents s)" "oaId a = oaId agent" "oaOrgId a = Some org" by (auto simp: free_agent_def)
  have persist: "agent_inv (snd (persistAnswer env payload primary org agent r l (getOrgDid org s) ledgerId s))" for ledgerId
  proof -
    have "did_target \<lparr>sdOrgId = org, sdDid = orEmpty (responseDid r), sdDidDocument = responseDocument r,
        sdIsPrimaryDid = primary, sdOrgAgentId = oaId agent\<rparr>
        (List.find (\<lambda>d. odDid d = orEmpty (responseDid r)) (getOrgDid org s)) a s"
      using a free assms by (auto simp: did_target_def free_agent_def elim: truthyE)
    then show ?thesis
      unfolding persistAnswer_def using persist_inv free by (metis free_agent_def prod.collapse)
  qed
  have "moves (=) (if primary = Some True then primaryLedger payload did l else ret None)"
    by (intro same.moves_rules moves_primaryLedger)
  then obtain x where x: "(if primary = Some True then primaryLedger payload did l else ret None) s = (x, s)"
    unfolding moves_def by (metis prod.collapse)
  show "agent_inv (snd (bind (if primary = Some True then primaryLedger payload did l else ret None)
      (persistAnswer env payload primary org agent r l (getOrgDid org s)) s))"
  proof (cases x)
    case (Inl e)
    with x free show ?thesis by (simp add: bind_def free_agent_def)
  next
    case (Inr l')
    with x have "bind (if primary = Some True then primaryLedger payload did l else ret None)
      (persistAnswer env payload primary org agent r l (getOrgDid org s)) s =
      persistAnswer env payload primary org agent r l (getOrgDid org s) l' s" by (intro bind_Inr) simp
    then show ?thesis by (simp add: persist)
  qed
qed

lemma key_frees_agent:
  assumes inv: "agent_inv s" and agent: "getOrgAgentDetails org s = Some agent"
    and key: "getOrgAgentApiKey env org s = (Inr k, t)"
  shows "free_agent agent org t"
proof -
  have agents: "agents_ok (adAgents s)" using inv by (simp add: agent_inv_def)
  have found: "agent \<in> set (adAgents s)" "oaOrgId agent = Some org"
    using agent by (auto simp: getOrgAgentDetails_def split: if_splits dest: find_SomeD)
  have same: "getAgentApiKey org s = Some agent" using agent by (simp add: getOrgAgentDetails_def getAgentApiKey_def)
  have effect: "token_renewed s t" "oaOrgAgentTypeId agent \<noteq> None \<or> oaApiKey agent \<noteq> None"
    using getOrgAgentApiKey_effect [OF agents key] same by auto
  then have "\<forall>j \<in> set (adSpinUps s). suAgentId j \<noteq> oaId agent"
    using inv found(1) by (force simp: agent_inv_def jobs_ok_def)
  moreover have "(oaId agent, Some org) \<in> set (map (\<lambda>a. (oaId a, oaOrgId a)) (adAgents t))"
    unfolding renewed_rows(4) [OF effect(1)] using found by force
  ultimately show ?thesis
    using agent_inv_renewed [OF inv effect(1)] renewed_rows(2) [OF effect(1)] by (auto simp: free_agent_def)
qed

lemma writeDid_inv:
  "ends (free_agent agent org) (writeDid env payload primary org agent l key url) agent_inv"
  unfolding writeDid_def andThen_def Let_def
  by (intro ends_after_read [OF moves_getDidDetails] ends_if ends_stop
      ends_after_read [OF same.moves_if [OF moves_verifyWebDidHosting same.moves_ret]]
      persistAnswer_inv [unfolded persistAnswer_def])
    (simp_all add: free_agent_def)

lemma createDid_inv: "ends agent_inv (createDid env payload primary org) agent_inv"
  unfolding createDid_def
proof (rule ends_rpc, rule ends_reads)
  fix s
  assume inv: "agent_inv s"
  let ?agent = "getOrgAgentDetails org s"
  let ?rest = "\<lambda>n key. bind (lift (constructUrl ?agent)) (\<lambda>url.
    case ?agent of None \<Rightarrow> throw undefinedRead | Some agent \<Rightarrow> writeDid env payload primary org agent n key url)"
  have "ends (\<lambda>t. t = s) (bind (getOrgAgentApiKey env org) (?rest n)) agent_inv" for n
  proof -
    obtain r t where run: "getOrgAgentApiKey env org s = (r, t)" by fastforce
    have t: "agent_inv t" using getOrgAgentApiKey_inv [of env org] inv run unfolding ends_def by (metis snd_conv)
    show ?thesis
    proof (cases r)
      case (Inl e)
      with run t show ?thesis by (simp add: ends_def bind_def)
    next
      case (Inr key)
      with run have eq: "bind (getOrgAgentApiKey env org) (?rest n) s = ?rest n key t" by (intro bind_Inr) simp
      show ?thesis
      proof (cases ?agent)
        case None
        then have "?rest n key t = (Inl undefinedRead, t)" by (simp add: constructUrl_def bind_def)
        with eq t show ?thesis by (simp add: ends_def)
      next
        case (Some a)
        then have "free_agent a org t" using key_frees_agent inv run Inr by blast
        moreover have "?rest n key t = writeDid env payload primary org a n key (printed (oaEndPoint a) @ ''/dids/write'') t"
          using Some by (simp add: constructUrl_def bind_def)
        ultimately show ?thesis using eq writeDid_inv by (simp add: ends_def)
      qed
    qed
  qed
  then have "ends (\<lambda>t. t = s) (bind (checkNetwork ?agent payload) (\<lambda>n. bind (getOrgAgentApiKey env org) (?rest n))) agent_inv"
    by (intro ends_after_read [OF moves_checkNetwork]) (simp_all add: inv)
  then show "agent_inv (snd (bind (checkNetwork ?agent payload) (\<lambda>n. bind (getOrgAgentApiKey env org) (?rest n)) s))"
    unfolding ends_def by blast
qed

lemma generateWebDid_inv: "ends agent_inv (generateWebDid env payload org) agent_inv"
  unfolding generateWebDid_def
  by (intro ends_rpc ends_after_read [OF same.moves_reads] ends_if ends_stop ends_bind [OF getOrgAgentApiKey_inv]
      ends_after_read [OF same.moves_lift] ends_after_read [OF moves_getDidDetails])

section \<open>Deletion and tokens\<close>

lemma deleteOrgAgentByOrg_inv: "moves (\<lambda>s t. agent_inv s \<longrightarrow> agent_inv t) (deleteOrgAgentByOrg org)"
proof -
  have "agent_inv (s\<lparr>adDids := filter P (adDids s), adInvitations := is\<rparr>)" if inv: "agent_inv s" for s P "is"
  proof -
    have "dids_ok (adAgents s) (filter P (adDids s))"
      using inv by (auto simp: agent_inv_def dids_ok_def distinct_map_filter)
    moreover have "jobs_ok (adAgents s) (filter P (adDids s)) (adSpinUps s)"
      using inv by (auto simp: agent_inv_def jobs_ok_def)
    ultimately show ?thesis using inv by (simp add: agent_inv_def)
  qed
  then show ?thesis
    unfolding deleteOrgAgentByOrg_def
    by (intro invar.moves_rules invar.moves_deleteAgent invar.moves_writes) simp
qed

lemma deleteWallet_inv: "ends agent_inv (deleteWallet env org) agent_inv"
proof -
  have key: "ends agent_inv (settled (getOrgAgentApiKey env org)) agent_inv"
    using getOrgAgentApiKey_inv [of env org]
    by (auto simp: ends_def settled_def tryCatch_def bind_def split: prod.splits sum.splits)
  have pair: "moves (\<lambda>s t. agent_inv s \<longrightarrow> agent_inv t)
      (case (a, k) of (None, _) \<Rightarrow> throw e | (_, Inl _) \<Rightarrow> throw e' | (Some x, Inr y) \<Rightarrow> f x y)"
    if "\<And>x y. moves (\<lambda>s t. agent_inv s \<longrightarrow> agent_inv t) (f x y)" for a :: "org_agents option" and k :: "error + string" and f e e'
    using that by (auto split: option.split sum.split intro: invar.moves_throw)
  have log: "moves (\<lambda>s t. agent_inv s \<longrightarrow> agent_inv t) (case x of (n, tab) \<Rightarrow> if n \<noteq> 0 then lift (g tab n) else ret ())"
    for x :: "nat \<times> string" and g
    by (cases x) (simp add: invar.moves_lift invar.moves_ret)
  have counts: "moves R (case x of (d, i) \<Rightarrow> f d i)" if "\<And>d i. moves R (f d i)" for R f and x :: "nat \<times> nat"
    using that by (cases x) simp
  show ?thesis
    unfolding deleteWallet_def deleteWalletTransaction_def
    by (intro ends_rpc ends_bind [OF key] ends_inv invar.moves_bind [OF invar.moves_reads] pair counts log
        invar.moves_rules invar.moves_lookups deleteOrgAgentByOrg_inv)
qed

section \<open>The primary DID\<close>

definition ledgerOf :: "string \<Rightarrow> agent_db \<Rightarrow> ledgers option" where
  "ledgerOf did s =
     (case didLedgerNamespace (Some did) of
        Some ns \<Rightarrow> List.find (\<lambda>l. ldIndyNamespace l = Some ns) (adLedgers s)
      | None \<Rightarrow> List.find (\<lambda>l. ldName l = ''NA'') (adLedgers s))"

definition onlyPrimary :: "string \<Rightarrow> string \<Rightarrow> org_dids list \<Rightarrow> org_dids list" where
  "onlyPrimary org rowId dids = map (\<lambda>x. if odOrgId x = org then x\<lparr>odIsPrimaryDid := (odId x = rowId)\<rparr> else x) dids"

text \<open>What \<open>setPrimaryDid\<close> needs of the tables: the organisation, its agent with another DID, the row and the ledger.\<close>

definition promotable :: "string \<Rightarrow> string \<Rightarrow> string \<Rightarrow> agent_db \<Rightarrow> org_agents \<Rightarrow> org_dids \<Rightarrow> ledgers \<Rightarrow> bool" where
  "promotable org did rowId s a d l \<longleftrightarrow>
     list_ex (\<lambda>r. woId r = org) (adOrgs s) \<and> a \<in> set (adAgents s) \<and> oaOrgId a = Some org \<and> oaOrgDid a \<noteq> Some did \<and>
     d \<in> set (adDids s) \<and> odOrgId d = org \<and> odDid d = did \<and> odId d = rowId \<and> ledgerOf did s = Some l"

definition promoted :: "string \<Rightarrow> org_dids \<Rightarrow> ledgers \<Rightarrow> agent_db \<Rightarrow> agent_db" where
  "promoted org d l s =
     s\<lparr>adDids := onlyPrimary org (odId d) (adDids s),
       adAgents := updateWhere (\<lambda>a. oaOrgId a = Some org)
         (\<lambda>a. a\<lparr>oaOrgDid := Some (odDid d), oaDidDocument := Some (odDidDocument d), oaLedgerId := Some (ldId l)\<rparr>) (adAgents s)\<rparr>"

lemma primary_orgDid:
  "dids_ok agents dids \<Longrightarrow> d \<in> set dids \<Longrightarrow> odIsPrimaryDid d \<Longrightarrow> a \<in> set agents \<Longrightarrow> oaOrgId a = Some (odOrgId d) \<Longrightarrow>
   oaOrgDid a = Some (odDid d)"
  by (simp add: dids_ok_def)

lemma same_primary:
  assumes ok: "dids_ok agents dids" and d: "d \<in> set dids" "odIsPrimaryDid d" and e: "e \<in> set dids" "odIsPrimaryDid e"
    and org: "odOrgId d = odOrgId e"
  shows "d = e"
proof -
  obtain a where "a \<in> set agents" "oaOrgId a = Some (odOrgId d)" using ok d(1) by (auto simp: dids_ok_def)
  then have "oaOrgDid a = Some (odDid d)" "oaOrgDid a = Some (odDid e)"
    using primary_orgDid [OF ok d, of a] primary_orgDid [OF ok e, of a] org by simp_all
  then have "(odOrgId d, odDid d) = (odOrgId e, odDid e)" using org by simp
  with ok d(1) e(1) show ?thesis unfolding dids_ok_def by (auto dest: distinct_map_eqD)
qed

lemma updateDid_ok:
  assumes "distinct (map odId dids)" and "adDids s = dids" and "d \<in> set dids" and "odId d = i"
    and "\<And>e. e \<in> set dids \<Longrightarrow> odId e \<noteq> i \<Longrightarrow> odIsPrimaryDid (f d) \<Longrightarrow> odIsPrimaryDid e \<Longrightarrow> odOrgId e \<noteq> odOrgId (f d)"
  shows "updateDid i f s = (Inr (f d), s\<lparr>adDids := updateWhere (\<lambda>e. odId e = i) f dids\<rparr>)"
proof -
  have "List.find (\<lambda>e. odId e = i) (adDids s) = Some d" using find_distinct [OF assms(1,3)] assms(2,4) by simp
  moreover have "\<not> primaryConflict (f d) (filter (\<lambda>e. odId e \<noteq> i) (adDids s))"
    using assms(2,5) by (auto simp: primaryConflict_def list_ex_iff)
  ultimately show ?thesis using assms(2) by (simp add: updateDid_def)
qed

lemma updateAgent_ok:
  assumes ok: "agents_ok (adAgents s)" and a: "a \<in> set (adAgents s)" "oaOrgId a = Some org"
    and f: "oaId (f a) = oaId a" "oaOrgId (f a) = oaOrgId a" "oaAgentsTypeId (f a) = oaAgentsTypeId a"
      "oaOrgAgentTypeId (f a) = oaOrgAgentTypeId a" "references ldId (adLedgers s) (oaLedgerId a) (oaLedgerId (f a))"
  shows "updateAgent (\<lambda>b. oaOrgId b = Some org) f s =
    (Inr (f a), s\<lparr>adAgents := updateWhere (\<lambda>b. oaOrgId b = Some org) f (adAgents s)\<rparr>)"
proof -
  have "agentRow (filter (\<lambda>b. oaId b \<noteq> oaId a) (adAgents s)) a (f a) s = None"
    using ok a f by (auto simp: agentRow_def references_def list_ex_iff dest: agents_same_org)
  moreover have "updateWhere (\<lambda>b. oaId b = oaId a) f (adAgents s) = updateWhere (\<lambda>b. oaOrgId b = Some org) f (adAgents s)"
    unfolding updateWhere_def using ok a by (auto dest: agents_same_org agents_same_id)
  ultimately show ?thesis using agent_of_org [OF ok a] by (simp add: updateAgent_def)
qed

lemma ledgerOf_run:
  "(case didLedgerNamespace (Some did) of Some ns \<Rightarrow> getNetworkByNameSpace ns | None \<Rightarrow> getLedger ''NA'') s =
     (case ledgerOf did s of None \<Rightarrow> (Inl P2025, s) | Some l \<Rightarrow> (Inr l, s))"
  by (auto simp: ledgerOf_def getNetworkByNameSpace_def getLedger_def firstOrThrow_def bind_def split: option.split)

lemma ledgerOf_in: "ledgerOf did s = Some l \<Longrightarrow> l \<in> set (adLedgers s)"
  by (auto simp: ledgerOf_def split: option.splits dest: find_SomeD)

lemma setOrgsPrimaryDid_run:
  assumes inv: "agent_inv s" and ok: "promotable org did rowId s a d l"
    and prev: "previous = (if list_all (\<lambda>e. \<not> odIsPrimaryDid e) (getDids org s) then None else getPerviousPrimaryDid org rowId s)"
  shows "setOrgsPrimaryDid \<lparr>pdDid = did, pdOrgId = org, pdId = rowId, pdDidDocument = odDidDocument d,
      pdNetworkId = Some (ldId l), pdPreviousDidId = map_option odId previous\<rparr> s = (Inr (), promoted org d l s)"
proof -
  have d: "d \<in> set (adDids s)" "odOrgId d = org" "odDid d = did" "odId d = rowId"
    and a: "a \<in> set (adAgents s)" "oaOrgId a = Some org" "oaOrgDid a \<noteq> Some did" and l: "ledgerOf did s = Some l"
    using ok by (simp_all add: promotable_def)
  have dids: "dids_ok (adAgents s) (adDids s)" and agents: "agents_ok (adAgents s)" using inv by (simp_all add: agent_inv_def)
  then have dist: "distinct (map odId (adDids s))" by (simp add: dids_ok_def)
  define dids1 where "dids1 = updateWhere (\<lambda>e. odOrgId e = org \<and> odId e \<noteq> rowId) (\<lambda>e. e\<lparr>odIsPrimaryDid := False\<rparr>) (adDids s)"
  have "\<not> odIsPrimaryDid d" using dids d a unfolding dids_ok_def by auto
  define demote :: "(agent_db, unit) eff" where "demote = (if truthy (map_option odId previous)
    then bind (updateDid (orEmpty (map_option odId previous)) (\<lambda>d. d\<lparr>odIsPrimaryDid := False\<rparr>)) (\<lambda>_. ret ()) else ret ())"
  have demote: "demote s = (Inr (), s\<lparr>adDids := dids1\<rparr>)"
  proof (cases previous)
    case None
    have "\<not> odIsPrimaryDid e" if "e \<in> set (adDids s)" "odOrgId e = org" "odId e \<noteq> rowId" for e
      using prev [symmetric] None that
      by (auto simp: getDids_def getPerviousPrimaryDid_def find_None_iff_all list_all_iff split: if_splits)
    then have "dids1 = adDids s" unfolding dids1_def updateWhere_def by (intro map_idI) auto
    with None show ?thesis by (simp add: demote_def)
  next
    case (Some e)
    then have e: "e \<in> set (adDids s)" "odOrgId e = org" "odIsPrimaryDid e" "odId e \<noteq> rowId"
      using prev by (auto simp: getPerviousPrimaryDid_def split: if_splits dest!: sym [of "Some e"] find_SomeD)
    have "\<not> odIsPrimaryDid x" if "x \<in> set (adDids s)" "odOrgId x = org" "odId x \<noteq> odId e" for x
      using same_primary [OF dids that(1) _ e(1)] that e by auto
    then have "dids1 = updateWhere (\<lambda>x. odId x = odId e) (\<lambda>x. x\<lparr>odIsPrimaryDid := False\<rparr>) (adDids s)"
      unfolding dids1_def updateWhere_def using e dist by (auto dest: distinct_map_eqD)
    moreover have "odId e \<noteq> []" using dids e(1) unfolding dids_ok_def by (metis imageI list.set_map)
    ultimately show ?thesis
      using Some updateDid_ok [OF dist refl e(1) refl, of "\<lambda>d. d\<lparr>odIsPrimaryDid := False\<rparr>"]
      by (simp add: demote_def bind_def)
  qed
  have d1: "d \<in> set dids1" "distinct (map odId dids1)"
    using d(1,4) dist by (auto simp: dids1_def set_updateWhere map_updateWhere_same)
  have others: "odOrgId e \<noteq> org" if "e \<in> set dids1" "odId e \<noteq> rowId" "odIsPrimaryDid e" for e
    using that(1) unfolding dids1_def by (cases rule: in_updateWhereE) (use that in auto)
  have "updateDid rowId (\<lambda>d. d\<lparr>odIsPrimaryDid := True\<rparr>) (s\<lparr>adDids := dids1\<rparr>) =
      (Inr (d\<lparr>odIsPrimaryDid := True\<rparr>), s\<lparr>adDids := updateWhere (\<lambda>e. odId e = rowId) (\<lambda>d. d\<lparr>odIsPrimaryDid := True\<rparr>) dids1\<rparr>)"
    using updateDid_ok [OF d1(2) _ d1(1) d(4), of "s\<lparr>adDids := dids1\<rparr>" "\<lambda>d. d\<lparr>odIsPrimaryDid := True\<rparr>"] d(2) others
    by simp
  moreover have "updateWhere (\<lambda>e. odId e = rowId) (\<lambda>d. d\<lparr>odIsPrimaryDid := True\<rparr>) dids1 = onlyPrimary org rowId (adDids s)"
    unfolding dids1_def onlyPrimary_def updateWhere_def using d dist by (auto dest: distinct_map_eqD)
  ultimately have promote: "updateDid rowId (\<lambda>d. d\<lparr>odIsPrimaryDid := True\<rparr>) (s\<lparr>adDids := dids1\<rparr>) =
      (Inr (d\<lparr>odIsPrimaryDid := True\<rparr>), s\<lparr>adDids := onlyPrimary org rowId (adDids s)\<rparr>)" by simp
  let ?f = "\<lambda>a. a\<lparr>oaOrgDid := Some did, oaDidDocument := Some (odDidDocument d), oaLedgerId := Some (ldId l)\<rparr>"
  have "updateAgent (\<lambda>b. oaOrgId b = Some org) ?f (s\<lparr>adDids := onlyPrimary org rowId (adDids s)\<rparr>) =
      (Inr (?f a), promoted org d l s)"
    using updateAgent_ok [of "s\<lparr>adDids := onlyPrimary org rowId (adDids s)\<rparr>" a org ?f] agents a(1,2) d ledgerOf_in [OF l]
    by (auto simp: promoted_def references_def list_ex_iff)
  moreover have "setOrgsPrimaryDid \<lparr>pdDid = did, pdOrgId = org, pdId = rowId, pdDidDocument = odDidDocument d,
      pdNetworkId = Some (ldId l), pdPreviousDidId = map_option odId previous\<rparr> =
      transact (andThen demote (andThen (updateDid rowId (\<lambda>d. d\<lparr>odIsPrimaryDid := True\<rparr>))
        (andThen (updateAgent (\<lambda>b. oaOrgId b = Some org) ?f) (ret ()))))"
    by (simp add: setOrgsPrimaryDid_def demote_def)
  ultimately show ?thesis using demote promote by (simp add: andThen_def bind_def transact_def)
qed

lemma promoted_inv:
  assumes inv: "agent_inv s" and ok: "promotable org did rowId s a d l"
  shows "agent_inv (promoted org d l s)"
proof -
  let ?f = "\<lambda>a. a\<lparr>oaOrgDid := Some (odDid d), oaDidDocument := Some (odDidDocument d), oaLedgerId := Some (ldId l)\<rparr>"
  let ?agents = "updateWhere (\<lambda>a. oaOrgId a = Some org) ?f (adAgents s)"
  have d: "d \<in> set (adDids s)" "odOrgId d = org" using ok by (simp_all add: promotable_def)
  have dids: "dids_ok (adAgents s) (adDids s)" and agents: "agents_ok (adAgents s)"
    and jobs: "jobs_ok (adAgents s) (adDids s) (adSpinUps s)" using inv by (simp_all add: agent_inv_def)
  define dids1 where "dids1 = updateWhere (\<lambda>e. odOrgId e = org) (\<lambda>e. e\<lparr>odIsPrimaryDid := False\<rparr>) (adDids s)"
  have "dids_ok (adAgents s) dids1" unfolding dids1_def using dids by (intro dids_ok_update) simp_all
  moreover have "\<not> odIsPrimaryDid e" if "e \<in> set dids1" "odOrgId e = org" for e
    using that(1) unfolding dids1_def by (cases rule: in_updateWhereE) (use that in auto)
  ultimately have "dids_ok ?agents dids1" by (intro dids_ok_update_agents) auto
  moreover have "onlyPrimary org (odId d) (adDids s) = updateWhere (\<lambda>e. odId e = odId d) (\<lambda>e. e\<lparr>odIsPrimaryDid := True\<rparr>) dids1"
    unfolding dids1_def onlyPrimary_def updateWhere_def using dids d
    by (auto simp: dids_ok_def dest: distinct_map_eqD)
  moreover have "oaOrgDid c = Some (odDid e)"
    if "e \<in> set dids1" "odId e = odId d" "c \<in> set ?agents" "oaOrgId c = Some (odOrgId e)" for e c
  proof -
    note member = that(1)
    obtain e0 where e0: "e0 \<in> set (adDids s)" "odId e0 = odId e" "odOrgId e0 = odOrgId e" "odDid e0 = odDid e"
      using member unfolding dids1_def by (cases rule: in_updateWhereE) auto
    have "distinct (map odId (adDids s))" using dids by (simp add: dids_ok_def)
    from distinct_map_eqD [OF this e0(1) d(1)] e0(2) that(2) have "e0 = d" by simp
    with e0 d(2) have "odOrgId e = org" "odDid e = odDid d" by simp_all
    with that(3,4) show ?thesis by (auto elim!: in_updateWhereE)
  qed
  ultimately have "dids_ok ?agents (onlyPrimary org (odId d) (adDids s))"
    using dids_ok_update [of ?agents dids1 "\<lambda>e. e\<lparr>odIsPrimaryDid := True\<rparr>"] by simp
  moreover have "jobs_ok ?agents (onlyPrimary org (odId d) (adDids s)) (adSpinUps s)"
  proof -
    have "jobs_ok (adAgents s) (updateWhere (\<lambda>e. odOrgId e = org) (\<lambda>e. e\<lparr>odIsPrimaryDid := (odId e = odId d)\<rparr>) (adDids s)) (adSpinUps s)"
      using jobs by (rule jobs_ok_update_dids) simp
    then have "jobs_ok (adAgents s) (onlyPrimary org (odId d) (adDids s)) (adSpinUps s)"
      by (simp add: onlyPrimary_def updateWhere_def)
    moreover from this have "oaOrgAgentTypeId (?f c) = None \<and> oaApiKey (?f c) = None"
      if "c \<in> set (adAgents s)" "j \<in> set (adSpinUps s)" "oaId c = suAgentId j" for c j
      using that by (simp add: jobs_ok_def)
    ultimately show ?thesis by (intro jobs_ok_update_agents) simp_all
  qed
  moreover have "agents_ok ?agents" using agents by (intro agents_ok_update) simp_all
  ultimately show ?thesis by (simp add: agent_inv_def promoted_def)
qed

lemma setPrimaryDid_run:
  assumes inv: "agent_inv s" and ok: "promotable org did rowId s a d l"
  shows "setPrimaryDid org did rowId s = (Inr (), promoted org d l s)"
proof -
  have d: "d \<in> set (adDids s)" "odOrgId d = org" "odDid d = did" "odId d = rowId"
    and a: "a \<in> set (adAgents s)" "oaOrgId a = Some org" "oaOrgDid a \<noteq> Some did" and l: "ledgerOf did s = Some l"
    and org: "list_ex (\<lambda>r. woId r = org) (adOrgs s)"
    using ok by (simp_all add: promotable_def)
  have dids: "dids_ok (adAgents s) (adDids s)" and agents: "agents_ok (adAgents s)" using inv by (simp_all add: agent_inv_def)
  have exists: "ensureOrganizationExists org s = (Inr (), s)"
    using org by (auto simp: ensureOrganizationExists_def getOrgProfile_def bind_def find_None_iff_all list_ex_iff)
  have other: "ensureNotExistingPrimaryDid org did s = (Inr (), s)"
    using agent_of_org [OF agents a(1,2)] a(3)
    by (simp add: ensureNotExistingPrimaryDid_def getAgentEndPoint_def firstOrThrow_def bind_def)
  have belongs: "ensureDidBelongsToOrg org did s = (Inr (), s)"
    using d by (auto simp: ensureDidBelongsToOrg_def getAllOrganizationDid_def bind_def list_ex_iff)
  have "distinct (map (\<lambda>d. (odOrgId d, odDid d)) (adDids s))" using dids by (simp add: dids_ok_def)
  from find_distinct [OF this d(1)] have row: "getDidDetailsByDid org did s = (Inr d, s)"
    using d by (simp add: getDidDetailsByDid_def firstOrThrow_def bind_def)
  show ?thesis
    using setOrgsPrimaryDid_run [OF inv ok refl] exists other belongs row d(4) l ledgerOf_run [of did s]
    by (simp add: setPrimaryDid_def rpc_def tryCatch_def andThen_def bind_def Let_def cong: if_cong)
qed

lemma after_read:
  assumes "bind m f s = (r, t)" and "moves (=) m"
  obtains (raised) e where "r = Inl e" "t = s" | (went_on) x where "m s = (Inr x, s)" "f x s = (r, t)"
  using assms(1)
proof (cases rule: bind_cases)
  case (raised e)
  from movesD [OF assms(2) raised(1)] have "t = s" by simp
  with raised(2) show thesis by (rule that(1))
next
  case (went_on x s1)
  from movesD [OF assms(2) went_on(1)] have "s1 = s" by simp
  with went_on show thesis by (intro that(2) [of x]) simp_all
qed

lemma rpc_run: "rpc m s = (r, t) \<Longrightarrow> (\<exists>e e'. r = Inl e \<and> m s = (Inl e', t)) \<or> m s = (r, t)"
  by (auto simp: rpc_def tryCatch_def split: prod.splits sum.splits)

lemma moves_ensure:
  "moves (=) (ensureOrganizationExists org)" "moves (=) (ensureNotExistingPrimaryDid org did)"
  "moves (=) (ensureDidBelongsToOrg org did)" "moves (=) (getDidDetailsByDid org did)"
  unfolding ensureOrganizationExists_def ensureNotExistingPrimaryDid_def ensureDidBelongsToOrg_def getAgentEndPoint_def
    getDidDetailsByDid_def
  by (intro same.moves_rules same.moves_lookups)+

text \<open>A call either meets these conditions or raises before it writes.\<close>

lemma setPrimaryDid_cases:
  assumes run: "setPrimaryDid org did rowId s = (r, t)"
  obtains (raised) e where "r = Inl e" "t = s" | (fit) a d l where "promotable org did rowId s a d l"
proof -
  let ?last = "\<lambda>d. if odId d \<noteq> rowId then throw (BadRequestException ''didIdMismatch'')
    else bind (reads (getDids org)) (\<lambda>dids.
         let none = list_all (\<lambda>d. \<not> odIsPrimaryDid d) dids
         in bind (case didLedgerNamespace (Some did) of Some ns \<Rightarrow> getNetworkByNameSpace ns | None \<Rightarrow> getLedger ''NA'') (\<lambda>network.
            bind (reads (\<lambda>db. if none then None else getPerviousPrimaryDid org rowId db)) (\<lambda>previous.
            setOrgsPrimaryDid \<lparr>pdDid = did, pdOrgId = org, pdId = rowId, pdDidDocument = odDidDocument d,
              pdNetworkId = Some (ldId network), pdPreviousDidId = map_option odId previous\<rparr>)))"
  let ?m = "bind (ensureOrganizationExists org) (\<lambda>_. bind (ensureNotExistingPrimaryDid org did) (\<lambda>_.
    bind (ensureDidBelongsToOrg org did) (\<lambda>_. bind (getDidDetailsByDid org did) ?last)))"
  have def: "setPrimaryDid org did rowId = rpc ?m" by (simp add: setPrimaryDid_def andThen_def)
  consider e where "r = Inl e" "t = s" | u r' where "?m s = (r', t)" "r' = Inr u" | e' where "?m s = (Inl e', t)" "isl r"
    using rpc_run [of ?m s r t] run unfolding def by (cases r) auto
  then consider e where "r = Inl e" "t = s" | r' where "?m s = (r', t)" "isl r \<or> \<not> isl r'"
    by cases auto
  then show thesis
  proof cases
    case 1
    then show thesis by (rule raised)
  next
    case 2
    have stop: thesis if "isl r'" "t = s"
      using that 2(2) by (cases r) (auto intro: raised)
    from 2(1) moves_ensure(1) show thesis
    proof (cases rule: after_read)
      case (raised e)
      then show thesis by (intro stop) simp_all
    next
      case org: (went_on u1)
      from org(2) moves_ensure(2) show thesis
      proof (cases rule: after_read)
        case (raised e)
        then show thesis by (intro stop) simp_all
      next
        case agent: (went_on u2)
        from agent(2) moves_ensure(3) show thesis
        proof (cases rule: after_read)
          case (raised e)
          then show thesis by (intro stop) simp_all
        next
          case belongs: (went_on u3)
          from belongs(2) moves_ensure(4) show thesis
          proof (cases rule: after_read)
            case (raised e)
            then show thesis by (intro stop) simp_all
          next
            case row: (went_on d)
            have facts: "list_ex (\<lambda>r. woId r = org) (adOrgs s)"
              using org(1) by (auto simp: ensureOrganizationExists_def getOrgProfile_def bind_def list_ex_iff
                  split: if_splits dest: find_SomeD)
            obtain a where a: "a \<in> set (adAgents s)" "oaOrgId a = Some org" "oaOrgDid a \<noteq> Some did"
              using agent(1) by (auto simp: ensureNotExistingPrimaryDid_def getAgentEndPoint_def firstOrThrow_def bind_def
                  split: if_splits option.splits dest: find_SomeD)
            have d: "d \<in> set (adDids s)" "odOrgId d = org" "odDid d = did"
              using row(1) by (auto simp: getDidDetailsByDid_def firstOrThrow_def bind_def split: option.splits dest: find_SomeD)
            show thesis
            proof (cases "odId d = rowId")
              case False
              with row(2) show thesis by (intro stop) auto
            next
              case True
              show thesis
              proof (cases "ledgerOf did s")
                case None
                with row(2) True ledgerOf_run [of did s] show thesis by (intro stop) (auto simp: bind_def)
              next
                case (Some l)
                with facts a d True have "promotable org did rowId s a d l" by (simp add: promotable_def)
                then show thesis by (rule fit)
              qed
            qed
          qed
        qed
      qed
    qed
  qed
qed

lemma setPrimaryDid_inv: "ends agent_inv (setPrimaryDid org did rowId) agent_inv"
  unfolding ends_def
proof (intro allI impI)
  fix s
  assume inv: "agent_inv s"
  obtain r t where run: "setPrimaryDid org did rowId s = (r, t)" by fastforce
  then show "agent_inv (snd (setPrimaryDid org did rowId s))"
  proof (cases rule: setPrimaryDid_cases)
    case (raised e)
    with run inv show ?thesis by simp
  next
    case (fit a d l)
    with setPrimaryDid_run [OF inv fit] promoted_inv [OF inv fit] show ?thesis by simp
  qed
qed

section \<open>All steps\<close>

lemma verifyDedicatedToken_target:
  assumes "verifyDedicatedToken env org token ep s = (Inr x, t)"
  shows "t = s \<and> ttTypeId x \<noteq> None"
proof -
  have "moves (=) (verifyDedicatedToken env org token ep)"
    unfolding verifyDedicatedToken_def by (intro same.moves_rules same.moves_lookups)
  then have "t = s" using assms by (metis moves_def snd_conv)
  moreover have "ttTypeId x \<noteq> None"
    using assms
    by (auto simp: verifyDedicatedToken_def andThen_def check_def bind_def Let_def
        split: option.splits if_splits prod.splits sum.splits)
  ultimately show ?thesis by simp
qed

lemma storeDedicatedToken_inv:
  assumes "ttTypeId x \<noteq> None"
  shows "moves (\<lambda>s t. agent_inv s \<longrightarrow> agent_inv t) (storeDedicatedToken org x)"
proof -
  have "agent_inv (s\<lparr>adAgents := updateWhere (\<lambda>a. oaOrgId a = Some org \<and> oaEndPoint a = ttEndPoint x \<and> oaOrgAgentTypeId a = ttTypeId x)
      (\<lambda>a. a\<lparr>oaApiKey := Some k\<rparr>) (adAgents s)\<rparr>)" if "agent_inv s" for s k
    using that assms
    by (intro agent_inv_update_agents) (auto simp: agent_inv_def dids_ok_def jobs_ok_def)
  then show ?thesis
    unfolding storeDedicatedToken_def updateVerifiedTenantToken_def
    by (intro invar.moves_rules invar.moves_writes) simp
qed

lemma setDedicatedAgentToken_inv: "ends agent_inv (setDedicatedAgentToken env org token ep) agent_inv"
  unfolding setDedicatedAgentToken_def
proof (rule ends_rpc, unfold ends_def, intro allI impI)
  fix s
  assume inv: "agent_inv s"
  obtain r t where run: "verifyDedicatedToken env org token ep s = (r, t)" by fastforce
  have "moves (=) (verifyDedicatedToken env org token ep)"
    unfolding verifyDedicatedToken_def by (intro same.moves_rules same.moves_lookups)
  then have "t = s" using run by (metis moves_def snd_conv)
  show "agent_inv (snd (bind (verifyDedicatedToken env org token ep) (storeDedicatedToken org) s))"
  proof (cases r)
    case (Inl e)
    with run \<open>t = s\<close> inv show ?thesis by (simp add: bind_def)
  next
    case (Inr x)
    with run \<open>t = s\<close> have "bind (verifyDedicatedToken env org token ep) (storeDedicatedToken org) s = storeDedicatedToken org x s"
      by (intro bind_Inr) simp
    moreover have "ttTypeId x \<noteq> None" using verifyDedicatedToken_target run Inr by blast
    ultimately show ?thesis using storeDedicatedToken_inv [of x org] inv by (simp add: moves_def)
  qed
qed

lemma ends_quiet: "ends A m B \<Longrightarrow> ends A (quiet m) B"
  unfolding quiet_def by (intro ends_bind [where C = B] ends_stop)

lemma ends_weaken: "ends A m B \<Longrightarrow> (\<And>s. A' s \<Longrightarrow> A s) \<Longrightarrow> ends A' m B"
  by (simp add: ends_def)

lemma agent_run_inv: "ends (ready (gUuid env 0)) (agent_run env c) agent_inv"
  by (cases c) (auto intro!: ends_quiet intro: createTenant_inv agentConfigure_inv walletProvision_inv
      ends_weaken [OF createDid_inv] ends_weaken [OF generateWebDid_inv] ends_weaken [OF setPrimaryDid_inv]
      ends_weaken [OF setDedicatedAgentToken_inv] ends_weaken [OF deleteWallet_inv] ready_inv)

interpretation agent_runs: invariant_system agent_start agent_step agent_inv
proof
  fix s
  assume "agent_start s"
  then show "agent_inv s" by (simp add: agent_start_def agent_inv_def agents_ok_def dids_ok_def jobs_ok_def)
next
  fix s t
  assume "agent_inv s" and "agent_step s t"
  from this(2,1) show "agent_inv t"
  proof cases
    case (call env c)
    with \<open>agent_inv s\<close> agent_run_inv [of env c] show ?thesis
      by (auto simp: ends_def ready_def fresh_uuid_def list_all_iff)
  next
    case (spin_up before job after env)
    with \<open>agent_inv s\<close> show ?thesis by (simp add: agentSpinup_inv)
  next
    case (late_token env org token ep db0 x db1)
    with \<open>agent_inv s\<close> storeDedicatedToken_inv [of x org] verifyDedicatedToken_target show ?thesis
      by (auto simp: moves_def)
  next
    case others
    with \<open>agent_inv s\<close> show ?thesis by (simp add: agent_inv_def)
  qed
qed

end
