(* ===== verification/Agent_Safety.thy ===== *)
theory Agent_Safety
  imports Agent_Invariant
begin

text \<open>
  Properties of the wallet tables: their consistency in every reachable state, what \<open>setPrimaryDid\<close> does to the primary
  DID of each organisation, that a repeated \<open>createDid\<close> repairs and never duplicates, which tokens
  \<open>setDedicatedAgentToken\<close> stores, and what \<open>deleteWallet\<close> leaves when the agent refuses.
\<close>

section \<open>The abstract primary DID\<close>

definition primaryDid :: "agent_db \<Rightarrow> string \<Rightarrow> string option" where
  "primaryDid db org = map_option odDid (List.find (\<lambda>d. odOrgId d = org \<and> odIsPrimaryDid d) (adDids db))"

definition agentDid :: "agent_db \<Rightarrow> string \<Rightarrow> string option" where
  "agentDid db org = Option.bind (List.find (\<lambda>a. oaOrgId a = Some org) (adAgents db)) oaOrgDid"

lemma reachable_agent_inv: "reachable_from agent_start agent_step db \<Longrightarrow> agent_inv db"
  by (rule agent_runs.reachable_inv)

lemma find_map_same:
  assumes "\<And>x. x \<in> set xs \<Longrightarrow> p (f x) = q x"
  shows "List.find p (map f xs) = map_option f (List.find q xs)"
  using assms by (induction xs) auto

lemma primaryDid_promoted:
  assumes inv: "agent_inv db" and fit: "promotable org did rowId db a d l"
  shows "primaryDid (promoted org d l db) = (primaryDid db)(org := Some did)"
proof
  fix o'
  let ?f = "\<lambda>x. if odOrgId x = org then x\<lparr>odIsPrimaryDid := (odId x = odId d)\<rparr> else x"
  have d: "d \<in> set (adDids db)" "odOrgId d = org" "odDid d = did" using fit by (simp_all add: promotable_def)
  have dist: "distinct (map odId (adDids db))" using inv by (simp add: agent_inv_def dids_ok_def)
  show "primaryDid (promoted org d l db) o' = ((primaryDid db)(org := Some did)) o'"
  proof (cases "o' = org")
    case True
    have "List.find (\<lambda>x. odOrgId x = org \<and> odIsPrimaryDid x) (map ?f (adDids db)) =
        map_option ?f (List.find (\<lambda>x. odId x = odId d) (adDids db))"
      by (rule find_map_same) (use d dist in \<open>auto dest: distinct_map_eqD\<close>)
    also have "List.find (\<lambda>x. odId x = odId d) (adDids db) = Some d" by (rule find_distinct [OF dist d(1)])
    finally show ?thesis using True d by (simp add: primaryDid_def promoted_def onlyPrimary_def)
  next
    case False
    have "List.find (\<lambda>x. odOrgId x = o' \<and> odIsPrimaryDid x) (map ?f (adDids db)) =
        map_option ?f (List.find (\<lambda>x. odOrgId x = o' \<and> odIsPrimaryDid x) (adDids db))"
      by (rule find_map_same) (use False in auto)
    with False show ?thesis
      by (cases "List.find (\<lambda>x. odOrgId x = o' \<and> odIsPrimaryDid x) (adDids db)")
        (auto simp: primaryDid_def promoted_def onlyPrimary_def)
  qed
qed

lemma agentDid_promoted:
  assumes inv: "agent_inv db" and fit: "promotable org did rowId db a d l"
  shows "agentDid (promoted org d l db) = (agentDid db)(org := Some did)"
proof
  fix o'
  let ?g = "\<lambda>a. a\<lparr>oaOrgDid := Some (odDid d), oaDidDocument := Some (odDidDocument d), oaLedgerId := Some (ldId l)\<rparr>"
  let ?f = "\<lambda>a. if oaOrgId a = Some org then ?g a else a"
  have a: "a \<in> set (adAgents db)" "oaOrgId a = Some org" "odDid d = did" using fit by (simp_all add: promotable_def)
  have "agents_ok (adAgents db)" using inv by (simp add: agent_inv_def)
  note found = agent_of_org [OF this a(1,2)]
  have "List.find (\<lambda>x. oaOrgId x = Some o') (map ?f (adAgents db)) =
      map_option ?f (List.find (\<lambda>x. oaOrgId x = Some o') (adAgents db))"
    by (rule find_map_same) simp
  then show "agentDid (promoted org d l db) o' = ((agentDid db)(org := Some did)) o'"
    using found a
    by (cases "List.find (\<lambda>x. oaOrgId x = Some o') (adAgents db)")
      (auto simp: agentDid_def promoted_def updateWhere_def dest: find_SomeD)
qed

section \<open>Properties\<close>

text \<open>
  C19. In every reachable state of the agent and organisation services each organisation has at most one wallet agent, every
  DID belongs to the agent of its own organisation and is stored once there, at most one DID of an organisation is
  primary, and that is the DID the agent's row carries.
\<close>

theorem wallet_invariant:
  assumes "reachable_from agent_start agent_step db"
  shows "distinct (map oaOrgId (adAgents db)) \<and>
    distinct (map (\<lambda>d. (odOrgId d, odDid d)) (adDids db)) \<and>
    (\<forall>d \<in> set (adDids db). \<exists>a \<in> set (adAgents db). oaId a = odOrgAgentId d \<and> oaOrgId a = Some (odOrgId d)) \<and>
    (\<forall>d \<in> set (adDids db). \<forall>e \<in> set (adDids db).
       odIsPrimaryDid d \<and> odIsPrimaryDid e \<and> odOrgId d = odOrgId e \<longrightarrow> d = e) \<and>
    (\<forall>d \<in> set (adDids db). odIsPrimaryDid d \<longrightarrow> agentDid db (odOrgId d) = Some (odDid d))"
proof -
  have agents: "agents_ok (adAgents db)" and dids: "dids_ok (adAgents db) (adDids db)"
    using reachable_agent_inv [OF assms] by (simp_all add: agent_inv_def)
  have "agentDid db (odOrgId d) = Some (odDid d)" if d: "d \<in> set (adDids db)" "odIsPrimaryDid d" for d
  proof -
    obtain a where a: "a \<in> set (adAgents db)" "oaOrgId a = Some (odOrgId d)" using dids d(1) by (auto simp: dids_ok_def)
    with primary_orgDid [OF dids d] agent_of_org [OF agents a] show ?thesis by (simp add: agentDid_def)
  qed
  moreover have "distinct (map oaOrgId (adAgents db))" using agents by (simp add: agents_ok_def)
  moreover have "distinct (map (\<lambda>d. (odOrgId d, odDid d)) (adDids db))"
    "\<forall>d \<in> set (adDids db). \<exists>a \<in> set (adAgents db). oaId a = odOrgAgentId d \<and> oaOrgId a = Some (odOrgId d)"
    using dids by (simp_all add: dids_ok_def)
  ultimately show ?thesis using same_primary [OF dids] by blast
qed

text \<open>
  C20. \<open>setPrimaryDid\<close> refines the update of one entry of the map from organisations to primary DIDs: in a reachable state it
  returns exactly when the organisation exists, its agent carries another DID, the given row holds the given DID for
  that organisation and the DID's ledger is known; it then changes the primary DID, and the DID in the agent's row, of
  this organisation and of no other. When it raises, nothing has changed.
\<close>

theorem setPrimaryDid_refines:
  assumes "reachable_from agent_start agent_step db"
  shows "(case setPrimaryDid org did rowId db of
      (Inr _, t) \<Rightarrow> (\<exists>a d l. promotable org did rowId db a d l) \<and> primaryDid t = (primaryDid db)(org := Some did) \<and>
        agentDid t = (agentDid db)(org := Some did)
    | (Inl _, t) \<Rightarrow> (\<nexists>a d l. promotable org did rowId db a d l) \<and> t = db)"
proof -
  note inv = reachable_agent_inv [OF assms]
  obtain r t where run: "setPrimaryDid org did rowId db = (r, t)" by fastforce
  show ?thesis
  proof (cases "\<exists>a d l. promotable org did rowId db a d l")
    case True
    then obtain a d l where fit: "promotable org did rowId db a d l" by blast
    with setPrimaryDid_run [OF inv fit] primaryDid_promoted [OF inv fit] agentDid_promoted [OF inv fit]
    show ?thesis by auto
  next
    case False
    from run show ?thesis by (cases rule: setPrimaryDid_cases) (use run False in auto)
  qed
qed

lemma updateWhere_same:
  assumes "\<And>x. x \<in> set xs \<Longrightarrow> p x \<Longrightarrow> f x = x"
  shows "updateWhere p f xs = xs"
  unfolding updateWhere_def by (rule map_idI) (use assms in auto)

lemma stored_again: "stored p (stored p d) = stored p d"
  by (cases "sdIsPrimaryDid p"; cases "sdDidDocument p") (simp_all add: stored_def)

lemma orgAgentData_again: "orgAgentData p d l False (orgAgentData p d l u a) = orgAgentData p d l u a"
  by (simp add: orgAgentData_def Let_def)

text \<open>After a successful write the stored row is the one a repeated call finds.\<close>

lemma persist_row:
  assumes inv: "agent_inv s" and target: "did_target p ex a s"
    and run: "persistDidWithUpdates uuid p ex ledgerId upd s = (Inr d, t)"
  shows "d \<in> set (adDids t)" "odOrgId d = sdOrgId p" "odDid d = sdDid p" "stored p d = d"
    "\<And>e. sdIsPrimaryDid p = Some True \<Longrightarrow> e \<in> set (adDids t) \<Longrightarrow> odOrgId e = sdOrgId p \<Longrightarrow> odDid e \<noteq> sdDid p \<Longrightarrow> \<not> odIsPrimaryDid e"
    "adAgents t = updateWhere (\<lambda>c. oaId c = oaId a) (orgAgentData p d ledgerId upd) (adAgents s)"
proof -
  obtain s2 where s2: "storeDid uuid p ex (s\<lparr>adDids := demoted p (adDids s)\<rparr>) = (Inr d, s2)"
    "t = s2\<lparr>adAgents := updateWhere (\<lambda>c. oaId c = oaId a) (orgAgentData p d ledgerId upd) (adAgents s)\<rparr>"
    using persist_rows [OF inv target run] by blast
  note dids = storeDid_dids [OF inv target s2(1)]
  show "odOrgId d = sdOrgId p" "odDid d = sdDid p" by (rule dids)+
  show "adAgents t = updateWhere (\<lambda>c. oaId c = oaId a) (orgAgentData p d ledgerId upd) (adAgents s)"
    using s2(2) by simp
  have old: "\<not> odIsPrimaryDid e"
    if "sdIsPrimaryDid p = Some True" "e \<in> set (demoted p (adDids s))" "odOrgId e = sdOrgId p" "odDid e \<noteq> sdDid p" for e
    using that(2) by (cases rule: demotedE) (use that in auto)
  from s2(1) have "d \<in> set (adDids s2) \<and> stored p d = d \<and>
    (\<forall>e \<in> set (adDids s2). sdIsPrimaryDid p = Some True \<longrightarrow> odOrgId e = sdOrgId p \<longrightarrow> odDid e \<noteq> sdDid p \<longrightarrow> \<not> odIsPrimaryDid e)"
  proof (cases rule: storeDid_cases)
    case (updated e d0)
    then have "d \<in> set (adDids s2)" by (auto simp: set_updateWhere)
    moreover have "\<not> odIsPrimaryDid x" if x: "x \<in> set (adDids s2)"
      and p: "sdIsPrimaryDid p = Some True" "odOrgId x = sdOrgId p" "odDid x \<noteq> sdDid p" for x
    proof -
      have "x \<in> set (updateWhere (\<lambda>x. odId x = odId e) (stored p) (demoted p (adDids s)))" using x updated(5) by simp
      then show ?thesis
      proof (cases rule: in_updateWhereE)
        case (1 y)
        have "y = d0"
        proof -
          have "distinct (map odId (demoted p (adDids s)))"
            using inv by (simp add: demoted_keys agent_inv_def dids_ok_def)
          moreover have "d0 \<in> set (demoted p (adDids s))" using updated(2) by simp
          ultimately show ?thesis using 1(1,2) updated(3) by (simp add: distinct_map_eqD)
        qed
        with 1 p updated(4) dids(1) show ?thesis by simp
      next
        case 2
        with p old show ?thesis by simp
      qed
    qed
    ultimately show ?thesis using updated(4) stored_again by blast
  next
    case (inserted doc b)
    have "stored p d = d" using inserted by (simp add: stored_def)
    moreover have "\<not> odIsPrimaryDid x" if x: "x \<in> set (adDids s2)"
      and p: "sdIsPrimaryDid p = Some True" "odOrgId x = sdOrgId p" "odDid x \<noteq> sdDid p" for x
    proof (cases "x = d")
      case True
      with p dids(1) show ?thesis by simp
    next
      case False
      with x inserted(5) have "x \<in> set (demoted p (adDids s))" by simp
      with p old show ?thesis by simp
    qed
    ultimately show ?thesis using inserted(5) by auto
  qed
  then show "d \<in> set (adDids t)" "stored p d = d"
    "\<And>e. sdIsPrimaryDid p = Some True \<Longrightarrow> e \<in> set (adDids t) \<Longrightarrow> odOrgId e = sdOrgId p \<Longrightarrow> odDid e \<noteq> sdDid p \<Longrightarrow> \<not> odIsPrimaryDid e"
    using s2(2) by auto
qed

text \<open>
  C22. A repeated \<open>createDid\<close> reconciles: when \<open>persistDidWithUpdates\<close> has stored a DID, a later attempt with the same answer of
  the agent finds the stored row, returns it and changes nothing, so that a retry neither fails on a duplicate nor
  leaves two primary DIDs. An attempt that raises leaves the tables as they were.
\<close>

theorem did_retry_idempotent:
  assumes "reachable_from agent_start agent_step db" and "did_target p ex a db"
  shows "(case persistDidWithUpdates uuid p ex ledgerId upd db of
      (Inr d, t) \<Rightarrow> persistDidWithUpdates uuid' p (List.find (\<lambda>d. odDid d = sdDid p) (getOrgDid (sdOrgId p) t)) ledgerId False t = (Inr d, t)
    | (Inl _, t) \<Rightarrow> t = db)"
proof -
  note inv = reachable_agent_inv [OF assms(1)]
  obtain r t where run: "persistDidWithUpdates uuid p ex ledgerId upd db = (r, t)" by fastforce
  show ?thesis
  proof (cases r)
    case (Inl e)
    with run have "t = db" by (auto elim: persist_cases)
    with run Inl show ?thesis by simp
  next
    case (Inr d)
    with run have run': "persistDidWithUpdates uuid p ex ledgerId upd db = (Inr d, t)" by simp
    note row = persist_row [OF inv assms(2) run']
    have inv_t: "agent_inv t" by (rule persist_inv [OF inv assms(2) run])
    then have dids: "dids_ok (adAgents t) (adDids t)" and agents: "agents_ok (adAgents t)" by (simp_all add: agent_inv_def)
    have dist: "distinct (map odId (adDids t))" using dids by (simp add: dids_ok_def)
    have unique: "e = d" if "e \<in> set (adDids t)" "odOrgId e = sdOrgId p" "odDid e = sdDid p" for e
      using dids row(1-3) that distinct_map_eqD [of "\<lambda>d. (odOrgId d, odDid d)" "adDids t" e d] by (simp add: dids_ok_def)
    have ex': "List.find (\<lambda>d. odDid d = sdDid p) (getOrgDid (sdOrgId p) t) = Some d"
    proof -
      have "List.find (\<lambda>d. odDid d = sdDid p) (getOrgDid (sdOrgId p) t) \<noteq> None"
        using row(1-3) by (auto simp: find_None_iff_all getOrgDid_def)
      then obtain e where e: "List.find (\<lambda>d. odDid d = sdDid p) (getOrgDid (sdOrgId p) t) = Some e" by blast
      with unique [of e] find_SomeD [OF e] show ?thesis by (simp add: getOrgDid_def)
    qed
    have same1: "demoted p (adDids t) = adDids t"
      unfolding demoted_def using row(5) by (auto intro!: updateWhere_same)
    have conflict: "odOrgId e \<noteq> odOrgId d"
      if "e \<in> set (adDids t)" "odId e \<noteq> odId d" "odIsPrimaryDid (stored p d)" "odIsPrimaryDid e" for e
      using same_primary [OF dids that(1,4) row(1)] that row(4) by auto
    have same2: "updateWhere (\<lambda>e. odId e = odId d) (stored p) (adDids t) = adDids t"
      using dist row(1,4) by (intro updateWhere_same) (auto dest: distinct_map_eqD)
    have store: "storeDid uuid' p (Some d) t = (Inr d, t)"
      using updateDid_ok [OF dist refl row(1) refl, of "stored p"] conflict same2 row(4) by (simp add: storeDid_def)
    let ?f = "orgAgentData p d ledgerId False"
    let ?a = "orgAgentData p d ledgerId upd a"
    have a: "a \<in> set (adAgents db)" "oaOrgId a = Some (sdOrgId p)" using assms(2) by (simp_all add: did_target_def)
    then have a_t: "?a \<in> set (adAgents t)" "oaOrgId ?a = Some (sdOrgId p)" using row(6) by (auto simp: set_updateWhere)
    have again: "?f c = c" if "c \<in> set (adAgents t)" "oaOrgId c = Some (sdOrgId p)" for c
      using agents_same_org [OF agents that(1) a_t(1)] that(2) a_t(2) orgAgentData_again by simp
    then have "updateWhere (\<lambda>b. oaOrgId b = Some (sdOrgId p)) ?f (adAgents t) = adAgents t"
      by (intro updateWhere_same) simp
    moreover have "oaLedgerId (?f ?a) = oaLedgerId ?a" "oaAgentsTypeId (?f ?a) = oaAgentsTypeId ?a"
      using orgAgentData_again by simp_all
    ultimately have agent: "updateAgent (\<lambda>b. oaOrgId b = Some (sdOrgId p)) ?f t = (Inr (?f ?a), t)"
      using updateAgent_ok [OF agents a_t, of ?f] by (simp add: references_def)
    have "persistDidWithUpdates uuid' p (Some d) ledgerId False t = (Inr d, t)"
      using store agent same1 by (simp add: persistDidWithUpdates_def transact_def andThen_def bind_def)
    with run' ex' show ?thesis by simp
  qed
qed

text \<open>
  When \<open>createDid\<close> is repeated for the primary DID of an organisation without asking for a primary DID, the row loses its
  flag: the organisation is left without a primary DID, and \<open>setPrimaryDid\<close> refuses to restore it, because the
  agent's row still carries the DID.
\<close>

theorem demoted_primary_stuck:
  assumes "reachable_from agent_start agent_step db" and target: "did_target p (Some e) a db" and "odIsPrimaryDid e"
    and "sdIsPrimaryDid p = Some False" and org: "list_ex (\<lambda>r. woId r = sdOrgId p) (adOrgs db)"
    and run: "persistDidWithUpdates uuid p (Some e) ledgerId upd db = (Inr d, t)"
  shows "primaryDid t (sdOrgId p) = None \<and>
    setPrimaryDid (sdOrgId p) (sdDid p) (odId d) t = (Inl (RpcException 409 ''primaryDid''), t)"
proof -
  note inv = reachable_agent_inv [OF assms(1)]
  note row = persist_row [OF inv target run]
  have inv_t: "agent_inv t" by (rule persist_inv [OF inv target run])
  have dids: "dids_ok (adAgents db) (adDids db)" using inv by (simp add: agent_inv_def)
  have e: "e \<in> set (adDids db)" "odOrgId e = sdOrgId p" "odDid e = sdDid p"
    using target by (auto simp: did_target_def getOrgDid_def dest!: sym [of "Some e"] find_SomeD)
  obtain s2 where s2: "storeDid uuid p (Some e) (db\<lparr>adDids := demoted p (adDids db)\<rparr>) = (Inr d, s2)"
    "t = s2\<lparr>adAgents := updateWhere (\<lambda>c. oaId c = oaId a) (orgAgentData p d ledgerId upd) (adAgents db)\<rparr>"
    using persist_rows [OF inv target run] by blast
  from s2(1) have dids_t: "adDids t = updateWhere (\<lambda>x. odId x = odId e) (stored p) (adDids db) \<and> adOrgs t = adOrgs db"
  proof (cases rule: storeDid_cases)
    case (updated e' d0)
    with s2(2) assms(4) show ?thesis by (simp add: demoted_def)
  qed simp
  have "\<not> odIsPrimaryDid x" if x: "x \<in> set (adDids t)" "odOrgId x = sdOrgId p" for x
  proof -
    have "x \<in> set (updateWhere (\<lambda>x. odId x = odId e) (stored p) (adDids db))" using x dids_t by simp
    then show ?thesis
    proof (cases rule: in_updateWhereE)
      case 1
      with assms(4) show ?thesis by simp
    next
      case 2
      with same_primary [OF dids 2(1) _ e(1) assms(3)] x(2) e(2) show ?thesis by auto
    qed
  qed
  then have "List.find (\<lambda>d. odOrgId d = sdOrgId p \<and> odIsPrimaryDid d) (adDids t) = None"
    by (auto simp: find_None_iff_all)
  moreover have "ensureOrganizationExists (sdOrgId p) t = (Inr (), t)"
    using org dids_t by (auto simp: ensureOrganizationExists_def getOrgProfile_def bind_def find_None_iff_all list_ex_iff)
  moreover have "ensureNotExistingPrimaryDid (sdOrgId p) (sdDid p) t = (Inl (ConflictException ''primaryDid''), t)"
  proof -
    have a: "a \<in> set (adAgents db)" "oaOrgId a = Some (sdOrgId p)" using target by (simp_all add: did_target_def)
    then have a_t: "orgAgentData p d ledgerId upd a \<in> set (adAgents t)" using row(6) by (auto simp: set_updateWhere)
    have "oaOrgDid a = Some (sdDid p)" using primary_orgDid [OF dids e(1) assms(3) a(1)] a(2) e by simp
    with agent_of_org [of "adAgents t" _ "sdOrgId p", OF _ a_t] inv_t a(2) assms(4) show ?thesis
      by (simp add: ensureNotExistingPrimaryDid_def getAgentEndPoint_def firstOrThrow_def bind_def agent_inv_def)
  qed
  ultimately show ?thesis
    by (simp add: primaryDid_def setPrimaryDid_def rpc_def tryCatch_def andThen_def bind_def)
qed

lemma verifyDedicatedToken_facts:
  assumes "verifyDedicatedToken env org token ep db0 = (Inr x, db1)"
  shows "ttEndPoint x = ep \<and> ttEncrypted x = gEncrypt env token \<and> gTokenRole env token = Some (ttRole x) \<and>
    gUrlProtocol env (orEmpty ep) = Some ''https:'' \<and> gProbe env (orEmpty ep @ ''/agent'') token = Answered True \<and>
    (\<exists>i. ttTypeId x = Some i \<and> List.find (\<lambda>ty. snd ty = ''DEDICATED'') (adOrgAgentTypes db0) = Some (i, ''DEDICATED''))"
proof -
  obtain a i where a: "getAgentApiKey org db0 = Some a"
    and ty: "List.find (\<lambda>ty. snd ty = ''DEDICATED'') (adOrgAgentTypes db0) = Some i"
    using assms
    by (cases "getAgentApiKey org db0"; cases "List.find (\<lambda>ty. snd ty = ''DEDICATED'') (adOrgAgentTypes db0)")
      (auto simp: verifyDedicatedToken_def getOrgAgentTypeDetails_def firstOrThrow_def bind_def)
  have i: "snd i = ''DEDICATED''" using find_SomeD [OF ty] by simp
  have "oaOrgAgentTypeId a = Some (fst i)" "oaEndPoint a = ep"
    using assms a ty
    by (auto simp: verifyDedicatedToken_def getOrgAgentTypeDetails_def firstOrThrow_def bind_def split: if_splits)
  with assms a ty i show ?thesis
    by (auto simp: verifyDedicatedToken_def getOrgAgentTypeDetails_def firstOrThrow_def andThen_def bind_def check_def Let_def
        assertEndpointTrusted_def assertTokenRole_def assertTokenAcceptedByAgent_def tokenEncryption_def prod_eq_iff
        split: option.splits if_splits probe.splits)
qed

lemma filter_key: "distinct (map k xs) \<Longrightarrow> x \<in> set xs \<Longrightarrow> filter (\<lambda>y. k y = k x) xs = [x]"
  by (induction xs) (auto simp: filter_empty_conv image_iff)

text \<open>
  C21. A token that \<open>setDedicatedAgentToken\<close> stores was checked against the very row it is stored in, whatever ran between the
  checks and the write: that row still has the endpoint the caller named, which is an \<open>https\<close> URL and whose agent
  accepted the token, and the type of a dedicated agent, and the token carries the role the organisation requires.
  Only the key of that row changes. A write that raises changes nothing.
\<close>

theorem dedicated_token_verified:
  assumes "reachable_from agent_start agent_step db"
    and verified: "verifyDedicatedToken env org token ep db0 = (Inr x, db1)"
  shows "(case storeDedicatedToken org x db of
      (Inr role, t) \<Rightarrow> gTokenRole env token = Some role \<and> gUrlProtocol env (orEmpty ep) = Some ''https:'' \<and>
        gProbe env (orEmpty ep @ ''/agent'') token = Answered True \<and>
        (\<exists>a \<in> set (adAgents db). oaOrgId a = Some org \<and> oaEndPoint a = ep \<and>
           List.find (\<lambda>ty. snd ty = ''DEDICATED'') (adOrgAgentTypes db0) = Some (the (oaOrgAgentTypeId a), ''DEDICATED'') \<and>
           t = db\<lparr>adAgents := updateWhere (\<lambda>b. oaId b = oaId a) (\<lambda>b. b\<lparr>oaApiKey := Some (gEncrypt env token)\<rparr>) (adAgents db)\<rparr>)
    | (Inl _, t) \<Rightarrow> t = db)"
proof -
  have agents: "agents_ok (adAgents db)" using reachable_agent_inv [OF assms(1)] by (simp add: agent_inv_def)
  let ?same = "\<lambda>a. oaOrgId a = Some org \<and> oaEndPoint a = ttEndPoint x \<and> oaOrgAgentTypeId a = ttTypeId x"
  have x: "ttEndPoint x = ep" "ttEncrypted x = gEncrypt env token" "gTokenRole env token = Some (ttRole x)"
    "gUrlProtocol env (orEmpty ep) = Some ''https:''" "gProbe env (orEmpty ep @ ''/agent'') token = Answered True"
    and ty: "\<exists>i. ttTypeId x = Some i \<and> List.find (\<lambda>ty. snd ty = ''DEDICATED'') (adOrgAgentTypes db0) = Some (i, ''DEDICATED'')"
    using verifyDedicatedToken_facts [OF verified] by auto
  show ?thesis
  proof (cases "filter ?same (adAgents db)")
    case Nil
    then have "updateWhere ?same f (adAgents db) = adAgents db" for f
      by (intro updateWhere_same) (auto simp: filter_empty_conv)
    with Nil show ?thesis by (simp add: storeDedicatedToken_def updateVerifiedTenantToken_def andThen_def bind_def Let_def)
  next
    case (Cons a rest)
    then have a: "a \<in> set (adAgents db)" "?same a" by (metis (mono_tags, lifting) filter_eq_Cons_iff in_set_conv_decomp)+
    have same: "?same b \<longleftrightarrow> oaId b = oaId a" if "b \<in> set (adAgents db)" for b
      using agents that a by (auto dest: agents_same_org agents_same_id)
    then have "updateWhere ?same f (adAgents db) = updateWhere (\<lambda>b. oaId b = oaId a) f (adAgents db)" for f
      by (simp add: updateWhere_def)
    moreover have "filter ?same (adAgents db) = [a]"
      using filter_key [of oaId "adAgents db" a] agents a(1) same by (simp add: agents_ok_def cong: filter_cong)
    ultimately show ?thesis using a x ty
      by (auto simp: storeDedicatedToken_def updateVerifiedTenantToken_def andThen_def bind_def Let_def)
  qed
qed

text \<open>
  \<open>deleteWallet\<close> means to clean up the row that a failed wallet creation leaves (no key, no type), but asks for its
  API key first and gives up when there is none: the row stays.
\<close>

theorem orphan_wallet_stays:
  assumes "getAgentApiKey org db = Some a" and "oaApiKey a = None" and "oaOrgAgentTypeId a = None"
  shows "deleteWallet env org db = (Inl (RpcException 500 ''Failed to get API key''), db)"
proof -
  obtain r t where types: "getOrgAgentTypeDetails ''SHARED'' db = (r, t)" by fastforce
  then have "t = db" by (rule reads_only)
  with types have "\<exists>e. getOrgAgentApiKey env org db = (Inl e, db)"
    using assms by (cases r) (auto simp: getOrgAgentApiKey_def bind_def)
  with assms show ?thesis
    by (auto simp: deleteWallet_def settled_def rpc_def tryCatch_def bind_def)
qed


























section \<open>An example run\<close>

text \<open>
  The platform's own agent is configured, a tenant is created for organisation \<open>o1\<close>, and the tenant gets a primary DID
  and a second one.
\<close>

definition exEnv :: "string \<Rightarrow> string \<Rightarrow> agent_env" where
  "exEnv tag did =
     \<lparr>gUuid = (\<lambda>n. (if n = 0 then CHR ''a'' else CHR ''i'') # tag), gSecret = True, gEncrypt = (\<lambda>t. CHR ''#'' # t),
      gDataEncryption = (\<lambda>t. Inr (CHR ''#'' # t)),
      gDecryptPassword = (\<lambda>k. case k of Some (c # t) \<Rightarrow> Inr t | _ \<Rightarrow> Inl (BadRequestException ''Invalid Credentials'')),
      gUrlProtocol = (\<lambda>u. if startsWith u ''https:'' then Some ''https:'' else None),
      gCreateTenant = (\<lambda>_ _ _. Inr (Some \<lparr>twId = Some ''t1'', twToken = Some ''tok''\<rparr>)),
      gTenantWalletToken = (\<lambda>_ _ _. Inr (Some ''tok'')),
      gWriteDid = (\<lambda>_ _ _. Inr (Some \<lparr>drKeys = 2, drDid = Some did, drDidDocument = Some ''doc'', drDidDoc = None, drState = None\<rparr>)),
      gHttpGet = (\<lambda>_. Inr None),
      gAgentInvitation = (\<lambda>_ _ _. Inr \<lparr>crInvitationUrl = Some ''u'', crRecordId = Some ''r''\<rparr>),
      gStoreUrl = (\<lambda>_. Inr ''s''), gArchiveSchemas = (\<lambda>_. Inr ()), gHttpDelete = (\<lambda>_ _. Inr 500),
      gDeletedActivity = (\<lambda>_ _. Inr ()), gTokenRole = (\<lambda>_. Some ''RestRootAgentWithTenants''),
      gProbe = (\<lambda>_ _. Answered True), gAgentHealth = (\<lambda>_ _. Inr True), gAllLedgers = Inr None,
      gWalletProvision = (\<lambda>_. Inr None), gBaseAgentToken = (\<lambda>_. Inr None), gGatewayProtocol = ''https''\<rparr>"

definition exPayload :: did_payload where
  "exPayload = \<lparr>dpKeyType = ''ed25519'', dpSeed = ''s'', dpDomain = None, dpNetwork = None, dpPrivatekey = None,
     dpEndpoint = None, dpMethod = ''key'', dpDid = None, dpRole = None, dpEndorserDid = None\<rparr>"

definition ex0 :: agent_db where
  "ex0 = \<lparr>adAgents = [], adDids = [], adInvitations = [],
     adOrgs = [\<lparr>woId = ''o0'', woName = Some ''Platform-admin'', woLogoUrl = None\<rparr>, \<lparr>woId = ''o1'', woName = Some ''One'', woLogoUrl = None\<rparr>],
     adOrgAgentTypes = [(''y1'', ''DEDICATED''), (''y2'', ''SHARED'')], adAgentTypes = [(''x1'', ''AFJ'')],
     adLedgers = [\<lparr>ldId = ''l0'', ldName = ''NA'', ldPoolConfig = [], ldIndyNamespace = None\<rparr>], adUsers = [],
     adPlatformConfig = None, adConnections = [], adCredentials = [], adPresentations = [], adReferences = [], adSpinUps = []\<rparr>"

definition ex1 :: agent_db where
  "ex1 = snd (agent_run (exEnv ''1'' []) (AgentConfigure (Some ''https://a'') ''k'' ''did:x'' ''w'' ''o0'' ''u'') ex0)"

definition ex2 :: agent_db where
  "ex2 = snd (agent_run (exEnv ''2'' []) (CreateTenant ''One'' ''o1'' (Some ''u'')) ex1)"

definition ex3 :: agent_db where
  "ex3 = snd (agent_run (exEnv ''3'' ''did:key:a'') (CreateDid exPayload (Some True) ''o1'') ex2)"

definition ex4 :: agent_db where
  "ex4 = snd (agent_run (exEnv ''4'' ''did:key:b'') (CreateDid exPayload (Some False) ''o1'') ex3)"

lemma ex_reachable: "reachable_from agent_start agent_step ex4"
proof -
  have "reachable_from agent_start agent_step ex0" by (rule reachable_from.init) (simp add: agent_start_def ex0_def)
  moreover have "agent_step ex0 ex1" unfolding ex1_def by (rule agent_step.call) code_simp
  moreover have "agent_step ex1 ex2" unfolding ex2_def by (rule agent_step.call) code_simp
  moreover have "agent_step ex2 ex3" unfolding ex3_def by (rule agent_step.call) code_simp
  moreover have "agent_step ex3 ex4" unfolding ex4_def by (rule agent_step.call) code_simp
  ultimately show ?thesis by (blast intro: reachable_from.move)
qed

theorem wallet_invariant_witness:
  "map odDid (adDids ex4) = [''did:key:a'', ''did:key:b''] \<and> map odIsPrimaryDid (adDids ex4) = [True, False] \<and>
   agentDid ex4 ''o1'' = Some ''did:key:a'' \<and> distinct (map oaOrgId (adAgents ex4))"
proof -
  have "map odDid (adDids ex4) = [''did:key:a'', ''did:key:b''] \<and> map odIsPrimaryDid (adDids ex4) = [True, False] \<and>
    map odOrgId (adDids ex4) = [''o1'', ''o1'']"
    by code_simp
  then obtain d e where "adDids ex4 = [d, e]" "odDid d = ''did:key:a''" "odIsPrimaryDid d" "odOrgId d = ''o1''"
    by (auto simp: map_eq_Cons_conv)
  with wallet_invariant [OF ex_reachable]
    \<open>map odDid (adDids ex4) = _ \<and> map odIsPrimaryDid (adDids ex4) = _ \<and> _\<close> show ?thesis by auto
qed

theorem setPrimaryDid_refines_witness:
  "fst (setPrimaryDid ''o1'' ''did:key:b'' ''a4'' ex4) = Inr () \<and>
   primaryDid (snd (setPrimaryDid ''o1'' ''did:key:b'' ''a4'' ex4)) ''o1'' = Some ''did:key:b'' \<and>
   agentDid (snd (setPrimaryDid ''o1'' ''did:key:b'' ''a4'' ex4)) ''o1'' = Some ''did:key:b'' \<and>
   agentDid (snd (setPrimaryDid ''o1'' ''did:key:b'' ''a4'' ex4)) ''o0'' = Some ''did:x''"
proof -
  have "fst (setPrimaryDid ''o1'' ''did:key:b'' ''a4'' ex4) = Inr ()" "agentDid ex4 ''o0'' = Some ''did:x''" by code_simp+
  with setPrimaryDid_refines [OF ex_reachable, of "''o1''" "''did:key:b''" "''a4''"] show ?thesis
    by (auto split: prod.splits)
qed

definition exDetails :: IStoreDidDetails where
  "exDetails = \<lparr>sdOrgId = ''o1'', sdDid = ''did:key:c'', sdDidDocument = Some ''doc'', sdIsPrimaryDid = Some True,
     sdOrgAgentId = ''a2''\<rparr>"

definition exAgent :: org_agents where
  "exAgent = adAgents ex4 ! 1"

lemma exTarget: "did_target exDetails None exAgent ex4"
proof -
  have "exAgent \<in> set (adAgents ex4) \<and> oaId exAgent = sdOrgAgentId exDetails \<and> oaOrgId exAgent = Some (sdOrgId exDetails) \<and>
    sdDid exDetails \<noteq> [] \<and> List.find (\<lambda>d. odDid d = sdDid exDetails) (getOrgDid (sdOrgId exDetails) ex4) = None \<and> adSpinUps ex4 = []"
    by code_simp
  then show ?thesis by (simp add: did_target_def)
qed

theorem did_retry_idempotent_witness:
  "(let t = snd (persistDidWithUpdates ''n1'' exDetails None (Some ''l0'') False ex4)
    in fst (persistDidWithUpdates ''n1'' exDetails None (Some ''l0'') False ex4) \<in> range Inr \<and>
       snd (persistDidWithUpdates ''n2'' exDetails (List.find (\<lambda>d. odDid d = ''did:key:c'') (getOrgDid ''o1'' t)) (Some ''l0'') False t) = t)"
proof -
  have "(case fst (persistDidWithUpdates ''n1'' exDetails None (Some ''l0'') False ex4) of Inr _ \<Rightarrow> True | Inl _ \<Rightarrow> False)"
    by code_simp
  with did_retry_idempotent [OF ex_reachable exTarget, where uuid = "''n1''" and ledgerId = "Some ''l0''" and upd = False and uuid' = "''n2''"] show ?thesis
    by (auto simp: exDetails_def split: prod.splits sum.splits)
qed

definition exToken :: token_target where
  "exToken = \<lparr>ttEndPoint = Some ''https://a'', ttTypeId = Some ''y1'', ttRole = ''RestRootAgentWithTenants'', ttEncrypted = ''#new''\<rparr>"

theorem dedicated_token_verified_witness:
  "(case storeDedicatedToken ''o0'' exToken ex4 of
      (Inr role, t) \<Rightarrow> role = ''RestRootAgentWithTenants'' \<and> map oaApiKey (adAgents t) = [Some ''#new'', Some ''#tok''] \<and>
        gTokenRole (exEnv ''5'' []) ''new'' = Some role
    | (Inl _, t) \<Rightarrow> False)"
proof -
  have "verifyDedicatedToken (exEnv ''5'' []) ''o0'' ''new'' (Some ''https://a'') ex4 = (Inr exToken, ex4)"
    unfolding prod_eq_iff by (intro conjI) code_simp+
  moreover have "(case fst (storeDedicatedToken ''o0'' exToken ex4) of Inr role \<Rightarrow> role = ''RestRootAgentWithTenants'' | Inl _ \<Rightarrow> False)"
    "map oaApiKey (adAgents (snd (storeDedicatedToken ''o0'' exToken ex4))) = [Some ''#new'', Some ''#tok'']"
    by code_simp+
  ultimately show ?thesis
    using dedicated_token_verified [OF ex_reachable, of "exEnv ''5'' []" "''o0''" "''new''" "Some ''https://a''" ex4 exToken ex4]
    by (auto split: prod.splits sum.splits)
qed


end
