(* ===== verification/Organization_Store.thy ===== *)
theory Organization_Store
  imports Ecosystem_Store
begin

text \<open>
  The data of the organisation service: organisations, their roles and invitations, with the repositories
  \<open>apps/organization/repositories/organization.repository.ts\<close>, \<open>libs/org-roles\<close> and \<open>libs/user-org-roles\<close>,
  the session queries of \<open>apps/user/repositories/user.repository.ts\<close>, and the tables of
  \<open>libs/prisma-service/prisma/schema.prisma\<close>.

  A table is the list of its rows, oldest first. Columns that are stored and never read by this code are left
  out, identifiers are UUIDs, and the rows of the Marketplace tables are those of \<open>Marketplace_Store\<close>. A violated
  unique constraint raises \<open>P2002\<close>, a missing referenced row \<open>P2003\<close>, a missing row to update, delete or connect
  \<open>P2025\<close>. An exception that wraps another one is named after it.

  \<open>obLate\<close> holds the database calls that a handler has issued without waiting for them. They run later, in
  any order (\<open>Organization_Service\<close>). \<open>obKeycloak\<close> is the list of the role changes that were sent to Keycloak.
\<close>

section \<open>Definitions\<close>

subsection \<open>Tables\<close>

record org_row =
  owId :: string
  owName :: "string option"
  owDescription :: "string option"
  owSlug :: "string option"
  owLogoUrl :: "string option"
  owWebsite :: "string option"
  owPublicProfile :: bool
  owIdpId :: "string option"
  owClientId :: "string option"
  owClientSecret :: "string option"
  owCreatedBy :: string

record org_invitations =
  vtId :: string
  vtEmail :: "string option"
  vtUserId :: string
  vtOrgId :: string
  vtStatus :: Invitation
  vtOrgRoles :: "string list"

record user_org_roles =
  uoId :: string
  uoUserId :: string
  uoRoleId :: string
  uoOrgId :: "string option"
  uoIdpRoleId :: "string option"

record org_roles =
  rlId :: string
  rlName :: string

record account_user =
  auId :: string
  auEmail :: "string option"
  auKeycloakUserId :: "string option"
  auClientId :: "string option"
  auClientSecret :: "string option"

record account =
  acId :: string
  acUserId :: string
  acProviderAccountId :: "string option"

record session =
  snId :: string
  snToken :: "string option"
  snUserId :: string
  snExpires :: int
  snAccountId :: string
  snExpiresAt :: int

record user_activity =
  uvUserId :: string
  uvOrgId :: string
  uvAction :: string

record agent_invitation_row =
  avId :: string
  avOrgId :: string
  avAgentId :: string
  avConnectionInvitation :: string

text \<open>A row of \<open>org_agents\<close>: its organisation, its tenant and whether another table refers to it.\<close>

record agent_row =
  agOrgId :: string
  agTenantId :: "string option"
  agReferenced :: bool

text \<open>A role of a Keycloak client: its identifier and its name.\<close>

type_synonym client_role = "string \<times> string"

datatype kc_request =
    AssignRoles string "string option" "client_role list"
  | DeleteRoles "string option" "string option"

datatype late_job =
    LateRole string string string "string option"
  | LateCleanup string

record org_db =
  obOrgs :: "org_row list"
  obInvitations :: "org_invitations list"
  obUserRoles :: "user_org_roles list"
  obRoles :: "org_roles list"
  obUsers :: "account_user list"
  obSubscriptions :: "marketplace_subscription list"
  obPlans :: "marketplace_plan list"
  obActivities :: "user_activity list"
  obNotifications :: "string list"
  obSchemas :: "(string \<times> string option) list"
  obCredDefs :: "(string \<times> string option) list"
  obAgents :: "agent_row list"
  obAgentInvitations :: "agent_invitation_row list"
  obReferences :: "(string \<times> string) list"  \<comment> \<open>name of a table and organisation of a row in it\<close>
  obHeld :: "string list"  \<comment> \<open>organisations with a row in a table that restricts their deletion\<close>
  obAccounts :: "account list"
  obSessions :: "session list"
  obLate :: "late_job list"
  obKeycloak :: "kc_request list"

subsection \<open>Organisations\<close>

definition getOrganizationDetails :: "string \<Rightarrow> (org_db, org_row option) eff" where
  "getOrganizationDetails orgId =
     (if orgId = [] then throw (InternalServerErrorException ''NotFoundException'')
      else reads (\<lambda>db. List.find (\<lambda>r. owId r = orgId) (obOrgs db)))"

definition checkOrganizationNameExist :: "string \<Rightarrow> org_db \<Rightarrow> org_row option" where
  "checkOrganizationNameExist name db = List.find (\<lambda>r. owName r = Some name) (obOrgs db)"

definition checkOrganizationSlugExist :: "string \<Rightarrow> org_db \<Rightarrow> org_row option" where
  "checkOrganizationSlugExist slug db = List.find (\<lambda>r. owSlug r = Some slug) (obOrgs db)"

text \<open>\<open>orgSlug\<close> is unique; \<open>NULL\<close> differs from \<open>NULL\<close>.\<close>

definition slugClash :: "org_row \<Rightarrow> org_row list \<Rightarrow> bool" where
  "slugClash r others \<longleftrightarrow> owSlug r \<noteq> None \<and> list_ex (\<lambda>x. owSlug x = owSlug r) others"

definition insertOrg :: "org_row \<Rightarrow> (org_db, org_row) eff" where
  "insertOrg r = (\<lambda>db.
     if list_ex (\<lambda>x. owId x = owId r) (obOrgs db) \<or> slugClash r (obOrgs db) then (Inl (PrismaError ''P2002''), db)
     else (Inr r, db\<lparr>obOrgs := obOrgs db @ [r]\<rparr>))"

definition updateOrg :: "string \<Rightarrow> (org_row \<Rightarrow> org_row) \<Rightarrow> (org_db, org_row) eff" where
  "updateOrg i f = (\<lambda>db. case List.find (\<lambda>r. owId r = i) (obOrgs db) of
       None \<Rightarrow> (Inl (PrismaError ''P2025''), db)
     | Some r \<Rightarrow>
         (if slugClash (f r) (filter (\<lambda>x. owId x \<noteq> i) (obOrgs db)) then (Inl (PrismaError ''P2002''), db)
          else (Inr (f r), db\<lparr>obOrgs := updateWhere (\<lambda>x. owId x = i) f (obOrgs db)\<rparr>)))"

record CreateOrganizationDto =
  coName :: string
  coDescription :: "string option"
  coLogo :: "string option"
  coWebsite :: "string option"
  coNotificationWebhook :: "string option"

definition insertOrganization :: "string \<Rightarrow> CreateOrganizationDto \<Rightarrow> string \<Rightarrow> string \<Rightarrow> string \<Rightarrow> (org_db, org_row) eff" where
  "insertOrganization uuid dto logo slug createdBy =
     insertOrg \<lparr>owId = uuid, owName = Some (coName dto), owDescription = coDescription dto, owSlug = Some slug,
                owLogoUrl = Some logo, owWebsite = coWebsite dto, owPublicProfile = False, owIdpId = None,
                owClientId = None, owClientSecret = None, owCreatedBy = createdBy\<rparr>"

record IUpdateOrganization =
  upOrgId :: string
  upName :: string
  upDescription :: "string option"
  upLogo :: "string option"
  upWebsite :: "string option"
  upIsPublic :: "bool option"

text \<open>A field that is \<open>undefined\<close> is not written.\<close>

definition written :: "'a option \<Rightarrow> 'a option \<Rightarrow> 'a option" where
  "written new old = (case new of None \<Rightarrow> old | Some x \<Rightarrow> Some x)"

definition updateOrganizationRow :: "IUpdateOrganization \<Rightarrow> string option \<Rightarrow> string \<Rightarrow> (org_db, org_row) eff" where
  "updateOrganizationRow dto logo slug =
     updateOrg (upOrgId dto) (\<lambda>r. r\<lparr>owName := Some (upName dto), owLogoUrl := written logo (owLogoUrl r),
        owDescription := written (upDescription dto) (owDescription r),
        owWebsite := written (upWebsite dto) (owWebsite r), owSlug := Some slug,
        owPublicProfile := (case upIsPublic dto of None \<Rightarrow> owPublicProfile r | Some b \<Rightarrow> b)\<rparr>)"

text \<open>The data is the client's identifiers and secret; \<open>None\<close> leaves a column alone, \<open>Some None\<close> clears it.\<close>

record client_data =
  cdIdpId :: "string option option"
  cdClientId :: "string option option"
  cdClientSecret :: "string option option"

definition updateOrganizationById :: "client_data \<Rightarrow> string \<Rightarrow> (org_db, org_row) eff" where
  "updateOrganizationById d orgId =
     updateOrg orgId (\<lambda>r. r\<lparr>owIdpId := (case cdIdpId d of None \<Rightarrow> owIdpId r | Some x \<Rightarrow> x),
        owClientId := (case cdClientId d of None \<Rightarrow> owClientId r | Some x \<Rightarrow> x),
        owClientSecret := (case cdClientSecret d of None \<Rightarrow> owClientSecret r | Some x \<Rightarrow> x)\<rparr>)"

definition getUser :: "string \<Rightarrow> org_db \<Rightarrow> account_user option" where
  "getUser i db = List.find (\<lambda>u. auId u = i) (obUsers db)"

subsection \<open>Limits of a Marketplace plan\<close>

definition subscribedPlan :: "org_db \<Rightarrow> marketplace_subscription option \<Rightarrow> marketplace_plan option" where
  "subscribedPlan db sub = Option.bind sub (\<lambda>s. List.find (\<lambda>p. plOfferId p = subOfferId s \<and> plPlanId p = subPlanId s) (obPlans db))"

definition getMarketplaceMaxUsers :: "string \<Rightarrow> org_db \<Rightarrow> int option" where
  "getMarketplaceMaxUsers orgId db =
     Option.bind (subscribedPlan db (findLatest subCreateDateTime (\<lambda>s. subOrgId s = Some orgId \<and> subDeletedAt s = None)
       (obSubscriptions db))) plMaxUsers"

definition getMarketplaceMaxOrganizationsByUser :: "string \<Rightarrow> org_db \<Rightarrow> int option" where
  "getMarketplaceMaxOrganizationsByUser userId db =
     Option.bind (subscribedPlan db (findLatest subCreateDateTime (\<lambda>s. subLocalUserId s = Some userId \<and> subDeletedAt s = None)
       (obSubscriptions db))) plMaxOrganizations"

definition getOrganizationUserCount :: "string \<Rightarrow> org_db \<Rightarrow> nat" where
  "getOrganizationUserCount orgId db =
     length (remdups (map uoUserId (filter (\<lambda>r. uoOrgId r = Some orgId) (obUserRoles db))))"

definition getPendingOrganizationInvitationCount :: "string \<Rightarrow> org_db \<Rightarrow> nat" where
  "getPendingOrganizationInvitationCount orgId db =
     length (filter (\<lambda>v. vtOrgId v = orgId \<and> vtStatus v = InvPending) (obInvitations db))"

definition userOrganizationCount :: "string \<Rightarrow> org_db \<Rightarrow> nat" where
  "userOrganizationCount userId db =
     length (filter (\<lambda>o'. list_ex (\<lambda>r. uoUserId r = userId \<and> uoOrgId r = Some (owId o')) (obUserRoles db)) (obOrgs db))"

subsection \<open>Invitations\<close>

definition createSendInvitation ::
    "string \<Rightarrow> string \<Rightarrow> string \<Rightarrow> string \<Rightarrow> string list \<Rightarrow> (org_db, org_invitations) eff" where
  "createSendInvitation uuid email orgId userId orgRoleId = (\<lambda>db.
     if \<not> list_ex (\<lambda>u. auId u = userId) (obUsers db) \<or> \<not> list_ex (\<lambda>r. owId r = orgId) (obOrgs db)
     then (Inl (PrismaError ''P2025''), db)
     else if list_ex (\<lambda>v. vtId v = uuid) (obInvitations db) then (Inl (PrismaError ''P2002''), db)
     else let v = \<lparr>vtId = uuid, vtEmail = Some email, vtUserId = userId, vtOrgId = orgId, vtStatus = InvPending,
                   vtOrgRoles = orgRoleId\<rparr>
          in (Inr v, db\<lparr>obInvitations := obInvitations db @ [v]\<rparr>))"

definition getOrgInvitations :: "string \<Rightarrow> string \<Rightarrow> org_db \<Rightarrow> org_invitations list" where
  "getOrgInvitations email orgId db = filter (\<lambda>v. vtEmail v = Some email \<and> vtOrgId v = orgId) (obInvitations db)"

definition getOrgInvitationsByOrg :: "string \<Rightarrow> org_db \<Rightarrow> org_invitations list" where
  "getOrgInvitationsByOrg orgId db = filter (\<lambda>v. vtOrgId v = orgId) (obInvitations db)"

definition getInvitationById :: "string \<Rightarrow> org_db \<Rightarrow> org_invitations option" where
  "getInvitationById i db = List.find (\<lambda>v. vtId v = i) (obInvitations db)"

definition updateInvitationStatus :: "string \<Rightarrow> Invitation \<Rightarrow> (org_db, unit) eff" where
  "updateInvitationStatus i status = (\<lambda>db.
     if list_ex (\<lambda>v. vtId v = i) (obInvitations db)
     then (Inr (), db\<lparr>obInvitations := updateWhere (\<lambda>v. vtId v = i) (\<lambda>v. v\<lparr>vtStatus := status\<rparr>) (obInvitations db)\<rparr>)
     else (Inl (PrismaError ''P2025''), db))"

definition deleteInvitationRow :: "string \<Rightarrow> (org_db, unit) eff" where
  "deleteInvitationRow i = (\<lambda>db.
     if list_ex (\<lambda>v. vtId v = i) (obInvitations db)
     then (Inr (), db\<lparr>obInvitations := filter (\<lambda>v. vtId v \<noteq> i) (obInvitations db)\<rparr>)
     else (Inl (PrismaError ''P2025''), db))"

subsection \<open>Roles of users\<close>

definition getRole :: "string \<Rightarrow> org_db \<Rightarrow> org_roles option" where
  "getRole name db = List.find (\<lambda>r. rlName r = name) (obRoles db)"

definition getOrgRoles :: "org_db \<Rightarrow> org_roles list" where
  "getOrgRoles db = filter (\<lambda>r. rlName r \<noteq> PLATFORM_ADMIN) (obRoles db)"

definition getOrgRolesByIds :: "string list \<Rightarrow> org_db \<Rightarrow> org_roles list" where
  "getOrgRolesByIds ids db = filter (\<lambda>r. rlId r \<in> set ids) (obRoles db)"

text \<open>An empty organisation or Keycloak role is left out of the row.\<close>

definition nonEmpty :: "string option \<Rightarrow> string option" where
  "nonEmpty x = (if truthy x then x else None)"

definition createUserOrgRole :: "string \<Rightarrow> string \<Rightarrow> string \<Rightarrow> string option \<Rightarrow> string option \<Rightarrow> (org_db, unit) eff" where
  "createUserOrgRole uuid userId roleId orgId idpRoleId = (\<lambda>db.
     if list_ex (\<lambda>r. rlId r = roleId) (obRoles db) \<and> list_ex (\<lambda>u. auId u = userId) (obUsers db) \<and>
        (\<not> truthy orgId \<or> list_ex (\<lambda>r. Some (owId r) = orgId) (obOrgs db)) \<and>
        \<not> list_ex (\<lambda>r. uoId r = uuid) (obUserRoles db)
     then (Inr (), db\<lparr>obUserRoles := obUserRoles db @
            [\<lparr>uoId = uuid, uoUserId = userId, uoRoleId = roleId, uoOrgId = nonEmpty orgId,
              uoIdpRoleId = nonEmpty idpRoleId\<rparr>]\<rparr>)
     else (Inl (InternalServerErrorException ''User Org Role not created''), db))"

definition checkUserOrgExist :: "string \<Rightarrow> string \<Rightarrow> org_db \<Rightarrow> bool" where
  "checkUserOrgExist userId orgId db \<longleftrightarrow>
     list_ex (\<lambda>r. uoUserId r = userId \<and> uoOrgId r = Some orgId) (obUserRoles db)"

text \<open>The number of rows deleted.\<close>

definition deleteOrgRoles :: "string \<Rightarrow> string \<Rightarrow> (org_db, nat) eff" where
  "deleteOrgRoles userId orgId =
     bind (reads (\<lambda>db. length (filter (\<lambda>r. uoUserId r = userId \<and> uoOrgId r = Some orgId) (obUserRoles db)))) (\<lambda>count.
     andThen (writes (\<lambda>db. db\<lparr>obUserRoles :=
                filter (\<lambda>r. \<not> (uoUserId r = userId \<and> uoOrgId r = Some orgId)) (obUserRoles db)\<rparr>))
     (ret count))"

text \<open>\<open>updateUserOrgRole\<close> issues the inserts without waiting for any of them.\<close>

definition updateUserOrgRole :: "string \<Rightarrow> string \<Rightarrow> (string \<times> string) list \<Rightarrow> (org_db, unit) eff" where
  "updateUserOrgRole userId orgId roleIdList =
     writes (\<lambda>db. db\<lparr>obLate := obLate db @ map (\<lambda>(roleId, idpRoleId). LateRole userId roleId orgId (Some idpRoleId)) roleIdList\<rparr>)"

definition getOrgAndOwnerUser :: "string \<Rightarrow> org_db \<Rightarrow> user_org_roles option" where
  "getOrgAndOwnerUser orgId db =
     List.find (\<lambda>r. uoOrgId r = Some orgId \<and> list_ex (\<lambda>x. rlId x = uoRoleId r \<and> rlName x = ''owner'') (obRoles db))
       (obUserRoles db)"

definition getUserOrgRole :: "string \<Rightarrow> string \<Rightarrow> org_db \<Rightarrow> string list" where
  "getUserOrgRole userId orgId db =
     map uoRoleId (filter (\<lambda>r. uoUserId r = userId \<and> uoOrgId r = Some orgId) (obUserRoles db))"

text \<open>\<open>getUnregisteredClientOrgs\<close>: organisations without a Keycloak client, each with its user roles.\<close>

definition getUnregisteredClientOrgs :: "org_db \<Rightarrow> (org_row \<times> user_org_roles list) list" where
  "getUnregisteredClientOrgs db =
     map (\<lambda>o'. (o', filter (\<lambda>r. uoOrgId r = Some (owId o')) (obUserRoles db)))
       (filter (\<lambda>o'. owIdpId o' = None) (obOrgs db))"

definition logActivity :: "string \<Rightarrow> string \<Rightarrow> string \<Rightarrow> (org_db, unit) eff" where
  "logActivity userId orgId action = (\<lambda>db.
     if list_ex (\<lambda>u. auId u = userId) (obUsers db) \<and> list_ex (\<lambda>r. owId r = orgId) (obOrgs db)
     then (Inr (), db\<lparr>obActivities := obActivities db @ [\<lparr>uvUserId = userId, uvOrgId = orgId, uvAction = action\<rparr>]\<rparr>)
     else (Inl (PrismaError ''P2003''), db))"

subsection \<open>Deleting an organisation\<close>

definition tablesToCheck :: "string list" where
  "tablesToCheck = [''org_dids'', ''agent_invitations'', ''connections'', ''credentials'', ''presentations'', ''file_upload'']"

definition refersTo :: "org_db \<Rightarrow> string \<Rightarrow> string \<Rightarrow> bool" where
  "refersTo db i table \<longleftrightarrow>
     (if table = ''agent_invitations'' then list_ex (\<lambda>v. avOrgId v = i) (obAgentInvitations db)
      else (table, i) \<in> set (obReferences db))"

definition referencedIn :: "string \<Rightarrow> string \<Rightarrow> error" where
  "referencedIn i table = ConflictException (''Organization ID '' @ i @ '' is referenced in the table '' @ table)"

definition deleteOrphanAgent :: "string \<Rightarrow> (org_db, unit) eff" where
  "deleteOrphanAgent i = (\<lambda>db. case List.find (\<lambda>a. agOrgId a = i) (obAgents db) of
       None \<Rightarrow> (Inr (), db)
     | Some a \<Rightarrow>
         (if truthy (agTenantId a) then (Inl (referencedIn i ''org_agents''), db)
          else if agReferenced a then (Inl (PrismaError ''P2003''), db)
          else (Inr (), db\<lparr>obAgents := filter (\<lambda>b. agOrgId b \<noteq> i) (obAgents db)\<rparr>)))"

text \<open>
  The two updates of \<open>schema\<close> and \<open>credential_definition\<close> use \<open>this.prisma\<close>, not the client of the transaction: they
  are committed at once.
\<close>

definition disownSchemas :: "string \<Rightarrow> org_db \<Rightarrow> org_db" where
  "disownSchemas i db =
     (let disown = updateWhere (\<lambda>x. snd x = Some i) (\<lambda>x. (fst x, None))
      in db\<lparr>obSchemas := disown (obSchemas db), obCredDefs := disown (obCredDefs db)\<rparr>)"

text \<open>The foreign keys of optional columns are cleared, those of the tables in \<open>obHeld\<close> restrict the deletion.\<close>

definition deleteOrgRow :: "string \<Rightarrow> (org_db, org_row) eff" where
  "deleteOrgRow i = (\<lambda>db. case List.find (\<lambda>r. owId r = i) (obOrgs db) of
       None \<Rightarrow> (Inl (PrismaError ''P2025''), db)
     | Some r \<Rightarrow>
         (if i \<in> set (obHeld db) then (Inl (PrismaError ''P2003''), db)
          else (Inr r, db\<lparr>obOrgs := filter (\<lambda>r. owId r \<noteq> i) (obOrgs db),
                 obSubscriptions := updateWhere (\<lambda>s. subOrgId s = Some i) (\<lambda>s. s\<lparr>subOrgId := None\<rparr>) (obSubscriptions db)\<rparr>)))"

record deleted_counts =
  dcActivity :: nat
  dcUserRoles :: nat
  dcInvitations :: nat
  dcNotifications :: nat

definition deletedCounts :: "string \<Rightarrow> org_db \<Rightarrow> deleted_counts" where
  "deletedCounts i db =
     \<lparr>dcActivity = length (filter (\<lambda>v. uvOrgId v = i) (obActivities db)),
      dcUserRoles = length (filter (\<lambda>r. uoOrgId r = Some i) (obUserRoles db)),
      dcInvitations = length (filter (\<lambda>v. vtOrgId v = i) (obInvitations db)),
      dcNotifications = length (filter (\<lambda>o'. o' = i) (obNotifications db))\<rparr>"

definition clearOrg :: "string \<Rightarrow> org_db \<Rightarrow> org_db" where
  "clearOrg i db =
     db\<lparr>obNotifications := filter (\<lambda>o'. o' \<noteq> i) (obNotifications db),
        obActivities := filter (\<lambda>v. uvOrgId v \<noteq> i) (obActivities db),
        obUserRoles := filter (\<lambda>r. uoOrgId r \<noteq> Some i) (obUserRoles db),
        obInvitations := filter (\<lambda>v. vtOrgId v \<noteq> i) (obInvitations db)\<rparr>"

definition deleteOrgSteps :: "string \<Rightarrow> (org_db, deleted_counts) eff" where
  "deleteOrgSteps i =
     andThen (deleteOrphanAgent i)
     (bind (reads (\<lambda>db. List.find (refersTo db i) tablesToCheck)) (\<lambda>referenced.
      case referenced of
        Some table \<Rightarrow> throw (referencedIn i table)
      | None \<Rightarrow>
          bind (reads (deletedCounts i)) (\<lambda>counts.
          andThen (writes (clearOrg i))
          (andThen (writes (disownSchemas i))
          (bind (deleteOrgRow i) (\<lambda>_. ret counts))))))"

text \<open>What a rollback of the transaction brings back: everything but the two updates outside it.\<close>

definition rolledBack :: "org_db \<Rightarrow> org_db \<Rightarrow> org_db" where
  "rolledBack before now = before\<lparr>obSchemas := obSchemas now, obCredDefs := obCredDefs now\<rparr>"

definition deleteOrg :: "string \<Rightarrow> (org_db, deleted_counts) eff" where
  "deleteOrg i = (\<lambda>db. case deleteOrgSteps i db of
       (Inl e, db') \<Rightarrow> (Inl e, rolledBack db db')
     | (Inr c, db') \<Rightarrow> (Inr c, db'))"

subsection \<open>Sessions\<close>

definition deleteInactiveSessions :: "int \<Rightarrow> string \<Rightarrow> org_db \<Rightarrow> org_db" where
  "deleteInactiveSessions now userId db =
     db\<lparr>obSessions := filter (\<lambda>s. \<not> (snExpiresAt s < now \<and> snUserId s = userId)) (obSessions db)\<rparr>"

definition fetchUserSessions :: "string \<Rightarrow> org_db \<Rightarrow> session list" where
  "fetchUserSessions userId db = filter (\<lambda>s. snUserId s = userId) (obSessions db)"

definition checkAccountDetails :: "string \<Rightarrow> org_db \<Rightarrow> account option" where
  "checkAccountDetails userId db = List.find (\<lambda>a. acUserId a = userId) (obAccounts db)"

definition addAccountDetails :: "string \<Rightarrow> string \<Rightarrow> string option \<Rightarrow> (org_db, account) eff" where
  "addAccountDetails uuid userId keycloakUserId = (\<lambda>db.
     if keycloakUserId = None then (Inl (PrismaError ''PrismaClientValidationError''), db)
     else if list_ex (\<lambda>a. acUserId a = userId \<or> acId a = uuid) (obAccounts db) then (Inl (PrismaError ''P2002''), db)
     else if \<not> list_ex (\<lambda>u. auId u = userId) (obUsers db) then (Inl (PrismaError ''P2003''), db)
     else let a = \<lparr>acId = uuid, acUserId = userId, acProviderAccountId = keycloakUserId\<rparr>
          in (Inr a, db\<lparr>obAccounts := obAccounts db @ [a]\<rparr>))"

definition createSession :: "session \<Rightarrow> (org_db, session) eff" where
  "createSession s = (\<lambda>db.
     if snToken s = None then (Inl (PrismaError ''PrismaClientValidationError''), db)
     else if list_ex (\<lambda>x. snId x = snId s) (obSessions db) then (Inl (PrismaError ''P2002''), db)
     else if \<not> list_ex (\<lambda>u. auId u = snUserId s) (obUsers db) \<or> \<not> list_ex (\<lambda>a. acId a = snAccountId s) (obAccounts db)
     then (Inl (PrismaError ''P2003''), db)
     else (Inr s, db\<lparr>obSessions := obSessions db @ [s]\<rparr>))"

subsection \<open>The user behind a token\<close>

text \<open>
  \<open>getUserByKeycloakId\<close> of the user repository, as far as \<open>JwtStrategy\<close> reads its answer. \<open>mappings\<close> is the table
  \<open>user_role_mapping\<close> of the user service: the roles of each user.
\<close>

definition userOrgRoles :: "string \<Rightarrow> org_db \<Rightarrow> user_org_role list" where
  "userOrgRoles userId db =
     concat (map (\<lambda>r. case List.find (\<lambda>x. rlId x = uoRoleId r) (obRoles db) of
         None \<Rightarrow> [] | Some x \<Rightarrow> [\<lparr>uorOrgId = uoOrgId r, uorRole = rlName x\<rparr>])
       (filter (\<lambda>r. uoUserId r = userId) (obUserRoles db)))"

definition getUserByKeycloakId :: "(string \<Rightarrow> string option list) \<Rightarrow> string \<Rightarrow> org_db \<Rightarrow> error + db_user" where
  "getUserByKeycloakId mappings i db =
     (case List.find (\<lambda>u. auKeycloakUserId u = Some i) (obUsers db) of
        None \<Rightarrow> Inl (PrismaError ''P2025'')
      | Some u \<Rightarrow> Inr \<lparr>duId = auId u, duEmail = auEmail u, duUserOrgRoles = userOrgRoles (auId u) db,
                       duRoleMappings = Some (mappings (auId u))\<rparr>)"

definition findKeycloakUser :: "(string \<Rightarrow> string option list) \<Rightarrow> org_db \<Rightarrow> string \<Rightarrow> error + db_user option" where
  "findKeycloakUser mappings db i =
     (case getUserByKeycloakId mappings i db of Inl e \<Rightarrow> Inl (rpcResponse e) | Inr u \<Rightarrow> Inr (Some u))"

end
