(* ===== verification/Organization_Service.thy ===== *)
theory Organization_Service
  imports Organization_Store
begin

text \<open>
  The handlers of \<open>apps/organization/src/organization.service.ts\<close> that change the tables of
  \<open>Organization_Store\<close>, with the checks of \<open>verifyInvitationPending\<close> and \<open>generateClientApiToken\<close>. \<open>setPrimaryDid\<close> is in
  \<open>Agent_Service\<close>.

  Keycloak, the user service, mails, object storage, the cipher and the JWT decoder are the functions of \<open>org_env\<close>,
  fixed for one call; the access token a request to Keycloak carries is left out. \<open>promiseAll\<close> runs all its
  parts, whichever of them fails. A call that is not awaited is put into \<open>obLate\<close>; running it is a step of its own.
  An exception with a \<open>code\<close> is named by it, and a mail that is sent or not changes nothing here.
\<close>

section \<open>Definitions\<close>

subsection \<open>Strings\<close>

function dashSpaces :: "string \<Rightarrow> string" where
  "dashSpaces [] = []"
| "dashSpaces (c # cs) =
     (if isSpace c then CHR ''-'' # dashSpaces (dropWhile isSpace cs) else c # dashSpaces cs)"
  by pat_completeness auto
termination
  by (relation "measure length") (auto simp: le_imp_less_Suc length_dropWhile_le)

definition slugChar :: "char \<Rightarrow> bool" where
  "slugChar c = (let n = (of_char c :: nat) in (97 \<le> n \<and> n \<le> 122) \<or> (48 \<le> n \<and> n \<le> 57) \<or> n = 45)"

fun squeezeDashes :: "string \<Rightarrow> string" where
  "squeezeDashes (c # d # cs) =
     (if c = CHR ''-'' \<and> d = CHR ''-'' then squeezeDashes (d # cs) else c # squeezeDashes (d # cs))"
| "squeezeDashes cs = cs"

definition createOrgSlug :: "string \<Rightarrow> string" where
  "createOrgSlug orgName = squeezeDashes (filter slugChar (dashSpaces (toLowerCase orgName)))"

definition maskString :: "string \<Rightarrow> error + string" where
  "maskString s =
     (if 5 \<le> length s
      then (if length s < 8 then Inl (RangeError ''Invalid count value'')
            else Inr (replicate (length s - 8) CHR ''*'' @ drop (length s - 8) s))
      else Inr s)"

definition isLetter :: "char \<Rightarrow> bool" where
  "isLetter c = (let n = (of_char c :: nat) in (65 \<le> n \<and> n \<le> 90) \<or> (97 \<le> n \<and> n \<le> 122))"

text \<open>\<open>/^data:image\/([a-zA-Z]*);base64,([^Q]*)$/\<close> with the double quote (code 34) for \<open>Q\<close>.\<close>

definition isValidBase64 ::"string option \<Rightarrow> bool" where
  "isValidBase64 value \<longleftrightarrow> truthy value \<and>
     (let s = orEmpty value; kind = dropWhile isLetter (drop 11 s)
      in startsWith s ''data:image/'' \<and> startsWith kind '';base64,'' \<and>
         list_all (\<lambda>c. (of_char c :: nat) \<noteq> 34) (drop 8 kind))"

subsection \<open>What a handler meets\<close>

record kc_client =
  kcIdpId :: string
  kcClientId :: string
  kcClientSecret :: string

record access_token =
  tkAccessToken :: "string option"
  tkExpiresIn :: int

record ClientTokenDto =
  gtOrgId :: string
  gtClientId :: string
  gtClientAlias :: string
  gtClientSecret :: string

record org_env =
  gnUuid :: "nat \<Rightarrow> string"
  gnMaxOrgLimit :: "int option"
  gnSessionsLimit :: "int option"
  gnUpload :: "string \<Rightarrow> error + string"
  gnUserByMail :: "string \<Rightarrow> error + bool option"
  gnUserById :: "string \<Rightarrow> error + string option option"
  gnUsersByMails :: "string option list \<Rightarrow> error + (string \<times> string option) list"
  gnSendInvite :: "string \<Rightarrow> string \<Rightarrow> error + unit"
  gnSendMail :: "string option \<Rightarrow> error + unit"
  gnDecrypt :: "string option \<Rightarrow> error + string"
  gnGetToken :: "string \<Rightarrow> string \<Rightarrow> error + access_token"
  gnCreateClient :: "string option \<Rightarrow> string \<Rightarrow> error + kc_client"
  gnCreateClientRole :: "string \<Rightarrow> string \<Rightarrow> error + unit"
  gnClientRole :: "string \<Rightarrow> string \<Rightarrow> error + client_role"
  gnClientRoles :: "string \<Rightarrow> error + client_role list"
  gnAssignRoles :: "string \<Rightarrow> string option \<Rightarrow> client_role list \<Rightarrow> error + unit"
  gnClientSecret :: "string \<Rightarrow> error + string"
  gnDeleteClient :: "string option \<Rightarrow> error + unit"
  gnWebhook :: "string \<Rightarrow> string \<Rightarrow> error + unit"
  gnConnection :: "string option \<Rightarrow> string \<Rightarrow> string \<Rightarrow> error + string option"
  gnDeletedActivity :: "string \<Rightarrow> nat \<Rightarrow> error + unit"
  gnTokenExp :: "string option \<Rightarrow> int option"
  gnEnvVar :: "string \<Rightarrow> string option"
  gnAdminToken :: "ClientTokenDto \<Rightarrow> error + string option"
  gnClientDetails :: "string \<Rightarrow> string \<Rightarrow> error + string list option"

definition asRpc :: "(org_db, 'a) eff \<Rightarrow> (org_db, 'a) eff" where
  "asRpc m = tryCatch m (\<lambda>e. throw (rpcResponse e))"

definition promiseAll :: "('s, unit) eff \<Rightarrow> ('s, 'a) eff \<Rightarrow> ('s, 'a) eff" where
  "promiseAll m n = (\<lambda>s. case m s of (r, s1) \<Rightarrow>
     (case n s1 of (r', s2) \<Rightarrow> (case r of Inl e \<Rightarrow> (Inl e, s2) | Inr _ \<Rightarrow> (r', s2))))"

definition orRead :: "'a option \<Rightarrow> ('s, 'a) eff" where
  "orRead x = (case x of None \<Rightarrow> throw undefinedRead | Some y \<Rightarrow> ret y)"

subsection \<open>Requests to Keycloak\<close>

definition getManagementToken :: "org_env \<Rightarrow> string option \<Rightarrow> string option \<Rightarrow> error + string option" where
  "getManagementToken env clientId clientSecret =
     (if \<not> truthy clientId \<and> \<not> truthy clientSecret
      then Inl (BadRequestException ''Client ID and client secret are missing'')
      else case gnDecrypt env clientId of
             Inl e \<Rightarrow> Inl e
           | Inr i \<Rightarrow>
               (case gnDecrypt env clientSecret of
                  Inl e \<Rightarrow> Inl e
                | Inr s \<Rightarrow> (case gnGetToken env i s of Inl e \<Rightarrow> Inl e | Inr t \<Rightarrow> Inr (tkAccessToken t))))"

definition managementToken :: "org_env \<Rightarrow> string \<Rightarrow> (org_db, unit) eff" where
  "managementToken env userId =
     bind (reads (getUser userId)) (\<lambda>user.
     bind (orRead user) (\<lambda>u.
     bind (lift (getManagementToken env (auClientId u) (auClientSecret u))) (\<lambda>_. ret ())))"

definition createUserClientRole ::
    "org_env \<Rightarrow> string \<Rightarrow> string option \<Rightarrow> client_role list \<Rightarrow> (org_db, unit) eff" where
  "createUserClientRole env idpId userId payload =
     bind (lift (gnAssignRoles env idpId userId payload)) (\<lambda>_.
     writes (\<lambda>db. db\<lparr>obKeycloak := obKeycloak db @ [AssignRoles idpId userId payload]\<rparr>))"

text \<open>The request is sent; a failure of it is turned into a result.\<close>

definition deleteUserClientRoles :: "string option \<Rightarrow> string option \<Rightarrow> (org_db, unit) eff" where
  "deleteUserClientRoles idpId userId = writes (\<lambda>db. db\<lparr>obKeycloak := obKeycloak db @ [DeleteRoles idpId userId]\<rparr>)"

definition clientRoleNames :: "string list" where
  "clientRoleNames = [''owner'', ''admin'', ''issuer'', ''verifier'', ''member'']"

definition registerToKeycloak ::
    "org_env \<Rightarrow> string option \<Rightarrow> string \<Rightarrow> string option \<Rightarrow> string \<Rightarrow> bool \<Rightarrow> (org_db, kc_client) eff" where
  "registerToKeycloak env orgName orgId keycloakUserId userId shouldUpdateRole =
     andThen (managementToken env userId)
     (bind (lift (gnCreateClient env orgName orgId)) (\<lambda>orgDetails.
      andThen (forEach clientRoleNames (\<lambda>role. lift (gnCreateClientRole env (kcIdpId orgDetails) role)))
      (bind (lift (gnClientRole env (kcIdpId orgDetails) ''owner'')) (\<lambda>ownerRoleClient.
       bind (reads (getRole ''owner'')) (\<lambda>role.
       bind (orRead role) (\<lambda>ownerRoleData.
       andThen
         (if \<not> shouldUpdateRole
          then promiseAll (createUserClientRole env (kcIdpId orgDetails) keycloakUserId [ownerRoleClient])
                 (createUserOrgRole (gnUuid env 1) userId (rlId ownerRoleData) (Some orgId) (Some (fst ownerRoleClient)))
          else promiseAll (createUserClientRole env (kcIdpId orgDetails) keycloakUserId [ownerRoleClient])
                 (andThen (deleteOrgRoles userId orgId)
                   (updateUserOrgRole userId orgId [(rlId ownerRoleData, fst ownerRoleClient)])))
       (ret orgDetails)))))))"

subsection \<open>Registering and updating organisations\<close>

definition assertMarketplaceOrganizationLimit :: "string \<Rightarrow> nat \<Rightarrow> (org_db, unit) eff" where
  "assertMarketplaceOrganizationLimit userId currentOrgCount =
     bind (reads (getMarketplaceMaxOrganizationsByUser userId)) (\<lambda>maxOrganizations.
     case maxOrganizations of
       None \<Rightarrow> ret ()
     | Some n \<Rightarrow> (if n \<noteq> 0 \<and> n \<le> int currentOrgCount then throw (BadRequestException ''marketplace_org_limit_reached'')
                  else ret ()))"

text \<open>The two limits that \<open>createOrganization\<close> and the acceptance of an invitation check first.\<close>

definition assertOrgLimits :: "org_env \<Rightarrow> string \<Rightarrow> (org_db, unit) eff" where
  "assertOrgLimits env userId =
     bind (reads (userOrganizationCount userId)) (\<lambda>userOrgCount.
     if (case gnMaxOrgLimit env of None \<Rightarrow> False | Some n \<Rightarrow> n \<le> int userOrgCount)
     then throw (BadRequestException ''MaximumOrgsLimit'')
     else assertMarketplaceOrganizationLimit userId userOrgCount)"

definition registerNew :: "org_env \<Rightarrow> org_row \<Rightarrow> string option \<Rightarrow> string \<Rightarrow> (org_db, unit) eff" where
  "registerNew env r keycloakUserId userId =
     tryCatch
       (bind (registerToKeycloak env (owName r) (owId r) keycloakUserId userId False) (\<lambda>c.
        bind (updateOrganizationById \<lparr>cdIdpId = Some (Some (kcIdpId c)), cdClientId = Some (Some (kcClientId c)),
                cdClientSecret = None\<rparr> (owId r)) (\<lambda>_. ret ())))
       (\<lambda>_. throw (InternalServerErrorException ''Unable to create client''))"

definition createOrganization ::
    "org_env \<Rightarrow> CreateOrganizationDto \<Rightarrow> string \<Rightarrow> string option \<Rightarrow> (org_db, org_row) eff" where
  "createOrganization env dto userId keycloakUserId =
     asRpc
       (andThen (assertOrgLimits env userId)
       (bind (reads (checkOrganizationNameExist (coName dto))) (\<lambda>organizationExist.
        if organizationExist \<noteq> None then throw (ConflictException ''exists'')
        else bind (reads (checkOrganizationSlugExist (createOrgSlug (coName dto)))) (\<lambda>slugExist.
             if slugExist \<noteq> None then throw (ConflictException ''exists'')
             else bind (if isValidBase64 (coLogo dto) then asRpc (lift (gnUpload env (orEmpty (coLogo dto)))) else ret []) (\<lambda>logo.
                  bind (insertOrganization (gnUuid env 0) dto logo (createOrgSlug (coName dto)) userId) (\<lambda>r.
                  andThen (registerNew env r keycloakUserId userId)
                  (andThen (if truthy (coNotificationWebhook dto)
                            then lift (gnWebhook env (owId r) (orEmpty (coNotificationWebhook dto))) else ret ())
                  (andThen (logActivity userId (owId r) ''organization created'')
                  (ret r)))))))))"

definition createOrgCredentials :: "org_env \<Rightarrow> string \<Rightarrow> string \<Rightarrow> string option \<Rightarrow> (org_db, org_row \<times> string) eff" where
  "createOrgCredentials env orgId userId keycloakUserId =
     asRpc
       (bind (getOrganizationDetails orgId) (\<lambda>organizationDetails.
        case organizationDetails of
          None \<Rightarrow> throw (ConflictException ''orgNotFound'')
        | Some r \<Rightarrow>
            bind
              (if truthy (owIdpId r)
               then andThen (managementToken env userId)
                    (bind (lift (gnClientSecret env (orEmpty (owIdpId r)))) (\<lambda>secret.
                     bind (lift (maskString secret)) (\<lambda>masked.
                     ret (\<lparr>cdIdpId = None, cdClientId = None, cdClientSecret = Some (Some masked)\<rparr>, secret))))
               else tryCatch
                      (bind (registerToKeycloak env (owName r) (owId r) keycloakUserId userId True) (\<lambda>c.
                       bind (lift (maskString (kcClientSecret c))) (\<lambda>masked.
                       ret (\<lparr>cdIdpId = Some (Some (kcIdpId c)), cdClientId = Some (Some (kcClientId c)),
                             cdClientSecret = Some (Some masked)\<rparr>, kcClientSecret c))))
                      (\<lambda>_. throw (InternalServerErrorException ''Unable to create client'')))
              (\<lambda>(updateOrgData, secret).
               bind (updateOrganizationById updateOrgData orgId) (\<lambda>updatedOrg. ret (updatedOrg, secret)))))"

definition deleteClientCredentials :: "org_env \<Rightarrow> string \<Rightarrow> string \<Rightarrow> (org_db, unit) eff" where
  "deleteClientCredentials env orgId userId =
     andThen (managementToken env userId)
     (bind (getOrganizationDetails orgId) (\<lambda>organizationDetails.
      case organizationDetails of
        None \<Rightarrow> throw (NotFoundException ''orgNotFound'')
      | Some r \<Rightarrow>
          tryCatch
            (bind (lift (gnDeleteClient env (owIdpId r))) (\<lambda>_.
             bind (updateOrganizationById \<lparr>cdIdpId = Some None, cdClientId = Some None, cdClientSecret = Some None\<rparr> orgId)
               (\<lambda>_. ret ())))
            (\<lambda>_. throw (InternalServerErrorException ''Unable to delete client credentails''))))"

text \<open>
  \<open>getAgentInvitationDetails\<close> looks for an invitation whose own identifier is that of the organisation.
  \<open>organizationDetails\<close> is still unset in the second branch, and reading its \<open>id\<close> afterwards fails.
\<close>

definition getAgentInvitationDetails :: "string \<Rightarrow> org_db \<Rightarrow> agent_invitation_row option" where
  "getAgentInvitationDetails orgId db = List.find (\<lambda>v. avId v = orgId) (obAgentInvitations db)"

definition updateConnectionInvitationDetails :: "string \<Rightarrow> string option \<Rightarrow> (org_db, unit) eff" where
  "updateConnectionInvitationDetails orgId connectionInvitation =
     writes (\<lambda>db. db\<lparr>obAgentInvitations := updateWhere (\<lambda>v. avOrgId v = orgId)
       (\<lambda>v. v\<lparr>avConnectionInvitation := (case connectionInvitation of None \<Rightarrow> avConnectionInvitation v | Some c \<Rightarrow> c)\<rparr>)
       (obAgentInvitations db)\<rparr>)"

definition updateOrganization :: "org_env \<Rightarrow> IUpdateOrganization \<Rightarrow> string \<Rightarrow> string \<Rightarrow> (org_db, org_row) eff" where
  "updateOrganization env dto userId orgId =
     asRpc
       (bind (reads (checkOrganizationNameExist (upName dto))) (\<lambda>organizationExist.
        if (case organizationExist of None \<Rightarrow> False | Some r \<Rightarrow> owId r \<noteq> orgId) then throw (ConflictException ''exists'')
        else bind (if isValidBase64 (upLogo dto)
                   then bind (asRpc (lift (gnUpload env (orEmpty (upLogo dto))))) (\<lambda>url. ret (Some url)) else ret None) (\<lambda>logo.
             bind (reads (getAgentInvitationDetails orgId)) (\<lambda>agentInvitation.
             bind
               (if (case agentInvitation of None \<Rightarrow> True
                    | Some v \<Rightarrow> avConnectionInvitation v = [] \<and> avAgentId v = [])
                then bind (updateOrganizationRow dto logo (createOrgSlug (upName dto))) (\<lambda>r. ret (Some r))
                else andThen
                       (if organizationExist \<noteq> None  \<comment> \<open>\<open>undefined\<close> differs from the name found\<close>
                        then bind (lift (gnConnection env logo (upName dto) orgId)) (updateConnectionInvitationDetails orgId)
                        else ret ())
                       (ret None))
               (\<lambda>organizationDetails. bind (orRead organizationDetails) (\<lambda>r.
                andThen (logActivity userId (owId r) ''organization updated'') (ret r)))))))"

subsection \<open>Invitations\<close>

definition checkInvitationExist :: "string \<Rightarrow> string \<Rightarrow> org_db \<Rightarrow> bool" where
  "checkInvitationExist email orgId db =
     list_ex (\<lambda>v. vtStatus v = InvPending \<or> vtStatus v = InvAccepted) (getOrgInvitations email orgId db)"

text \<open>The invitations of a request: an address with the identifiers of roles.\<close>

type_synonym send_invitation = "string \<times> string list"

definition newInviteEmails :: "string \<Rightarrow> string \<Rightarrow> send_invitation list \<Rightarrow> org_db \<Rightarrow> string list" where
  "newInviteEmails senderEmail orgId invitations db =
     remdups (map (\<lambda>i. toLowerCase (trim (fst i)))
       (filter (\<lambda>i. let email = toLowerCase (trim (fst i))
                    in email \<noteq> [] \<and> email \<noteq> toLowerCase (trim senderEmail) \<and> \<not> checkInvitationExist (fst i) orgId db)
         invitations))"

definition assertMarketplaceUserLimitAllowsInvitations ::
    "send_invitation list \<Rightarrow> string \<Rightarrow> string \<Rightarrow> (org_db, unit) eff" where
  "assertMarketplaceUserLimitAllowsInvitations invitations orgId senderEmail =
     bind (reads (getMarketplaceMaxUsers orgId)) (\<lambda>maxUsers.
     if maxUsers = None \<or> maxUsers = Some 0 then ret ()
     else bind (reads (newInviteEmails senderEmail orgId invitations)) (\<lambda>newEmails.
          if newEmails = [] then ret ()
          else bind (reads (getOrganizationUserCount orgId)) (\<lambda>activeUsers.
               bind (reads (getPendingOrganizationInvitationCount orgId)) (\<lambda>pendingInvitations.
               if the maxUsers < int (activeUsers + pendingInvitations + length newEmails)
               then throw (BadRequestException ''marketplace_user_limit_reached'') else ret ()))))"

definition assertMarketplaceUserLimitAllowsAcceptance :: "string \<Rightarrow> string \<Rightarrow> (org_db, unit) eff" where
  "assertMarketplaceUserLimitAllowsAcceptance orgId userId =
     bind (reads (getMarketplaceMaxUsers orgId)) (\<lambda>maxUsers.
     if maxUsers = None \<or> maxUsers = Some 0 then ret ()
     else bind (reads (checkUserOrgExist userId orgId)) (\<lambda>isExistingOrgUser.
          if isExistingOrgUser then ret ()
          else bind (reads (getOrganizationUserCount orgId)) (\<lambda>activeUsers.
               if the maxUsers < int (activeUsers + 1)
               then throw (BadRequestException ''marketplace_user_limit_reached'') else ret ())))"

text \<open>The part that the two loops share, for an invitation with the roles it will store; \<open>k\<close> numbers its UUID.\<close>

definition inviteOne ::
    "org_env \<Rightarrow> nat \<Rightarrow> string \<Rightarrow> string \<Rightarrow> string \<Rightarrow> string list \<Rightarrow> string \<Rightarrow> (org_db, unit) eff" where
  "inviteOne env k orgId userId userEmail roles email =
     bind (reads (checkInvitationExist email orgId)) (\<lambda>isInvitationExist.
     if \<not> isInvitationExist \<and> userEmail \<noteq> email
     then bind (createSendInvitation (gnUuid env k) email orgId userId roles) (\<lambda>v.
          tryCatch (lift (gnSendInvite env email (vtId v))) (\<lambda>_. throw (InternalServerErrorException ''emailSend'')))
     else ret ())"

definition askUsers :: "org_env \<Rightarrow> string \<Rightarrow> string \<Rightarrow> (org_db, unit) eff" where
  "askUsers env email userEmail =
     bind (lift (gnUserByMail env email)) (\<lambda>_.
     bind (lift (gnUserByMail env userEmail)) (\<lambda>userData.
     bind (orRead userData) (\<lambda>_. ret ())))"

fun createInvitationByOrgRoles ::
    "org_env \<Rightarrow> nat \<Rightarrow> string \<Rightarrow> string \<Rightarrow> string \<Rightarrow> send_invitation list \<Rightarrow> (org_db, unit) eff" where
  "createInvitationByOrgRoles env k orgId userId userEmail [] = ret ()"
| "createInvitationByOrgRoles env k orgId userId userEmail ((email, orgRoleId) # rest) =
     andThen (askUsers env email userEmail)
     (bind (reads (getOrgRolesByIds orgRoleId)) (\<lambda>orgRolesDetails.
      if orgRolesDetails = [] then throw (NotFoundException ''orgRoleIdNotFound'')
      else andThen (inviteOne env k orgId userId userEmail orgRoleId email)
             (createInvitationByOrgRoles env (Suc k) orgId userId userEmail rest)))"

fun clientInvitations ::
    "org_env \<Rightarrow> client_role list \<Rightarrow> org_roles list \<Rightarrow> nat \<Rightarrow> string \<Rightarrow> string \<Rightarrow> string \<Rightarrow> send_invitation list \<Rightarrow>
     (org_db, unit) eff" where
  "clientInvitations env clientRoles orgRoles k orgId userId userEmail [] = ret ()"
| "clientInvitations env clientRoles orgRoles k orgId userId userEmail ((email, orgRoleId) # rest) =
     andThen (askUsers env email userEmail)
     (let matchedRoles = map snd (filter (\<lambda>role. trim (fst role) \<in> set orgRoleId) clientRoles);
          filteredOrgRoles = filter (\<lambda>role. trim (rlName role) \<in> set matchedRoles) orgRoles
      in if length orgRoleId \<noteq> length matchedRoles then throw (NotFoundException ''orgRoleIdNotFound'')
         else andThen (inviteOne env k orgId userId userEmail (map rlId filteredOrgRoles) email)
                (clientInvitations env clientRoles orgRoles (Suc k) orgId userId userEmail rest))"

definition createInvitationByClientRoles ::
    "org_env \<Rightarrow> string \<Rightarrow> string \<Rightarrow> string \<Rightarrow> string \<Rightarrow> send_invitation list \<Rightarrow> (org_db, unit) eff" where
  "createInvitationByClientRoles env idpId orgId userId userEmail invitations =
     andThen (managementToken env userId)
     (bind (lift (gnClientRoles env idpId)) (\<lambda>clientRoles.
      bind (reads Organization_Store.getOrgRoles) (\<lambda>orgRoles.
      clientInvitations env clientRoles orgRoles 0 orgId userId userEmail invitations)))"

definition createInvitation ::
    "org_env \<Rightarrow> send_invitation list \<Rightarrow> string \<Rightarrow> string \<Rightarrow> string \<Rightarrow> (org_db, unit) eff" where
  "createInvitation env invitations orgId userId userEmail =
     asRpc
       (bind (getOrganizationDetails orgId) (\<lambda>organizationDetails.
        case organizationDetails of
          None \<Rightarrow> throw (NotFoundException ''orgNotFound'')
        | Some r \<Rightarrow>
            andThen (assertMarketplaceUserLimitAllowsInvitations invitations orgId userEmail)
            (andThen
              (if \<not> truthy (owIdpId r) then createInvitationByOrgRoles env 0 orgId userId userEmail invitations
               else createInvitationByClientRoles env (orEmpty (owIdpId r)) orgId userId userEmail invitations)
              (logActivity userId (owId r) ''Invitations sent''))))"

definition verifyInvitationPending :: "string \<Rightarrow> string \<Rightarrow> org_db \<Rightarrow> bool" where
  "verifyInvitationPending invitationId email db =
     (case getInvitationById invitationId db of
        None \<Rightarrow> False
      | Some v \<Rightarrow> vtStatus v = InvPending \<and> map_option toLowerCase (vtEmail v) = Some (toLowerCase email))"

fun transition :: "Invitation \<Rightarrow> Invitation \<Rightarrow> bool" where
  "transition InvPending next = (next = InvAccepted \<or> next = InvRejected)"
| "transition InvAccepted next = False"
| "transition InvRejected next = False"

text \<open>The roles of an invitation with the client role of the same name, if there is one.\<close>

definition rolesPayload :: "client_role list \<Rightarrow> org_roles list \<Rightarrow> (string \<times> client_role) option list" where
  "rolesPayload clientRoles orgRoles =
     map (\<lambda>orgRole. map_option (\<lambda>c. (rlId orgRole, c)) (List.find (\<lambda>c. snd c = rlName orgRole) clientRoles)) orgRoles"

text \<open>
  The array of \<open>Promise.all\<close> is built from left to right: the update of the invitation is under way when a missing client
  role raises.
\<close>

definition updateClientInvitation ::
    "org_env \<Rightarrow> org_invitations \<Rightarrow> string \<Rightarrow> string \<Rightarrow> string option \<Rightarrow> string \<Rightarrow> Invitation \<Rightarrow> (org_db, unit) eff" where
  "updateClientInvitation env invitation idpId userId keycloakUserId orgId status =
     andThen (managementToken env userId)
     (bind (lift (gnClientRoles env idpId)) (\<lambda>clientRolesList.
      bind (reads (getOrgRolesByIds (vtOrgRoles invitation))) (\<lambda>orgRoles.
      let payload = rolesPayload clientRolesList orgRoles; roles = map the payload
      in if None \<in> set payload
         then (\<lambda>s. (Inl undefinedRead, snd (updateInvitationStatus (vtId invitation) status s)))
         else promiseAll (updateInvitationStatus (vtId invitation) status)
                (promiseAll (createUserClientRole env idpId keycloakUserId (map snd roles))
                  (updateUserOrgRole userId orgId (map (\<lambda>r. (fst r, fst (snd r))) roles))))))"

fun createUserOrgRoles :: "org_env \<Rightarrow> nat \<Rightarrow> string \<Rightarrow> string \<Rightarrow> string list \<Rightarrow> (org_db, unit) eff" where
  "createUserOrgRoles env k userId orgId [] = ret ()"
| "createUserOrgRoles env k userId orgId (roleId # rest) =
     andThen (createUserOrgRole (gnUuid env k) userId roleId (Some orgId) None)
       (createUserOrgRoles env (Suc k) userId orgId rest)"

record UpdateInvitationDto =
  uiOrgId :: string
  uiStatus :: Invitation
  uiInvitationId :: string
  uiUserId :: string
  uiKeycloakUserId :: "string option"
  uiEmail :: string

definition answerInvitation :: "org_env \<Rightarrow> UpdateInvitationDto \<Rightarrow> org_invitations option \<Rightarrow> (org_db, unit) eff" where
  "answerInvitation env p found =
     (case found of
        None \<Rightarrow> throw (NotFoundException ''invitationNotFound'')
      | Some invitation \<Rightarrow>
          (if vtEmail invitation \<noteq> Some (uiEmail p) then throw (NotFoundException ''invitationNotFound'')
           else if vtOrgId invitation \<noteq> uiOrgId p then throw (NotFoundException ''invalidOrgId'')
           else bind (getOrganizationDetails (uiOrgId p)) (\<lambda>organizationDetails.
                case organizationDetails of
                  None \<Rightarrow> throw (ConflictException ''orgNotFound'')
                | Some r \<Rightarrow>
                    (if \<not> transition (vtStatus invitation) (uiStatus p)
                     then throw (BadRequestException ''invitationStatusUpdateInvalid'')
                     else if uiStatus p = InvRejected
                     then updateInvitationStatus (uiInvitationId p) (uiStatus p)
                     else if truthy (owIdpId r)
                     then updateClientInvitation env invitation (orEmpty (owIdpId r)) (uiUserId p)
                            (uiKeycloakUserId p) (uiOrgId p) (uiStatus p)
                     else andThen (updateInvitationStatus (uiInvitationId p) (uiStatus p))
                            (createUserOrgRoles env 0 (uiUserId p) (uiOrgId p) (vtOrgRoles invitation))))))"

definition updateOrgInvitation :: "org_env \<Rightarrow> UpdateInvitationDto \<Rightarrow> (org_db, unit) eff" where
  "updateOrgInvitation env p =
     asRpc
       (bind (reads (getInvitationById (uiInvitationId p))) (\<lambda>found.
        andThen
          (if uiStatus p = InvAccepted
           then andThen (assertOrgLimits env (uiUserId p))
                  (assertMarketplaceUserLimitAllowsAcceptance (uiOrgId p) (uiUserId p))
           else ret ())
          (answerInvitation env p found)))"

definition deleteOrganizationInvitation :: "string \<Rightarrow> string \<Rightarrow> (org_db, unit) eff" where
  "deleteOrganizationInvitation orgId invitationId =
     asRpc
       (bind (reads (getInvitationById invitationId)) (\<lambda>invitationDetails.
        case invitationDetails of
          None \<Rightarrow> throw (NotFoundException ''invitationNotFound'')
        | Some v \<Rightarrow>
            (if orgId \<noteq> vtOrgId v then throw (ForbiddenException ''deleteOrgInvitation'')
             else if vtStatus v \<noteq> InvPending then throw (BadRequestException ''invitationStatusInvalid'')
             else deleteInvitationRow invitationId)))"

subsection \<open>Roles of a member\<close>

definition clientRolesPayload :: "client_role list \<Rightarrow> org_roles list \<Rightarrow> (string \<times> client_role) option list" where
  "clientRolesPayload clientRoles orgRoles =
     map (\<lambda>c. map_option (\<lambda>orgRole. (rlId orgRole, c)) (List.find (\<lambda>orgRole. rlName orgRole = snd c) orgRoles)) clientRoles"

definition updateUserClientRoles ::
    "org_env \<Rightarrow> string list \<Rightarrow> string \<Rightarrow> string \<Rightarrow> string \<Rightarrow> (org_db, unit) eff" where
  "updateUserClientRoles env roleIds idpId userId orgId =
     andThen (managementToken env userId)
     (bind (lift (gnClientRoles env idpId)) (\<lambda>clientRolesList.
      bind (reads Organization_Store.getOrgRoles) (\<lambda>orgRoles.
      let matchedClientRoles = filter (\<lambda>role. trim (fst role) \<in> set roleIds) clientRolesList;
          payload = clientRolesPayload matchedClientRoles orgRoles; roles = map the payload
      in if length roleIds \<noteq> length matchedClientRoles then throw (NotFoundException ''orgRoleIdNotFound'')
         else bind (lift (gnUserById env userId)) (\<lambda>answer.
              bind (orRead answer) (\<lambda>keycloakUserId.
              bind (promiseAll (deleteUserClientRoles (Some idpId) keycloakUserId) (deleteOrgRoles userId orgId)) (\<lambda>count.
              if count = 0 then throw (InternalServerErrorException ''updateUserRoles'')
              else if None \<in> set payload then throw undefinedRead
              else promiseAll (createUserClientRole env idpId keycloakUserId (map snd roles))
                     (updateUserOrgRole userId orgId (map (\<lambda>r. (fst r, fst (snd r))) roles))))))))"

text \<open>
  The inserts of the first branch are not awaited. The promise of \<open>updateUserClientRoles\<close> is returned from inside
  the \<open>try\<close>, so its exceptions are not wrapped.
\<close>

definition updateUserRoles :: "org_env \<Rightarrow> string \<Rightarrow> string list \<Rightarrow> string \<Rightarrow> (org_db, unit) eff" where
  "updateUserRoles env orgId roleIds userId =
     bind
       (asRpc
         (bind (reads (checkUserOrgExist userId orgId)) (\<lambda>isUserExistForOrg.
          if \<not> isUserExistForOrg then throw (NotFoundException ''userNotFound'')
          else bind (getOrganizationDetails orgId) (\<lambda>organizationDetails.
               case organizationDetails of
                 None \<Rightarrow> throw (NotFoundException ''orgNotFound'')
               | Some r \<Rightarrow>
                   (if truthy (owIdpId r) then ret (Some (orEmpty (owIdpId r), owId r))
                    else bind (reads (getOrgRolesByIds roleIds)) (\<lambda>roles.
                         if roles = [] then throw (NotFoundException ''rolesNotExist'')
                         else bind (deleteOrgRoles userId orgId) (\<lambda>count.
                              if count = 0 then throw (InternalServerErrorException ''updateUserRoles'')
                              else andThen (writes (\<lambda>db. db\<lparr>obLate := obLate db @
                                              map (\<lambda>role. LateRole userId role orgId None) roleIds\<rparr>))
                                   (ret None))))))))
       (\<lambda>client. case client of
          None \<Rightarrow> ret ()
        | Some (idpId, i) \<Rightarrow> updateUserClientRoles env roleIds idpId userId i)"

subsection \<open>Deleting an organisation\<close>

definition tellMember :: "org_env \<Rightarrow> string \<Rightarrow> (org_db, unit) eff" where
  "tellMember env userId =
     bind (reads (getUser userId)) (\<lambda>userDetails.
     bind (lift (gnSendMail env (Option.bind userDetails auEmail))) (\<lambda>_.
     bind (orRead userDetails) (\<lambda>_. ret ())))"

definition deleteOrganization :: "org_env \<Rightarrow> string \<Rightarrow> string \<Rightarrow> (org_db, unit) eff" where
  "deleteOrganization env orgId userId =
     asRpc
       (bind (reads (getUser userId)) (\<lambda>user.
        bind (lift (getManagementToken env (Option.bind user auClientId) (Option.bind user auClientSecret))) (\<lambda>_.
        bind (getOrganizationDetails orgId) (\<lambda>organizationDetails.
        case organizationDetails of
          None \<Rightarrow> throw (NotFoundException ''orgNotFound'')
        | Some r \<Rightarrow>
            bind (reads (\<lambda>db. map vtEmail (getOrgInvitationsByOrg orgId db))) (\<lambda>arrayEmail.
            bind (if arrayEmail \<noteq> [] then lift (gnUsersByMails env arrayEmail) else ret []) (\<lambda>members.
            andThen (forEach (map snd members @ [Option.bind user auKeycloakUserId]) (deleteUserClientRoles (owIdpId r)))
            (bind (lift (gnUsersByMails env arrayEmail)) (\<lambda>again.
             andThen (forEach (map fst again) (tellMember env))
             (bind (deleteOrg orgId) (\<lambda>c.
              forEach [(dcActivity c, ''user_activity''), (dcUserRoles c, ''user_org_roles''),
                       (dcInvitations c, ''org_invitations''), (dcNotifications c, ''notification''), (1, ''organisation'')]
                (\<lambda>(records, table). if records \<noteq> 0 then lift (gnDeletedActivity env table records) else ret ())))))))))))"

subsection \<open>Registering the organisations without a client\<close>

text \<open>\<open>seen\<close> is \<open>deletedUserDetails\<close>: the users whose old rows were already removed.\<close>

fun mapUsers ::
    "org_env \<Rightarrow> string \<Rightarrow> string \<Rightarrow> client_role list \<Rightarrow> string list \<Rightarrow> (string \<times> string option \<times> org_roles) list \<Rightarrow> (org_db, unit) eff" where
  "mapUsers env idpId orgId clientRoles seen [] = ret ()"
| "mapUsers env idpId orgId clientRoles seen ((userId, keycloakUserId, role) # rest) =
     (let matched = filter (\<lambda>c. snd c = rlName role) clientRoles
      in andThen (if userId \<in> set seen then ret ()
                  else promiseAll (deleteUserClientRoles (Some idpId) keycloakUserId)
                         (bind (deleteOrgRoles userId orgId) (\<lambda>_. ret ())))
         (andThen (promiseAll (createUserClientRole env idpId keycloakUserId matched)
                     (updateUserOrgRole userId orgId (map (\<lambda>c. (rlId role, fst c)) matched)))
           (mapUsers env idpId orgId clientRoles (userId # seen) rest)))"

text \<open>The user roles of an organisation with the user and the role each row refers to.\<close>

definition joinedRoles :: "org_db \<Rightarrow> user_org_roles list \<Rightarrow> (string \<times> string option \<times> org_roles) list" where
  "joinedRoles db rows =
     concat (map (\<lambda>r. case (getUser (uoUserId r) db, List.find (\<lambda>x. rlId x = uoRoleId r) (obRoles db)) of
       (Some u, Some x) \<Rightarrow> [(auId u, auKeycloakUserId u, x)] | _ \<Rightarrow> []) rows)"

definition registerOrg :: "org_env \<Rightarrow> org_row \<times> (string \<times> string option \<times> org_roles) list \<Rightarrow> (org_db, unit) eff" where
  "registerOrg env x =
     (case x of (r, roles) \<Rightarrow>
       (case List.find (\<lambda>(_, _, role). rlName role = ''owner'') roles of
          None \<Rightarrow> ret ()
        | Some (ownerId, ownerKeycloakId, _) \<Rightarrow>
            (if \<not> truthy ownerKeycloakId then ret ()
             else bind (registerToKeycloak env (owName r) (owId r) ownerKeycloakId ownerId True) (\<lambda>c.
                  bind (lift (maskString (kcClientSecret c))) (\<lambda>masked.
                  bind (updateOrganizationById \<lparr>cdIdpId = Some (Some (kcIdpId c)), cdClientId = Some (Some (kcClientId c)),
                          cdClientSecret = Some (Some masked)\<rparr> (owId r)) (\<lambda>_.
                  andThen (managementToken env ownerId)
                  (bind (lift (gnClientRoles env (kcIdpId c))) (\<lambda>clientRoles.
                   mapUsers env (kcIdpId c) (owId r) clientRoles []
                     (filter (\<lambda>(_, kc, _). kc \<noteq> None) roles)))))))))"

definition registerOrgsMapUsers :: "org_env \<Rightarrow> (org_db, unit) eff" where
  "registerOrgsMapUsers env =
     asRpc
       (bind (reads (\<lambda>db. map (\<lambda>(r, rows). (r, joinedRoles db rows)) (getUnregisteredClientOrgs db))) (\<lambda>unregistered.
        if unregistered = [] then throw (NotFoundException ''Unregistered client organizations not found'')
        else forEach unregistered (registerOrg env)))"

subsection \<open>Client credentials\<close>

definition authenticateClientKeycloak :: "org_env \<Rightarrow> string \<Rightarrow> string \<Rightarrow> (org_db, access_token) eff" where
  "authenticateClientKeycloak env clientId clientSecret =
     asRpc (tryCatch (lift (gnGetToken env clientId clientSecret))
              (\<lambda>_. throw (UnauthorizedException ''invalidClient'')))"

text \<open>The identifier of the new session; none for a client that is no organisation.\<close>

definition clientLoginCredentails :: "org_env \<Rightarrow> string \<Rightarrow> string \<Rightarrow> (org_db, string option) eff" where
  "clientLoginCredentails env clientId clientSecret =
     bind (authenticateClientKeycloak env clientId clientSecret) (\<lambda>token.
     if \<not> uuidRegexTest clientId then ret None
     else bind (reads (getOrgAndOwnerUser clientId)) (\<lambda>row.
          bind (orRead row) (\<lambda>orgRoleDetails.
          bind (reads (getUser (uoUserId orgRoleDetails))) (\<lambda>found.
          bind (orRead found) (\<lambda>user.
          andThen (writes (\<lambda>db. db\<lparr>obLate := obLate db @ [LateCleanup (auId user)]\<rparr>))
          (bind (reads (fetchUserSessions (auId user))) (\<lambda>sessions.
           if (case gnSessionsLimit env of None \<Rightarrow> False | Some n \<Rightarrow> n \<le> int (length sessions))
           then throw (BadRequestException ''sessionLimitReached'')
           else bind (orRead (gnTokenExp env (tkAccessToken token))) (\<lambda>exp.
                bind (reads (checkAccountDetails (auId user))) (\<lambda>accountDetails.
                bind (case accountDetails of
                        Some a \<Rightarrow> ret a
                      | None \<Rightarrow> addAccountDetails (gnUuid env 0) (auId user) (auKeycloakUserId user)) (\<lambda>account.
                bind (createSession \<lparr>snId = gnUuid env 1, snToken = tkAccessToken token, snUserId = auId user,
                        snExpires = tkExpiresIn token, snAccountId = acId account, snExpiresAt = exp * 1000\<rparr>) (\<lambda>session.
                ret (Some (snId session)))))))))))))"

definition generateClientApiToken :: "org_env \<Rightarrow> ClientTokenDto \<Rightarrow> (org_db, string option) eff" where
  "generateClientApiToken env dto =
     asRpc
       (bind (getOrganizationDetails (gtOrgId dto)) (\<lambda>orgDetails.
        if orgDetails = None then throw (NotFoundException ''orgNotFound'')
        else let encryptedClientId = gnEnvVar env (gtClientAlias dto @ ''_KEYCLOAK_MANAGEMENT_CLIENT_ID'');
                 encryptedClientSecret = gnEnvVar env (gtClientAlias dto @ ''_KEYCLOAK_MANAGEMENT_CLIENT_SECRET'')
             in if \<not> truthy encryptedClientId \<or> \<not> truthy encryptedClientSecret
                then throw (NotFoundException ''invalidClientCredentials'')
                else bind (lift (gnDecrypt env encryptedClientId)) (\<lambda>decryptedClientId.
                     if decryptedClientId = [] then throw (NotFoundException ''invalidClientCredentials'')
                     else bind (lift (gnDecrypt env encryptedClientSecret)) (\<lambda>decryptedSecret.
                     if decryptedSecret = [] then throw (NotFoundException ''invalidClientCredentials'')
                     else if toLowerCase (gtClientAlias dto) \<noteq> toLowerCase decryptedClientId
                     then throw (NotFoundException ''invalidClientCredentials'')
                     else if gtClientSecret dto \<noteq> decryptedSecret
                     then throw (NotFoundException ''invalidClientCredentials'')
                     else bind (lift (gnAdminToken env dto)) (\<lambda>adminToken.
                          if \<not> truthy adminToken then throw (InternalServerErrorException ''adminTokenDetails'')
                          else bind (lift (gnClientDetails env (gtOrgId dto) (orEmpty adminToken))) (\<lambda>clientDetails.
                               case clientDetails of
                                 Some (secret # _) \<Rightarrow>
                                   bind (authenticateClientKeycloak env (gtOrgId dto) secret) (\<lambda>t. ret (tkAccessToken t))
                               | _ \<Rightarrow> throw (NotFoundException ''clientDetails'')))))))"

subsection \<open>Calls and steps\<close>

datatype org_call =
    CreateOrganization CreateOrganizationDto string "string option"
  | CreateOrgCredentials string string "string option"
  | DeleteClientCredentials string string
  | UpdateOrganization IUpdateOrganization string string
  | CreateInvitation "send_invitation list" string string string
  | UpdateOrgInvitation UpdateInvitationDto
  | DeleteOrganizationInvitation string string
  | UpdateUserRoles string "string list" string
  | DeleteOrganization string string
  | RegisterOrgsMapUsers
  | ClientLogin string string

definition ignore :: "(org_db, 'a) eff \<Rightarrow> (org_db, unit) eff" where
  "ignore m = bind m (\<lambda>_. ret ())"

fun org_run :: "org_env \<Rightarrow> org_call \<Rightarrow> (org_db, unit) eff" where
  "org_run env (CreateOrganization dto userId kc) = ignore (createOrganization env dto userId kc)"
| "org_run env (CreateOrgCredentials orgId userId kc) = ignore (createOrgCredentials env orgId userId kc)"
| "org_run env (DeleteClientCredentials orgId userId) = deleteClientCredentials env orgId userId"
| "org_run env (UpdateOrganization dto userId orgId) = ignore (updateOrganization env dto userId orgId)"
| "org_run env (CreateInvitation invitations orgId userId email) = createInvitation env invitations orgId userId email"
| "org_run env (UpdateOrgInvitation p) = updateOrgInvitation env p"
| "org_run env (DeleteOrganizationInvitation orgId i) = deleteOrganizationInvitation orgId i"
| "org_run env (UpdateUserRoles orgId roleIds userId) = updateUserRoles env orgId roleIds userId"
| "org_run env (DeleteOrganization orgId userId) = deleteOrganization env orgId userId"
| "org_run env RegisterOrgsMapUsers = registerOrgsMapUsers env"
| "org_run env (ClientLogin clientId secret) = ignore (clientLoginCredentails env clientId secret)"

text \<open>A call that was not awaited, with the UUID of its row and the time; its exception has no handler.\<close>

fun late_run :: "string \<Rightarrow> int \<Rightarrow> late_job \<Rightarrow> org_db \<Rightarrow> org_db" where
  "late_run uuid now (LateRole userId roleId orgId idpRoleId) db =
     snd (createUserOrgRole uuid userId roleId (Some orgId) idpRoleId db)"
| "late_run uuid now (LateCleanup userId) db = deleteInactiveSessions now userId db"

text \<open>
  The rows of other services that these tables refer to. \<open>obUsers\<close>, the Marketplace and the tables that refer to an
  organisation belong to other services; a deleted user takes its role rows along.
\<close>

definition references_ok :: "org_db \<Rightarrow> bool" where
  "references_ok db \<longleftrightarrow>
     list_all (\<lambda>r. uoUserId r \<in> auId ` set (obUsers db) \<and> uoRoleId r \<in> rlId ` set (obRoles db) \<and>
       (uoOrgId r = None \<or> the (uoOrgId r) \<in> owId ` set (obOrgs db))) (obUserRoles db) \<and>
     list_all (\<lambda>v. vtOrgId v \<in> owId ` set (obOrgs db) \<and> vtUserId v \<in> auId ` set (obUsers db)) (obInvitations db) \<and>
     list_all (\<lambda>v. uvOrgId v \<in> owId ` set (obOrgs db) \<and> uvUserId v \<in> auId ` set (obUsers db)) (obActivities db) \<and>
     list_all (\<lambda>a. acUserId a \<in> auId ` set (obUsers db)) (obAccounts db) \<and>
     list_all (\<lambda>s. snUserId s \<in> auId ` set (obUsers db) \<and> snAccountId s \<in> acId ` set (obAccounts db)) (obSessions db)"

inductive org_quiet :: "org_db \<Rightarrow> org_db \<Rightarrow> bool" where
  late: "obLate db = before @ job # after \<Longrightarrow>
    org_quiet db (late_run uuid now job (db\<lparr>obLate := before @ after\<rparr>))"
| others: "db' = db\<lparr>obUsers := users, obUserRoles := filter kept (obUserRoles db), obSubscriptions := subs,
      obPlans := plans, obNotifications := notes, obSchemas := schemas, obCredDefs := credDefs, obAgents := agents,
      obAgentInvitations := invitations, obReferences := refs, obHeld := held\<rparr> \<Longrightarrow>
    references_ok db' \<Longrightarrow> org_quiet db db'"

inductive org_step :: "org_db \<Rightarrow> org_db \<Rightarrow> bool" where
  call: "org_run env c db = (r, db') \<Longrightarrow> org_step db db'"
| quiet: "org_quiet db db' \<Longrightarrow> org_step db db'"

definition org_start :: "org_db \<Rightarrow> bool" where
  "org_start db \<longleftrightarrow> distinct (map rlId (obRoles db)) \<and> distinct (map rlName (obRoles db)) \<and> obOrgs db = [] \<and>
     obInvitations db = [] \<and> obUserRoles db = [] \<and> obActivities db = [] \<and> obAccounts db = [] \<and> obSessions db = [] \<and>
     obLate db = [] \<and> obKeycloak db = []"

text \<open>The same with the calls, the latest first, each with the state and the environment it met.\<close>

type_synonym org_event = "org_db \<times> org_env \<times> org_call"

inductive org_trace :: "org_event list \<Rightarrow> org_db \<Rightarrow> bool" where
  start: "org_start db \<Longrightarrow> org_trace [] db"
| called: "org_trace es db \<Longrightarrow> org_run env c db = (r, db') \<Longrightarrow> org_trace ((db, env, c) # es) db'"
| unseen: "org_trace es db \<Longrightarrow> org_quiet db db' \<Longrightarrow> org_trace es db'"

end
