(* ===== verification/Organization_Invariant.thy ===== *)
theory Organization_Invariant
  imports Organization_Service
begin

text \<open>
  What the handlers of \<open>Organization_Service\<close> keep. \<open>org_frame\<close> is the interface between the repository and the
  handlers: a predicate on the tables that every write of the repository maintains, provided the write is one that the
  parameters of the interface allow. Every handler is shown once to keep such a predicate. The interface is
  interpreted on the invariant of the tables and, in \<open>Organization_Safety\<close>, on bounds for what a call may add.
\<close>

section \<open>Keeping a predicate\<close>

abbreviation maintains :: "(org_db \<Rightarrow> bool) \<Rightarrow> (org_db, 'a) eff \<Rightarrow> bool" where
  "maintains P m \<equiv> moves (\<lambda>s t. P s \<longrightarrow> P t) m"

lemma maintainsI: "(\<And>s r t. P s \<Longrightarrow> m s = (r, t) \<Longrightarrow> P t) \<Longrightarrow> maintains P m"
  by (auto intro: movesI)

lemma maintainsD: "maintains P m \<Longrightarrow> m s = (r, t) \<Longrightarrow> P s \<Longrightarrow> P t"
  using movesD by fastforce

text \<open>What follows a read may use that the predicate holds of the state read, what follows another computation
  may use its result.\<close>

lemma maintains_reads_bind: "(\<And>s. P s \<Longrightarrow> maintains P (f (g s))) \<Longrightarrow> maintains P (bind (reads g) f)"
  by (auto simp: moves_def bind_def)

lemma maintains_bind_result:
  assumes "maintains P m" and "\<And>s x t. m s = (Inr x, t) \<Longrightarrow> maintains P (f x)"
  shows "maintains P (bind m f)"
proof (rule maintainsI)
  fix s r t
  assume "P s" and "bind m f s = (r, t)"
  from this(2) show "P t"
  proof (cases rule: bind_cases)
    case (raised e)
    with maintainsD [OF assms(1)] \<open>P s\<close> show ?thesis by blast
  next
    case (went_on x s1)
    from maintainsD [OF assms(1) went_on(1) \<open>P s\<close>] have "P s1" .
    with maintainsD [OF assms(2) [OF went_on(1)] went_on(2)] show ?thesis .
  qed
qed

section \<open>The interface\<close>

locale org_frame =
  fixes P :: "org_db \<Rightarrow> bool"
    and mayGrant :: "string \<Rightarrow> string \<Rightarrow> string \<Rightarrow> bool"
    and mayPromise :: "string \<Rightarrow> string \<Rightarrow> string \<Rightarrow> bool"
    and mayInvite :: "org_invitations \<Rightarrow> bool"
    and mayAnswer :: "string \<Rightarrow> Invitation \<Rightarrow> bool"
  assumes keep_insertOrg: "maintains P (insertOrg r)"
    and keep_updateOrg: "(\<And>r. owId (f r) = owId r) \<Longrightarrow> maintains P (updateOrg i f)"
    and keep_invite: "mayInvite \<lparr>vtId = uuid, vtEmail = Some email, vtUserId = userId, vtOrgId = orgId,
        vtStatus = InvPending, vtOrgRoles = roles\<rparr> \<Longrightarrow> maintains P (createSendInvitation uuid email orgId userId roles)"
    and keep_answer: "mayAnswer i st \<Longrightarrow> maintains P (updateInvitationStatus i st)"
    and keep_drop: "maintains P (deleteInvitationRow i)"
    and keep_grant: "mayGrant userId roleId orgId \<Longrightarrow> maintains P (createUserOrgRole uuid userId roleId (Some orgId) idp)"
    and keep_deleteOrgRoles: "maintains P (deleteOrgRoles userId orgId)"
    and keep_late: "(\<And>u r o' i. LateRole u r o' i \<in> set jobs \<Longrightarrow> mayPromise u r o') \<Longrightarrow>
        P s \<Longrightarrow> P (s\<lparr>obLate := obLate s @ jobs\<rparr>)"
    and keep_keycloak: "P s \<Longrightarrow> P (s\<lparr>obKeycloak := k\<rparr>)"
    and keep_connection: "P s \<Longrightarrow> P (s\<lparr>obAgentInvitations := a\<rparr>)"
    and keep_activity: "maintains P (logActivity userId orgId action)"
    and keep_deleteOrg: "maintains P (deleteOrg orgId)"
    and keep_account: "maintains P (addAccountDetails uuid userId kc)"
    and keep_session: "maintains P (createSession sn)"
begin

sublocale effect_preorder "\<lambda>s t. P s \<longrightarrow> P t"
  by unfold_locales auto

lemma keep_orRead: "maintains P (orRead x)"
  by (cases x) (simp_all add: orRead_def moves_ret moves_throw)

lemma keep_asRpc: "maintains P m \<Longrightarrow> maintains P (asRpc m)"
  unfolding asRpc_def by (intro moves_rules)

lemma keep_promiseAll:
  assumes "maintains P m" and "maintains P n"
  shows "maintains P (promiseAll m n)"
proof (rule maintainsI)
  fix s r t
  assume "P s" and run: "promiseAll m n s = (r, t)"
  obtain r1 s1 r2 s2 where "m s = (r1, s1)" "n s1 = (r2, s2)" by fastforce
  with run have "t = s2" "P s1" using maintainsD [OF assms(1)] \<open>P s\<close>
    by (auto simp: promiseAll_def split: sum.splits)
  with maintainsD [OF assms(2) \<open>n s1 = (r2, s2)\<close>] show "P t" by simp
qed

lemma moves_option_cases:
  "maintains P m \<Longrightarrow> maintains P (case None of None \<Rightarrow> m | Some y \<Rightarrow> f y)"
  "maintains P (f x) \<Longrightarrow> maintains P (case Some x of None \<Rightarrow> m | Some y \<Rightarrow> f y)"
  by simp_all

lemma moves_lift_bind: "(\<And>x. maintains P (f x)) \<Longrightarrow> maintains P (bind (lift a) f)"
  by (intro moves_bind moves_lift)

lemma keep_case_list: "maintains P m \<Longrightarrow> (\<And>y ys. maintains P (f y ys)) \<Longrightarrow> maintains P (case xs of [] \<Rightarrow> m | y # ys \<Rightarrow> f y ys)"
  by (cases xs) simp_all

lemmas keep_rules = moves_ret moves_throw moves_lift keep_orRead keep_asRpc keep_promiseAll

text \<open>Lookups and requests.\<close>

lemma keep_details_bind:
  assumes "maintains P (f None)" and "\<And>r. owId r = orgId \<Longrightarrow> maintains P (f (Some r))"
  shows "maintains P (bind (getOrganizationDetails orgId) f)"
proof (cases "orgId = []")
  case True
  then show ?thesis by (simp add: getOrganizationDetails_def moves_throw)
next
  case False
  have "maintains P (f (List.find (\<lambda>r. owId r = orgId) (obOrgs s)))" for s
    using assms by (cases "List.find (\<lambda>r. owId r = orgId) (obOrgs s)") (auto dest: find_SomeD)
  then have "maintains P (bind (reads (\<lambda>s. List.find (\<lambda>r. owId r = orgId) (obOrgs s))) f)" by (intro maintains_reads_bind)
  with False show ?thesis by (simp add: getOrganizationDetails_def)
qed

lemma keep_managementToken: "maintains P (managementToken env userId)"
  unfolding managementToken_def by (intro moves_bind moves_reads keep_rules)

lemma keep_createUserClientRole: "maintains P (createUserClientRole env idp u roles)"
  unfolding createUserClientRole_def by (intro moves_bind moves_writes keep_rules) (simp add: keep_keycloak)

lemma keep_deleteUserClientRoles: "maintains P (deleteUserClientRoles idp u)"
  unfolding deleteUserClientRoles_def by (intro moves_writes) (simp add: keep_keycloak)

lemma keep_updateUserOrgRole:
  assumes "\<And>r i. (r, i) \<in> set roles \<Longrightarrow> mayPromise userId r orgId"
  shows "maintains P (updateUserOrgRole userId orgId roles)"
  unfolding updateUserOrgRole_def by (intro moves_writes impI keep_late) (use assms in auto)

lemma keep_updateOrganizationById: "maintains P (updateOrganizationById d orgId)"
  unfolding updateOrganizationById_def by (rule keep_updateOrg) simp

lemma keep_registerToKeycloak:
  assumes grant: "\<And>s role. P s \<Longrightarrow> getRole ''owner'' s = Some role \<Longrightarrow>
    (if b then mayPromise userId (rlId role) orgId else mayGrant userId (rlId role) orgId)"
  shows "maintains P (registerToKeycloak env name orgId kc userId b)"
proof -
  have "maintains P (bind (orRead (getRole ''owner'' s)) (\<lambda>owner.
      andThen (if \<not> b then promiseAll (createUserClientRole env idp kc roles)
                  (createUserOrgRole uuid userId (rlId owner) (Some orgId) i)
               else promiseAll (createUserClientRole env idp kc roles)
                  (andThen (deleteOrgRoles userId orgId) (updateUserOrgRole userId orgId [(rlId owner, j)])))
        (ret c)))" if "P s" for s idp roles uuid i j and c :: kc_client
  proof (rule maintains_bind_result [OF keep_orRead])
    fix s1 x t
    assume "orRead (getRole ''owner'' s) s1 = (Inr x, t)"
    then have "getRole ''owner'' s = Some x" by (cases "getRole ''owner'' s") (simp_all add: orRead_def)
    then have "if b then mayPromise userId (rlId x) orgId else mayGrant userId (rlId x) orgId"
      using grant that by blast
    then show "maintains P (andThen (if \<not> b then promiseAll (createUserClientRole env idp kc roles)
          (createUserOrgRole uuid userId (rlId x) (Some orgId) i)
        else promiseAll (createUserClientRole env idp kc roles)
          (andThen (deleteOrgRoles userId orgId) (updateUserOrgRole userId orgId [(rlId x, j)]))) (ret c))"
      by (intro moves_andThen moves_if keep_rules keep_createUserClientRole keep_grant keep_deleteOrgRoles
          keep_updateUserOrgRole) auto
  qed
  then show ?thesis
    unfolding registerToKeycloak_def
    by (intro moves_andThen [OF keep_managementToken] moves_lift_bind moves_andThen [OF moves_forEach [OF moves_lift]]
        maintains_reads_bind)
qed

lemma keep_limits:
  "maintains P (assertMarketplaceOrganizationLimit u n)" "maintains P (assertOrgLimits env u)"
  "maintains P (assertMarketplaceUserLimitAllowsInvitations is orgId sender)"
  "maintains P (assertMarketplaceUserLimitAllowsAcceptance orgId u)"
  unfolding assertMarketplaceOrganizationLimit_def assertOrgLimits_def assertMarketplaceUserLimitAllowsInvitations_def
    assertMarketplaceUserLimitAllowsAcceptance_def
  by (intro moves_rules)+


text \<open>The handlers.\<close>

lemma keep_split: "(\<And>a b. maintains P (f a b)) \<Longrightarrow> maintains P (case x of (a, b) \<Rightarrow> f a b)"
  by (cases x) simp

lemma keep_registerNew:
  assumes "\<And>s role. P s \<Longrightarrow> getRole ''owner'' s = Some role \<Longrightarrow> mayGrant userId (rlId role) (owId r)"
  shows "maintains P (registerNew env r kc userId)"
  unfolding registerNew_def
  by (intro moves_tryCatch moves_bind keep_registerToKeycloak keep_updateOrganizationById moves_ret moves_throw)
    (simp add: assms)

lemma keep_createOrganization:
  assumes "\<And>s role. P s \<Longrightarrow> getRole ''owner'' s = Some role \<Longrightarrow> mayGrant userId (rlId role) (gnUuid env 0)"
  shows "maintains P (createOrganization env dto userId kc)"
proof -
  have new: "maintains P (bind (insertOrganization (gnUuid env 0) dto logo slug userId) (\<lambda>r.
      andThen (registerNew env r kc userId)
        (andThen (if truthy (coNotificationWebhook dto) then lift (w r) else ret ())
        (andThen (logActivity userId (owId r) a) (ret r)))))" for logo slug a and w :: "org_row \<Rightarrow> error + unit"
  proof (rule maintains_bind_result)
    show "maintains P (insertOrganization (gnUuid env 0) dto logo slug userId)"
      unfolding insertOrganization_def by (rule keep_insertOrg)
  next
    fix s r t
    assume "insertOrganization (gnUuid env 0) dto logo slug userId s = (Inr r, t)"
    then have "owId r = gnUuid env 0" by (auto simp: insertOrganization_def insertOrg_def split: if_splits)
    with assms show "maintains P (andThen (registerNew env r kc userId)
        (andThen (if truthy (coNotificationWebhook dto) then lift (w r) else ret ())
        (andThen (logActivity userId (owId r) a) (ret r))))"
      by (intro moves_andThen keep_registerNew moves_if keep_rules keep_activity) simp
  qed
  show ?thesis
    unfolding createOrganization_def
    by (intro keep_rules moves_andThen keep_limits maintains_reads_bind moves_if new moves_bind)
qed

lemma keep_createOrgCredentials:
  assumes "\<And>s role. P s \<Longrightarrow> getRole ''owner'' s = Some role \<Longrightarrow> mayPromise userId (rlId role) orgId"
  shows "maintains P (createOrgCredentials env orgId userId kc)"
proof -
  have register: "maintains P (registerToKeycloak env (owName r) (owId r) kc userId True)" if "owId r = orgId" for r
    using assms that by (intro keep_registerToKeycloak) simp
  show ?thesis
    unfolding createOrgCredentials_def
    by (intro keep_rules keep_details_bind moves_option_cases moves_bind moves_if moves_andThen keep_managementToken
        moves_tryCatch register keep_split keep_updateOrganizationById)
qed

lemma keep_deleteClientCredentials: "maintains P (deleteClientCredentials env orgId userId)"
  unfolding deleteClientCredentials_def
  by (intro moves_andThen keep_managementToken keep_details_bind)
    (auto intro!: moves_tryCatch moves_bind keep_rules keep_updateOrganizationById)

lemma keep_updateOrganization: "maintains P (updateOrganization env dto userId orgId)"
  unfolding updateOrganization_def updateOrganizationRow_def updateConnectionInvitationDetails_def
  by (intro keep_rules moves_if moves_bind moves_reads moves_andThen keep_updateOrg keep_activity moves_writes impI
      keep_connection) simp_all

lemma keep_inviteOne:
  assumes "\<And>uuid. email \<noteq> sender \<Longrightarrow> mayInvite \<lparr>vtId = uuid, vtEmail = Some email, vtUserId = userId, vtOrgId = orgId,
    vtStatus = InvPending, vtOrgRoles = roles\<rparr>"
  shows "maintains P (inviteOne env k orgId userId sender roles email)"
  unfolding inviteOne_def
  by (intro moves_bind moves_reads moves_if keep_invite assms moves_tryCatch keep_rules) blast

lemma keep_askUsers: "maintains P (askUsers env email sender)"
  unfolding askUsers_def by (intro moves_bind keep_rules)

text \<open>Every invitation that a member can send for the organisation to one of some addresses is allowed.\<close>

definition invites :: "string \<Rightarrow> string \<Rightarrow> string \<Rightarrow> string set \<Rightarrow> bool" where
  "invites userId orgId sender emails \<longleftrightarrow> (\<forall>uuid email roles. email \<in> emails - {sender} \<longrightarrow>
     mayInvite \<lparr>vtId = uuid, vtEmail = Some email, vtUserId = userId, vtOrgId = orgId, vtStatus = InvPending, vtOrgRoles = roles\<rparr>)"

lemma keep_createInvitation:
  assumes "invites userId orgId sender (fst ` set invitations)"
  shows "maintains P (createInvitation env invitations orgId userId sender)"
proof -
  have one: "maintains P (inviteOne env k orgId userId sender roles email)"
    if "invites userId orgId sender emails" "email \<in> emails" for k roles email emails
    using that by (intro keep_inviteOne) (simp add: invites_def)
  have "maintains P (createInvitationByOrgRoles env k orgId userId sender is)"
    if "invites userId orgId sender (fst ` set is)" for k "is"
    using that
  proof (induction "is" arbitrary: k)
    case (Cons i "is")
    obtain email roles where i: "i = (email, roles)" by (cases i)
    with Cons.prems have "maintains P (inviteOne env k orgId userId sender roles email)" by (auto intro: one)
    moreover have "invites userId orgId sender (fst ` set is)" using Cons.prems by (auto simp: invites_def)
    ultimately show ?case
      unfolding i by (simp, intro moves_andThen keep_askUsers moves_bind moves_reads moves_if moves_throw Cons.IH)
  qed (simp only: createInvitationByOrgRoles.simps moves_ret)
  moreover have "maintains P (clientInvitations env cs rs k orgId userId sender is)"
    if "invites userId orgId sender (fst ` set is)" for cs rs k "is"
    using that
  proof (induction "is" arbitrary: k)
    case (Cons i "is")
    obtain email roles where i: "i = (email, roles)" by (cases i)
    with Cons.prems have "maintains P (inviteOne env k orgId userId sender rs' email)" for rs' by (auto intro: one)
    moreover have "invites userId orgId sender (fst ` set is)" using Cons.prems by (auto simp: invites_def)
    ultimately show ?case
      unfolding i
      by (simp only: clientInvitations.simps Let_def, intro moves_andThen keep_askUsers moves_if moves_throw Cons.IH)
  qed (simp only: clientInvitations.simps moves_ret)
  then have "maintains P (createInvitationByClientRoles env idp orgId userId sender invitations)" for idp
    unfolding createInvitationByClientRoles_def using assms
    by (intro moves_andThen keep_managementToken moves_bind moves_reads moves_lift)
  ultimately show ?thesis
    unfolding createInvitation_def using assms
    by (intro keep_rules keep_details_bind)
      (auto intro!: moves_throw moves_andThen keep_limits moves_if keep_activity)
qed

lemma keep_updateClientInvitation:
  assumes "mayAnswer (vtId v) st" and "\<And>r. r \<in> set (vtOrgRoles v) \<Longrightarrow> mayPromise userId r orgId"
  shows "maintains P (updateClientInvitation env v idp userId kc orgId st)"
proof -
  have promised: "mayPromise userId r orgId"
    if "None \<notin> set (rolesPayload cs rs)" "(r, i) \<in> set (map (\<lambda>x. (fst x, fst (snd x))) (map the (rolesPayload cs rs)))"
      "\<And>x. x \<in> set rs \<Longrightarrow> mayPromise userId (rlId x) orgId" for cs rs r i
    using that by (fastforce simp: rolesPayload_def image_iff)
  have stop: "maintains P (\<lambda>s. (Inl undefinedRead, snd (updateInvitationStatus (vtId v) st s)))"
    using keep_answer [OF assms(1)] by (simp add: moves_def)
  have "maintains P (let payload = rolesPayload cs rs; roles = map the payload
      in if None \<in> set payload then (\<lambda>s. (Inl undefinedRead, snd (updateInvitationStatus (vtId v) st s)))
         else promiseAll (updateInvitationStatus (vtId v) st)
                (promiseAll (createUserClientRole env idp kc (map snd roles))
                  (updateUserOrgRole userId orgId (map (\<lambda>r. (fst r, fst (snd r))) roles))))"
    if "\<And>x. x \<in> set rs \<Longrightarrow> mayPromise userId (rlId x) orgId" for cs rs
    unfolding Let_def
    by (intro moves_if stop keep_promiseAll keep_answer assms(1) keep_createUserClientRole keep_updateUserOrgRole)
      (use promised that in blast)
  note rest = this
  show ?thesis
    unfolding updateClientInvitation_def
    by (intro moves_andThen keep_managementToken moves_lift_bind maintains_reads_bind rest)
      (use assms(2) in \<open>auto simp: getOrgRolesByIds_def\<close>)
qed

lemma keep_createUserOrgRoles:
  "(\<And>r. r \<in> set roles \<Longrightarrow> mayGrant userId r orgId) \<Longrightarrow> maintains P (createUserOrgRoles env k userId orgId roles)"
  by (induction env k userId orgId roles rule: createUserOrgRoles.induct)
    (auto intro!: moves_ret moves_andThen keep_grant)

lemma keep_answerInvitation:
  assumes "\<And>v. found = Some v \<Longrightarrow> vtEmail v = Some (uiEmail p) \<Longrightarrow> vtOrgId v = uiOrgId p \<Longrightarrow>
      transition (vtStatus v) (uiStatus p) \<Longrightarrow>
      vtId v = uiInvitationId p \<and> mayAnswer (uiInvitationId p) (uiStatus p) \<and>
      (uiStatus p \<noteq> InvRejected \<longrightarrow> (\<forall>r \<in> set (vtOrgRoles v). mayGrant (uiUserId p) r (uiOrgId p) \<and> mayPromise (uiUserId p) r (uiOrgId p)))"
  shows "maintains P (answerInvitation env p found)"
proof (cases found)
  case None
  then show ?thesis by (simp add: answerInvitation_def moves_throw)
next
  case (Some v)
  show ?thesis
  proof (cases "vtEmail v = Some (uiEmail p) \<and> vtOrgId v = uiOrgId p \<and> transition (vtStatus v) (uiStatus p)")
    case True
    note may = assms [OF Some] True
    show ?thesis
      unfolding answerInvitation_def using Some may
      by (auto intro!: keep_details_bind moves_throw moves_if keep_answer keep_updateClientInvitation moves_andThen
          keep_createUserOrgRoles)
  next
    case False
    then show ?thesis
      unfolding answerInvitation_def using Some by (auto intro!: keep_details_bind moves_throw)
  qed
qed

lemma keep_updateOrgInvitation:
  assumes "\<And>s v. P s \<Longrightarrow> v \<in> set (obInvitations s) \<Longrightarrow> vtId v = uiInvitationId p \<Longrightarrow> vtEmail v = Some (uiEmail p) \<Longrightarrow>
      vtOrgId v = uiOrgId p \<Longrightarrow> transition (vtStatus v) (uiStatus p) \<Longrightarrow>
      mayAnswer (uiInvitationId p) (uiStatus p) \<and>
      (uiStatus p \<noteq> InvRejected \<longrightarrow> (\<forall>r \<in> set (vtOrgRoles v). mayGrant (uiUserId p) r (uiOrgId p) \<and> mayPromise (uiUserId p) r (uiOrgId p)))"
  shows "maintains P (updateOrgInvitation env p)"
proof -
  have "maintains P (answerInvitation env p (getInvitationById (uiInvitationId p) s))" if "P s" for s
    using assms [OF that] by (intro keep_answerInvitation) (auto simp: getInvitationById_def dest!: find_SomeD)
  then show ?thesis
    unfolding updateOrgInvitation_def
    by (intro keep_asRpc maintains_reads_bind moves_andThen moves_if keep_limits moves_ret)
qed

lemma keep_deleteOrganizationInvitation: "maintains P (deleteOrganizationInvitation orgId i)"
  unfolding deleteOrganizationInvitation_def
  by (intro keep_rules moves_bind moves_reads moves_option moves_if keep_drop)

lemma keep_updateUserClientRoles:
  assumes "\<And>s x. P s \<Longrightarrow> x \<in> set (getOrgRoles s) \<Longrightarrow> mayPromise userId (rlId x) orgId"
  shows "maintains P (updateUserClientRoles env roleIds idp userId orgId)"
proof -
  have promised: "mayPromise userId r orgId"
    if "P s" "None \<notin> set (clientRolesPayload cs (getOrgRoles s))"
      "(r, i) \<in> set (map (\<lambda>x. (fst x, fst (snd x))) (map the (clientRolesPayload cs (getOrgRoles s))))" for s cs r i
  proof -
    note prem = that
    have known: "fst y \<in> rlId ` set (getOrgRoles s)" if "Some y \<in> set (clientRolesPayload cs (getOrgRoles s))" for y
      using that by (auto simp: clientRolesPayload_def eq_commute [of "Some y"] dest!: find_SomeD)
    obtain x where x: "x \<in> set (clientRolesPayload cs (getOrgRoles s))" "r = fst (the x)" using prem(3) by auto
    with prem(2) obtain y where "x = Some y" by (cases x) auto
    with x known have "r \<in> rlId ` set (getOrgRoles s)" by auto
    then show ?thesis using assms [OF prem(1)] by auto
  qed
  show ?thesis
    unfolding updateUserClientRoles_def Let_def
    by (intro moves_andThen keep_managementToken moves_lift_bind maintains_reads_bind moves_if moves_throw
        moves_bind [OF keep_orRead] moves_bind [OF keep_promiseAll] keep_promiseAll keep_deleteUserClientRoles
        keep_deleteOrgRoles keep_createUserClientRole keep_updateUserOrgRole) (use promised in blast)
qed

lemma keep_updateUserRoles:
  assumes requested: "\<And>r. r \<in> set roleIds \<Longrightarrow> mayPromise userId r orgId"
    and client: "\<And>s x. P s \<Longrightarrow> x \<in> set (getOrgRoles s) \<Longrightarrow> mayPromise userId (rlId x) orgId"
  shows "maintains P (updateUserRoles env orgId roleIds userId)"
proof -
  have "maintains P (bind (reads (checkUserOrgExist userId orgId)) (\<lambda>isUserExistForOrg.
      if \<not> isUserExistForOrg then throw e1
      else bind (getOrganizationDetails orgId) (\<lambda>organizationDetails.
           case organizationDetails of
             None \<Rightarrow> throw e2
           | Some r \<Rightarrow>
               (if truthy (owIdpId r) then ret (Some (orEmpty (owIdpId r), owId r))
                else bind (reads (getOrgRolesByIds roleIds)) (\<lambda>roles.
                     if roles = [] then throw e3
                     else bind (deleteOrgRoles userId orgId) (\<lambda>count.
                          if count = 0 then throw e4
                          else andThen (writes (\<lambda>db. db\<lparr>obLate := obLate db @ map (\<lambda>role. LateRole userId role orgId None) roleIds\<rparr>))
                               (ret None)))))))" for e1 e2 e3 e4
    by (intro moves_bind [OF moves_reads] moves_if moves_throw keep_details_bind moves_option_cases moves_ret
        moves_bind [OF keep_deleteOrgRoles] moves_andThen moves_writes impI keep_late) (use requested in auto)
  note first = keep_asRpc [OF this]
  show ?thesis
    unfolding updateUserRoles_def
  proof (rule maintains_bind_result [OF first])
    fix s client t
    assume "asRpc (bind (reads (checkUserOrgExist userId orgId)) (\<lambda>isUserExistForOrg.
      if \<not> isUserExistForOrg then throw (NotFoundException ''userNotFound'')
      else bind (getOrganizationDetails orgId) (\<lambda>organizationDetails.
           case organizationDetails of
             None \<Rightarrow> throw (NotFoundException ''orgNotFound'')
           | Some r \<Rightarrow>
               (if truthy (owIdpId r) then ret (Some (orEmpty (owIdpId r), owId r))
                else bind (reads (getOrgRolesByIds roleIds)) (\<lambda>roles.
                     if roles = [] then throw (NotFoundException ''rolesNotExist'')
                     else bind (deleteOrgRoles userId orgId) (\<lambda>count.
                          if count = 0 then throw (InternalServerErrorException ''updateUserRoles'')
                          else andThen (writes (\<lambda>db. db\<lparr>obLate := obLate db @ map (\<lambda>role. LateRole userId role orgId None) roleIds\<rparr>))
                               (ret None))))))) s = (Inr client, t)"
    then have "client = None \<or> (\<exists>idp. client = Some (idp, orgId))"
      by (auto simp: asRpc_def tryCatch_def bind_def andThen_def getOrganizationDetails_def deleteOrgRoles_def
          split: if_splits option.splits sum.splits prod.splits dest: find_SomeD)
    then show "maintains P (case client of None \<Rightarrow> ret () | Some (idpId, i) \<Rightarrow> updateUserClientRoles env roleIds idpId userId i)"
      by (auto simp only: option.case prod.case intro!: keep_updateUserClientRoles [OF client] moves_ret)
  qed
qed

lemma keep_deleteOrganization: "maintains P (deleteOrganization env orgId userId)"
proof -
  have tell: "maintains P (tellMember env u)" for u
    unfolding tellMember_def by (intro moves_bind moves_reads keep_rules)
  show ?thesis
    unfolding deleteOrganization_def
    by (intro keep_rules moves_bind [OF moves_reads] moves_bind [OF moves_lift] keep_details_bind moves_option_cases
        moves_bind moves_if moves_reads moves_andThen moves_forEach keep_deleteUserClientRoles tell keep_deleteOrg keep_split)
qed

lemma keep_mapUsers:
  "(\<And>u kc role. (u, kc, role) \<in> set roles \<Longrightarrow> mayPromise u (rlId role) orgId) \<Longrightarrow>
   maintains P (mapUsers env idp orgId cs seen roles)"
proof (induction roles arbitrary: seen)
  case (Cons x roles)
  obtain u kc role where "x = (u, kc, role)" by (cases x)
  with Cons show ?case
    by (simp only: mapUsers.simps Let_def)
      (intro moves_andThen moves_if moves_ret keep_promiseAll keep_deleteUserClientRoles moves_bind keep_deleteOrgRoles
        keep_createUserClientRole keep_updateUserOrgRole, auto)
qed (simp only: mapUsers.simps moves_ret)

lemma keep_registerOrg:
  assumes "\<And>u kc role. (u, kc, role) \<in> set roles \<Longrightarrow> mayPromise u (rlId role) (owId r)"
    and "\<And>s u kc role role'. P s \<Longrightarrow> (u, kc, role') \<in> set roles \<Longrightarrow> rlName role' = ''owner'' \<Longrightarrow>
      getRole ''owner'' s = Some role \<Longrightarrow> mayPromise u (rlId role) (owId r)"
  shows "maintains P (registerOrg env (r, roles))"
proof -
  let ?owner = "List.find (\<lambda>(_, _, role). rlName role = ''owner'') roles"
  consider "?owner = None" | u kc role where "?owner = Some (u, kc, role)" by (cases ?owner) auto
  then show ?thesis
  proof cases
    case 1
    then show ?thesis by (simp only: registerOrg_def prod.case option.case moves_ret)
  next
    case 2
    then have "(u, kc, role) \<in> set roles" "rlName role = ''owner''" using find_SomeD [OF 2] by auto
    then have "maintains P (registerToKeycloak env (owName r) (owId r) kc u True)"
      using assms(2) by (intro keep_registerToKeycloak) auto
    moreover have "maintains P (mapUsers env idp (owId r) cs seen (filter p roles))" for idp cs seen p
      using assms(1) by (intro keep_mapUsers) auto
    ultimately show ?thesis
      unfolding registerOrg_def prod.case 2 option.case
      by (intro moves_if moves_ret moves_bind moves_lift keep_updateOrganizationById moves_andThen keep_managementToken)
  qed
qed

lemma keep_registerOrgsMapUsers:
  assumes "\<And>s r rows u kc role. P s \<Longrightarrow> (r, rows) \<in> set (getUnregisteredClientOrgs s) \<Longrightarrow>
      (u, kc, role) \<in> set (joinedRoles s rows) \<Longrightarrow>
      mayPromise u (rlId role) (owId r) \<and>
      (rlName role = ''owner'' \<longrightarrow> (\<forall>t role'. P t \<longrightarrow> getRole ''owner'' t = Some role' \<longrightarrow> mayPromise u (rlId role') (owId r)))"
  shows "maintains P (registerOrgsMapUsers env)"
proof -
  have "maintains P (registerOrg env x)" if st: "P s" and x: "x \<in> set (map (\<lambda>(r, rows). (r, joinedRoles s rows)) (getUnregisteredClientOrgs s))" for s x
  proof -
    obtain r rows where "x = (r, joinedRoles s rows)" "(r, rows) \<in> set (getUnregisteredClientOrgs s)" using x by auto
    then show ?thesis using assms [OF st] by (auto intro!: keep_registerOrg)
  qed
  then show ?thesis
    unfolding registerOrgsMapUsers_def
    by (intro keep_rules maintains_reads_bind moves_if moves_forEach)
qed

lemma keep_authenticate: "maintains P (authenticateClientKeycloak env i secret)"
  unfolding authenticateClientKeycloak_def by (intro keep_rules moves_tryCatch)

lemma keep_clientLogin: "maintains P (clientLoginCredentails env i secret)"
  unfolding clientLoginCredentails_def
  by (intro moves_bind keep_authenticate moves_if keep_rules moves_reads moves_andThen moves_writes impI keep_late
      keep_session moves_option keep_account) simp_all

lemma keep_ignore: "maintains P m \<Longrightarrow> maintains P (ignore m)"
  unfolding ignore_def by (intro moves_bind moves_ret)

end

section \<open>The invariant of the tables\<close>

definition slugs_ok :: "org_row list \<Rightarrow> bool" where
  "slugs_ok orgs \<longleftrightarrow> (\<forall>x \<in> set orgs. \<forall>y \<in> set orgs. owSlug x \<noteq> None \<longrightarrow> owSlug x = owSlug y \<longrightarrow> x = y)"

definition org_inv :: "org_db \<Rightarrow> bool" where
  "org_inv db \<longleftrightarrow>
     distinct (map owId (obOrgs db)) \<and> slugs_ok (obOrgs db) \<and> distinct (map vtId (obInvitations db)) \<and>
     distinct (map uoId (obUserRoles db)) \<and> distinct (map rlId (obRoles db)) \<and> distinct (map rlName (obRoles db)) \<and>
     distinct (map acId (obAccounts db)) \<and> distinct (map acUserId (obAccounts db)) \<and> distinct (map snId (obSessions db)) \<and>
     references_ok db"

lemmas org_inv_defs = org_inv_def references_ok_def list_all_iff

lemma slugs_ok_update:
  assumes "slugs_ok orgs" and "distinct (map owId orgs)" and "r \<in> set orgs"
    and "\<not> slugClash (f r) (filter (\<lambda>x. owId x \<noteq> owId r) orgs)"
  shows "slugs_ok (updateWhere (\<lambda>x. owId x = owId r) f orgs)"
proof -
  have free: "owSlug x \<noteq> owSlug (f r)" if "x \<in> set orgs" "x \<noteq> r" "owSlug (f r) \<noteq> None" for x
  proof -
    have "owId x \<noteq> owId r" using distinct_map_eqD [OF assms(2)] that assms(3) by blast
    with that assms(4) show ?thesis by (auto simp: slugClash_def list_ex_iff)
  qed
  show ?thesis
    unfolding slugs_ok_def set_updateWhere_key [OF assms(2,3)]
  proof (intro ballI impI)
    fix x y
    assume "x \<in> insert (f r) (set orgs - {r})" "y \<in> insert (f r) (set orgs - {r})" "owSlug x \<noteq> None" "owSlug x = owSlug y"
    then show "x = y" using free assms(1) unfolding slugs_ok_def by (metis Diff_iff insert_iff)
  qed
qed

lemma list_ex_key: "list_ex (\<lambda>r. k r = x) rows \<longleftrightarrow> x \<in> k ` set rows"
  by (auto simp: list_ex_iff)

lemma list_all_mono: "list_all p rows \<Longrightarrow> (\<And>r. p r \<Longrightarrow> q r) \<Longrightarrow> list_all q rows"
  by (auto simp: list_all_iff)

lemma inv_insertOrg: "maintains org_inv (insertOrg r)"
proof (rule maintainsI)
  fix s x t
  assume inv: "org_inv s" and run: "insertOrg r s = (x, t)"
  show "org_inv t"
  proof (cases "list_ex (\<lambda>x. owId x = owId r) (obOrgs s) \<or> slugClash r (obOrgs s)")
    case True
    with inv run show ?thesis by (auto simp: insertOrg_def)
  next
    case False
    with run have t: "t = s\<lparr>obOrgs := obOrgs s @ [r]\<rparr>" by (simp add: insertOrg_def)
    have "slugs_ok (obOrgs s @ [r])"
      using inv False by (auto simp: org_inv_def slugs_ok_def slugClash_def list_ex_iff)
    moreover have "references_ok t"
      using inv t by (auto simp: org_inv_def references_ok_def elim: list_all_mono)
    ultimately show ?thesis using inv False t by (simp add: org_inv_def list_ex_key)
  qed
qed

lemma inv_updateOrg:
  assumes keep: "\<And>r. owId (f r) = owId r"
  shows "maintains org_inv (updateOrg i f)"
proof (rule maintainsI)
  fix s x t
  assume inv: "org_inv s" and run: "updateOrg i f s = (x, t)"
  show "org_inv t"
  proof (cases "List.find (\<lambda>r. owId r = i) (obOrgs s)")
    case None
    with inv run show ?thesis by (simp add: updateOrg_def)
  next
    case (Some r)
    show ?thesis
    proof (cases "slugClash (f r) (filter (\<lambda>x. owId x \<noteq> i) (obOrgs s))")
      case True
      with Some inv run show ?thesis by (simp add: updateOrg_def)
    next
      case False
      from Some False run have t: "t = s\<lparr>obOrgs := updateWhere (\<lambda>x. owId x = i) f (obOrgs s)\<rparr>" by (simp add: updateOrg_def)
      have "map owId (updateWhere (\<lambda>x. owId x = i) f (obOrgs s)) = map owId (obOrgs s)"
        "owId ` set (updateWhere (\<lambda>x. owId x = i) f (obOrgs s)) = owId ` set (obOrgs s)"
        using keep by (simp_all add: map_updateWhere_same image_updateWhere_same)
      moreover have "slugs_ok (updateWhere (\<lambda>x. owId x = i) f (obOrgs s))"
        using slugs_ok_update [of "obOrgs s" r f] find_SomeD [OF Some] False inv by (auto simp: org_inv_def)
      ultimately show ?thesis using inv t by (simp add: org_inv_def references_ok_def)
    qed
  qed
qed

lemma list_all_updateWhere:
  "(\<And>r. q (f r) = q r) \<Longrightarrow> list_all q (updateWhere p f rows) = list_all q rows"
  by (induction rows) simp_all

lemma list_all_filter: "list_all q rows \<Longrightarrow> list_all q (filter p rows)"
  by (simp add: list_all_iff)

lemma inv_orgInvitations:
  "maintains org_inv (createSendInvitation uuid email orgId userId roles)"
  "maintains org_inv (updateInvitationStatus i st)" "maintains org_inv (deleteInvitationRow i)"
  by (auto intro!: maintainsI simp: createSendInvitation_def updateInvitationStatus_def deleteInvitationRow_def
      org_inv_def references_ok_def list_ex_key distinct_map_filter map_updateWhere_same list_all_updateWhere list_all_filter
      Let_def split: if_splits)

lemma inv_roles:
  "maintains org_inv (createUserOrgRole uuid userId roleId org idp)" "maintains org_inv (deleteOrgRoles userId orgId)"
proof -
  show "maintains org_inv (createUserOrgRole uuid userId roleId org idp)"
    by (rule maintainsI) (auto simp: createUserOrgRole_def org_inv_def references_ok_def list_ex_iff nonEmpty_def
      split: if_splits)
  show "maintains org_inv (deleteOrgRoles userId orgId)"
    by (rule maintainsI) (auto simp: deleteOrgRoles_def bind_def andThen_def org_inv_def references_ok_def distinct_map_filter
      list_all_filter)
qed

lemma inv_activity: "maintains org_inv (logActivity userId orgId action)"
  by (rule maintainsI) (auto simp: logActivity_def org_inv_def references_ok_def list_ex_key split: if_splits)

lemma inv_account: "maintains org_inv (addAccountDetails uuid userId kc)"
proof (rule maintainsI)
  fix s r t
  assume inv: "org_inv s" and run: "addAccountDetails uuid userId kc s = (r, t)"
  let ?a = "\<lparr>acId = uuid, acUserId = userId, acProviderAccountId = kc\<rparr>"
  show "org_inv t"
  proof (cases "kc = None \<or> list_ex (\<lambda>a. acUserId a = userId \<or> acId a = uuid) (obAccounts s) \<or>
      \<not> list_ex (\<lambda>u. auId u = userId) (obUsers s)")
    case True
    with inv run show ?thesis by (simp add: addAccountDetails_def split: if_splits)
  next
    case False
    with run have t: "t = s\<lparr>obAccounts := obAccounts s @ [?a]\<rparr>" by (auto simp: addAccountDetails_def Let_def)
    have new: "userId \<in> auId ` set (obUsers s)" "uuid \<notin> acId ` set (obAccounts s)" "userId \<notin> acUserId ` set (obAccounts s)"
      using False by (auto simp: list_ex_iff)
    have "references_ok t" using inv new t by (auto simp: org_inv_def references_ok_def elim: list_all_mono)
    with inv new t show ?thesis by (simp add: org_inv_def)
  qed
qed

lemma inv_session: "maintains org_inv (createSession sn)"
  by (rule maintainsI) (auto simp: createSession_def org_inv_def references_ok_def list_ex_key split: if_splits)

lemmas inv_writes = inv_orgInvitations inv_roles inv_activity inv_account inv_session

lemma key_image_filter: "x \<in> k ` {r \<in> set rows. k r \<noteq> i} \<longleftrightarrow> x \<in> k ` set rows \<and> x \<noteq> i"
  by auto

lemma not_Some_the: "x \<noteq> Some i \<Longrightarrow> x = None \<or> the x \<noteq> i"
  by auto

lemma inv_deleteOrg: "maintains org_inv (deleteOrg i)"
proof (rule maintainsI)
  fix s r t
  assume inv: "org_inv s" and run: "deleteOrg i s = (r, t)"
  show "org_inv t"
  proof (cases r)
    case (Inl e)
    with run obtain s' where "t = rolledBack s s'" by (auto simp: deleteOrg_def split: prod.splits sum.splits)
    with inv show ?thesis by (simp add: rolledBack_def org_inv_defs)
  next
    case (Inr c)
    with run have "deleteOrgSteps i s = (Inr c, t)" by (auto simp: deleteOrg_def split: prod.splits sum.splits)
    then obtain s1 where s1: "deleteOrphanAgent i s = (Inr (), s1)"
      and t: "bind (deleteOrgRow i) (\<lambda>_. ret c) (disownSchemas i (clearOrg i s1)) = (Inr c, t)"
      by (auto simp: deleteOrgSteps_def bind_def andThen_def split: prod.splits sum.splits option.splits)
    from s1 have "\<exists>a. s1 = s\<lparr>obAgents := a\<rparr>"
      by (auto simp: deleteOrphanAgent_def split: option.splits if_splits intro: exI [of _ "obAgents s"])
    then obtain a where "s1 = s\<lparr>obAgents := a\<rparr>" by blast
    with t obtain sc cd sub where t': "t = (clearOrg i (s\<lparr>obAgents := a\<rparr>))\<lparr>obSchemas := sc, obCredDefs := cd,
        obOrgs := filter (\<lambda>r. owId r \<noteq> i) (obOrgs s), obSubscriptions := sub\<rparr>"
      by (auto simp: bind_def deleteOrgRow_def disownSchemas_def clearOrg_def Let_def split: option.splits if_splits)
    have "references_ok t"
      using inv unfolding t' by (auto simp: clearOrg_def org_inv_def references_ok_def list_all_iff
          key_image_filter dest!: not_Some_the)
    with inv show ?thesis unfolding t' by (auto simp: clearOrg_def org_inv_def slugs_ok_def distinct_map_filter)
  qed
qed

interpretation orgTables: org_frame org_inv "\<lambda>_ _ _. True" "\<lambda>_ _ _. True" "\<lambda>_. True" "\<lambda>_ _. True"
  by unfold_locales
    (simp_all add: inv_insertOrg inv_updateOrg inv_writes inv_deleteOrg,
     simp_all add: org_inv_def references_ok_def)

lemma org_run_inv: "maintains org_inv (org_run env c)"
  by (cases c)
    (simp_all, auto intro!: orgTables.keep_ignore orgTables.keep_createOrganization orgTables.keep_createOrgCredentials
      orgTables.keep_deleteClientCredentials orgTables.keep_updateOrganization orgTables.keep_createInvitation
      orgTables.keep_deleteOrganizationInvitation orgTables.keep_updateOrgInvitation orgTables.keep_updateUserRoles orgTables.keep_deleteOrganization
      orgTables.keep_registerOrgsMapUsers orgTables.keep_clientLogin simp: orgTables.invites_def)

lemma late_run_inv:
  assumes "org_inv s"
  shows "org_inv (late_run uuid now job s)"
proof (cases job)
  case (LateRole u r o' i)
  with maintainsD [OF inv_roles(1) _ assms] show ?thesis by (simp add: prod_eq_iff)
next
  case (LateCleanup u)
  with assms show ?thesis by (auto simp: deleteInactiveSessions_def org_inv_defs distinct_map_filter)
qed

lemma quiet_inv:
  assumes inv: "org_inv s" and "org_quiet s t"
  shows "org_inv t"
  using assms(2)
proof cases
  case (late before job after uuid now)
  from inv have "org_inv (s\<lparr>obLate := before @ after\<rparr>)" by (simp add: org_inv_def references_ok_def)
  with late show ?thesis by (simp add: late_run_inv)
next
  case others
  with inv show ?thesis by (simp add: org_inv_def distinct_map_filter)
qed

interpretation org_runs: invariant_system org_start org_step org_inv
proof
  fix s
  assume "org_start s"
  then show "org_inv s" by (simp add: org_start_def org_inv_def references_ok_def slugs_ok_def)
next
  fix s t
  assume inv: "org_inv s" and "org_step s t"
  from this(2) show "org_inv t"
    by cases (use maintainsD [OF org_run_inv _ inv] quiet_inv [OF inv] in blast)+
qed

lemma trace_reachable: "org_trace es db \<Longrightarrow> reachable_from org_start org_step db"
  by (induction rule: org_trace.induct) (auto intro: reachable_from.intros org_step.intros)

end
