(* ===== verification/Organization_Safety.thy ===== *)
theory Organization_Safety
  imports Organization_Invariant
begin

text \<open>
  Properties of the organisation service: the consistency of its tables, where every membership of an organisation and
  every change of an invitation comes from, that the limits of the configuration and of a Marketplace plan hold, what the
  deletion of an organisation leaves behind, who gets an API token, and that the roles of a member reach the
  gateway's \<open>OrgRolesGuard\<close> without a check of the platform administrator's role.
\<close>

section \<open>What a call may add\<close>

text \<open>The roles that are stored and those whose insert is under way: user, role and organisation.\<close>

definition granted :: "org_db \<Rightarrow> (string \<times> string \<times> string) list" where
  "granted db =
     concat (map (\<lambda>r. case uoOrgId r of None \<Rightarrow> [] | Some i \<Rightarrow> [(uoUserId r, uoRoleId r, i)]) (obUserRoles db)) @
     concat (map (\<lambda>j. case j of LateRole u r i _ \<Rightarrow> [(u, r, i)] | LateCleanup _ \<Rightarrow> []) (obLate db))"

definition inside :: "(string \<times> string \<times> string) set \<Rightarrow> org_invitations set \<Rightarrow> org_roles list \<Rightarrow> org_db \<Rightarrow> bool" where
  "inside X I R db \<longleftrightarrow> set (granted db) \<subseteq> X \<and> set (obInvitations db) \<subseteq> I \<and> obRoles db = R"

lemma set_granted:
  "(u, r, i) \<in> set (granted db) \<longleftrightarrow>
     (\<exists>x \<in> set (obUserRoles db). uoUserId x = u \<and> uoRoleId x = r \<and> uoOrgId x = Some i) \<or>
     (\<exists>k. LateRole u r i k \<in> set (obLate db))"
  by (force simp: granted_def split: option.splits late_job.splits)

text \<open>Tables with no more rows, the same pending inserts and the same roles stay inside their bounds.\<close>

lemma inside_fewer:
  assumes "inside X I R s" and "set (obUserRoles t) \<subseteq> set (obUserRoles s)" and "obLate t = obLate s"
    and "set (obInvitations t) \<subseteq> set (obInvitations s)" and "obRoles t = obRoles s"
  shows "inside X I R t"
proof -
  have "set (granted t) \<subseteq> set (granted s)"
  proof
    fix g
    assume g: "g \<in> set (granted t)"
    obtain u r i where "g = (u, r, i)" by (cases g)
    with g assms(2,3) show "g \<in> set (granted s)" by (auto simp: set_granted)
  qed
  with assms show ?thesis by (auto simp: inside_def)
qed

lemma inside_deleteOrg: "maintains (inside X I R) (deleteOrg i)"
proof (rule maintainsI)
  fix s r t
  assume P: "inside X I R s" and run: "deleteOrg i s = (r, t)"
  show "inside X I R t"
  proof (cases r)
    case (Inl e)
    with run obtain s' where "t = rolledBack s s'" by (auto simp: deleteOrg_def split: prod.splits sum.splits)
    with P show ?thesis by (auto simp: rolledBack_def intro: inside_fewer)
  next
    case (Inr c)
    with run have "deleteOrgSteps i s = (Inr c, t)" by (auto simp: deleteOrg_def split: prod.splits sum.splits)
    then obtain s1 where s1: "deleteOrphanAgent i s = (Inr (), s1)"
      and t: "bind (deleteOrgRow i) (\<lambda>_. ret c) (disownSchemas i (clearOrg i s1)) = (Inr c, t)"
      by (auto simp: deleteOrgSteps_def bind_def andThen_def split: prod.splits sum.splits option.splits)
    from s1 have "inside X I R s1" using P
      by (auto simp: deleteOrphanAgent_def split: option.splits if_splits intro: inside_fewer)
    then have "inside X I R (disownSchemas i (clearOrg i s1))"
      by (rule inside_fewer) (auto simp: disownSchemas_def clearOrg_def Let_def)
    then show ?thesis
      by (rule inside_fewer) (use t in \<open>auto simp: bind_def deleteOrgRow_def split: option.splits if_splits\<close>)
  qed
qed

lemma inside_grant:
  assumes "(userId, roleId, orgId) \<in> X"
  shows "maintains (inside X I R) (createUserOrgRole uuid userId roleId (Some orgId) idp)"
proof (rule maintainsI)
  fix s r t
  assume P: "inside X I R s" and "createUserOrgRole uuid userId roleId (Some orgId) idp s = (r, t)"
  from this(2) consider "t = s" | row where "t = s\<lparr>obUserRoles := obUserRoles s @ [row]\<rparr>" "uoUserId row = userId"
      "uoRoleId row = roleId" "uoOrgId row = None \<or> uoOrgId row = Some orgId"
    by (auto simp: createUserOrgRole_def nonEmpty_def split: if_splits)
  then show "inside X I R t"
    using P assms by cases (auto simp: inside_def granted_def)
qed

interpretation bounds: org_frame "inside X I R" "\<lambda>u r i. (u, r, i) \<in> X" "\<lambda>u r i. (u, r, i) \<in> X"
    "\<lambda>v. v \<in> I" "\<lambda>i st. \<forall>v \<in> I. vtId v = i \<longrightarrow> v\<lparr>vtStatus := st\<rparr> \<in> I" for X I R
proof
  show "maintains (inside X I R) (insertOrg r)" for r
    by (rule maintainsI) (auto simp: insertOrg_def split: if_splits intro: inside_fewer)
  show "maintains (inside X I R) (updateOrg i f)" for i f
    by (rule maintainsI) (auto simp: updateOrg_def split: if_splits option.splits intro: inside_fewer)
  show "maintains (inside X I R) (createSendInvitation uuid email orgId userId roles)"
    if "\<lparr>vtId = uuid, vtEmail = Some email, vtUserId = userId, vtOrgId = orgId, vtStatus = InvPending, vtOrgRoles = roles\<rparr> \<in> I"
    for uuid email orgId userId roles
    using that by (intro maintainsI) (auto simp: createSendInvitation_def inside_def granted_def Let_def split: if_splits)
  show "maintains (inside X I R) (updateInvitationStatus i st)" if "\<forall>v \<in> I. vtId v = i \<longrightarrow> v\<lparr>vtStatus := st\<rparr> \<in> I" for i st
    using that by (intro maintainsI) (auto simp: updateInvitationStatus_def inside_def granted_def set_updateWhere split: if_splits)
  show "maintains (inside X I R) (deleteInvitationRow i)" for i
    by (rule maintainsI) (auto simp: deleteInvitationRow_def split: if_splits intro: inside_fewer)
  show "maintains (inside X I R) (createUserOrgRole uuid userId roleId (Some orgId) idp)"
    if "(userId, roleId, orgId) \<in> X" for uuid userId roleId orgId idp
    using that by (rule inside_grant)
  show "maintains (inside X I R) (deleteOrgRoles userId orgId)" for userId orgId
    by (rule maintainsI) (auto simp: deleteOrgRoles_def bind_def andThen_def intro: inside_fewer)
  show "inside X I R (s\<lparr>obLate := obLate s @ jobs\<rparr>)"
    if "\<And>u r o' i. LateRole u r o' i \<in> set jobs \<Longrightarrow> (u, r, o') \<in> X" "inside X I R s" for jobs s
    using that by (auto simp: inside_def granted_def split: late_job.splits)
  show "inside X I R s \<Longrightarrow> inside X I R (s\<lparr>obKeycloak := k\<rparr>)" for s k
    by (auto intro: inside_fewer)
  show "inside X I R s \<Longrightarrow> inside X I R (s\<lparr>obAgentInvitations := a\<rparr>)" for s a
    by (auto intro: inside_fewer)
  show "maintains (inside X I R) (logActivity userId orgId action)" for userId orgId action
    by (rule maintainsI) (auto simp: logActivity_def split: if_splits intro: inside_fewer)
  show "maintains (inside X I R) (deleteOrg orgId)" for orgId by (rule inside_deleteOrg)
  show "maintains (inside X I R) (addAccountDetails uuid userId kc)" for uuid userId kc
    by (rule maintainsI) (auto simp: addAccountDetails_def Let_def split: if_splits intro: inside_fewer)
  show "maintains (inside X I R) (createSession sn)" for sn
    by (rule maintainsI) (auto simp: createSession_def split: if_splits intro: inside_fewer)
qed

text \<open>An invitation that a request answers, and the roles a call can give.\<close>

definition answers :: "UpdateInvitationDto \<Rightarrow> org_invitations \<Rightarrow> bool" where
  "answers p v \<longleftrightarrow> vtId v = uiInvitationId p \<and> vtEmail v = Some (uiEmail p) \<and> vtOrgId v = uiOrgId p \<and>
     vtStatus v = InvPending \<and> uiStatus p \<noteq> InvPending"

definition isOwnerRole :: "org_db \<Rightarrow> string \<Rightarrow> bool" where
  "isOwnerRole db r \<longleftrightarrow> list_ex (\<lambda>x. rlId x = r \<and> rlName x = ''owner'') (obRoles db)"

fun entitled :: "org_db \<Rightarrow> org_env \<Rightarrow> org_call \<Rightarrow> string \<Rightarrow> string \<Rightarrow> string \<Rightarrow> bool" where
  "entitled db env (CreateOrganization dto userId _) u r i \<longleftrightarrow> u = userId \<and> i = gnUuid env 0 \<and> isOwnerRole db r"
| "entitled db env (CreateOrgCredentials orgId userId _) u r i \<longleftrightarrow> u = userId \<and> i = orgId \<and> isOwnerRole db r"
| "entitled db env (UpdateOrgInvitation p) u r i \<longleftrightarrow> u = uiUserId p \<and> i = uiOrgId p \<and> uiStatus p = InvAccepted \<and>
     list_ex (\<lambda>v. answers p v \<and> r \<in> set (vtOrgRoles v)) (obInvitations db)"
| "entitled db env (UpdateUserRoles orgId roleIds userId) u r i \<longleftrightarrow> u = userId \<and> i = orgId \<and>
     checkUserOrgExist userId orgId db \<and> (r \<in> set roleIds \<or> r \<in> set (map rlId (getOrgRoles db)))"
| "entitled db env _ u r i \<longleftrightarrow> False"

fun changed :: "org_db \<Rightarrow> org_call \<Rightarrow> org_invitations \<Rightarrow> bool" where
  "changed db (CreateInvitation invitations orgId userId email) v \<longleftrightarrow>
     vtStatus v = InvPending \<and> vtOrgId v = orgId \<and> vtUserId v = userId \<and>
     list_ex (\<lambda>i. vtEmail v = Some (fst i) \<and> fst i \<noteq> email) invitations"
| "changed db (UpdateOrgInvitation p) v \<longleftrightarrow>
     list_ex (\<lambda>v0. answers p v0 \<and> v = v0\<lparr>vtStatus := uiStatus p\<rparr>) (obInvitations db)"
| "changed db _ v \<longleftrightarrow> False"

lemma owner_of: "getRole ''owner'' db = Some x \<Longrightarrow> isOwnerRole db (rlId x)"
  by (auto simp: getRole_def isOwnerRole_def list_ex_iff dest: find_SomeD)

lemma owner_same: "obRoles db = obRoles db' \<Longrightarrow> isOwnerRole db r = isOwnerRole db' r"
  by (simp add: isOwnerRole_def)

definition grantBound :: "org_env \<Rightarrow> org_call \<Rightarrow> org_db \<Rightarrow> (string \<times> string \<times> string) set" where
  "grantBound env c s = {(u, r, i). (u, r, i) \<in> set (granted s) \<or> entitled s env c u r i}"

definition invitationBound :: "org_call \<Rightarrow> org_db \<Rightarrow> org_invitations set" where
  "invitationBound c s = {v. v \<in> set (obInvitations s) \<or> changed s c v}"

abbreviation bounded :: "org_env \<Rightarrow> org_call \<Rightarrow> org_db \<Rightarrow> org_db \<Rightarrow> bool" where
  "bounded env c s \<equiv> inside (grantBound env c s) (invitationBound c s) (obRoles s)"

lemma bounded_refl: "bounded env c s s"
  by (auto simp: inside_def grantBound_def invitationBound_def)

lemma bounded_owner: "inside X I (obRoles s) t \<Longrightarrow> getRole ''owner'' t = Some x \<Longrightarrow> isOwnerRole s (rlId x)"
  using owner_of owner_same by (metis inside_def)

lemma bounded_answer:
  assumes inv: "org_inv s" and v: "bounded env (UpdateOrgInvitation p) s t" "v \<in> set (obInvitations t)"
    "vtId v = uiInvitationId p" "vtEmail v = Some (uiEmail p)" "vtOrgId v = uiOrgId p" "transition (vtStatus v) (uiStatus p)"
  obtains v0 where "v0 \<in> set (obInvitations s)" "answers p v0" "vtOrgRoles v = vtOrgRoles v0"
    "\<And>w. w \<in> invitationBound (UpdateOrgInvitation p) s \<Longrightarrow> vtId w = uiInvitationId p \<Longrightarrow>
      w\<lparr>vtStatus := uiStatus p\<rparr> = v0\<lparr>vtStatus := uiStatus p\<rparr>"
proof -
  have ids: "distinct (map vtId (obInvitations s))" using inv by (simp add: org_inv_def)
  have pending: "vtStatus v = InvPending" "uiStatus p \<noteq> InvPending" using v(6) by (cases "vtStatus v"; auto)+
  from v(1,2) have "v \<in> invitationBound (UpdateOrgInvitation p) s" by (auto simp: inside_def)
  with pending have v0: "v \<in> set (obInvitations s)" "answers p v"
    using v(3-6) by (auto simp: invitationBound_def answers_def list_ex_iff)
  have "w\<lparr>vtStatus := uiStatus p\<rparr> = v\<lparr>vtStatus := uiStatus p\<rparr>"
    if w: "w \<in> invitationBound (UpdateOrgInvitation p) s" "vtId w = uiInvitationId p" for w
  proof -
    from w(1) obtain w0 where "w0 \<in> set (obInvitations s)" "vtId w0 = vtId w"
      "w\<lparr>vtStatus := uiStatus p\<rparr> = w0\<lparr>vtStatus := uiStatus p\<rparr>"
      by (auto simp: invitationBound_def list_ex_iff)
    moreover from this have "w0 = v" using distinct_map_eqD [OF ids] v0(1) w(2) v(3) by metis
    ultimately show ?thesis by simp
  qed
  with v0 that show ?thesis by blast
qed

lemma bounded_updateOrgInvitation:
  assumes inv: "org_inv s"
  shows "maintains (bounded env (UpdateOrgInvitation p) s) (updateOrgInvitation env p)"
proof (rule bounds.keep_updateOrgInvitation)
  fix t v
  assume v: "bounded env (UpdateOrgInvitation p) s t" "v \<in> set (obInvitations t)"
    "vtId v = uiInvitationId p" "vtEmail v = Some (uiEmail p)" "vtOrgId v = uiOrgId p" "transition (vtStatus v) (uiStatus p)"
  from bounded_answer [OF inv this] obtain v0 where v0: "v0 \<in> set (obInvitations s)" "answers p v0"
    "vtOrgRoles v = vtOrgRoles v0"
    "\<And>w. w \<in> invitationBound (UpdateOrgInvitation p) s \<Longrightarrow> vtId w = uiInvitationId p \<Longrightarrow>
      w\<lparr>vtStatus := uiStatus p\<rparr> = v0\<lparr>vtStatus := uiStatus p\<rparr>" by blast
  have "w\<lparr>vtStatus := uiStatus p\<rparr> \<in> invitationBound (UpdateOrgInvitation p) s"
    if "w \<in> invitationBound (UpdateOrgInvitation p) s" "vtId w = uiInvitationId p" for w
    using v0(4) [OF that] v0(1,2) by (auto simp: invitationBound_def list_ex_iff)
  moreover have "uiStatus p = InvAccepted" if "uiStatus p \<noteq> InvRejected"
    using that v(6) by (cases "vtStatus v") auto
  then have "(uiUserId p, r, uiOrgId p) \<in> grantBound env (UpdateOrgInvitation p) s"
    if "uiStatus p \<noteq> InvRejected" "r \<in> set (vtOrgRoles v)" for r
    using that v0(1-3) by (auto simp: grantBound_def list_ex_iff)
  ultimately show "(\<forall>w \<in> invitationBound (UpdateOrgInvitation p) s. vtId w = uiInvitationId p \<longrightarrow>
      w\<lparr>vtStatus := uiStatus p\<rparr> \<in> invitationBound (UpdateOrgInvitation p) s) \<and>
    (uiStatus p \<noteq> InvRejected \<longrightarrow> (\<forall>r \<in> set (vtOrgRoles v).
      (uiUserId p, r, uiOrgId p) \<in> grantBound env (UpdateOrgInvitation p) s \<and>
      (uiUserId p, r, uiOrgId p) \<in> grantBound env (UpdateOrgInvitation p) s))"
    by blast
qed

lemma bounded_registerOrgs:
  assumes inv: "org_inv s"
  shows "maintains (bounded env RegisterOrgsMapUsers s) (registerOrgsMapUsers env)"
proof (rule bounds.keep_registerOrgsMapUsers)
  fix t x rows u kc role
  assume t: "bounded env RegisterOrgsMapUsers s t" and x: "(x, rows) \<in> set (getUnregisteredClientOrgs t)"
    and role: "(u, kc, role) \<in> set (joinedRoles t rows)"
  from role obtain row where row: "row \<in> set rows" "uoUserId row = u" "uoRoleId row = rlId role" "role \<in> set (obRoles t)"
    by (auto simp: joinedRoles_def getUser_def split: option.splits dest!: sym [of "Some y" for y] find_SomeD)
  with x have "(u, rlId role, owId x) \<in> set (granted t)" by (auto simp: getUnregisteredClientOrgs_def set_granted)
  with t have mine: "(u, rlId role, owId x) \<in> grantBound env RegisterOrgsMapUsers s" by (auto simp: inside_def)
  have "role' = role" if "rlName role = ''owner''" "bounded env RegisterOrgsMapUsers s t'" "getRole ''owner'' t' = Some role'" for t' role'
  proof -
    have "role' \<in> set (obRoles s)" "rlName role' = ''owner''" "role \<in> set (obRoles s)"
      using that row(4) t by (auto simp: inside_def getRole_def dest!: find_SomeD)
    then show ?thesis using inv that(1) distinct_map_eqD [of rlName "obRoles s"] by (auto simp: org_inv_def)
  qed
  with mine show "(u, rlId role, owId x) \<in> grantBound env RegisterOrgsMapUsers s \<and>
      (rlName role = ''owner'' \<longrightarrow> (\<forall>t role'. bounded env RegisterOrgsMapUsers s t \<longrightarrow> getRole ''owner'' t = Some role' \<longrightarrow>
        (u, rlId role', owId x) \<in> grantBound env RegisterOrgsMapUsers s))"
    by blast
qed

lemma bounded_updateUserRoles:
  assumes "org_run env (UpdateUserRoles orgId roleIds userId) s = (r, t)"
  shows "bounded env (UpdateUserRoles orgId roleIds userId) s t"
proof (cases "checkUserOrgExist userId orgId s")
  case True
  have "maintains (bounded env (UpdateUserRoles orgId roleIds userId) s) (updateUserRoles env orgId roleIds userId)"
    by (rule bounds.keep_updateUserRoles)
      (use True in \<open>auto simp: grantBound_def inside_def getOrgRoles_def\<close>)
  from maintainsD [OF this _ bounded_refl] assms show ?thesis by simp
next
  case False
  with assms have "t = s" by (simp add: updateUserRoles_def asRpc_def tryCatch_def bind_def)
  then show ?thesis by (simp add: bounded_refl)
qed

lemma call_bounded:
  assumes inv: "org_inv s" and run: "org_run env c s = (r, t)"
  shows "bounded env c s t"
proof -
  have other: "bounded env c s t" if "maintains (bounded env c s) (org_run env c)"
    using maintainsD [OF that run bounded_refl] .
  show ?thesis
  proof (cases c)
    case (CreateOrganization dto userId kc)
    then show ?thesis
      by (intro other) (auto intro!: bounds.keep_ignore bounds.keep_createOrganization simp: grantBound_def dest!: bounded_owner)
  next
    case (CreateOrgCredentials orgId userId kc)
    then show ?thesis
      by (intro other) (auto intro!: bounds.keep_ignore bounds.keep_createOrgCredentials simp: grantBound_def dest!: bounded_owner)
  next
    case (DeleteClientCredentials orgId userId)
    then show ?thesis by (intro other) (simp add: bounds.keep_deleteClientCredentials)
  next
    case (UpdateOrganization dto userId orgId)
    then show ?thesis by (intro other) (simp add: bounds.keep_ignore bounds.keep_updateOrganization)
  next
    case (CreateInvitation invitations orgId userId email)
    have "maintains (bounded env c s) (createInvitation env invitations orgId userId email)"
      by (rule bounds.keep_createInvitation, unfold bounds.invites_def)
        (auto simp: CreateInvitation invitationBound_def list_ex_iff)
    with CreateInvitation show ?thesis by (intro other) simp
  next
    case (UpdateOrgInvitation p)
    then show ?thesis by (intro other) (simp add: bounded_updateOrgInvitation [OF inv])
  next
    case (DeleteOrganizationInvitation orgId i)
    then show ?thesis by (intro other) (simp add: bounds.keep_deleteOrganizationInvitation)
  next
    case (UpdateUserRoles orgId roleIds userId)
    with bounded_updateUserRoles run show ?thesis by blast
  next
    case (DeleteOrganization orgId userId)
    then show ?thesis by (intro other) (simp add: bounds.keep_deleteOrganization)
  next
    case RegisterOrgsMapUsers
    then show ?thesis by (intro other) (simp add: bounded_registerOrgs [OF inv])
  next
    case (ClientLogin clientId secret)
    then show ?thesis by (intro other) (simp add: bounds.keep_ignore bounds.keep_clientLogin)
  qed
qed

lemma call_grants:
  assumes "org_inv s" and "org_run env c s = (x, t)" and "(u, r, i) \<in> set (granted t)"
  shows "(u, r, i) \<in> set (granted s) \<or> entitled s env c u r i"
  using call_bounded [OF assms(1,2)] assms(3) by (auto simp: inside_def grantBound_def)

lemma call_changes:
  assumes "org_inv s" and "org_run env c s = (x, t)" and "v \<in> set (obInvitations t)"
  shows "v \<in> set (obInvitations s) \<or> changed s c v"
  using call_bounded [OF assms(1,2)] assms(3) by (auto simp: inside_def invitationBound_def)

lemma quiet_invitations:
  assumes "org_quiet s t"
  shows "obInvitations t = obInvitations s"
  using assms
proof cases
  case (late before job after uuid now)
  then show ?thesis by (cases job) (simp_all add: createUserOrgRole_def deleteInactiveSessions_def)
qed simp

lemma quiet_granted:
  assumes "org_quiet s t"
  shows "set (granted t) \<subseteq> set (granted s)"
  using assms
proof cases
  case (late before job after uuid now)
  show ?thesis
  proof (cases job)
    case (LateRole u r i k)
    let ?s = "s\<lparr>obLate := before @ after\<rparr>"
    have "inside (set (granted s)) (set (obInvitations s)) (obRoles s) ?s"
      using late by (auto simp: inside_def granted_def)
    moreover have "(u, r, i) \<in> set (granted s)" using late LateRole by (auto simp: set_granted)
    then have "maintains (inside (set (granted s)) (set (obInvitations s)) (obRoles s)) (createUserOrgRole uuid u r (Some i) k)"
      by (rule inside_grant)
    ultimately have "inside (set (granted s)) (set (obInvitations s)) (obRoles s) (snd (createUserOrgRole uuid u r (Some i) k ?s))"
      by (auto simp: moves_def)
    then show ?thesis using late LateRole by (simp add: inside_def)
  next
    case (LateCleanup u)
    with late show ?thesis by (auto simp: granted_def deleteInactiveSessions_def)
  qed
next
  case others
  then show ?thesis by (auto simp: granted_def)
qed

section \<open>Where memberships come from\<close>

text \<open>The calls that make a user a member of an organisation; an accepted invitation was sent by an earlier call.\<close>

fun sent :: "string \<Rightarrow> string \<Rightarrow> org_event \<Rightarrow> bool" where
  "sent email orgId (_, _, CreateInvitation invitations i userId sender) \<longleftrightarrow>
     i = orgId \<and> email \<in> set (map fst invitations) \<and> email \<noteq> sender"
| "sent email orgId _ \<longleftrightarrow> False"

fun admits :: "org_event list \<Rightarrow> org_event \<Rightarrow> string \<Rightarrow> string \<Rightarrow> bool" where
  "admits earlier (db, env, CreateOrganization dto userId _) u i \<longleftrightarrow> u = userId \<and> i = gnUuid env 0"
| "admits earlier (db, env, CreateOrgCredentials orgId userId _) u i \<longleftrightarrow> u = userId \<and> i = orgId"
| "admits earlier (db, env, UpdateOrgInvitation p) u i \<longleftrightarrow> u = uiUserId p \<and> i = uiOrgId p \<and> uiStatus p = InvAccepted \<and>
     list_ex (answers p) (obInvitations db) \<and> list_ex (sent (uiEmail p) i) earlier"
| "admits earlier _ u i \<longleftrightarrow> False"

lemma trace_inv: "org_trace es db \<Longrightarrow> org_inv db"
  using org_runs.reachable_inv trace_reachable by blast

lemma trace_sent:
  "org_trace es db \<Longrightarrow> v \<in> set (obInvitations db) \<Longrightarrow> \<exists>e. vtEmail v = Some e \<and> list_ex (sent e (vtOrgId v)) es"
proof (induction arbitrary: v rule: org_trace.induct)
  case (start db)
  then show ?case by (simp add: org_start_def)
next
  case (called es db env c r db')
  from call_changes [OF trace_inv [OF called(1)] called(2,4)] show ?case
  proof
    assume "v \<in> set (obInvitations db)"
    from called.IH [OF this] show ?thesis by auto
  next
    assume "changed db c v"
    then show ?thesis
    proof (cases c)
      case (CreateInvitation invitations orgId userId email)
      with \<open>changed db c v\<close> show ?thesis by (auto simp: list_ex_iff)
    next
      case (UpdateOrgInvitation p)
      with \<open>changed db c v\<close> obtain v0 where "v0 \<in> set (obInvitations db)" "v = v0\<lparr>vtStatus := uiStatus p\<rparr>"
        by (auto simp: list_ex_iff)
      with called.IH [of v0] show ?thesis by auto
    qed simp_all
  qed
next
  case (unseen es db db')
  then show ?case by (simp add: quiet_invitations)
qed


lemma entitled_admits:
  assumes "org_trace es db" and "entitled db env c u r i"
  shows "admits es (db, env, c) u i \<or> (\<exists>r'. (u, r', i) \<in> set (granted db))"
proof (cases c)
  case (UpdateOrgInvitation p)
  with assms(2) obtain v where v: "v \<in> set (obInvitations db)" "answers p v" by (auto simp: list_ex_iff)
  from trace_sent [OF assms(1) v(1)] v(2) have "list_ex (sent (uiEmail p) (uiOrgId p)) es" by (auto simp: answers_def)
  with assms(2) UpdateOrgInvitation show ?thesis by (auto simp: list_ex_iff)
next
  case (UpdateUserRoles orgId roleIds userId)
  with assms(2) show ?thesis by (auto simp: checkUserOrgExist_def list_ex_iff set_granted)
qed (use assms(2) in simp_all)

text \<open>
  C8. Nobody is a member of an organisation out of nothing. Every role a user holds in an organisation, or is about to get,
  was given by a call entitled to give that very role: creating the organisation or registering its client gives the owner's role,
  accepting an invitation the roles of that pending invitation, an update of roles those it names or a role of the console's
  list. And the user became a member by one of the first three; an accepted invitation was one to the user's own address for that
  organisation, sent by an earlier request of another address.
\<close>

theorem membership_traceback:
  "org_trace es db \<Longrightarrow> (u, r, i) \<in> set (granted db) \<Longrightarrow>
   list_ex (\<lambda>(s, env, c). entitled s env c u r i) es \<and> (\<exists>later ev earlier. es = later @ ev # earlier \<and> admits earlier ev u i)"
proof (induction arbitrary: r rule: org_trace.induct)
  case (start db)
  then show ?case by (simp add: org_start_def granted_def)
next
  case (called es db env c x db')
  have older: "\<exists>later ev earlier. (db, env, c) # es = later @ ev # earlier \<and> admits earlier ev u i"
    if "(u, r', i) \<in> set (granted db)" for r'
  proof -
    from called.IH [OF that] obtain later ev earlier where "es = later @ ev # earlier" "admits earlier ev u i" by blast
    then have "(db, env, c) # es = ((db, env, c) # later) @ ev # earlier" by simp
    with \<open>admits earlier ev u i\<close> show ?thesis by blast
  qed
  from call_grants [OF trace_inv [OF called(1)] called(2,4)] show ?case
  proof
    assume old: "(u, r, i) \<in> set (granted db)"
    with called.IH older show ?thesis by simp
  next
    assume new: "entitled db env c u r i"
    have "\<exists>later ev earlier. (db, env, c) # es = later @ ev # earlier \<and> admits earlier ev u i"
      using entitled_admits [OF called(1) new]
    proof
      assume "admits es (db, env, c) u i"
      then show ?thesis by (intro exI [of _ "[]"]) auto
    qed (use older in blast)
    with new show ?thesis by simp
  qed
next
  case (unseen es db db')
  then show ?case using quiet_granted by blast
qed

section \<open>What a request for invitations adds\<close>

text \<open>New pending invitations to different addresses, none of which had a pending or accepted one.\<close>

definition sends :: "string \<Rightarrow> string set \<Rightarrow> org_db \<Rightarrow> org_db \<Rightarrow> bool" where
  "sends orgId emails s t \<longleftrightarrow> (\<exists>new a. t = s\<lparr>obInvitations := obInvitations s @ new, obActivities := a\<rparr> \<and>
     distinct (map vtEmail new) \<and>
     (\<forall>v \<in> set new. vtStatus v = InvPending \<and> vtOrgId v = orgId \<and>
       (\<exists>e \<in> emails. vtEmail v = Some e \<and> \<not> checkInvitationExist e orgId s)))"

lemma exists_appended:
  "checkInvitationExist e orgId (s\<lparr>obInvitations := obInvitations s @ new, obActivities := a\<rparr>) \<longleftrightarrow>
     checkInvitationExist e orgId s \<or>
     (\<exists>v \<in> set new. (vtStatus v = InvPending \<or> vtStatus v = InvAccepted) \<and> vtEmail v = Some e \<and> vtOrgId v = orgId)"
  by (auto simp: checkInvitationExist_def getOrgInvitations_def list_ex_iff)

lemma sends_trans:
  assumes "sends orgId E s t" and "sends orgId E t w"
  shows "sends orgId E s w"
proof -
  from assms(1) obtain new a where t: "t = s\<lparr>obInvitations := obInvitations s @ new, obActivities := a\<rparr>"
    and new: "distinct (map vtEmail new)" "\<And>v. v \<in> set new \<Longrightarrow> vtStatus v = InvPending \<and> vtOrgId v = orgId \<and>
      (\<exists>e \<in> E. vtEmail v = Some e \<and> \<not> checkInvitationExist e orgId s)" by (auto simp: sends_def)
  from assms(2) obtain more b where w: "w = t\<lparr>obInvitations := obInvitations t @ more, obActivities := b\<rparr>"
    and more: "distinct (map vtEmail more)" "\<And>v. v \<in> set more \<Longrightarrow> vtStatus v = InvPending \<and> vtOrgId v = orgId \<and>
      (\<exists>e \<in> E. vtEmail v = Some e \<and> \<not> checkInvitationExist e orgId t)" by (auto simp: sends_def)
  have "vtEmail x \<noteq> vtEmail y" if "x \<in> set new" "y \<in> set more" for x y
    using new(2) [OF that(1)] more(2) [OF that(2)] that unfolding t exists_appended by auto
  then have "distinct (map vtEmail (new @ more))" using new(1) more(1) by fastforce
  moreover have "vtStatus v = InvPending \<and> vtOrgId v = orgId \<and> (\<exists>e \<in> E. vtEmail v = Some e \<and> \<not> checkInvitationExist e orgId s)"
    if "v \<in> set (new @ more)" for v
    using that new(2) [of v] more(2) [of v] unfolding t exists_appended by auto
  moreover have "w = s\<lparr>obInvitations := obInvitations s @ (new @ more), obActivities := b\<rparr>" using t w by simp
  ultimately show ?thesis unfolding sends_def by blast
qed

interpretation sending: effect_preorder "sends orgId E" for orgId E
proof
  show "sends orgId E s s" for s
    unfolding sends_def by (intro exI [of _ "[]"] exI [of _ "obActivities s"]) simp
  show "sends orgId E s t \<Longrightarrow> sends orgId E t w \<Longrightarrow> sends orgId E s w" for s t w by (rule sends_trans)
qed

lemma sends_inviteOne:
  assumes "email \<noteq> sender \<Longrightarrow> email \<in> E"
  shows "moves (sends orgId E) (inviteOne env k orgId userId sender roles email)"
proof (rule movesI)
  fix s r t
  assume run: "inviteOne env k orgId userId sender roles email s = (r, t)"
  show "sends orgId E s t"
  proof (cases "\<not> checkInvitationExist email orgId s \<and> sender \<noteq> email")
    case False
    with run show ?thesis by (auto simp: inviteOne_def bind_def intro: sending.R_refl)
  next
    case True
    with run obtain x where "createSendInvitation (gnUuid env k) email orgId userId roles s = (x, t)"
      by (auto simp: inviteOne_def bind_def tryCatch_def split: prod.splits sum.splits)
    then consider "t = s" | v where "t = s\<lparr>obInvitations := obInvitations s @ [v]\<rparr>" "vtEmail v = Some email" "vtOrgId v = orgId"
        "vtStatus v = InvPending"
      by (auto simp: createSendInvitation_def Let_def split: if_splits)
    then show ?thesis
    proof cases
      case 2
      then show ?thesis
        unfolding sends_def using True assms by (intro exI [of _ "[v]"] exI [of _ "obActivities s"]) auto
    qed (simp add: sending.R_refl)
  qed
qed

lemma sends_askUsers: "moves (sends orgId E) (askUsers env email sender)"
  unfolding askUsers_def orRead_def by (intro sending.moves_rules)

lemma sends_createInvitation:
  "moves (sends orgId (fst ` set invitations - {sender})) (createInvitation env invitations orgId userId sender)"
proof -
  have org: "moves (sends orgId E) (createInvitationByOrgRoles env k orgId userId sender is)"
    if "fst ` set is - {sender} \<subseteq> E" for E k "is"
    using that
  proof (induction "is" arbitrary: k)
    case (Cons i "is")
    obtain email roles where i: "i = (email, roles)" by (cases i)
    with Cons show ?case
      by (simp, intro sending.moves_rules sends_askUsers sends_inviteOne) auto
  qed (simp only: createInvitationByOrgRoles.simps sending.moves_ret)
  have client: "moves (sends orgId E) (clientInvitations env cs rs k orgId userId sender is)"
    if "fst ` set is - {sender} \<subseteq> E" for E cs rs k "is"
    using that
  proof (induction "is" arbitrary: k)
    case (Cons i "is")
    obtain email roles where i: "i = (email, roles)" by (cases i)
    with Cons show ?case
      by (simp only: clientInvitations.simps Let_def, intro sending.moves_rules sends_askUsers sends_inviteOne) auto
  qed (simp only: clientInvitations.simps sending.moves_ret)
  have activity: "moves (sends orgId E) (logActivity userId o' a)" for E o' a
  proof (rule movesI)
    fix s r t
    assume "logActivity userId o' a s = (r, t)"
    then have "\<exists>b. t = s\<lparr>obInvitations := obInvitations s @ [], obActivities := b\<rparr>"
      by (auto simp: logActivity_def split: if_splits intro: exI [of _ "obActivities s"])
    then show "sends orgId E s t" unfolding sends_def by fastforce
  qed
  show ?thesis
    unfolding createInvitation_def asRpc_def getOrganizationDetails_def assertMarketplaceUserLimitAllowsInvitations_def
      createInvitationByClientRoles_def managementToken_def orRead_def
    by (intro sending.moves_rules org client activity) simp_all
qed

lemma limit_passed:
  assumes "createInvitation env invitations orgId userId sender s = (Inr (), t)"
  shows "fst (assertMarketplaceUserLimitAllowsInvitations invitations orgId sender s) = Inr ()"
  using assms
  by (auto simp: createInvitation_def asRpc_def tryCatch_def bind_def andThen_def getOrganizationDetails_def
      assertMarketplaceUserLimitAllowsInvitations_def split: prod.splits sum.splits if_splits option.splits)

definition normalEmail :: "string \<Rightarrow> bool" where
  "normalEmail e \<longleftrightarrow> e \<noteq> [] \<and> toLowerCase (trim e) = e"

lemma newInviteEmails_normal:
  assumes "list_all (\<lambda>i. normalEmail (fst i)) invitations" and "normalEmail sender"
  shows "set (newInviteEmails sender orgId invitations s) =
    {e \<in> fst ` set invitations - {sender}. \<not> checkInvitationExist e orgId s}"
  using assms by (force simp: newInviteEmails_def normalEmail_def list_all_iff image_iff)

lemma pending_appended:
  "getPendingOrganizationInvitationCount orgId (s\<lparr>obInvitations := obInvitations s @ new, obActivities := a\<rparr>) =
   getPendingOrganizationInvitationCount orgId s + length (filter (\<lambda>v. vtOrgId v = orgId \<and> vtStatus v = InvPending) new)"
  by (simp add: getPendingOrganizationInvitationCount_def)

lemma sends_count:
  assumes sends: "sends orgId E s t" and emails: "{e \<in> E. \<not> checkInvitationExist e orgId s} \<subseteq> set emails"
  shows "getPendingOrganizationInvitationCount orgId t \<le> getPendingOrganizationInvitationCount orgId s + length emails"
proof -
  from sends obtain new a where t: "t = s\<lparr>obInvitations := obInvitations s @ new, obActivities := a\<rparr>"
    and new: "distinct (map vtEmail new)"
      "\<And>v. v \<in> set new \<Longrightarrow> \<exists>e \<in> E. vtEmail v = Some e \<and> \<not> checkInvitationExist e orgId s" by (auto simp: sends_def)
  have "length new = card (vtEmail ` set new)" using distinct_card [OF new(1)] by simp
  also have "vtEmail ` set new \<subseteq> Some ` set emails" using new(2) emails by fastforce
  then have "card (vtEmail ` set new) \<le> card (Some ` set emails)" by (rule card_mono [rotated]) simp
  also have "\<dots> \<le> length emails" by (metis card_image_le card_length finite_set le_trans)
  finally show ?thesis unfolding t pending_appended by (meson add_left_mono le_trans length_filter_le)
qed

text \<open>
  C17. A successful \<open>createInvitation\<close> keeps members and pending invitations together within the user limit of the
  Marketplace plan, or sends nothing new when they are above it, provided the addresses are trimmed and in lower case. (They are counted in that form and
  compared as they are when stored: two spellings of one address are counted once and stored twice.)
\<close>

theorem invitations_within_plan:
  assumes run: "createInvitation env invitations orgId userId sender s = (Inr (), t)"
    and limit: "getMarketplaceMaxUsers orgId s = Some n" "n \<noteq> 0"
    and normal: "list_all (\<lambda>i. normalEmail (fst i)) invitations" "normalEmail sender"
  shows "int (getOrganizationUserCount orgId t + getPendingOrganizationInvitationCount orgId t) \<le>
    max n (int (getOrganizationUserCount orgId s + getPendingOrganizationInvitationCount orgId s))"
proof -
  let ?emails = "newInviteEmails sender orgId invitations s"
  have sends: "sends orgId (fst ` set invitations - {sender}) s t"
    by (rule movesD [OF sends_createInvitation run])
  then have users: "getOrganizationUserCount orgId t = getOrganizationUserCount orgId s"
    by (auto simp: sends_def getOrganizationUserCount_def)
  have "getPendingOrganizationInvitationCount orgId t \<le> getPendingOrganizationInvitationCount orgId s + length ?emails"
    by (rule sends_count [OF sends]) (simp add: newInviteEmails_normal [OF normal])
  moreover have "?emails = [] \<or>
      int (getOrganizationUserCount orgId s + getPendingOrganizationInvitationCount orgId s + length ?emails) \<le> n"
    using limit_passed [OF run] limit
    by (auto simp: assertMarketplaceUserLimitAllowsInvitations_def bind_def split: if_splits)
  ultimately show ?thesis using users by auto
qed

text \<open>
  C10. An invitation changes at most once: whatever happens in a reachable state, a stored invitation stays as it is unless it
  is pending and an answer accepts or rejects it for its own address and organisation.
\<close>

theorem invitation_answered_once:
  assumes "reachable_from org_start org_step s" and "org_step s t"
    and "v \<in> set (obInvitations s)" and "w \<in> set (obInvitations t)" and "vtId w = vtId v"
  shows "w = v \<or> (\<exists>env p r. org_run env (UpdateOrgInvitation p) s = (r, t) \<and> answers p v \<and> w = v\<lparr>vtStatus := uiStatus p\<rparr>)"
  using assms(2)
proof cases
  case (quiet)
  then have "w \<in> set (obInvitations s)" using assms(4) by (simp add: quiet_invitations)
  moreover have "distinct (map vtId (obInvitations s))"
    using org_runs.reachable_inv [OF assms(1)] by (simp add: org_inv_def)
  ultimately show ?thesis using assms(3,5) distinct_map_eqD by metis
next
  case (call env c r)
  have inv: "org_inv s" by (rule org_runs.reachable_inv [OF assms(1)])
  have ids: "distinct (map vtId (obInvitations s))" "distinct (map vtId (obInvitations t))"
    using inv maintainsD [OF org_run_inv call inv] by (simp_all add: org_inv_def)
  from call_changes [OF inv call assms(4)] show ?thesis
  proof
    assume "w \<in> set (obInvitations s)"
    with assms(3,5) distinct_map_eqD [OF ids(1)] show ?thesis by metis
  next
    assume new: "changed s c w"
    show ?thesis
    proof (cases c)
      case (CreateInvitation invitations orgId userId email)
      with call have "sends orgId (fst ` set invitations - {email}) s t"
        using movesD [OF sends_createInvitation] by simp
      then have "v \<in> set (obInvitations t)" using assms(3) by (auto simp: sends_def)
      with assms(4,5) distinct_map_eqD [OF ids(2)] show ?thesis by metis
    next
      case (UpdateOrgInvitation p)
      with new obtain v0 where v0: "v0 \<in> set (obInvitations s)" "answers p v0" "w = v0\<lparr>vtStatus := uiStatus p\<rparr>"
        by (auto simp: list_ex_iff)
      with assms(3,5) distinct_map_eqD [OF ids(1)] have "v0 = v" by fastforce
      with v0 call UpdateOrgInvitation show ?thesis by blast
    qed (use new in simp_all)
  qed
qed

section \<open>Runs that succeed\<close>

lemma bind_okE:
  assumes "bind m f s = (Inr y, t)"
  obtains x s1 where "m s = (Inr x, s1)" "f x s1 = (Inr y, t)"
  using assms by (auto elim: bind_cases)

lemma andThen_okE:
  assumes "andThen m n s = (Inr y, t)"
  obtains x s1 where "m s = (Inr x, s1)" "n s1 = (Inr y, t)"
  using assms by (auto elim: andThen_cases)

lemma promiseAll_okE:
  assumes "promiseAll m n s = (Inr y, t)"
  obtains s1 where "m s = (Inr (), s1)" "n s1 = (Inr y, t)"
  using assms by (auto simp: promiseAll_def split: prod.splits sum.splits)

lemma rethrown_ok [simp]: "tryCatch m (\<lambda>e. throw (h e)) s = (Inr y, t) \<longleftrightarrow> m s = (Inr y, t)"
  by (auto simp: tryCatch_def split: prod.splits sum.splits)

lemma asRpc_ok [simp]: "asRpc m s = (Inr y, t) \<longleftrightarrow> m s = (Inr y, t)"
  by (simp add: asRpc_def)

lemma orRead_ok [simp]: "orRead x s = (Inr y, t) \<longleftrightarrow> x = Some y \<and> t = s"
  by (cases x) (auto simp: orRead_def)

lemma managementToken_ok: "managementToken env userId s = (Inr y, t) \<Longrightarrow> t = s"
  unfolding managementToken_def by (auto elim!: bind_okE)

lemma createUserClientRole_ok:
  "createUserClientRole env idp kc payload s = (Inr y, t) \<longleftrightarrow>
   (\<exists>a. gnAssignRoles env idp kc payload = Inr a) \<and> t = s\<lparr>obKeycloak := obKeycloak s @ [AssignRoles idp kc payload]\<rparr>"
  by (cases "gnAssignRoles env idp kc payload") (auto simp: createUserClientRole_def bind_def)

lemma forEach_lift_ok: "forEach xs (\<lambda>x. lift (g x)) s = (Inr y, t) \<Longrightarrow> t = s"
  by (induction xs) (auto elim!: bind_okE)

lemma createUserOrgRole_ok:
  "createUserOrgRole uuid userId roleId orgId idp s = (Inr y, t) \<Longrightarrow>
   t = s\<lparr>obUserRoles := obUserRoles s @ [\<lparr>uoId = uuid, uoUserId = userId, uoRoleId = roleId, uoOrgId = nonEmpty orgId,
     uoIdpRoleId = nonEmpty idp\<rparr>]\<rparr>"
  by (auto simp: createUserOrgRole_def split: if_splits)

lemma registerToKeycloak_new:
  assumes "registerToKeycloak env name orgId kc userId False s = (Inr c, t)"
  obtains x row k where "getRole ''owner'' s = Some x" "uoUserId row = userId" "uoRoleId row = rlId x"
    "uoOrgId row = nonEmpty (Some orgId)"
    "t = s\<lparr>obKeycloak := k, obUserRoles := obUserRoles s @ [row]\<rparr>"
proof -
  from assms obtain x i where "getRole ''owner'' s = Some x"
    "t = s\<lparr>obKeycloak := obKeycloak s @ [AssignRoles (kcIdpId c) kc [i]],
      obUserRoles := obUserRoles s @ [\<lparr>uoId = gnUuid env 1, uoUserId = userId, uoRoleId = rlId x,
        uoOrgId = nonEmpty (Some orgId), uoIdpRoleId = nonEmpty (Some (fst i))\<rparr>]\<rparr>"
    unfolding registerToKeycloak_def
    by (auto simp: createUserClientRole_ok elim!: bind_okE andThen_okE promiseAll_okE
        dest!: managementToken_ok forEach_lift_ok createUserOrgRole_ok)
  then show ?thesis
    by (intro that [of x "\<lparr>uoId = gnUuid env 1, uoUserId = userId, uoRoleId = rlId x, uoOrgId = nonEmpty (Some orgId),
        uoIdpRoleId = nonEmpty (Some (fst i))\<rparr>" "obKeycloak s @ [AssignRoles (kcIdpId c) kc [i]]"]) simp_all
qed

lemma updateOrg_ok:
  "updateOrg i f s = (Inr y, t) \<Longrightarrow> t = s\<lparr>obOrgs := updateWhere (\<lambda>x. owId x = i) f (obOrgs s)\<rparr>"
  by (auto simp: updateOrg_def split: option.splits if_splits)

lemma registerNew_ok:
  assumes "registerNew env r kc userId s = (Inr (), t)"
  obtains x row k c where "getRole ''owner'' s = Some x" "uoUserId row = userId" "uoRoleId row = rlId x"
    "uoOrgId row = nonEmpty (Some (owId r))"
    "t = s\<lparr>obKeycloak := k, obUserRoles := obUserRoles s @ [row], obOrgs := updateWhere (\<lambda>x. owId x = owId r)
        (\<lambda>x. x\<lparr>owIdpId := Some (kcIdpId (c :: kc_client)), owClientId := Some (kcClientId c)\<rparr>) (obOrgs s)\<rparr>"
proof -
  let ?f = "\<lambda>c x. x\<lparr>owIdpId := Some (kcIdpId c), owClientId := Some (kcClientId c)\<rparr>"
  from assms obtain c s1 where reg: "registerToKeycloak env (owName r) (owId r) kc userId False s = (Inr c, s1)"
    and t: "t = s1\<lparr>obOrgs := updateWhere (\<lambda>x. owId x = owId r) (?f c) (obOrgs s1)\<rparr>"
    unfolding registerNew_def updateOrganizationById_def by (auto elim!: bind_okE dest!: updateOrg_ok)
  from reg show ?thesis
  proof (rule registerToKeycloak_new)
    fix x row k
    assume "getRole ''owner'' s = Some x" "uoUserId row = userId" "uoRoleId row = rlId x"
      "uoOrgId row = nonEmpty (Some (owId r))" "s1 = s\<lparr>obKeycloak := k, obUserRoles := obUserRoles s @ [row]\<rparr>"
    with t show ?thesis by (intro that [of x row c k]) simp_all
  qed
qed

lemma updateWhere_none: "(\<And>r. r \<in> set rows \<Longrightarrow> \<not> p r) \<Longrightarrow> updateWhere p f rows = rows"
  by (induction rows) auto

lemma logActivity_ok: "logActivity userId orgId a s = (Inr y, t) \<Longrightarrow> \<exists>b. t = s\<lparr>obActivities := b\<rparr>"
  by (auto simp: logActivity_def split: if_splits)

lemma createOrganization_ok:
  assumes "createOrganization env dto userId kc s = (Inr r, t)"
  obtains x row new k a where "assertOrgLimits env userId s = (Inr (), s)"
    "checkOrganizationNameExist (coName dto) s = None" "checkOrganizationSlugExist (createOrgSlug (coName dto)) s = None"
    "getRole ''owner'' s = Some x" "uoUserId row = userId" "uoRoleId row = rlId x"
    "uoOrgId row = nonEmpty (Some (gnUuid env 0))"
    "gnUuid env 0 \<notin> owId ` set (obOrgs s)" "owId new = gnUuid env 0" "owName new = Some (coName dto)"
    "owSlug new = Some (createOrgSlug (coName dto))" "owIdpId new \<noteq> None"
    "t = s\<lparr>obKeycloak := k, obUserRoles := obUserRoles s @ [row], obOrgs := obOrgs s @ [new], obActivities := a\<rparr>"
proof -
  have limits: "assertOrgLimits env userId s' = (y, t') \<Longrightarrow> t' = s'" for s' y t'
    by (auto simp: assertOrgLimits_def assertMarketplaceOrganizationLimit_def bind_def split: if_splits option.splits)
  from assms obtain s0 logo s1 s2 a where
    pre: "assertOrgLimits env userId s = (Inr (), s0)" "checkOrganizationNameExist (coName dto) s0 = None"
      "checkOrganizationSlugExist (createOrgSlug (coName dto)) s0 = None"
    and ins: "insertOrganization (gnUuid env 0) dto logo (createOrgSlug (coName dto)) userId s0 = (Inr r, s1)"
    and reg: "registerNew env r kc userId s1 = (Inr (), s2)"
    and log: "t = s2\<lparr>obActivities := a\<rparr>"
    unfolding createOrganization_def
    by (auto elim!: bind_okE andThen_okE split: if_splits dest!: logActivity_ok)
  have s0: "s0 = s" by (rule limits [OF pre(1)])
  note pre = pre [unfolded s0] and ins = ins [unfolded s0]
  let ?r = "\<lparr>owId = gnUuid env 0, owName = Some (coName dto), owDescription = coDescription dto,
    owSlug = Some (createOrgSlug (coName dto)), owLogoUrl = Some logo, owWebsite = coWebsite dto, owPublicProfile = False,
    owIdpId = None, owClientId = None, owClientSecret = None, owCreatedBy = userId\<rparr>"
  from ins have r: "r = ?r" "s1 = s\<lparr>obOrgs := obOrgs s @ [r]\<rparr>" "gnUuid env 0 \<notin> owId ` set (obOrgs s)"
    by (auto simp: insertOrganization_def insertOrg_def list_ex_iff split: if_splits)
  from reg obtain x row k c where x: "getRole ''owner'' s1 = Some x" "uoUserId row = userId" "uoRoleId row = rlId x"
    "uoOrgId row = nonEmpty (Some (owId r))"
    "s2 = s1\<lparr>obKeycloak := k, obUserRoles := obUserRoles s1 @ [row], obOrgs := updateWhere (\<lambda>x. owId x = owId r)
        (\<lambda>x. x\<lparr>owIdpId := Some (kcIdpId (c :: kc_client)), owClientId := Some (kcClientId c)\<rparr>) (obOrgs s1)\<rparr>"
    by (rule registerNew_ok)
  have "updateWhere (\<lambda>x. owId x = owId r) (\<lambda>x. x\<lparr>owIdpId := Some (kcIdpId c), owClientId := Some (kcClientId c)\<rparr>) (obOrgs s) = obOrgs s"
    using r by (intro updateWhere_none) (auto simp: image_iff)
  then have orgs: "obOrgs s2 = obOrgs s @ [r\<lparr>owIdpId := Some (kcIdpId c), owClientId := Some (kcClientId c)\<rparr>]"
    using x(5) r(2) by (simp add: updateWhere_def)
  from log orgs x(5) r(2) have t: "t = s\<lparr>obKeycloak := k, obUserRoles := obUserRoles s @ [row],
    obOrgs := obOrgs s @ [r\<lparr>owIdpId := Some (kcIdpId c), owClientId := Some (kcClientId c)\<rparr>], obActivities := a\<rparr>" by simp
  have "getRole ''owner'' s = Some x" using x(1) r(2) by (simp add: getRole_def)
  with pre x(2-4) r t show ?thesis by (intro that) simp_all
qed

lemma uor_count:
  assumes "uuid \<notin> owId ` set (obOrgs s)" and "owId new = uuid" and "uoUserId row = userId" and "uoOrgId row = Some uuid"
  shows "userOrganizationCount userId (s\<lparr>obKeycloak := k, obUserRoles := obUserRoles s @ [row], obOrgs := obOrgs s @ [new],
    obActivities := a\<rparr>) = Suc (userOrganizationCount userId s)"
proof -
  have "filter (\<lambda>o'. list_ex (\<lambda>r. uoUserId r = userId \<and> uoOrgId r = Some (owId o')) (obUserRoles s @ [row])) (obOrgs s) =
    filter (\<lambda>o'. list_ex (\<lambda>r. uoUserId r = userId \<and> uoOrgId r = Some (owId o')) (obUserRoles s)) (obOrgs s)"
    using assms by (intro filter_cong) (auto simp: list_ex_iff)
  with assms show ?thesis by (simp add: userOrganizationCount_def)
qed

lemma limits_passed:
  assumes "assertOrgLimits env userId s = (Inr (), s)"
  shows "gnMaxOrgLimit env = Some n \<Longrightarrow> int (userOrganizationCount userId s) < n"
    and "getMarketplaceMaxOrganizationsByUser userId s = Some m \<Longrightarrow> m \<noteq> 0 \<Longrightarrow> int (userOrganizationCount userId s) < m"
  using assms by (auto simp: assertOrgLimits_def assertMarketplaceOrganizationLimit_def bind_def split: if_splits option.splits)

text \<open>
  C15. A successful \<open>createOrganization\<close> had a free name and slug, adds one organisation that has a Keycloak client, with
  the caller as its owner and nothing else, and leaves the caller within \<open>MAX_ORG_LIMIT\<close> and the number of organisations
  of the Marketplace plan; 0 in the plan is no limit.
\<close>

theorem created_organization:
  assumes run: "createOrganization env dto userId kc s = (Inr r, t)" and uuid: "gnUuid env 0 \<noteq> []"
  shows "checkOrganizationNameExist (coName dto) s = None \<and> checkOrganizationSlugExist (createOrgSlug (coName dto)) s = None \<and>
    (\<exists>new row. obOrgs t = obOrgs s @ [new] \<and> owId new = gnUuid env 0 \<and> owName new = Some (coName dto) \<and>
      owSlug new = Some (createOrgSlug (coName dto)) \<and> owIdpId new \<noteq> None \<and> obUserRoles t = obUserRoles s @ [row] \<and>
      uoUserId row = userId \<and> uoOrgId row = Some (gnUuid env 0) \<and> isOwnerRole s (uoRoleId row)) \<and>
    obInvitations t = obInvitations s \<and> userOrganizationCount userId t = Suc (userOrganizationCount userId s) \<and>
    (case gnMaxOrgLimit env of None \<Rightarrow> True | Some n \<Rightarrow> int (userOrganizationCount userId t) \<le> n) \<and>
    (case getMarketplaceMaxOrganizationsByUser userId s of None \<Rightarrow> True
     | Some n \<Rightarrow> n = 0 \<or> int (userOrganizationCount userId t) \<le> n)"
proof -
  from run obtain x row new k a where ok: "assertOrgLimits env userId s = (Inr (), s)"
    "checkOrganizationNameExist (coName dto) s = None" "checkOrganizationSlugExist (createOrgSlug (coName dto)) s = None"
    "getRole ''owner'' s = Some x" "uoUserId row = userId" "uoRoleId row = rlId x"
    "uoOrgId row = nonEmpty (Some (gnUuid env 0))"
    "gnUuid env 0 \<notin> owId ` set (obOrgs s)" "owId new = gnUuid env 0" "owName new = Some (coName dto)"
    "owSlug new = Some (createOrgSlug (coName dto))" "owIdpId new \<noteq> None"
    "t = s\<lparr>obKeycloak := k, obUserRoles := obUserRoles s @ [row], obOrgs := obOrgs s @ [new], obActivities := a\<rparr>"
    by (rule createOrganization_ok)
  have org: "uoOrgId row = Some (gnUuid env 0)" using ok(7) uuid by (simp add: nonEmpty_def truthy_def)
  with ok owner_of [OF ok(4)] have "\<exists>new row. obOrgs t = obOrgs s @ [new] \<and> owId new = gnUuid env 0 \<and> owName new = Some (coName dto) \<and>
      owSlug new = Some (createOrgSlug (coName dto)) \<and> owIdpId new \<noteq> None \<and> obUserRoles t = obUserRoles s @ [row] \<and>
      uoUserId row = userId \<and> uoOrgId row = Some (gnUuid env 0) \<and> isOwnerRole s (uoRoleId row)"
    by (intro exI [of _ new] exI [of _ row]) simp
  moreover have count: "userOrganizationCount userId t = Suc (userOrganizationCount userId s)"
    unfolding ok(13) using ok org by (intro uor_count) simp_all
  moreover have "case gnMaxOrgLimit env of None \<Rightarrow> True | Some n \<Rightarrow> int (userOrganizationCount userId t) \<le> n"
    using limits_passed(1) [OF ok(1)] count by (fastforce split: option.split)
  moreover have "case getMarketplaceMaxOrganizationsByUser userId s of None \<Rightarrow> True
     | Some n \<Rightarrow> n = 0 \<or> int (userOrganizationCount userId t) \<le> n"
    using limits_passed(2) [OF ok(1)] count by (fastforce split: option.split)
  ultimately show ?thesis using ok(2,3,13) by simp
qed

lemma userCount_card: "getOrganizationUserCount orgId s = card {uoUserId r | r. r \<in> set (obUserRoles s) \<and> uoOrgId r = Some orgId}"
proof -
  have "set (map uoUserId (filter (\<lambda>r. uoOrgId r = Some orgId) (obUserRoles s))) =
    {uoUserId r | r. r \<in> set (obUserRoles s) \<and> uoOrgId r = Some orgId}" by auto
  then show ?thesis by (metis getOrganizationUserCount_def length_remdups_card_conv)
qed

lemma userCount_appended:
  assumes "\<And>r. r \<in> set rows \<Longrightarrow> uoUserId r = userId"
  shows "getOrganizationUserCount orgId (s\<lparr>obUserRoles := obUserRoles s @ rows\<rparr>) \<le>
    (if checkUserOrgExist userId orgId s then getOrganizationUserCount orgId s else Suc (getOrganizationUserCount orgId s))"
proof -
  let ?U = "{uoUserId r | r. r \<in> set (obUserRoles s) \<and> uoOrgId r = Some orgId}"
  let ?V = "{uoUserId r | r. r \<in> set (obUserRoles s @ rows) \<and> uoOrgId r = Some orgId}"
  have U: "finite ?U" by simp
  have V: "?V \<subseteq> insert userId ?U" using assms by auto
  have "userId \<in> ?U" if "checkUserOrgExist userId orgId s" using that by (auto simp: checkUserOrgExist_def list_ex_iff)
  then have "card (insert userId ?U) \<le> (if checkUserOrgExist userId orgId s then card ?U else Suc (card ?U))"
    using U by (auto simp: insert_absorb card_insert_if)
  moreover have "card ?V \<le> card (insert userId ?U)" using V U by (intro card_mono) simp_all
  ultimately show ?thesis unfolding userCount_card by simp
qed

lemma getOrganizationDetails_ok:
  "getOrganizationDetails orgId s = (Inr x, t) \<longleftrightarrow>
   orgId \<noteq> [] \<and> x = List.find (\<lambda>r. owId r = orgId) (obOrgs s) \<and> t = s"
  by (auto simp: getOrganizationDetails_def)

lemma updateInvitationStatus_ok:
  "updateInvitationStatus i st s = (Inr y, t) \<Longrightarrow>
   t = s\<lparr>obInvitations := updateWhere (\<lambda>v. vtId v = i) (\<lambda>v. v\<lparr>vtStatus := st\<rparr>) (obInvitations s)\<rparr>"
  by (auto simp: updateInvitationStatus_def split: if_splits)

lemma createUserOrgRoles_ok:
  "createUserOrgRoles env k userId orgId roles s = (Inr y, t) \<Longrightarrow>
   \<exists>rows. t = s\<lparr>obUserRoles := obUserRoles s @ rows\<rparr> \<and> map uoRoleId rows = roles \<and>
     (\<forall>r \<in> set rows. uoUserId r = userId \<and> uoOrgId r = nonEmpty (Some orgId))"
proof (induction roles arbitrary: k s)
  case (Cons r roles)
  then obtain s1 where first: "createUserOrgRole (gnUuid env k) userId r (Some orgId) None s = (Inr (), s1)"
    and rest: "createUserOrgRoles env (Suc k) userId orgId roles s1 = (Inr y, t)" by (auto elim!: andThen_okE)
  from Cons.IH [OF rest] obtain rows where rows: "t = s1\<lparr>obUserRoles := obUserRoles s1 @ rows\<rparr>" "map uoRoleId rows = roles"
    "\<forall>x \<in> set rows. uoUserId x = userId \<and> uoOrgId x = nonEmpty (Some orgId)" by blast
  let ?row = "\<lparr>uoId = gnUuid env k, uoUserId = userId, uoRoleId = r, uoOrgId = nonEmpty (Some orgId), uoIdpRoleId = nonEmpty None\<rparr>"
  from rows createUserOrgRole_ok [OF first] show ?case by (intro exI [of _ "?row # rows"]) simp
qed (auto intro: exI [of _ "[]"])

lemma updateClientInvitation_ok:
  assumes "updateClientInvitation env v idp userId kc orgId st s = (Inr y, t)"
  obtains k jobs where "t = s\<lparr>obInvitations := updateWhere (\<lambda>x. vtId x = vtId v) (\<lambda>x. x\<lparr>vtStatus := st\<rparr>) (obInvitations s),
      obKeycloak := k, obLate := obLate s @ jobs\<rparr>"
    "\<And>r. r \<in> set (vtOrgRoles v) \<Longrightarrow> r \<in> rlId ` set (obRoles s) \<Longrightarrow> \<exists>i. LateRole userId r orgId i \<in> set jobs"
proof -
  from assms obtain s1 cs where token: "managementToken env userId s = (Inr (), s1)"
    and rest: "(let payload = rolesPayload cs (getOrgRolesByIds (vtOrgRoles v) s1); roles = map the payload
      in if None \<in> set payload then (\<lambda>s. (Inl undefinedRead, snd (updateInvitationStatus (vtId v) st s)))
         else promiseAll (updateInvitationStatus (vtId v) st)
                (promiseAll (createUserClientRole env idp kc (map snd roles))
                  (updateUserOrgRole userId orgId (map (\<lambda>r. (fst r, fst (snd r))) roles)))) s1 = (Inr y, t)"
    unfolding updateClientInvitation_def by (auto elim!: bind_okE andThen_okE)
  have s1: "s1 = s" using managementToken_ok [OF token] .
  let ?payload = "rolesPayload cs (getOrgRolesByIds (vtOrgRoles v) s)"
  let ?jobs = "map (\<lambda>(r, i). LateRole userId r orgId (Some i)) (map (\<lambda>r. (fst r, fst (snd r))) (map the ?payload))"
  have all: "None \<notin> set ?payload" using rest unfolding s1 by (auto simp: Let_def split: if_splits)
  from rest all obtain k where t: "t = s\<lparr>obInvitations := updateWhere (\<lambda>x. vtId x = vtId v) (\<lambda>x. x\<lparr>vtStatus := st\<rparr>) (obInvitations s),
      obKeycloak := k, obLate := obLate s @ ?jobs\<rparr>"
    unfolding s1 Let_def
    by (auto simp: createUserClientRole_ok updateUserOrgRole_def elim!: promiseAll_okE dest!: updateInvitationStatus_ok)
  have "\<exists>i. LateRole userId r orgId i \<in> set ?jobs" if "r \<in> set (vtOrgRoles v)" "r \<in> rlId ` set (obRoles s)" for r
  proof -
    from that obtain x where x: "x \<in> set (getOrgRolesByIds (vtOrgRoles v) s)" "rlId x = r" by (auto simp: getOrgRolesByIds_def)
    let ?e = "map_option (\<lambda>c. (rlId x, c)) (List.find (\<lambda>c. snd c = rlName x) cs)"
    have e: "?e \<in> set ?payload" using x(1) by (auto simp: rolesPayload_def)
    with all have "?e \<noteq> None" by metis
    then obtain c where "?e = Some (r, c)" using x(2) by auto
    with e show ?thesis by (force simp: image_iff)
  qed
  with t show ?thesis by (rule that)
qed

text \<open>
  C16. A successful acceptance answers a pending invitation to the caller's own address for that very organisation, marks it
  and nothing else accepted, gives the caller each of its roles that exists (in an organisation with a Keycloak client by an
  insert that is still under way), and keeps the stored members within the user limit of the Marketplace plan.
\<close>

theorem acceptance_within_plan:
  assumes run: "updateOrgInvitation env p s = (Inr (), t)" and accepted: "uiStatus p = InvAccepted"
  shows "\<exists>v \<in> set (obInvitations s). answers p v \<and>
    obInvitations t = updateWhere (\<lambda>x. vtId x = vtId v) (\<lambda>x. x\<lparr>vtStatus := InvAccepted\<rparr>) (obInvitations s) \<and>
    set (vtOrgRoles v) \<inter> rlId ` set (obRoles s) \<subseteq> {r. (uiUserId p, r, uiOrgId p) \<in> set (granted t)} \<and>
    (case getMarketplaceMaxUsers (uiOrgId p) s of None \<Rightarrow> True
     | Some n \<Rightarrow> n = 0 \<or> int (getOrganizationUserCount (uiOrgId p) t) \<le> max n (int (getOrganizationUserCount (uiOrgId p) s)))"
proof -
  have same: "assertOrgLimits env u s' = (y, t') \<Longrightarrow> t' = s'"
    "assertMarketplaceUserLimitAllowsAcceptance o' u s' = (y, t') \<Longrightarrow> t' = s'" for u o' s' y t'
    by (auto simp: assertOrgLimits_def assertMarketplaceOrganizationLimit_def assertMarketplaceUserLimitAllowsAcceptance_def
        bind_def split: if_splits option.splits)
  from run accepted obtain s1 s2 where lim: "assertOrgLimits env (uiUserId p) s = (Inr (), s1)"
    "assertMarketplaceUserLimitAllowsAcceptance (uiOrgId p) (uiUserId p) s1 = (Inr (), s2)"
    and ans: "answerInvitation env p (getInvitationById (uiInvitationId p) s) s2 = (Inr (), t)"
    unfolding updateOrgInvitation_def by (auto elim!: bind_okE andThen_okE)
  have s12: "s1 = s" "s2 = s" using same(1) [OF lim(1)] same(2) [OF lim(2)] by simp_all
  note lim = lim(2) [unfolded s12] and ans = ans [unfolded s12]
  from ans obtain v where v: "getInvitationById (uiInvitationId p) s = Some v"
    by (cases "getInvitationById (uiInvitationId p) s") (auto simp: answerInvitation_def)
  then have found: "v \<in> set (obInvitations s)" "vtId v = uiInvitationId p" by (auto simp: getInvitationById_def dest: find_SomeD)
  from ans [unfolded v] obtain r where r: "List.find (\<lambda>r. owId r = uiOrgId p) (obOrgs s) = Some r" "uiOrgId p \<noteq> []"
    "vtEmail v = Some (uiEmail p)" "vtOrgId v = uiOrgId p" "transition (vtStatus v) (uiStatus p)"
    and act: "(if truthy (owIdpId r)
       then updateClientInvitation env v (orEmpty (owIdpId r)) (uiUserId p) (uiKeycloakUserId p) (uiOrgId p) (uiStatus p)
       else andThen (updateInvitationStatus (uiInvitationId p) (uiStatus p))
         (createUserOrgRoles env 0 (uiUserId p) (uiOrgId p) (vtOrgRoles v))) s = (Inr (), t)"
    by (auto simp: answerInvitation_def getOrganizationDetails_ok accepted elim!: bind_okE split: if_splits option.splits)
  have answers: "answers p v" using found r accepted by (cases "vtStatus v") (auto simp: answers_def)
  let ?inv = "updateWhere (\<lambda>x. vtId x = vtId v) (\<lambda>x. x\<lparr>vtStatus := InvAccepted\<rparr>) (obInvitations s)"
  have limit: "case getMarketplaceMaxUsers (uiOrgId p) s of None \<Rightarrow> True
     | Some n \<Rightarrow> n = 0 \<or> int (getOrganizationUserCount (uiOrgId p) t) \<le> max n (int (getOrganizationUserCount (uiOrgId p) s))"
    if "getOrganizationUserCount (uiOrgId p) t \<le> (if checkUserOrgExist (uiUserId p) (uiOrgId p) s
        then getOrganizationUserCount (uiOrgId p) s else Suc (getOrganizationUserCount (uiOrgId p) s))"
    using that lim
    by (auto simp: assertMarketplaceUserLimitAllowsAcceptance_def bind_def split: if_splits option.splits)
  show ?thesis
  proof (cases "truthy (owIdpId r)")
    case True
    with act have "updateClientInvitation env v (orEmpty (owIdpId r)) (uiUserId p) (uiKeycloakUserId p) (uiOrgId p) (uiStatus p) s
      = (Inr (), t)" by simp
    then obtain k jobs where t: "t = s\<lparr>obInvitations := ?inv, obKeycloak := k, obLate := obLate s @ jobs\<rparr>"
      and jobs: "\<And>r. r \<in> set (vtOrgRoles v) \<Longrightarrow> r \<in> rlId ` set (obRoles s) \<Longrightarrow> \<exists>i. LateRole (uiUserId p) r (uiOrgId p) i \<in> set jobs"
      unfolding accepted using updateClientInvitation_ok by blast
    have "set (vtOrgRoles v) \<inter> rlId ` set (obRoles s) \<subseteq> {r. (uiUserId p, r, uiOrgId p) \<in> set (granted t)}"
      using jobs unfolding t by (auto simp: set_granted)
    moreover have "getOrganizationUserCount (uiOrgId p) t = getOrganizationUserCount (uiOrgId p) s"
      unfolding t by (simp add: getOrganizationUserCount_def)
    moreover from this have "case getMarketplaceMaxUsers (uiOrgId p) s of None \<Rightarrow> True
     | Some n \<Rightarrow> n = 0 \<or> int (getOrganizationUserCount (uiOrgId p) t) \<le> max n (int (getOrganizationUserCount (uiOrgId p) s))"
      by (intro limit) simp
    ultimately show ?thesis using found answers t by (intro bexI [of _ v]) simp_all
  next
    case False
    with act obtain s3 where "updateInvitationStatus (uiInvitationId p) (uiStatus p) s = (Inr (), s3)"
      and roles: "createUserOrgRoles env 0 (uiUserId p) (uiOrgId p) (vtOrgRoles v) s3 = (Inr (), t)"
      by (auto elim!: andThen_okE)
    then have s3: "s3 = s\<lparr>obInvitations := ?inv\<rparr>" using updateInvitationStatus_ok found(2) accepted by simp
    have s3_same: "getOrganizationUserCount (uiOrgId p) s3 = getOrganizationUserCount (uiOrgId p) s"
      "checkUserOrgExist (uiUserId p) (uiOrgId p) s3 = checkUserOrgExist (uiUserId p) (uiOrgId p) s"
      unfolding s3 getOrganizationUserCount_def checkUserOrgExist_def by simp_all
    from createUserOrgRoles_ok [OF roles] obtain rows where t: "t = s3\<lparr>obUserRoles := obUserRoles s3 @ rows\<rparr>"
      and rows: "map uoRoleId rows = vtOrgRoles v" "\<And>x. x \<in> set rows \<Longrightarrow> uoUserId x = uiUserId p \<and> uoOrgId x = Some (uiOrgId p)"
      using r(2) by (auto simp: nonEmpty_def truthy_def)
    have "set (vtOrgRoles v) \<subseteq> {r. (uiUserId p, r, uiOrgId p) \<in> set (granted t)}"
      using rows(2) unfolding t rows(1) [symmetric] by (auto simp: set_granted)
    moreover have "getOrganizationUserCount (uiOrgId p) t \<le> (if checkUserOrgExist (uiUserId p) (uiOrgId p) s3
        then getOrganizationUserCount (uiOrgId p) s3 else Suc (getOrganizationUserCount (uiOrgId p) s3))"
      unfolding t by (rule userCount_appended) (use rows(2) in blast)
    then have "getOrganizationUserCount (uiOrgId p) t \<le> (if checkUserOrgExist (uiUserId p) (uiOrgId p) s
        then getOrganizationUserCount (uiOrgId p) s else Suc (getOrganizationUserCount (uiOrgId p) s))"
      unfolding s3_same .
    ultimately show ?thesis using found answers t s3 limit by (intro bexI [of _ v]) auto
  qed
qed

section \<open>Deleting an organisation\<close>

text \<open>What is left of the tables without an organisation.\<close>

definition erased :: "string \<Rightarrow> org_db \<Rightarrow> org_db" where
  "erased i db = db\<lparr>
     obAgents := filter (\<lambda>a. agOrgId a \<noteq> i) (obAgents db),
     obNotifications := filter (\<lambda>o'. o' \<noteq> i) (obNotifications db),
     obActivities := filter (\<lambda>v. uvOrgId v \<noteq> i) (obActivities db),
     obUserRoles := filter (\<lambda>r. uoOrgId r \<noteq> Some i) (obUserRoles db),
     obInvitations := filter (\<lambda>v. vtOrgId v \<noteq> i) (obInvitations db),
     obSchemas := updateWhere (\<lambda>x. snd x = Some i) (\<lambda>x. (fst x, None)) (obSchemas db),
     obCredDefs := updateWhere (\<lambda>x. snd x = Some i) (\<lambda>x. (fst x, None)) (obCredDefs db),
     obOrgs := filter (\<lambda>r. owId r \<noteq> i) (obOrgs db),
     obSubscriptions := updateWhere (\<lambda>s. subOrgId s = Some i) (\<lambda>s. s\<lparr>subOrgId := None\<rparr>) (obSubscriptions db)\<rparr>"

text \<open>Nothing that an organisation must keep refers to it.\<close>

definition erasable :: "string \<Rightarrow> org_db \<Rightarrow> bool" where
  "erasable i db \<longleftrightarrow> i \<in> set (map owId (obOrgs db)) \<and> i \<notin> set (obHeld db) \<and> \<not> list_ex (refersTo db i) tablesToCheck"

lemma deleteOrphanAgent_ok:
  assumes "deleteOrphanAgent i s = (Inr y, t)"
  shows "t = s\<lparr>obAgents := filter (\<lambda>a. agOrgId a \<noteq> i) (obAgents s)\<rparr>"
proof (cases "List.find (\<lambda>a. agOrgId a = i) (obAgents s)")
  case None
  then have "filter (\<lambda>a. agOrgId a \<noteq> i) (obAgents s) = obAgents s" by (auto simp: find_None_iff intro: filter_True)
  with None assms show ?thesis by (simp add: deleteOrphanAgent_def)
next
  case (Some a)
  with assms show ?thesis by (auto simp: deleteOrphanAgent_def split: if_splits)
qed

lemma deleteOrg_ok:
  assumes "deleteOrg i s = (Inr c, t)"
  shows "t = erased i s \<and> erasable i s"
proof -
  from assms have "deleteOrgSteps i s = (Inr c, t)" by (auto simp: deleteOrg_def split: prod.splits sum.splits)
  then obtain s1 where s1: "deleteOrphanAgent i s = (Inr (), s1)" and free: "List.find (refersTo s1 i) tablesToCheck = None"
    and t: "bind (deleteOrgRow i) (\<lambda>_. ret c) (disownSchemas i (clearOrg i s1)) = (Inr c, t)"
    unfolding deleteOrgSteps_def
    by (auto simp: bind_def andThen_def split: prod.splits sum.splits option.splits)
  have s1: "s1 = s\<lparr>obAgents := filter (\<lambda>a. agOrgId a \<noteq> i) (obAgents s)\<rparr>" by (rule deleteOrphanAgent_ok [OF s1])
  from t obtain r where r: "List.find (\<lambda>r. owId r = i) (obOrgs s) = Some r" "i \<notin> set (obHeld s)" and t: "t = erased i s"
    unfolding s1 erased_def
    by (auto simp: bind_def deleteOrgRow_def disownSchemas_def clearOrg_def Let_def split: option.splits if_splits)
  have "refersTo s1 i = refersTo s i" unfolding s1 by (simp add: refersTo_def fun_eq_iff)
  with free have "\<not> list_ex (refersTo s i) tablesToCheck" by (auto simp: find_None_iff list_ex_iff)
  with r t show ?thesis by (force simp: erasable_def dest: find_SomeD)
qed

lemma deleteOrphanAgent_raises: "deleteOrphanAgent i s = (Inl e, t) \<Longrightarrow> t = s"
  by (auto simp: deleteOrphanAgent_def split: option.splits if_splits)

lemma deleteOrgRow_raises: "deleteOrgRow i s = (Inl e, t) \<Longrightarrow> t = s"
  by (auto simp: deleteOrgRow_def split: option.splits if_splits)

lemma deleteOrg_raises:
  assumes "deleteOrg i s = (Inl e, t)"
  shows "t = s \<or> t = disownSchemas i s"
proof -
  from assms obtain s' where run: "deleteOrgSteps i s = (Inl e, s')" and t: "t = rolledBack s s'"
    by (auto simp: deleteOrg_def split: prod.splits sum.splits)
  from run have "deleteOrphanAgent i s = (Inl e, s') \<or>
      (\<exists>s1. deleteOrphanAgent i s = (Inr (), s1) \<and> (s' = s1 \<or> deleteOrgRow i (disownSchemas i (clearOrg i s1)) = (Inl e, s')))"
    unfolding deleteOrgSteps_def by (auto simp: bind_def andThen_def split: prod.splits sum.splits option.splits)
  then have "s' = s \<or> s' = s\<lparr>obAgents := filter (\<lambda>a. agOrgId a \<noteq> i) (obAgents s)\<rparr> \<or>
      s' = disownSchemas i (clearOrg i (s\<lparr>obAgents := filter (\<lambda>a. agOrgId a \<noteq> i) (obAgents s)\<rparr>))"
    using deleteOrphanAgent_raises deleteOrphanAgent_ok deleteOrgRow_raises by blast
  with t show ?thesis by (auto simp: rolledBack_def disownSchemas_def clearOrg_def Let_def)
qed

definition kcOnly :: "org_db \<Rightarrow> org_db \<Rightarrow> bool" where
  "kcOnly s t \<longleftrightarrow> (\<exists>k. t = s\<lparr>obKeycloak := k\<rparr>)"

interpretation kc: effect_preorder kcOnly
proof
  show "kcOnly s s" for s unfolding kcOnly_def by (intro exI [of _ "obKeycloak s"]) simp
  show "kcOnly s t \<Longrightarrow> kcOnly t u \<Longrightarrow> kcOnly s u" for s t u by (auto simp: kcOnly_def)
qed

text \<open>A computation that moves the state as \<open>kcOnly\<close> allows, before and after one deletion.\<close>

definition deletes :: "string \<Rightarrow> (org_db, 'a) eff \<Rightarrow> bool" where
  "deletes i m \<longleftrightarrow> (\<forall>s x t. m s = (x, t) \<longrightarrow>
     isl x \<and> kcOnly s t \<or> (\<exists>s1 y t1. kcOnly s s1 \<and> deleteOrg i s1 = (y, t1) \<and> kcOnly t1 t \<and> (isl y \<longrightarrow> isl x)))"

lemma deletes_bind:
  assumes "moves kcOnly m" and "\<And>x. deletes i (f x)"
  shows "deletes i (bind m f)"
  unfolding deletes_def
proof (intro allI impI)
  fix s x t
  assume "bind m f s = (x, t)"
  then show "isl x \<and> kcOnly s t \<or> (\<exists>s1 y t1. kcOnly s s1 \<and> deleteOrg i s1 = (y, t1) \<and> kcOnly t1 t \<and> (isl y \<longrightarrow> isl x))"
  proof (cases rule: bind_cases)
    case (raised e)
    with movesD [OF assms(1)] show ?thesis by auto
  next
    case (went_on z s0)
    have "kcOnly s s0" by (rule movesD [OF assms(1) went_on(1)])
    with assms(2) [unfolded deletes_def, rule_format, OF went_on(2)] show ?thesis by (meson kc.R_trans)
  qed
qed

lemma deletes_throw: "deletes i (throw e)"
  by (simp add: deletes_def kc.R_refl)

lemma deletes_last:
  assumes "\<And>c. moves kcOnly (f c)"
  shows "deletes i (bind (deleteOrg i) f)"
  unfolding deletes_def
proof (intro allI impI)
  fix s x t
  assume "bind (deleteOrg i) f s = (x, t)"
  then have "\<exists>y t1. deleteOrg i s = (y, t1) \<and> kcOnly t1 t \<and> (isl y \<longrightarrow> isl x)"
  proof (cases rule: bind_cases)
    case (raised e)
    then show ?thesis using kc.R_refl by fastforce
  next
    case (went_on c s0)
    with movesD [OF assms went_on(2)] show ?thesis by fastforce
  qed
  then show "isl x \<and> kcOnly s t \<or> (\<exists>s1 y t1. kcOnly s s1 \<and> deleteOrg i s1 = (y, t1) \<and> kcOnly t1 t \<and> (isl y \<longrightarrow> isl x))"
    using kc.R_refl by blast
qed

lemma deletes_asRpc: "deletes i m \<Longrightarrow> deletes i (asRpc m)"
  unfolding deletes_def asRpc_def tryCatch_def by (fastforce split: prod.splits sum.splits)

lemma deletes_andThen: "moves kcOnly m \<Longrightarrow> deletes i n \<Longrightarrow> deletes i (andThen m n)"
  unfolding andThen_def by (rule deletes_bind)

lemma deleteOrganization_deletes: "deletes i (deleteOrganization env i userId)"
proof -
  have tell: "moves kcOnly (tellMember env u)" for u
    unfolding tellMember_def orRead_def by (intro kc.moves_rules)
  have roles: "moves kcOnly (deleteUserClientRoles idp u)" for idp u
    unfolding deleteUserClientRoles_def by (intro kc.moves_writes) (auto simp: kcOnly_def)
  have details: "moves kcOnly (getOrganizationDetails i)"
    unfolding getOrganizationDetails_def by (intro kc.moves_rules)
  have cases: "deletes i (case x of None \<Rightarrow> throw e | Some r \<Rightarrow> f r)" if "\<And>r. deletes i (f r)"
    for x :: "org_row option" and e and f :: "org_row \<Rightarrow> (org_db, unit) eff"
    using that deletes_throw by (cases x) simp_all
  have split: "moves kcOnly (case z of (records, table) \<Rightarrow> f records table)" if "\<And>a b. moves kcOnly (f a b)"
    for z :: "nat \<times> string" and f :: "nat \<Rightarrow> string \<Rightarrow> (org_db, unit) eff"
    using that by (cases z) simp
  show ?thesis
    unfolding deleteOrganization_def
    by (intro deletes_asRpc deletes_bind deletes_andThen deletes_last cases kc.moves_reads kc.moves_lift details
        kc.moves_if kc.moves_ret kc.moves_forEach roles tell split)
qed

text \<open>
  C18. \<open>deleteOrganization\<close> is all or nothing but for two tables. Either it raises and at most took the schemas and
  credential definitions from the organisation, or the organisation existed, nothing that must keep it referred to it, and its
  row, its agent without a tenant, its roles, invitations, activities and notifications are gone, with every other row
  unchanged. Success means the latter.
\<close>

theorem deleteOrganization_atomic:
  assumes "deleteOrganization env i userId s = (x, t)"
  shows "isl x \<and> (\<exists>k. t = s\<lparr>obKeycloak := k\<rparr> \<or> t = (disownSchemas i s)\<lparr>obKeycloak := k\<rparr>) \<or>
    erasable i s \<and> (\<exists>k. t = (erased i s)\<lparr>obKeycloak := k\<rparr>)"
proof -
  from deleteOrganization_deletes [unfolded deletes_def, rule_format, OF assms]
  consider "isl x" "kcOnly s t" | s1 y t1 where "kcOnly s s1" "deleteOrg i s1 = (y, t1)" "kcOnly t1 t" "isl y \<longrightarrow> isl x" by blast
  then show ?thesis
  proof cases
    case 1
    then show ?thesis by (auto simp: kcOnly_def)
  next
    case 2
    obtain k k' where k: "s1 = s\<lparr>obKeycloak := k\<rparr>" "t = t1\<lparr>obKeycloak := k'\<rparr>" using 2 by (auto simp: kcOnly_def)
    show ?thesis
    proof (cases y)
      case (Inl e)
      with 2(2) deleteOrg_raises have "t1 = s1 \<or> t1 = disownSchemas i s1" by blast
      with k have "t = s\<lparr>obKeycloak := k'\<rparr> \<or> t = (disownSchemas i s)\<lparr>obKeycloak := k'\<rparr>"
        by (auto simp: disownSchemas_def Let_def)
      with Inl 2(4) show ?thesis by auto
    next
      case (Inr c)
      with deleteOrg_ok 2(2) have gone: "t1 = erased i s1" "erasable i s1" by blast+
      have "erased i (s\<lparr>obKeycloak := k\<rparr>) = (erased i s)\<lparr>obKeycloak := k\<rparr>"
        by (simp add: erased_def)
      moreover have "erasable i (s\<lparr>obKeycloak := k\<rparr>) = erasable i s"
        by (simp add: erasable_def refersTo_def list_ex_iff)
      ultimately show ?thesis using gone k by simp blast
    qed
  qed
qed

section \<open>Roles of a member and the gateway\<close>

lemma deleteOrgRoles_ok:
  "deleteOrgRoles userId orgId s = (Inr n, t) \<Longrightarrow>
   t = s\<lparr>obUserRoles := filter (\<lambda>r. \<not> (uoUserId r = userId \<and> uoOrgId r = Some orgId)) (obUserRoles s)\<rparr>"
  by (auto simp: deleteOrgRoles_def bind_def andThen_def)

lemma updateUserClientRoles_ok:
  assumes "updateUserClientRoles env roleIds idp userId orgId s = (Inr y, t)"
  obtains k jobs where "t = s\<lparr>obUserRoles := filter (\<lambda>r. \<not> (uoUserId r = userId \<and> uoOrgId r = Some orgId)) (obUserRoles s),
      obKeycloak := k, obLate := obLate s @ jobs\<rparr>"
    "set jobs \<subseteq> {LateRole userId r orgId i | r i. r \<in> rlId ` set (getOrgRoles s)}"
proof -
  from assms obtain s1 cs kc n s2 where token: "managementToken env userId s = (Inr (), s1)"
    and del: "promiseAll (deleteUserClientRoles (Some idp) kc) (deleteOrgRoles userId orgId) s1 = (Inr n, s2)"
    and all: "None \<notin> set (clientRolesPayload cs (getOrgRoles s1))"
    and add: "promiseAll (createUserClientRole env idp kc (map snd (map the (clientRolesPayload cs (getOrgRoles s1)))))
        (updateUserOrgRole userId orgId (map (\<lambda>r. (fst r, fst (snd r))) (map the (clientRolesPayload cs (getOrgRoles s1))))) s2 =
      (Inr y, t)"
    unfolding updateUserClientRoles_def Let_def by (auto elim!: bind_okE andThen_okE split: if_splits)
  let ?payload = "clientRolesPayload cs (getOrgRoles s)"
  let ?jobs = "map (\<lambda>(r, i). LateRole userId r orgId (Some i)) (map (\<lambda>r. (fst r, fst (snd r))) (map the ?payload))"
  have s1: "s1 = s" using managementToken_ok [OF token] .
  from del add obtain k where t: "t = s\<lparr>obUserRoles := filter (\<lambda>r. \<not> (uoUserId r = userId \<and> uoOrgId r = Some orgId)) (obUserRoles s),
      obKeycloak := k, obLate := obLate s @ ?jobs\<rparr>"
    unfolding s1
    by (auto simp: createUserClientRole_ok updateUserOrgRole_def deleteUserClientRoles_def elim!: promiseAll_okE
        dest!: deleteOrgRoles_ok)
  have known: "fst z \<in> rlId ` set (getOrgRoles s)" if "Some z \<in> set ?payload" for z
    using that by (auto simp: clientRolesPayload_def eq_commute [of "Some z"] dest!: find_SomeD)
  have "set ?jobs \<subseteq> {LateRole userId r orgId i | r i. r \<in> rlId ` set (getOrgRoles s)}"
  proof
    fix j
    assume "j \<in> set ?jobs"
    then obtain x where x: "x \<in> set ?payload" "j = LateRole userId (fst (the x)) orgId (Some (fst (snd (the x))))" by auto
    with all [unfolded s1] obtain z where "x = Some z" by (cases x) auto
    with x known [of z] show "j \<in> {LateRole userId r orgId i | r i. r \<in> rlId ` set (getOrgRoles s)}" by simp
  qed
  with t show ?thesis by (rule that)
qed

lemma updateUserRoles_ok:
  assumes "updateUserRoles env orgId roleIds userId s = (Inr (), t)"
  obtains r jobs k where "List.find (\<lambda>r. owId r = orgId) (obOrgs s) = Some r"
    "t = s\<lparr>obUserRoles := filter (\<lambda>r. \<not> (uoUserId r = userId \<and> uoOrgId r = Some orgId)) (obUserRoles s),
      obKeycloak := k, obLate := obLate s @ jobs\<rparr>"
    "\<not> truthy (owIdpId r) \<longrightarrow> jobs = map (\<lambda>role. LateRole userId role orgId None) roleIds"
    "truthy (owIdpId r) \<longrightarrow> set jobs \<subseteq> {LateRole userId r orgId i | r i. r \<in> rlId ` set (getOrgRoles s)}"
proof -
  let ?left = "filter (\<lambda>r. \<not> (uoUserId r = userId \<and> uoOrgId r = Some orgId)) (obUserRoles s)"
  from assms obtain r where r: "List.find (\<lambda>r. owId r = orgId) (obOrgs s) = Some r"
    and act: "truthy (owIdpId r) \<and> updateUserClientRoles env roleIds (orEmpty (owIdpId r)) userId (owId r) s = (Inr (), t) \<or>
      \<not> truthy (owIdpId r) \<and>
        t = s\<lparr>obUserRoles := ?left, obLate := obLate s @ map (\<lambda>role. LateRole userId role orgId None) roleIds\<rparr>"
    unfolding updateUserRoles_def
    by (auto simp: getOrganizationDetails_ok elim!: bind_okE andThen_okE split: if_splits option.splits dest!: deleteOrgRoles_ok)
  have "owId r = orgId" using find_SomeD [OF r] by simp
  from act [unfolded this] show ?thesis
  proof
    assume "truthy (owIdpId r) \<and> updateUserClientRoles env roleIds (orEmpty (owIdpId r)) userId orgId s = (Inr (), t)"
    then have truthy: "truthy (owIdpId r)"
      and "updateUserClientRoles env roleIds (orEmpty (owIdpId r)) userId orgId s = (Inr (), t)" by simp_all
    from this(2) obtain k jobs where "t = s\<lparr>obUserRoles := ?left, obKeycloak := k, obLate := obLate s @ jobs\<rparr>"
      "set jobs \<subseteq> {LateRole userId r orgId i | r i. r \<in> rlId ` set (getOrgRoles s)}"
      by (rule updateUserClientRoles_ok)
    with truthy show ?thesis using r by (intro that [of r jobs k]) simp_all
  next
    assume plain: "\<not> truthy (owIdpId r) \<and>
      t = s\<lparr>obUserRoles := ?left, obLate := obLate s @ map (\<lambda>role. LateRole userId role orgId None) roleIds\<rparr>"
    then have "t = s\<lparr>obUserRoles := ?left, obKeycloak := obKeycloak s,
      obLate := obLate s @ map (\<lambda>role. LateRole userId role orgId None) roleIds\<rparr>" by simp
    with plain r show ?thesis by (intro that [of r _ "obKeycloak s"]) simp_all
  qed
qed

text \<open>
  C11. When no insert for the user is under way, a successful \<open>updateUserRoles\<close> gives the platform administrator's role
  exactly when the organisation has no Keycloak client and the request lists the identifier of that role: with a client only
  the roles of \<open>getOrgRoles\<close> are matched, without one the identifiers of the request are stored as they are.
\<close>

theorem platform_admin_by_role_update:
  assumes inv: "org_inv s" and run: "updateUserRoles env orgId roleIds userId s = (Inr (), t)"
    and settled: "list_all (\<lambda>j. case j of LateRole u _ _ _ \<Rightarrow> u \<noteq> userId | LateCleanup _ \<Rightarrow> True) (obLate s)"
    and x: "x \<in> set (obRoles s)" "rlName x = PLATFORM_ADMIN"
  shows "(userId, rlId x, orgId) \<in> set (granted t) \<longleftrightarrow>
    rlId x \<in> set roleIds \<and> (\<exists>r. List.find (\<lambda>r. owId r = orgId) (obOrgs s) = Some r \<and> \<not> truthy (owIdpId r))"
proof -
  from run obtain r jobs k where r: "List.find (\<lambda>r. owId r = orgId) (obOrgs s) = Some r"
    and t: "t = s\<lparr>obUserRoles := filter (\<lambda>r. \<not> (uoUserId r = userId \<and> uoOrgId r = Some orgId)) (obUserRoles s),
      obKeycloak := k, obLate := obLate s @ jobs\<rparr>"
    and plain: "\<not> truthy (owIdpId r) \<longrightarrow> jobs = map (\<lambda>role. LateRole userId role orgId None) roleIds"
    and client: "truthy (owIdpId r) \<longrightarrow> set jobs \<subseteq> {LateRole userId r orgId i | r i. r \<in> rlId ` set (getOrgRoles s)}"
    by (rule updateUserRoles_ok)
  have late: "(userId, role, orgId) \<in> set (granted t) \<longleftrightarrow> (\<exists>i. LateRole userId role orgId i \<in> set jobs)" for role
    using settled unfolding t set_granted by (auto simp: list_all_iff)
  show ?thesis
  proof (cases "truthy (owIdpId r)")
    case False
    with plain r show ?thesis by (auto simp: late)
  next
    case True
    have "rlId x \<notin> rlId ` set (getOrgRoles s)"
    proof
      assume "rlId x \<in> rlId ` set (getOrgRoles s)"
      then obtain z where z: "z \<in> set (obRoles s)" "rlName z \<noteq> PLATFORM_ADMIN" "rlId z = rlId x" by (auto simp: getOrgRoles_def)
      have "distinct (map rlId (obRoles s))" using inv by (simp add: org_inv_def)
      from distinct_map_eqD [OF this z(1) x(1) z(3)] z(2) x(2) show False by simp
    qed
    with client True r show ?thesis by (auto simp: late)
  qed
qed

text \<open>The user holds one of the named roles by a row that refers to a role, in an organisation or in any.\<close>

definition holdsStored :: "org_db \<Rightarrow> string \<Rightarrow> string list \<Rightarrow> string option \<Rightarrow> bool" where
  "holdsStored db userId roles org \<longleftrightarrow>
     list_ex (\<lambda>r. uoUserId r = userId \<and>
         (case org of None \<Rightarrow> True | Some i \<Rightarrow> truthy (uoOrgId r) \<and> trim (orEmpty (uoOrgId r)) = trim i) \<and>
         list_ex (\<lambda>x. rlId x = uoRoleId r \<and> rlName x \<in> set roles) (obRoles db))
       (obUserRoles db)"

lemma userOrgRoles_iff:
  assumes "distinct (map rlId (obRoles db))"
  shows "y \<in> set (userOrgRoles userId db) \<longleftrightarrow>
    (\<exists>r \<in> set (obUserRoles db). \<exists>x \<in> set (obRoles db). uoUserId r = userId \<and> rlId x = uoRoleId r \<and>
       y = \<lparr>uorOrgId = uoOrgId r, uorRole = rlName x\<rparr>)"
proof -
  have found: "List.find (\<lambda>x. rlId x = i) (obRoles db) = Some x \<longleftrightarrow> x \<in> set (obRoles db) \<and> rlId x = i" for i x
  proof
    assume "List.find (\<lambda>x. rlId x = i) (obRoles db) = Some x"
    then show "x \<in> set (obRoles db) \<and> rlId x = i" by (auto dest: find_SomeD)
  next
    assume "x \<in> set (obRoles db) \<and> rlId x = i"
    then show "List.find (\<lambda>x. rlId x = i) (obRoles db) = Some x" using find_distinct [OF assms, of x] by simp
  qed
  have "y \<in> set (userOrgRoles userId db) \<longleftrightarrow> (\<exists>r \<in> set (obUserRoles db). uoUserId r = userId \<and>
      (\<exists>x. List.find (\<lambda>x. rlId x = uoRoleId r) (obRoles db) = Some x \<and> y = \<lparr>uorOrgId = uoOrgId r, uorRole = rlName x\<rparr>))"
    unfolding userOrgRoles_def
    by (simp add: Bex_def conj_assoc eq_commute [of "Some z" "List.find q xs" for z q xs])
  then show ?thesis unfolding found by blast
qed

lemma userOrgRoles_ex:
  assumes "distinct (map rlId (obRoles db))"
  shows "(\<exists>y \<in> set (userOrgRoles userId db). Q (uorOrgId y) (uorRole y)) \<longleftrightarrow>
    list_ex (\<lambda>r. uoUserId r = userId \<and> list_ex (\<lambda>x. rlId x = uoRoleId r \<and> Q (uoOrgId r) (rlName x)) (obRoles db)) (obUserRoles db)"
proof
  assume "\<exists>y \<in> set (userOrgRoles userId db). Q (uorOrgId y) (uorRole y)"
  then obtain y where y: "y \<in> set (userOrgRoles userId db)" "Q (uorOrgId y) (uorRole y)" by blast
  from iffD1 [OF userOrgRoles_iff [OF assms] y(1)] obtain r x where "r \<in> set (obUserRoles db)" "x \<in> set (obRoles db)"
    "uoUserId r = userId" "rlId x = uoRoleId r" "y = \<lparr>uorOrgId = uoOrgId r, uorRole = rlName x\<rparr>" by blast
  with y(2) show "list_ex (\<lambda>r. uoUserId r = userId \<and> list_ex (\<lambda>x. rlId x = uoRoleId r \<and> Q (uoOrgId r) (rlName x)) (obRoles db)) (obUserRoles db)"
    unfolding list_ex_iff by (intro bexI [of _ r] bexI [of _ x] conjI) simp_all
next
  assume "list_ex (\<lambda>r. uoUserId r = userId \<and> list_ex (\<lambda>x. rlId x = uoRoleId r \<and> Q (uoOrgId r) (rlName x)) (obRoles db)) (obUserRoles db)"
  then obtain r x where "r \<in> set (obUserRoles db)" "x \<in> set (obRoles db)" "uoUserId r = userId" "rlId x = uoRoleId r"
    "Q (uoOrgId r) (rlName x)" by (auto simp: list_ex_iff)
  moreover from this have "\<lparr>uorOrgId = uoOrgId r, uorRole = rlName x\<rparr> \<in> set (userOrgRoles userId db)"
    by (intro iffD2 [OF userOrgRoles_iff [OF assms]]) blast
  ultimately show "\<exists>y \<in> set (userOrgRoles userId db). Q (uorOrgId y) (uorRole y)" by (intro bexI) simp_all
qed

text \<open>
  C9. The tables of the organisation service decide at the gateway. For a user token without roles of its own for the
  organisation, \<open>JwtStrategy\<close> reads the user's rows through the user service, and \<open>OrgRolesGuard\<close> passes a request that
  names an organisation exactly when a row of that user gives one of the route's roles there; a request of a route for platform
  administrators that names none passes when any row of the user, in whatever organisation, gives that role.
\<close>

theorem guard_follows_roles:
  assumes inv: "org_inv db" and ext: "jxFindUserinKeycloak ext = findKeycloakUser mappings db"
    and token: "validate ext p = Inr usr" "jpClientId p = None" "jpResourceAccess p = None"
    and req: "rqUser req = Some usr" "\<not> holderUser (Some usr)"
  shows "fst (orgRolesGuard validUuid (Some roles) req) = Inr True \<longleftrightarrow>
    (\<exists>u. List.find (\<lambda>u. auKeycloakUserId u = Some (jpSub p)) (obUsers db) = Some u \<and>
      (if requestOrg req \<noteq> [] then validUuid (requestOrg req) \<and> holdsStored db (auId u) roles (Some (requestOrg req))
       else PLATFORM_ADMIN \<in> set roles \<and> holdsStored db (auId u) [PLATFORM_ADMIN] None))"
proof -
  from token ext obtain u where u: "List.find (\<lambda>u. auKeycloakUserId u = Some (jpSub p)) (obUsers db) = Some u"
    and usr: "guUserOrgRoles usr = Some (userOrgRoles (auId u) db)" "guResourceAccess usr = None"
    by (auto simp: validate_def lookupUser_def findKeycloakUser_def getUserByKeycloakId_def isServiceToken_def
        split: if_splits option.splits sum.splits)
  have dist: "distinct (map rlId (obRoles db))" using inv by (simp add: org_inv_def)
  have named: "holdsRole roles (requestOrg req) usr \<longleftrightarrow> holdsStored db (auId u) roles (Some (requestOrg req))"
    unfolding holdsRole_def resourceRoles_def usr holdsStored_def
    using userOrgRoles_ex [OF dist, of "auId u" "\<lambda>i n. (truthy i \<and> trim (orEmpty i) = trim (requestOrg req)) \<and> n \<in> set roles"]
    by (simp add: sameOrg_def conj_assoc list_ex_iff) blast
  have any: "(\<exists>r \<in> set (userOrgRoles (auId u) db). isPlatformAdminRow r) \<longleftrightarrow> holdsStored db (auId u) [PLATFORM_ADMIN] None"
    unfolding holdsStored_def isPlatformAdminRow_def
    using userOrgRoles_ex [OF dist, of "auId u" "\<lambda>i n. n = PLATFORM_ADMIN"] by simp
  have "\<not> holderUser (rqUser req)" using req by simp
  note guard = orgRolesGuard_run [OF this]
  obtain req1 where run: "fst (orgRolesGuard validUuid (Some roles) req) =
    fst ((if requestOrg req \<noteq> [] then orgMembership validUuid roles (requestOrg req) (rqUser req)
       else if PLATFORM_ADMIN \<in> set roles
       then (case rqUser req of None \<Rightarrow> throw undefinedRead
             | Some u \<Rightarrow> (case guUserOrgRoles u of None \<Rightarrow> throw undefinedRead
                         | Some rows \<Rightarrow> ret (\<exists>r \<in> set rows. isPlatformAdminRow r)))
       else throw (BadRequestException ''Please provide valid orgId'')) req1)"
    using guard by blast
  show ?thesis
    unfolding run req(1) u by (cases "requestOrg req = []") (simp_all add: orgMembership_iff named any usr(1))
qed

text \<open>
  \<open>generateClientApiToken\<close> issues a token only to a caller whose secret is the configured one of a client with the name of
  the alias, for an organisation that exists, and changes no table.
\<close>

theorem api_token_authorised:
  assumes "generateClientApiToken env dto s = (Inr token, t)"
  shows "t = s \<and> gtOrgId dto \<in> set (map owId (obOrgs s)) \<and>
    gnDecrypt env (gnEnvVar env (gtClientAlias dto @ ''_KEYCLOAK_MANAGEMENT_CLIENT_SECRET'')) = Inr (gtClientSecret dto) \<and>
    gtClientSecret dto \<noteq> [] \<and>
    (\<exists>name. gnDecrypt env (gnEnvVar env (gtClientAlias dto @ ''_KEYCLOAK_MANAGEMENT_CLIENT_ID'')) = Inr name \<and>
       toLowerCase name = toLowerCase (gtClientAlias dto))"
proof -
  have login: "t' = s'" if "authenticateClientKeycloak env i secret s' = (r, t')" for i secret s' r t'
    using that by (cases "gnGetToken env i secret") (auto simp: authenticateClientKeycloak_def asRpc_def tryCatch_def)
  from assms obtain r name where "List.find (\<lambda>r. owId r = gtOrgId dto) (obOrgs s) = Some r"
    "gnDecrypt env (gnEnvVar env (gtClientAlias dto @ ''_KEYCLOAK_MANAGEMENT_CLIENT_ID'')) = Inr name"
    "toLowerCase (gtClientAlias dto) = toLowerCase name"
    "gnDecrypt env (gnEnvVar env (gtClientAlias dto @ ''_KEYCLOAK_MANAGEMENT_CLIENT_SECRET'')) = Inr (gtClientSecret dto)"
    "gtClientSecret dto \<noteq> []" "t = s"
    unfolding generateClientApiToken_def Let_def
    by (auto simp: getOrganizationDetails_ok elim!: bind_okE split: if_splits option.splits list.splits dest!: login)
  moreover from this(1) have "gtOrgId dto \<in> set (map owId (obOrgs s))" by (force dest!: find_SomeD)
  ultimately show ?thesis by auto
qed

section \<open>An example run\<close>

text \<open>
  A user registers an organisation and drops its Keycloak client, invites another user, who accepts and is then given the
  platform administrator's role; the organisation's plan allows two users.
\<close>

definition orgEnv :: "string \<Rightarrow> org_env" where
  "orgEnv tag =
     \<lparr>gnUuid = (\<lambda>n. tag @ replicate n CHR ''x''), gnMaxOrgLimit = Some 10, gnSessionsLimit = Some 5,
      gnUpload = (\<lambda>_. Inr ''url''), gnUserByMail = (\<lambda>_. Inr (Some True)), gnUserById = (\<lambda>_. Inr (Some (Some ''k2''))),
      gnUsersByMails = (\<lambda>_. Inr []), gnSendInvite = (\<lambda>_ _. Inr ()), gnSendMail = (\<lambda>_. Inr ()),
      gnDecrypt = (\<lambda>x. case x of Some (CHR ''#'' # s) \<Rightarrow> Inr s | _ \<Rightarrow> Inl (BadRequestException ''Invalid Credentials'')),
      gnGetToken = (\<lambda>_ _. Inr \<lparr>tkAccessToken = Some ''token'', tkExpiresIn = 300\<rparr>),
      gnCreateClient = (\<lambda>_ i. Inr \<lparr>kcIdpId = ''idp'', kcClientId = i, kcClientSecret = ''0123456789''\<rparr>),
      gnCreateClientRole = (\<lambda>_ _. Inr ()), gnClientRole = (\<lambda>_ role. Inr (''c-'' @ role, role)),
      gnClientRoles = (\<lambda>_. Inr [(''c-owner'', ''owner''), (''c-member'', ''member'')]), gnAssignRoles = (\<lambda>_ _ _. Inr ()),
      gnClientSecret = (\<lambda>_. Inr ''0123456789''), gnDeleteClient = (\<lambda>_. Inr ()), gnWebhook = (\<lambda>_ _. Inr ()),
      gnConnection = (\<lambda>_ _ _. Inr None), gnDeletedActivity = (\<lambda>_ _. Inr ()), gnTokenExp = (\<lambda>_. Some 300),
      gnEnvVar = (\<lambda>v. if v = ''ISSUER_KEYCLOAK_MANAGEMENT_CLIENT_ID'' then Some ''#issuer''
        else if v = ''ISSUER_KEYCLOAK_MANAGEMENT_CLIENT_SECRET'' then Some ''#secret'' else None),
      gnAdminToken = (\<lambda>_. Inr (Some ''admin'')), gnClientDetails = (\<lambda>_ _. Inr (Some [''secret'']))\<rparr>"

definition org0 :: org_db where
  "org0 = \<lparr>obOrgs = [], obInvitations = [], obUserRoles = [],
     obRoles = [\<lparr>rlId = ''r1'', rlName = ''owner''\<rparr>, \<lparr>rlId = ''r2'', rlName = ''member''\<rparr>, \<lparr>rlId = ''r3'', rlName = ''platform_admin''\<rparr>],
     obUsers = [\<lparr>auId = ''u1'', auEmail = Some ''u1@x.io'', auKeycloakUserId = Some ''k1'', auClientId = Some ''#c'', auClientSecret = Some ''#s''\<rparr>,
       \<lparr>auId = ''u2'', auEmail = Some ''u2@x.io'', auKeycloakUserId = Some ''k2'', auClientId = Some ''#c'', auClientSecret = Some ''#s''\<rparr>],
     obSubscriptions = [(blankSubscription ''s'' 0)\<lparr>subOfferId := ''of'', subPlanId := ''pl'', subLocalUserId := Some ''u1'', subOrgId := Some ''a''\<rparr>],
     obPlans = [\<lparr>plOfferId = ''of'', plPlanId = ''pl'', plIncludedIssuance = 0, plIncludedVerification = 0, plIncludedSchemas = 0,
       plMaxOrganizations = Some 1, plMaxUsers = Some 2, plFeatures = None\<rparr>],
     obActivities = [], obNotifications = [], obSchemas = [(''sc'', Some ''a'')], obCredDefs = [], obAgents = [],
     obAgentInvitations = [], obReferences = [], obHeld = [], obAccounts = [], obSessions = [], obLate = [], obKeycloak = []\<rparr>"

definition acme :: CreateOrganizationDto where
  "acme = \<lparr>coName = ''Acme'', coDescription = None, coLogo = None, coWebsite = None, coNotificationWebhook = None\<rparr>"

definition orgCall :: "nat \<Rightarrow> org_env \<times> org_call" where
  "orgCall n =
     [(orgEnv ''a'', CreateOrganization acme ''u1'' (Some ''k1'')),
      (orgEnv ''b'', DeleteClientCredentials ''a'' ''u1''),
      (orgEnv ''c'', CreateInvitation [(''u2@x.io'', [''r2''])] ''a'' ''u1'' ''u1@x.io''),
      (orgEnv ''d'', UpdateOrgInvitation \<lparr>uiOrgId = ''a'', uiStatus = InvAccepted, uiInvitationId = ''c'', uiUserId = ''u2'',
         uiKeycloakUserId = Some ''k2'', uiEmail = ''u2@x.io''\<rparr>),
      (orgEnv ''e'', UpdateUserRoles ''a'' [''r3''] ''u2'')] ! n"

text \<open>The state after the first calls.\<close>

primrec orgState :: "nat \<Rightarrow> org_db" where
  "orgState 0 = org0"
| "orgState (Suc n) = (case orgCall n of (env, c) \<Rightarrow> snd (org_run env c (orgState n)))"

primrec orgEvents :: "nat \<Rightarrow> org_event list" where
  "orgEvents 0 = []"
| "orgEvents (Suc n) = (case orgCall n of (env, c) \<Rightarrow> (orgState n, env, c) # orgEvents n)"

lemma org_run_pair: "org_run env c s = (fst (org_run env c s), snd (org_run env c s))"
  by simp

lemma orgState_trace: "org_trace (orgEvents n) (orgState n)"
proof (induction n)
  case 0
  show ?case by (simp add: org_trace.start org_start_def org0_def)
next
  case (Suc n)
  obtain env c where "orgCall n = (env, c)" by (cases "orgCall n")
  with org_trace.called [OF Suc org_run_pair] show ?case by simp
qed

lemma orgState_inv: "org_inv (orgState n)"
  by (rule trace_inv [OF orgState_trace])

text \<open>The insert of the new role has run.\<close>

definition orgLate :: org_db where
  "orgLate = late_run ''f'' 0 (LateRole ''u2'' ''r3'' ''a'' None) ((orgState 5)\<lparr>obLate := []\<rparr>)"

section \<open>Witnesses\<close>


theorem membership_traceback_witness:
  "(''u2'', ''r3'', ''a'') \<in> set (granted (orgState 5)) \<and>
   list_ex (\<lambda>(s, env, c). entitled s env c ''u2'' ''r3'' ''a'') (orgEvents 5)"
proof -
  have "(''u2'', ''r3'', ''a'') \<in> set (granted (orgState 5))" by code_simp
  with membership_traceback [OF orgState_trace this] show ?thesis by blast
qed

theorem invitation_answered_once_witness:
  "\<exists>v w. v \<in> set (obInvitations (orgState 3)) \<and> w \<in> set (obInvitations (orgState 4)) \<and>
     vtStatus v = InvPending \<and> w = v\<lparr>vtStatus := InvAccepted\<rparr>"
proof -
  have "map vtStatus (obInvitations (orgState 3)) = [InvPending]" "map vtStatus (obInvitations (orgState 4)) = [InvAccepted]"
    "map vtId (obInvitations (orgState 3)) = map vtId (obInvitations (orgState 4))" by code_simp+
  then obtain v w where vw: "obInvitations (orgState 3) = [v]" "obInvitations (orgState 4) = [w]" "vtStatus v = InvPending"
    "vtStatus w = InvAccepted" "vtId w = vtId v" by (auto simp: map_eq_Cons_conv)
  have "org_step (orgState 3) (orgState 4)"
    using org_step.call [OF org_run_pair] by (simp add: numeral_eq_Suc split: prod.split)
  from invitation_answered_once [OF trace_reachable [OF orgState_trace] this, of v w] vw show ?thesis by auto
qed

lemma returns_pair: "\<not> isl (fst x) \<Longrightarrow> x = (Inr (projr (fst x)), snd x)"
  by (metis prod.collapse sum.collapse(2))

theorem created_organization_witness:
  "\<not> isl (fst (createOrganization (orgEnv ''a'') acme ''u1'' (Some ''k1'') org0)) \<and>
   userOrganizationCount ''u1'' (snd (createOrganization (orgEnv ''a'') acme ''u1'' (Some ''k1'') org0)) =
     Suc (userOrganizationCount ''u1'' org0)"
proof -
  have ok: "\<not> isl (fst (createOrganization (orgEnv ''a'') acme ''u1'' (Some ''k1'') org0))" by code_simp
  have "gnUuid (orgEnv ''a'') 0 \<noteq> []" by code_simp
  from created_organization [OF returns_pair [OF ok] this] ok show ?thesis by blast
qed

theorem invitations_within_plan_witness:
  "getMarketplaceMaxUsers ''a'' (orgState 2) = Some 2 \<and>
   int (getOrganizationUserCount ''a'' (orgState 3) + getPendingOrganizationInvitationCount ''a'' (orgState 3)) \<le>
     max 2 (int (getOrganizationUserCount ''a'' (orgState 2) + getPendingOrganizationInvitationCount ''a'' (orgState 2)))"
proof -
  have "getMarketplaceMaxUsers ''a'' (orgState 2) = Some 2" by code_simp
  moreover have "fst (createInvitation (orgEnv ''c'') [(''u2@x.io'', [''r2''])] ''a'' ''u1'' ''u1@x.io'' (orgState 2)) = Inr ()"
    by code_simp
  then have "createInvitation (orgEnv ''c'') [(''u2@x.io'', [''r2''])] ''a'' ''u1'' ''u1@x.io'' (orgState 2) = (Inr (), orgState 3)"
    by (simp add: numeral_eq_Suc orgCall_def prod_eq_iff)
  moreover have "list_all (\<lambda>i. normalEmail (fst i)) [(''u2@x.io'', [''r2''])]" "normalEmail ''u1@x.io''" by code_simp+
  ultimately show ?thesis using invitations_within_plan [of "orgEnv ''c''" "[(''u2@x.io'', [''r2''])]" "''a''" "''u1''" "''u1@x.io''"
      "orgState 2" "orgState 3" 2] by simp
qed

theorem acceptance_within_plan_witness:
  "\<exists>v \<in> set (obInvitations (orgState 3)). vtEmail v = Some ''u2@x.io'' \<and>
     int (getOrganizationUserCount ''a'' (orgState 4)) \<le> max 2 (int (getOrganizationUserCount ''a'' (orgState 3)))"
proof -
  let ?p = "\<lparr>uiOrgId = ''a'', uiStatus = InvAccepted, uiInvitationId = ''c'', uiUserId = ''u2'',
    uiKeycloakUserId = Some ''k2'', uiEmail = ''u2@x.io''\<rparr>"
  have "fst (updateOrgInvitation (orgEnv ''d'') ?p (orgState 3)) = Inr ()" by code_simp
  then have "updateOrgInvitation (orgEnv ''d'') ?p (orgState 3) = (Inr (), orgState 4)"
    by (simp add: numeral_eq_Suc orgCall_def prod_eq_iff)
  moreover have "getMarketplaceMaxUsers ''a'' (orgState 3) = Some 2" by code_simp
  ultimately show ?thesis using acceptance_within_plan [of "orgEnv ''d''" ?p "orgState 3" "orgState 4"] by (auto simp: answers_def)
qed

theorem deleteOrganization_atomic_witness:
  "obUserRoles (snd (deleteOrganization (orgEnv ''g'') ''a'' ''u1'' (orgState 5))) = [] \<and> erasable ''a'' (orgState 5)"
proof -
  let ?run = "deleteOrganization (orgEnv ''g'') ''a'' ''u1'' (orgState 5)"
  have "\<not> isl (fst ?run)" "obUserRoles (snd ?run) = []" by code_simp+
  with deleteOrganization_atomic [of "orgEnv ''g''" "''a''" "''u1''" "orgState 5" "fst ?run" "snd ?run"] show ?thesis by auto
qed

theorem platform_admin_by_role_update_witness:
  "(''u2'', ''r3'', ''a'') \<in> set (granted (orgState 5))"
proof -
  have run: "fst (updateUserRoles (orgEnv ''e'') ''a'' [''r3''] ''u2'' (orgState 4)) = Inr ()" by code_simp
  then have run: "updateUserRoles (orgEnv ''e'') ''a'' [''r3''] ''u2'' (orgState 4) = (Inr (), orgState 5)"
    by (simp add: numeral_eq_Suc orgCall_def prod_eq_iff)
  have settled: "list_all (\<lambda>j. case j of LateRole u _ _ _ \<Rightarrow> u \<noteq> ''u2'' | LateCleanup _ \<Rightarrow> True) (obLate (orgState 4))"
    by code_simp
  have role: "\<lparr>rlId = ''r3'', rlName = ''platform_admin''\<rparr> \<in> set (obRoles (orgState 4))" by code_simp
  have "map_option (\<lambda>r. truthy (owIdpId r)) (List.find (\<lambda>r. owId r = ''a'') (obOrgs (orgState 4))) = Some False" by code_simp
  then have "\<exists>r. List.find (\<lambda>r. owId r = ''a'') (obOrgs (orgState 4)) = Some r \<and> \<not> truthy (owIdpId r)" by auto
  with platform_admin_by_role_update [OF orgState_inv run settled role] show ?thesis by (simp add: PLATFORM_ADMIN_def)
qed

theorem guard_follows_roles_witness:
  "\<exists>usr. validate \<lparr>jxCheckSession = (\<lambda>_. Inr True), jxFindOrganizationOwner = (\<lambda>_. Inr None),
       jxFindUserinKeycloak = findKeycloakUser (\<lambda>_. []) orgLate\<rparr>
     \<lparr>jpSub = ''k2'', jpSid = None, jpClientId = None, jpEmail = None, jpUserRole = None, jpRealmRoles = None,
       jpResourceAccess = None, jpEcosystemAccess = None\<rparr> = Inr usr \<and>
     fst (orgRolesGuard (\<lambda>_. True) (Some [''platform_admin''])
       \<lparr>rqParamsOrgId = None, rqParamsOrganizationId = None, rqQueryOrgId = None, rqBody = None, rqUser = Some usr\<rparr>) = Inr True"
proof -
  let ?ext = "\<lparr>jxCheckSession = (\<lambda>_. Inr True), jxFindOrganizationOwner = (\<lambda>_. Inr None),
       jxFindUserinKeycloak = findKeycloakUser (\<lambda>_. []) orgLate\<rparr>"
  let ?p = "\<lparr>jpSub = ''k2'', jpSid = None, jpClientId = None, jpEmail = None, jpUserRole = None, jpRealmRoles = None,
       jpResourceAccess = None, jpEcosystemAccess = None\<rparr>"
  have ok: "\<not> isl (validate ?ext ?p)" "guUserRole (projr (validate ?ext ?p)) = None" by code_simp+
  then obtain usr where usr: "validate ?ext ?p = Inr usr" "guUserRole usr = None" by (cases "validate ?ext ?p") auto
  let ?req = "\<lparr>rqParamsOrgId = None, rqParamsOrganizationId = None, rqQueryOrgId = None, rqBody = None, rqUser = Some usr\<rparr>"
  have inv: "org_inv orgLate"
    unfolding orgLate_def by (intro late_run_inv) (use orgState_inv [of 5] in \<open>simp add: org_inv_def references_ok_def\<close>)
  have org: "requestOrg ?req = []" by (simp add: requestOrg_def orElse_def trim_def)
  have "map_option auId (List.find (\<lambda>u. auKeycloakUserId u = Some ''k2'') (obUsers orgLate)) = Some ''u2''"
    "holdsStored orgLate ''u2'' [PLATFORM_ADMIN] None" by code_simp+
  then have "\<exists>u. List.find (\<lambda>u. auKeycloakUserId u = Some ''k2'') (obUsers orgLate) = Some u \<and>
      holdsStored orgLate (auId u) [PLATFORM_ADMIN] None" by auto
  then have "fst (orgRolesGuard (\<lambda>_. True) (Some [''platform_admin'']) ?req) = Inr True"
    using guard_follows_roles [OF inv _ usr(1), of "\<lambda>_. []" ?req "\<lambda>_. True" "[''platform_admin'']"] org usr(2)
    by (simp add: holderUser_def PLATFORM_ADMIN_def truthy_def)
  with usr show ?thesis by blast
qed

theorem api_token_authorised_witness:
  "fst (generateClientApiToken (orgEnv ''h'') \<lparr>gtOrgId = ''a'', gtClientId = [], gtClientAlias = ''ISSUER'', gtClientSecret = ''secret''\<rparr>
     (orgState 1)) = Inr (Some ''token'') \<and> ''a'' \<in> set (map owId (obOrgs (orgState 1)))"
proof -
  let ?run = "generateClientApiToken (orgEnv ''h'') \<lparr>gtOrgId = ''a'', gtClientId = [], gtClientAlias = ''ISSUER'', gtClientSecret = ''secret''\<rparr>
     (orgState 1)"
  have "fst ?run = Inr (Some ''token'')" by code_simp
  then have "?run = (Inr (Some ''token''), snd ?run)" by (simp add: prod_eq_iff)
  from api_token_authorised [OF this] \<open>fst ?run = _\<close> show ?thesis by simp
qed

end
