(* ===== verification/Spec2Isabelle.thy ===== *)
theory Spec2Isabelle
  imports Platform_Prelude Status_List Issuance_Deadline Admission_Queue Work_Coordinator
    Response_Code Marketplace_Store Marketplace_Client Marketplace_Usage
    Marketplace_Service Marketplace_Safety Guards
    Ecosystem_Store Ecosystem_Service Ecosystem_Invariant Ecosystem_Safety
    Agent_Store Agent_Service Agent_Invariant Agent_Safety Organization_Store Organization_Service Organization_Invariant Organization_Safety
begin

text \<open>
  \<^bold>\<open>A verification library for the NGOTag platform.\<close>

  The platform is a set of NestJS micro-services behind an API gateway. Requests reach the gateway
  (\<open>apps/api-gateway\<close>), whose guards decide who may call what; the gateway sends a message over NATS to the
  service concerned, which works on a shared PostgreSQL database through Prisma, on Redis, and on other
  services (wallet agents, Keycloak, Microsoft's SaaS fulfilment API). This library models the services that
  carry decisions of their own, and leaves out those that only pass a request on.

  \<^bold>\<open>How code becomes a definition.\<close>

  \<^item> A table is a list of records with the columns of \<open>libs/prisma-service/prisma/schema.prisma\<close>; the unique
    indexes and foreign keys the code relies on are written out where a row is inserted, and a violation is
    the error Prisma reports (\<open>P2002\<close>, \<open>P2003\<close>, \<open>P2025\<close>). A Redis database is a map from keys to values with
    their expiry times.
  \<^item> An exception is a value of \<open>error\<close> (\<open>Platform_Prelude\<close>). A handler takes the state and returns the result
    together with the state, so that what was written before an exception is there after it. A
    \<open>$transaction\<close> returns the state it began with when it raises.
  \<^item> The clock, random draws, UUIDs and what other systems answer are arguments (records whose names end in
    \<open>env\<close> or \<open>ext\<close>); nothing is assumed of them but what the statement of a theorem says.
  \<^item> Messages of \<open>ResponseMessages\<close> are named by their keys. Log lines, mails and the shape of success messages
    are left out; the JSON text stored in a usage event's message column is abbreviated to \<open>result\<close>.
  \<^item> A loop over a list is recursion on that list. \<open>batches\<close> (\<open>Marketplace_Usage\<close>) takes its fuel from the
    length of the list, which is enough because each round removes at least one element; \<open>releasePermit\<close> makes at
    most three attempts; the random search of the bitmap allocator is the bounded loop of the code followed
    by its linear scan, so every definition of the library is total.
  \<^item> Where calls interleave inside one process or across workers (\<open>Admission_Queue\<close>, \<open>Work_Coordinator\<close>,
    \<open>Response_Code\<close>), a step of the step relation is one synchronous section or one Redis script. In the other
    services a step is one whole handler call.

  \<^bold>\<open>The theories.\<close>

  \<^item> \<open>Platform_Prelude\<close>: errors, results, tables, strings and numbers as JavaScript has them; the locales
    \<open>effect_preorder\<close> (what a sequence of writes keeps) and \<open>invariant_system\<close> (reachable states of a step
    relation).
  \<^item> \<open>Status_List\<close> models \<open>apps/oid4vc-issuance/src/status-list-allocator.service.ts\<close>: the bitmap allocator
    (\<open>allocator\<close>, \<open>allocate\<close>, \<open>release\<close>, \<open>export\<close>) and the service over its two tables (\<open>sl_db\<close>, \<open>allocateStatus\<close>,
    \<open>releaseStatus\<close>). The locale \<open>index_allocator\<close> is the contract between the two. Indexes are handed out at
    most once, every free index can be had, a release undoes an allocation, and two transactions that
    overlap can collide.
  \<^item> \<open>Issuance_Deadline\<close> models \<open>libs/context/src/issuanceDeadline.ts\<close> and the header that \<open>NATSClient\<close> sends:
    a deadline survives the hop and is never extended.
  \<^item> \<open>Admission_Queue\<close> models \<open>apps/issuance/src/issuance-admission.queue.ts\<close>: capacity, length of the queue and
    first-come order for any number of interleaved calls.
  \<^item> \<open>Work_Coordinator\<close> models \<open>apps/issuance/src/issuance-work.coordinator.ts\<close>: its Lua scripts, the permits of
    workers that may crash or lose a reply, the row locks of bulk issuance and the completion count of a batch.
  \<^item> \<open>Response_Code\<close> models \<open>apps/verification/src/response-code\<close> and the handlers of
    \<open>verification.service.ts\<close> that use it: the redirect allow list, the sessions in Redis and their
    terminal script, out-of-band requests and the proof webhook.
  \<^item> \<open>Marketplace_Store\<close>, \<open>Marketplace_Client\<close>, \<open>Marketplace_Usage\<close> and \<open>Marketplace_Service\<close> model
    \<open>apps/marketplace\<close>: the repository; the client of Microsoft's API and its token; metering and
    entitlements; onboarding, linking, activation, the webhook and the reconciliation job. \<open>Marketplace_Safety\<close>
    states the interface \<open>table_frame\<close> and its extension \<open>service_frame\<close>, proves once for every relation with
    these laws that the handlers respect it, and interprets them for the invariant of the tables, for the
    columns only certain calls may change, and for the billing ledger.
  \<^item> \<open>Guards\<close> models the gateway's \<open>authz\<close> directory and its Marketplace guards: the user a token stands for and
    exactly which requests each guard lets through.
  \<^item> \<open>Ecosystem_Store\<close> and \<open>Ecosystem_Service\<close> model \<open>apps/ecosystem\<close> (repository and handlers) with the
    \<open>ecosystem_access\<close> attribute that \<open>libs/client-registration\<close> keeps in Keycloak. \<open>Ecosystem_Invariant\<close> shows that
    every handler keeps the tables consistent. \<open>Ecosystem_Safety\<close> shows who becomes a member and who changes
    notices, and, together with \<open>Guards\<close>, what a removed member can still do.
  \<^item> \<open>Agent_Store\<close> and \<open>Agent_Service\<close> model the wallets and DIDs of organisations: the handlers of \<open>apps/agent-service\<close>
    that change the tables (\<open>walletProvision\<close> and the spin-up it starts, \<open>createTenant\<close>, \<open>agentConfigure\<close>, \<open>createDid\<close>,
    \<open>setDedicatedAgentToken\<close>, \<open>deleteWallet\<close>), the invitation \<open>apps/connection\<close> stores for them and \<open>setPrimaryDid\<close> of
    \<open>apps/organization\<close>. \<open>Agent_Invariant\<close> shows that every call, a spin-up that ends later and a token written
    late keep the tables consistent. \<open>Agent_Safety\<close> shows that \<open>setPrimaryDid\<close> refines an update of the map from
    organisations to primary DIDs, that a repeated \<open>createDid\<close> changes nothing, which tokens are stored, and what
    a failed deletion leaves.
  \<^item> \<open>Organization_Store\<close> and \<open>Organization_Service\<close> model \<open>apps/organization\<close> with \<open>libs/org-roles\<close>,
    \<open>libs/user-org-roles\<close>, the clients and roles that \<open>libs/client-registration\<close> keeps in Keycloak and the session
    queries of \<open>apps/user\<close>: registering, updating and deleting organisations, their Keycloak clients, invitations, the roles
    of members, logins and tokens of clients. Inserts that the code does not wait for are kept in \<open>obLate\<close> and run as
    steps of their own, in any order. \<open>Organization_Invariant\<close> states the interface \<open>org_frame\<close> between repository and
    handlers, shows once that every handler respects it, and interprets it on the invariant of the tables.
    \<open>Organization_Safety\<close> interprets it on bounds for what a call may add, and shows where every membership and every change of an
    invitation comes from, that limits hold, what a deletion leaves, and, together with \<open>Guards\<close>, which
    requests the stored roles open.

  \<^bold>\<open>How the parts meet.\<close> \<open>Guards\<close> uses the entitlements of \<open>Marketplace_Usage\<close>, and \<open>Ecosystem_Safety\<close> runs the guard of
  \<open>Guards\<close> on the attribute a handler of \<open>Ecosystem_Service\<close> leaves, as \<open>Organization_Safety\<close> does on the roles of
  \<open>user_org_roles\<close>; the limits of the organisation service are those of the plans of \<open>Marketplace_Store\<close>; \<open>Issuance_Deadline\<close> carries the deadline that
  \<open>Admission_Queue\<close> and \<open>Work_Coordinator\<close> compare with the clock; the metering job and the entitlements of
  \<open>Marketplace_Usage\<close> are two computations of the same overage, which are shown to agree; the organisation, agent and
  connection services share the tables of \<open>Agent_Store\<close>, and \<open>agent_step\<close> lets their calls follow in any order.

  \<^bold>\<open>Not modelled.\<close> Of the issuance service everything but admission, the work coordinator and the deadline; of the user
  service everything but the lookup of the user behind a token and its sessions; the cloud wallet, ledger, X.509,
  OID4VC (but for the status lists), webhook, notification, utility, geo-location and agent-provisioning services. Of
  the agent, connection and verification services the handlers that build a request and hand it to a wallet agent.
  Controllers, DTO classes and Swagger declarations of the gateway. The lists, counts and dashboards of the modelled
  services, which only read. Two handlers of one service that overlap inside the database, except where a theorem
  speaks of it.
\<close>
end
